(* ===== verification/Prelude.thy ===== *)
theory Prelude
  imports Main "HOL-Library.AList" "HOL-Library.Char_ord" "HOL-Library.List_Lexorder"
    "HOL-Library.Product_Lexorder" "HOL-Library.Word"
begin

section \<open>Shared vocabulary of the development\<close>

text \<open>
  The values the JavaScript sources compute with, and the generic lemmas the component
  theories share.

  \<^item> \<open>jsv\<close> is an untyped JavaScript value: what crosses a trust boundary (an HTTP body, a
    persisted JSON row, an attestation service's answer) and is inspected with \<open>typeof\<close>,
    \<open>===\<close>, \<open>in\<close> and property reads. A \<open>JNum\<close> is an integral number; a \<open>JFloat\<close> is
    any other JSON number, carried by its decimal rendering.
  \<^item> \<open>'a res\<close> style results are sums: \<open>Inl\<close> carries the error code of a thrown error.
  \<^item> Strings are \<^typ>\<open>string\<close>; every string the sources test is ASCII (hex, decimals, codes).
  \<^item> A JavaScript object used as a dictionary is an association list with \<open>AList.update\<close>,
    which like \<open>rows[k] = v\<close> keeps the position of an existing key and appends a new one.
\<close>

subsection \<open>JavaScript values\<close>

datatype jsv =
    JUndef
  | JNull
  | JBool bool
  | JNum int
  | JFloat string
  | JStr string
  | JArr "jsv list"
  | JObj "(string \<times> jsv) list"

text \<open>\<open>v.k\<close>, with \<open>undefined\<close> for a property that is not there.\<close>

fun js_get :: "jsv \<Rightarrow> string \<Rightarrow> jsv" where
  "js_get (JObj kvs) k = (case map_of kvs k of Some v \<Rightarrow> v | None \<Rightarrow> JUndef)"
| "js_get _ k = JUndef"

text \<open>\<open>Object.prototype.hasOwnProperty.call(v, k)\<close> on an object.\<close>

fun js_has_own :: "jsv \<Rightarrow> string \<Rightarrow> bool" where
  "js_has_own (JObj kvs) k = (map_of kvs k \<noteq> None)"
| "js_has_own _ k = False"

text \<open>\<open>Object.keys(v)\<close>; an object has each key once.\<close>

fun js_keys :: "jsv \<Rightarrow> string list" where
  "js_keys (JObj kvs) = remdups (map fst kvs)"
| "js_keys _ = []"

text \<open>\<open>Boolean(v)\<close>.\<close>

fun js_truthy :: "jsv \<Rightarrow> bool" where
  "js_truthy JUndef = False"
| "js_truthy JNull = False"
| "js_truthy (JBool b) = b"
| "js_truthy (JNum n) = (n \<noteq> 0)"
| "js_truthy (JFloat t) = True"
| "js_truthy (JStr s) = (s \<noteq> [])"
| "js_truthy (JArr xs) = True"
| "js_truthy (JObj kvs) = True"

fun js_is_obj :: "jsv \<Rightarrow> bool" where
  "js_is_obj (JObj kvs) = True"
| "js_is_obj _ = False"

fun js_is_str :: "jsv \<Rightarrow> bool" where
  "js_is_str (JStr s) = True"
| "js_is_str _ = False"

text \<open>\<open>Number.isSafeInteger\<close>: at most \<open>2^53 - 1\<close> in absolute value.\<close>

definition safe_int :: "int \<Rightarrow> bool" where
  "safe_int n \<longleftrightarrow> \<bar>n\<bar> \<le> 9007199254740991"

fun js_safe_int :: "jsv \<Rightarrow> bool" where
  "js_safe_int (JNum n) = safe_int n"
| "js_safe_int _ = False"

text \<open>A nullable string or number field of a stored row, as the JSON value it is written as.\<close>

definition js_opt_str :: "string option \<Rightarrow> jsv" where
  "js_opt_str o1 = (case o1 of None \<Rightarrow> JNull | Some s \<Rightarrow> JStr s)"

definition js_opt_num :: "int option \<Rightarrow> jsv" where
  "js_opt_num o1 = (case o1 of None \<Rightarrow> JNull | Some n \<Rightarrow> JNum n)"

lemma js_opt_str_eq_iff [simp]:
  "js_opt_str None = JNull" "js_opt_str (Some s) = JStr s"
  "js_opt_str o1 = JNull \<longleftrightarrow> o1 = None" "js_opt_str o1 = JStr t \<longleftrightarrow> o1 = Some t"
  "JStr t = js_opt_str o1 \<longleftrightarrow> o1 = Some t"
  "js_opt_str o1 = js_opt_str o2 \<longleftrightarrow> o1 = o2"
  "js_opt_str o1 \<noteq> JUndef" "js_is_str (js_opt_str o1) \<longleftrightarrow> o1 \<noteq> None"
  by (auto simp: js_opt_str_def split: option.splits)

lemma js_opt_num_eq_iff [simp]:
  "js_opt_num None = JNull" "js_opt_num (Some n) = JNum n"
  "js_opt_num o1 = JNull \<longleftrightarrow> o1 = None" "js_opt_num o1 = JNum t \<longleftrightarrow> o1 = Some t"
  by (auto simp: js_opt_num_def split: option.splits)

subsection \<open>Decimal rendering\<close>

definition digit_char :: "nat \<Rightarrow> char" where
  "digit_char d = ''0123456789'' ! d"

fun show_nat :: "nat \<Rightarrow> string" where
  "show_nat n = (if n < 10 then [digit_char n] else show_nat (n div 10) @ [digit_char (n mod 10)])"

declare show_nat.simps [simp del]

definition show_int :: "int \<Rightarrow> string" where
  "show_int n = (if n < 0 then ''-'' @ show_nat (nat (- n)) else show_nat (nat n))"

text \<open>The value of a string of decimal digits, as \<open>BigInt(s)\<close> reads it.\<close>

definition digit_val :: "char \<Rightarrow> nat" where
  "digit_val c = length (takeWhile (\<lambda>d. d \<noteq> c) ''0123456789'')"

definition dec_val :: "string \<Rightarrow> nat" where
  "dec_val s = foldl (\<lambda>acc c. 10 * acc + digit_val c) 0 s"

definition is_digit :: "char \<Rightarrow> bool" where
  "is_digit c \<longleftrightarrow> c \<in> set ''0123456789''"

text \<open>\<open>String(v)\<close>, the key a computed property read \<open>o[v]\<close> uses.\<close>

fun join_comma :: "string list \<Rightarrow> string" where
  "join_comma [] = []"
| "join_comma [x] = x"
| "join_comma (x # xs) = x @ '','' @ join_comma xs"

fun js_to_key :: "jsv \<Rightarrow> string" where
  "js_to_key JUndef = ''undefined''"
| "js_to_key JNull = ''null''"
| "js_to_key (JBool b) = (if b then ''true'' else ''false'')"
| "js_to_key (JNum n) = show_int n"
| "js_to_key (JFloat t) = t"
| "js_to_key (JStr s) = s"
| "js_to_key (JArr xs) =
     join_comma (map (\<lambda>x. if x = JNull \<or> x = JUndef then [] else js_to_key x) xs)"
| "js_to_key (JObj kvs) = ''[object Object]''"

subsection \<open>Serialisation with \<open>JSON.stringify\<close>\<close>

definition json_escape :: "char \<Rightarrow> string" where
  "json_escape c =
     (let n = (of_char c :: nat); esc = CHR 0x5C; q = CHR 0x22 in
      if c = q then [esc, q]
      else if c = esc then [esc, esc]
      else if n = 8 then [esc, CHR ''b'']
      else if n = 9 then [esc, CHR ''t'']
      else if n = 10 then [esc, CHR ''n'']
      else if n = 12 then [esc, CHR ''f'']
      else if n = 13 then [esc, CHR ''r'']
      else if n < 32 then [esc] @ ''u00'' @ [''0123456789abcdef'' ! (n div 16), ''0123456789abcdef'' ! (n mod 16)]
      else [c])"

definition json_quote :: "string \<Rightarrow> string" where
  "json_quote s = [CHR 0x22] @ concat (map json_escape s) @ [CHR 0x22]"

text \<open>\<open>None\<close> is the result \<open>undefined\<close>: an object drops such a property, an array writes \<open>null\<close>.\<close>

fun json :: "jsv \<Rightarrow> string option" where
  "json JUndef = None"
| "json JNull = Some ''null''"
| "json (JBool b) = Some (if b then ''true'' else ''false'')"
| "json (JNum n) = Some (show_int n)"
| "json (JFloat t) = Some t"
| "json (JStr s) = Some (json_quote s)"
| "json (JArr xs) =
     Some (''['' @ join_comma (map (\<lambda>x. case json x of None \<Rightarrow> ''null'' | Some t \<Rightarrow> t) xs) @ '']'')"
| "json (JObj kvs) =
     Some (''{'' @ join_comma (concat (map (\<lambda>kv. case json (snd kv) of
         None \<Rightarrow> [] | Some t \<Rightarrow> [json_quote (fst kv) @ '':'' @ t]) kvs)) @ ''}'')"

definition json_text :: "jsv \<Rightarrow> string" where
  "json_text v = (case json v of None \<Rightarrow> ''undefined'' | Some t \<Rightarrow> t)"

text \<open>
  A stored text as the code sees it through \<open>JSON.parse\<close>: not JSON, the text \<open>JSON.stringify\<close>
  gives of a value, or another text of a value. Parsing inverts \<open>JSON.stringify\<close> on JSON values.
\<close>

datatype raw = Unparsable | Stringified jsv | OtherText jsv

fun json_parse :: "raw \<Rightarrow> jsv option" where
  "json_parse Unparsable = None"
| "json_parse (Stringified v) = Some v"
| "json_parse (OtherText v) = Some v"

subsection \<open>Hex strings\<close>

definition is_lhex :: "char \<Rightarrow> bool" where
  "is_lhex c \<longleftrightarrow> c \<in> set ''0123456789abcdef''"

definition is_hex :: "char \<Rightarrow> bool" where
  "is_hex c \<longleftrightarrow> c \<in> set ''0123456789abcdefABCDEF''"

text \<open>\<open>toLowerCase\<close> on ASCII.\<close>

definition lower_char :: "char \<Rightarrow> char" where
  "lower_char c = (let n = (of_char c :: nat) in if 65 \<le> n \<and> n \<le> 90 then char_of (n + 32) else c)"

definition toLowerCase :: "string \<Rightarrow> string" where
  "toLowerCase s = map lower_char s"

definition startsWith0x :: "string \<Rightarrow> bool" where
  "startsWith0x s \<longleftrightarrow> take 2 s = ''0x''"

lemma is_hex_list_all: "is_hex c \<Longrightarrow> list_all P ''0123456789abcdefABCDEF'' \<Longrightarrow> P c"
  unfolding is_hex_def list_all_iff by blast

lemma is_lhex_list_all: "is_lhex c \<Longrightarrow> list_all P ''0123456789abcdef'' \<Longrightarrow> P c"
  unfolding is_lhex_def list_all_iff by blast

lemma lower_char_hex: "is_hex c \<Longrightarrow> is_lhex (lower_char c)"
  by (erule is_hex_list_all) code_simp

lemma lower_char_lhex [simp]: "is_lhex c \<Longrightarrow> lower_char c = c"
  by (erule is_lhex_list_all) code_simp

lemma lhex_is_hex: "is_lhex c \<Longrightarrow> is_hex c"
  by (erule is_lhex_list_all) code_simp

lemma toLowerCase_lhex [simp]: "list_all is_lhex s \<Longrightarrow> toLowerCase s = s"
  by (induction s) (auto simp: toLowerCase_def)

lemma list_all_lhex_lower: "list_all is_hex s \<Longrightarrow> list_all is_lhex (toLowerCase s)"
  by (induction s) (auto simp: toLowerCase_def lower_char_hex)

lemma toLowerCase_idem [simp]: "toLowerCase (toLowerCase s) = toLowerCase s"
proof -
  have "lower_char (lower_char c) = lower_char c" for c
    by (auto simp: lower_char_def Let_def)
  then show ?thesis by (simp add: toLowerCase_def)
qed

lemma length_toLowerCase [simp]: "length (toLowerCase s) = length s"
  by (simp add: toLowerCase_def)

lemma lower_0x [simp]: "toLowerCase (CHR ''0'' # CHR ''x'' # s) = CHR ''0'' # CHR ''x'' # toLowerCase s"
  by (simp add: toLowerCase_def lower_char_def)

lemma startsWith0x_conv: "startsWith0x s \<longleftrightarrow> (\<exists>t. s = CHR ''0'' # CHR ''x'' # t)"
proof -
  have "take 2 s = ''0x'' \<longleftrightarrow> (\<exists>t. s = CHR ''0'' # CHR ''x'' # t)"
    by (cases s; cases "tl s") (auto simp: numeral_2_eq_2)
  then show ?thesis by (simp add: startsWith0x_def)
qed

subsection \<open>Bytes\<close>

type_synonym byte = "8 word"

definition hex_digits :: string where
  "hex_digits = ''0123456789abcdef''"

text \<open>The value of one hex digit.\<close>

definition hex_digit_val :: "char \<Rightarrow> nat" where
  "hex_digit_val c = length (takeWhile (\<lambda>d. d \<noteq> lower_char c) hex_digits)"

text \<open>\<open>Buffer.from(hex, 'hex')\<close> on a string of hex digit pairs.\<close>

fun hex_bytes :: "string \<Rightarrow> byte list" where
  "hex_bytes (a # b # r) = word_of_nat (16 * hex_digit_val a + hex_digit_val b) # hex_bytes r"
| "hex_bytes _ = []"

text \<open>\<open>bytes.toString('hex')\<close>.\<close>

definition byte_hex :: "byte \<Rightarrow> string" where
  "byte_hex w = [hex_digits ! (unat w div 16), hex_digits ! (unat w mod 16)]"

definition bytes_hex :: "byte list \<Rightarrow> string" where
  "bytes_hex bs = concat (map byte_hex bs)"

text \<open>\<open>BigInt('0x' + hex)\<close>.\<close>

definition hex_val :: "string \<Rightarrow> nat" where
  "hex_val s = foldl (\<lambda>acc c. 16 * acc + hex_digit_val c) 0 s"

text \<open>The big-endian value of a byte run.\<close>

definition be_val :: "byte list \<Rightarrow> nat" where
  "be_val bs = foldl (\<lambda>acc w. 256 * acc + unat w) 0 bs"

lemma hex_digit_val_bound: "is_hex c \<Longrightarrow> hex_digit_val c < 16"
  by (erule is_hex_list_all) code_simp

lemma hex_digit_val_digit: "n < 16 \<Longrightarrow> hex_digit_val (hex_digits ! n) = n"
proof -
  have "list_all (\<lambda>n. hex_digit_val (hex_digits ! n) = n) [0..<16]" by code_simp
  then show "n < 16 \<Longrightarrow> ?thesis" by (simp add: list_all_iff)
qed

lemma hex_digit_lhex: "n < 16 \<Longrightarrow> is_lhex (hex_digits ! n)"
proof -
  have "list_all (\<lambda>n. is_lhex (hex_digits ! n)) [0..<16]" by code_simp
  then show "n < 16 \<Longrightarrow> ?thesis" by (simp add: list_all_iff)
qed

lemma hex_digit_of_val: "is_lhex c \<Longrightarrow> hex_digits ! hex_digit_val c = c"
  by (erule is_lhex_list_all) code_simp

lemma unat_byte_lt: "unat (w :: byte) < 256"
  using unsigned_less [of w, where ?'a = nat] by simp

lemma byte_hex_lhex: "list_all is_lhex (byte_hex w)"
  using unat_byte_lt [of w] by (auto simp: byte_hex_def intro!: hex_digit_lhex)

lemma bytes_hex_lhex [simp]: "list_all is_lhex (bytes_hex bs)"
  by (induction bs) (auto simp: bytes_hex_def byte_hex_lhex)

lemma length_bytes_hex [simp]: "length (bytes_hex bs) = 2 * length bs"
  by (induction bs) (auto simp: bytes_hex_def byte_hex_def)

lemma bytes_hex_Nil [simp]: "bytes_hex [] = []"
  by (simp add: bytes_hex_def)

lemma bytes_hex_append [simp]: "bytes_hex (xs @ ys) = bytes_hex xs @ bytes_hex ys"
  by (simp add: bytes_hex_def)

lemma hex_bytes_bytes_hex [simp]: "hex_bytes (bytes_hex bs) = bs"
proof (induction bs)
  case (Cons w bs)
  have "16 * (unat w div 16) + unat w mod 16 = unat w" by simp
  then show ?case using Cons unat_byte_lt [of w]
    by (simp add: bytes_hex_def byte_hex_def hex_digit_val_digit)
qed (simp add: bytes_hex_def)

lemma length_hex_bytes [simp]: "length (hex_bytes s) = length s div 2"
  by (induction s rule: hex_bytes.induct) auto

lemma bytes_hex_hex_bytes:
  "list_all is_lhex s \<Longrightarrow> even (length s) \<Longrightarrow> bytes_hex (hex_bytes s) = s"
proof (induction s rule: hex_bytes.induct)
  case (1 a b r)
  then have a: "hex_digit_val a < 16" and b: "hex_digit_val b < 16"
    by (auto intro!: hex_digit_val_bound lhex_is_hex)
  then have "unat (word_of_nat (16 * hex_digit_val a + hex_digit_val b) :: byte)
      = 16 * hex_digit_val a + hex_digit_val b"
    by (subst unat_of_nat) simp
  with 1 a b show ?case by (simp add: bytes_hex_def byte_hex_def hex_digit_of_val)
qed (auto simp: bytes_hex_def)

lemma hex_bytes_lower: "hex_bytes (toLowerCase s) = hex_bytes s"
proof (induction s rule: hex_bytes.induct)
  case (1 a b r)
  have "lower_char (lower_char c) = lower_char c" for c
    by (auto simp: lower_char_def Let_def)
  then have "hex_digit_val (lower_char c) = hex_digit_val c" for c
    by (simp add: hex_digit_val_def)
  with 1 show ?case by (simp add: toLowerCase_def)
qed (auto simp: toLowerCase_def)

lemma hex_val_bytes_hex [simp]: "hex_val (bytes_hex bs) = be_val bs"
proof -
  have "foldl (\<lambda>acc c. 16 * acc + hex_digit_val c) n (bytes_hex bs)
      = foldl (\<lambda>acc w. 256 * acc + unat w) n bs" for n
  proof (induction bs arbitrary: n)
    case (Cons w bs)
    have "16 * (16 * n + unat w div 16) + unat w mod 16 = 256 * n + unat w" by simp
    with Cons show ?case using unat_byte_lt [of w]
      by (simp add: bytes_hex_def byte_hex_def hex_digit_val_digit add.commute)
  qed (simp add: bytes_hex_def)
  then show ?thesis by (simp add: hex_val_def be_val_def)
qed

lemma be_val_snoc: "be_val (bs @ [w]) = 256 * be_val bs + unat w"
  by (simp add: be_val_def)

lemma be_val_bound: "be_val bs < 256 ^ length bs"
proof (induction bs rule: rev_induct)
  case (snoc w bs)
  then have "256 * be_val bs + 256 \<le> 256 * 256 ^ length bs" by simp
  with unat_byte_lt [of w] show ?case by (simp add: be_val_snoc)
qed (simp add: be_val_def)

text \<open>The big-endian encoding of \<open>n\<close> on \<open>k\<close> bytes, the inverse of \<open>be_val\<close>.\<close>

fun be_bytes :: "nat \<Rightarrow> nat \<Rightarrow> byte list" where
  "be_bytes 0 n = []"
| "be_bytes (Suc k) n = be_bytes k (n div 256) @ [word_of_nat (n mod 256)]"

lemma length_be_bytes [simp]: "length (be_bytes k n) = k"
  by (induction k arbitrary: n) auto

lemma be_val_be_bytes: "n < 256 ^ k \<Longrightarrow> be_val (be_bytes k n) = n"
proof (induction k arbitrary: n)
  case (Suc k)
  then have "n div 256 < 256 ^ k" by (simp add: less_mult_imp_div_less mult.commute)
  moreover have "unat (word_of_nat (n mod 256) :: byte) = n mod 256"
    by (simp add: unat_of_nat)
  ultimately show ?case using Suc.IH by (simp add: be_val_snoc)
qed (simp add: be_val_def)

lemma be_bytes_be_val [simp]: "be_bytes (length bs) (be_val bs) = bs"
proof (induction bs rule: rev_induct)
  case (snoc w bs)
  have "(256 * be_val bs + unat w) div 256 = be_val bs" "(256 * be_val bs + unat w) mod 256 = unat w"
    using unat_byte_lt [of w] by simp_all
  with snoc show ?case by (simp add: be_val_snoc)
qed simp

text \<open>\<open>bytes.subarray(off, off + len)\<close>.\<close>

definition slice :: "nat \<Rightarrow> nat \<Rightarrow> 'a list \<Rightarrow> 'a list" where
  "slice off len bs = take len (drop off bs)"

lemma length_slice [simp]: "off + len \<le> length bs \<Longrightarrow> length (slice off len bs) = len"
  by (simp add: slice_def)

lemma slice_append: "length p = off \<Longrightarrow> length m = len \<Longrightarrow> slice off len (p @ m @ r) = m"
  by (simp add: slice_def)

lemma slice_drop: "slice off len bs @ drop (off + len) bs = drop off bs"
  by (metis add.commute append_take_drop_id drop_drop slice_def)

subsection \<open>Association lists as JavaScript dictionaries\<close>

lemma map_of_update [simp]: "map_of (AList.update k v al) = (map_of al)(k \<mapsto> v)"
  by (simp add: update_conv')

lemma distinct_fst_update [simp]:
  "distinct (map fst al) \<Longrightarrow> distinct (map fst (AList.update k v al))"
  by (rule distinct_update)

lemma fst_set_update [simp]: "fst ` set (AList.update k v al) = insert k (fst ` set al)"
  by (simp add: dom_update)

text \<open>\<open>Object.values(rows)\<close>.\<close>

abbreviation js_values :: "('k \<times> 'v) list \<Rightarrow> 'v list" where
  "js_values al \<equiv> map snd al"

lemma update_values_cases:
  assumes "r \<in> snd ` set (AList.update k v al)"
  shows "r = v \<or> r \<in> snd ` set al"
  using assms by (induction al) (auto split: if_splits)

lemma update_set_other:
  "distinct (map fst al) \<Longrightarrow> (k', r) \<in> set (AList.update k v al) \<longleftrightarrow>
     (if k' = k then r = v else (k', r) \<in> set al)"
  by (induction al) (auto simp: image_iff)

subsection \<open>Result plumbing\<close>

fun is_ok :: "'e + 'a \<Rightarrow> bool" where
  "is_ok (Inl e) = False"
| "is_ok (Inr a) = True"

text \<open>Sequencing: the first thrown error is the error of the whole.\<close>

fun ebind :: "'e + 'a \<Rightarrow> ('a \<Rightarrow> 'e + 'b) \<Rightarrow> 'e + 'b" where
  "ebind (Inl e) f = Inl e"
| "ebind (Inr a) f = f a"

lemma ebind_Inr_iff: "ebind m f = Inr b \<longleftrightarrow> (\<exists>a. m = Inr a \<and> f a = Inr b)"
  by (cases m) auto

lemma ebind_Inl_iff: "ebind m f = Inl e \<longleftrightarrow> m = Inl e \<or> (\<exists>a. m = Inr a \<and> f a = Inl e)"
  by (cases m) auto

text \<open>A guard statement \<open>if (!ok) throw e;\<close>.\<close>

definition require :: "bool \<Rightarrow> 'e \<Rightarrow> 'e + unit" where
  "require ok e = (if ok then Inr () else Inl e)"

lemma require_iff [simp]:
  "require ok e = Inr u \<longleftrightarrow> ok" "require ok e = Inl e' \<longleftrightarrow> \<not> ok \<and> e' = e"
  by (auto simp: require_def)

lemma ebind_require [simp]: "ebind (require ok e) f = (if ok then f () else Inl e)"
  by (simp add: require_def)

end
