(* ===== verification/Expectation.thy ===== *)
theory Expectation
  imports Prelude
begin

section \<open>Burn expectations, transaction hashes and evidence\<close>

text \<open>
  The validation layer of the relayer's CCTP work store (\<open>relayer/src/store.mjs\<close>): the one
  JSON-safe expectation schema (\<open>canonicalizeExpectation\<close>) and its domain-separated digest,
  the canonical source and destination transaction hashes, and the normalisation of raw
  attested evidence. Thrown errors are their \<open>code\<close>; the message prose is not modelled.
  SHA-256 is a parameter: \<open>sha256\<close> maps the hashed bytes to the hex digest.
\<close>

datatype relay_error = RELAY_VALIDATION | RELAY_CAS_CONFLICT | RELAY_ENQUEUE_CONFLICT

subsection \<open>The canonical expectation\<close>

definition EXPECTATION_KEY_ORDER :: "string list" where
  "EXPECTATION_KEY_ORDER =
     [''version'', ''direction'', ''sourceDomain'', ''destinationDomain'', ''sender'', ''recipient'',
      ''destinationCaller'', ''burnToken'', ''mintRecipient'', ''messageSender'', ''amount'',
      ''burnUnits7'', ''maxFee'', ''minFinalityThreshold'', ''hookData'']"

definition EXPECTATION_DIGEST_DOMAIN :: string where
  "EXPECTATION_DIGEST_DOMAIN = ''vf-cctp-expectation-v1''"

definition STELLAR_DOMAIN :: int where "STELLAR_DOMAIN = 27"

definition BASE_DOMAIN :: int where "BASE_DOMAIN = 6"

text \<open>
  \<open>DIRECTION_DOMAINS[key]\<close> is a read on a plain object, so the names every object inherits
  from \<open>Object.prototype\<close> are found as well, with no domains of their own.
\<close>

definition object_prototype_keys :: "string list" where
  "object_prototype_keys =
     [''constructor'', ''__defineGetter__'', ''__defineSetter__'', ''hasOwnProperty'',
      ''__lookupGetter__'', ''__lookupSetter__'', ''isPrototypeOf'', ''propertyIsEnumerable'',
      ''toString'', ''valueOf'', ''__proto__'', ''toLocaleString'']"

definition DIRECTION_DOMAINS :: "string \<Rightarrow> (jsv \<times> jsv) option" where
  "DIRECTION_DOMAINS k =
     (if k = ''stellar-to-base'' then Some (JNum STELLAR_DOMAIN, JNum BASE_DOMAIN)
      else if k = ''base-to-stellar'' then Some (JNum BASE_DOMAIN, JNum STELLAR_DOMAIN)
      else if k \<in> set object_prototype_keys then Some (JUndef, JUndef)
      else None)"

text \<open>The regular expressions of the module.\<close>

definition HEX64_CI_RE :: "string \<Rightarrow> bool" where
  "HEX64_CI_RE s \<longleftrightarrow> length s = 64 \<and> list_all is_hex s"

definition BYTES32_STRICT_RE :: "string \<Rightarrow> bool" where
  "BYTES32_STRICT_RE s \<longleftrightarrow>
     startsWith0x s \<and> length (drop 2 s) = 64 \<and> list_all is_lhex (drop 2 s)"

definition DECIMAL_RE :: "string \<Rightarrow> bool" where
  "DECIMAL_RE s \<longleftrightarrow>
     s = ''0'' \<or> (s \<noteq> [] \<and> hd s \<noteq> CHR ''0'' \<and> list_all is_digit s)"

definition EVEN_HEX_RE :: "string \<Rightarrow> bool" where
  "EVEN_HEX_RE s \<longleftrightarrow>
     startsWith0x s \<and> drop 2 s \<noteq> [] \<and> even (length (drop 2 s)) \<and> list_all is_hex (drop 2 s)"

definition HOOK_DATA_RE :: "string \<Rightarrow> bool" where
  "HOOK_DATA_RE s \<longleftrightarrow>
     startsWith0x s \<and> even (length (drop 2 s)) \<and> list_all is_lhex (drop 2 s)"

fun expectDecimalString :: "jsv \<Rightarrow> relay_error + string" where
  "expectDecimalString (JStr s) = (if DECIMAL_RE s then Inr s else Inl RELAY_VALIDATION)"
| "expectDecimalString _ = Inl RELAY_VALIDATION"

text \<open>A field that must be canonical lowercase bytes32 hex, and the hook data field.\<close>

fun js_bytes32 :: "jsv \<Rightarrow> bool" where
  "js_bytes32 (JStr s) = BYTES32_STRICT_RE s"
| "js_bytes32 _ = False"

fun js_hook_data :: "jsv \<Rightarrow> bool" where
  "js_hook_data (JStr s) = HOOK_DATA_RE s"
| "js_hook_data _ = False"

fun js_string :: "jsv \<Rightarrow> string" where
  "js_string (JStr s) = s"
| "js_string _ = []"

text \<open>
  The object \<open>canonicalizeExpectation\<close> returns. Its \<open>version\<close> is the constant 1; the direction
  and the two domains are passed through as the values the caller supplied.
\<close>

record expectation =
  e_direction :: jsv
  e_sourceDomain :: jsv
  e_destinationDomain :: jsv
  e_sender :: string
  e_recipient :: string
  e_destinationCaller :: string
  e_burnToken :: string
  e_mintRecipient :: string
  e_messageSender :: string
  e_amount :: string
  e_burnUnits7 :: "string option"
  e_maxFee :: string
  e_minFinalityThreshold :: int
  e_hookData :: string

definition expectation_js :: "expectation \<Rightarrow> jsv" where
  "expectation_js e = JObj
     [(''version'', JNum 1), (''direction'', e_direction e), (''sourceDomain'', e_sourceDomain e),
      (''destinationDomain'', e_destinationDomain e), (''sender'', JStr (e_sender e)),
      (''recipient'', JStr (e_recipient e)), (''destinationCaller'', JStr (e_destinationCaller e)),
      (''burnToken'', JStr (e_burnToken e)), (''mintRecipient'', JStr (e_mintRecipient e)),
      (''messageSender'', JStr (e_messageSender e)), (''amount'', JStr (e_amount e)),
      (''burnUnits7'', js_opt_str (e_burnUnits7 e)), (''maxFee'', JStr (e_maxFee e)),
      (''minFinalityThreshold'', JNum (e_minFinalityThreshold e)), (''hookData'', JStr (e_hookData e))]"

definition BYTES32_FIELDS :: "string list" where
  "BYTES32_FIELDS =
     [''sender'', ''recipient'', ''destinationCaller'', ''burnToken'', ''mintRecipient'', ''messageSender'']"

text \<open>
  The burn units of a forward (Stellar to Base) expectation are 7-decimal and must be exactly
  ten times the 6-decimal message amount; a reverse expectation carries none.
\<close>

definition canonicalBurnUnits7 :: "jsv \<Rightarrow> string \<Rightarrow> relay_error + string option" where
  "canonicalBurnUnits7 x amount =
     (if js_get x ''direction'' = JStr ''stellar-to-base'' then
        ebind (expectDecimalString (js_get x ''burnUnits7'')) (\<lambda>b.
          if dec_val b mod 10 \<noteq> 0 \<or> dec_val amount \<noteq> dec_val b div 10 then Inl RELAY_VALIDATION
          else Inr (Some b))
      else if js_get x ''burnUnits7'' \<noteq> JNull then Inl RELAY_VALIDATION
      else Inr None)"

definition canonicalizeExpectation :: "jsv \<Rightarrow> relay_error + expectation" where
  "canonicalizeExpectation x =
     (if \<not> js_is_obj x then Inl RELAY_VALIDATION
      else if length (js_keys x) \<noteq> length EXPECTATION_KEY_ORDER
        \<or> \<not> list_all (js_has_own x) EXPECTATION_KEY_ORDER then Inl RELAY_VALIDATION
      else if js_get x ''version'' \<noteq> JNum 1 then Inl RELAY_VALIDATION
      else case DIRECTION_DOMAINS (js_to_key (js_get x ''direction'')) of
        None \<Rightarrow> Inl RELAY_VALIDATION
      | Some (sd, dd) \<Rightarrow>
          if js_get x ''sourceDomain'' \<noteq> sd \<or> js_get x ''destinationDomain'' \<noteq> dd
          then Inl RELAY_VALIDATION
          else if \<not> list_all (\<lambda>f. js_bytes32 (js_get x f)) BYTES32_FIELDS then Inl RELAY_VALIDATION
          else ebind (expectDecimalString (js_get x ''amount'')) (\<lambda>amount.
            ebind (expectDecimalString (js_get x ''maxFee'')) (\<lambda>maxFee.
              if js_get x ''minFinalityThreshold'' \<noteq> JNum 1000
                \<and> js_get x ''minFinalityThreshold'' \<noteq> JNum 2000 then Inl RELAY_VALIDATION
              else if \<not> js_hook_data (js_get x ''hookData'') then Inl RELAY_VALIDATION
              else ebind (canonicalBurnUnits7 x amount) (\<lambda>burnUnits7.
                Inr \<lparr>e_direction = js_get x ''direction'',
                     e_sourceDomain = js_get x ''sourceDomain'',
                     e_destinationDomain = js_get x ''destinationDomain'',
                     e_sender = js_string (js_get x ''sender''),
                     e_recipient = js_string (js_get x ''recipient''),
                     e_destinationCaller = js_string (js_get x ''destinationCaller''),
                     e_burnToken = js_string (js_get x ''burnToken''),
                     e_mintRecipient = js_string (js_get x ''mintRecipient''),
                     e_messageSender = js_string (js_get x ''messageSender''),
                     e_amount = amount,
                     e_burnUnits7 = burnUnits7,
                     e_maxFee = maxFee,
                     e_minFinalityThreshold =
                       (if js_get x ''minFinalityThreshold'' = JNum 1000 then 1000 else 2000),
                     e_hookData = js_string (js_get x ''hookData'')\<rparr>))))"

definition expectationDigest :: "(string \<Rightarrow> string) \<Rightarrow> expectation \<Rightarrow> string" where
  "expectationDigest sha256 e =
     sha256 (EXPECTATION_DIGEST_DOMAIN @ [CHR 0x00] @ json_text (expectation_js e))"

subsection \<open>Transaction hashes\<close>

definition normalizeSourceDomain :: "jsv \<Rightarrow> relay_error + int" where
  "normalizeSourceDomain d =
     (if d = JNum STELLAR_DOMAIN then Inr STELLAR_DOMAIN
      else if d = JNum BASE_DOMAIN then Inr BASE_DOMAIN
      else Inl RELAY_VALIDATION)"

text \<open>A hash of 64 hex digits, without and with the \<open>0x\<close> prefix.\<close>

definition stellarHash :: "string \<Rightarrow> relay_error + string" where
  "stellarHash h = (if HEX64_CI_RE h then Inr (toLowerCase h) else Inl RELAY_VALIDATION)"

definition baseHash :: "string \<Rightarrow> relay_error + string" where
  "baseHash h =
     (if startsWith0x h \<and> HEX64_CI_RE (drop 2 h) then Inr (toLowerCase h) else Inl RELAY_VALIDATION)"

fun normalizeBurnTxHash :: "jsv \<Rightarrow> jsv \<Rightarrow> relay_error + string" where
  "normalizeBurnTxHash sd (JStr h) =
     ebind (normalizeSourceDomain sd) (\<lambda>d. if d = STELLAR_DOMAIN then stellarHash h else baseHash h)"
| "normalizeBurnTxHash sd _ = Inl RELAY_VALIDATION"

fun normalizeMintTxHash :: "jsv \<Rightarrow> jsv \<Rightarrow> relay_error + string" where
  "normalizeMintTxHash sd (JStr h) =
     ebind (normalizeSourceDomain sd) (\<lambda>d. if d = STELLAR_DOMAIN then baseHash h else stellarHash h)"
| "normalizeMintTxHash sd _ = Inl RELAY_VALIDATION"

subsection \<open>Attested evidence\<close>

record evidence =
  v_messageHex :: string
  v_nonceHex :: string
  v_messageDigest :: string
  v_attestationHex :: string
  v_attestationDigest :: string

definition sha256Bytes :: "(string \<Rightarrow> string) \<Rightarrow> string \<Rightarrow> string" where
  "sha256Bytes sha256 hex = sha256 (map (\<lambda>w. char_of (unat w)) (hex_bytes hex))"

fun js_even_hex :: "jsv \<Rightarrow> bool" where
  "js_even_hex (JStr s) = EVEN_HEX_RE s"
| "js_even_hex _ = False"

fun js_nonce :: "jsv \<Rightarrow> bool" where
  "js_nonce (JStr s) = (startsWith0x s \<and> HEX64_CI_RE (drop 2 s))"
| "js_nonce _ = False"

definition normalizeEvidence ::
  "(string \<Rightarrow> string) \<Rightarrow> jsv \<Rightarrow> jsv \<Rightarrow> jsv \<Rightarrow> relay_error + evidence" where
  "normalizeEvidence sha256 messageHex nonceHex attestationHex =
     (if \<not> js_even_hex messageHex then Inl RELAY_VALIDATION
      else if \<not> js_nonce nonceHex then Inl RELAY_VALIDATION
      else if \<not> js_even_hex attestationHex then Inl RELAY_VALIDATION
      else let message = toLowerCase (js_string messageHex);
               attestation = toLowerCase (js_string attestationHex)
           in Inr \<lparr>v_messageHex = message,
                   v_nonceHex = toLowerCase (js_string nonceHex),
                   v_messageDigest = sha256Bytes sha256 (drop 2 message),
                   v_attestationHex = attestation,
                   v_attestationDigest = sha256Bytes sha256 (drop 2 attestation)\<rparr>)"


subsection \<open>Reading a canonical expectation back\<close>

lemma js_get_expectation [simp]:
  "js_get (expectation_js e) ''version'' = JNum 1"
  "js_get (expectation_js e) ''direction'' = e_direction e"
  "js_get (expectation_js e) ''sourceDomain'' = e_sourceDomain e"
  "js_get (expectation_js e) ''destinationDomain'' = e_destinationDomain e"
  "js_get (expectation_js e) ''sender'' = JStr (e_sender e)"
  "js_get (expectation_js e) ''recipient'' = JStr (e_recipient e)"
  "js_get (expectation_js e) ''destinationCaller'' = JStr (e_destinationCaller e)"
  "js_get (expectation_js e) ''burnToken'' = JStr (e_burnToken e)"
  "js_get (expectation_js e) ''mintRecipient'' = JStr (e_mintRecipient e)"
  "js_get (expectation_js e) ''messageSender'' = JStr (e_messageSender e)"
  "js_get (expectation_js e) ''amount'' = JStr (e_amount e)"
  "js_get (expectation_js e) ''burnUnits7'' = js_opt_str (e_burnUnits7 e)"
  "js_get (expectation_js e) ''maxFee'' = JStr (e_maxFee e)"
  "js_get (expectation_js e) ''minFinalityThreshold'' = JNum (e_minFinalityThreshold e)"
  "js_get (expectation_js e) ''hookData'' = JStr (e_hookData e)"
  by (simp_all add: expectation_js_def)

lemma expectation_js_shape [simp]:
  "js_is_obj (expectation_js e)"
  "length (js_keys (expectation_js e)) = length EXPECTATION_KEY_ORDER"
  "list_all (js_has_own (expectation_js e)) EXPECTATION_KEY_ORDER"
  by (simp_all add: expectation_js_def EXPECTATION_KEY_ORDER_def)

lemma js_bytes32_string: "js_bytes32 v \<longleftrightarrow> (\<exists>s. v = JStr s \<and> BYTES32_STRICT_RE s)"
  by (cases v) auto

lemma js_hook_data_string: "js_hook_data v \<longleftrightarrow> (\<exists>s. v = JStr s \<and> HOOK_DATA_RE s)"
  by (cases v) auto

lemma js_even_hex_string: "js_even_hex v \<longleftrightarrow> (\<exists>s. v = JStr s \<and> EVEN_HEX_RE s)"
  by (cases v) auto

lemma js_nonce_string: "js_nonce v \<longleftrightarrow> (\<exists>s. v = JStr s \<and> startsWith0x s \<and> HEX64_CI_RE (drop 2 s))"
  by (cases v) auto

lemma expectDecimalString_Inr: "expectDecimalString v = Inr s \<longleftrightarrow> v = JStr s \<and> DECIMAL_RE s"
  by (cases v) auto

text \<open>
  What a canonical expectation satisfies, stated on the returned object. A direction that is
  not a string still has to name a direction when it is used as a property key.
\<close>

definition canonical_fields :: "expectation \<Rightarrow> bool" where
  "canonical_fields e \<longleftrightarrow>
     DIRECTION_DOMAINS (js_to_key (e_direction e)) = Some (e_sourceDomain e, e_destinationDomain e)
   \<and> list_all BYTES32_STRICT_RE [e_sender e, e_recipient e, e_destinationCaller e, e_burnToken e,
       e_mintRecipient e, e_messageSender e]
   \<and> DECIMAL_RE (e_amount e) \<and> DECIMAL_RE (e_maxFee e)
   \<and> e_minFinalityThreshold e \<in> {1000, 2000} \<and> HOOK_DATA_RE (e_hookData e)
   \<and> (if e_direction e = JStr ''stellar-to-base''
      then (\<exists>b. e_burnUnits7 e = Some b \<and> DECIMAL_RE b \<and> dec_val b = 10 * dec_val (e_amount e))
      else e_burnUnits7 e = None)"

lemma canonicalBurnUnits7_Inr:
  "canonicalBurnUnits7 x a = Inr u \<longleftrightarrow>
     (if js_get x ''direction'' = JStr ''stellar-to-base''
      then (\<exists>b. js_get x ''burnUnits7'' = JStr b \<and> u = Some b \<and> DECIMAL_RE b
              \<and> dec_val b = 10 * dec_val a)
      else js_get x ''burnUnits7'' = JNull \<and> u = None)"
proof -
  have "(b mod 10 = 0 \<and> a = b div 10) \<longleftrightarrow> b = 10 * (a::nat)" for a b by auto
  then show ?thesis
    by (auto simp: canonicalBurnUnits7_def ebind_Inr_iff expectDecimalString_Inr)
qed

lemma canonicalizeExpectation_InrE:
  assumes "canonicalizeExpectation x = Inr e"
  obtains
    "DIRECTION_DOMAINS (js_to_key (js_get x ''direction'')) =
       Some (js_get x ''sourceDomain'', js_get x ''destinationDomain'')"
    "list_all (\<lambda>f. js_bytes32 (js_get x f)) BYTES32_FIELDS"
    "js_get x ''minFinalityThreshold'' = JNum 1000 \<or> js_get x ''minFinalityThreshold'' = JNum 2000"
    "js_hook_data (js_get x ''hookData'')"
    "expectDecimalString (js_get x ''amount'') = Inr (e_amount e)"
    "expectDecimalString (js_get x ''maxFee'') = Inr (e_maxFee e)"
    "canonicalBurnUnits7 x (e_amount e) = Inr (e_burnUnits7 e)"
    "e = \<lparr>e_direction = js_get x ''direction'', e_sourceDomain = js_get x ''sourceDomain'',
          e_destinationDomain = js_get x ''destinationDomain'',
          e_sender = js_string (js_get x ''sender''), e_recipient = js_string (js_get x ''recipient''),
          e_destinationCaller = js_string (js_get x ''destinationCaller''),
          e_burnToken = js_string (js_get x ''burnToken''),
          e_mintRecipient = js_string (js_get x ''mintRecipient''),
          e_messageSender = js_string (js_get x ''messageSender''),
          e_amount = e_amount e, e_burnUnits7 = e_burnUnits7 e, e_maxFee = e_maxFee e,
          e_minFinalityThreshold = (if js_get x ''minFinalityThreshold'' = JNum 1000 then 1000 else 2000),
          e_hookData = js_string (js_get x ''hookData'')\<rparr>"
proof -
  obtain sd dd where d: "DIRECTION_DOMAINS (js_to_key (js_get x ''direction'')) = Some (sd, dd)"
    using assms unfolding canonicalizeExpectation_def by (fastforce split: if_splits option.splits)
  have c: "js_get x ''sourceDomain'' = sd" "js_get x ''destinationDomain'' = dd"
    "list_all (\<lambda>f. js_bytes32 (js_get x f)) BYTES32_FIELDS"
    using assms d unfolding canonicalizeExpectation_def by (simp_all split: if_splits)
  show thesis
    using assms d c unfolding canonicalizeExpectation_def
    by (simp add: ebind_Inr_iff split: if_splits) (elim exE conjE, hypsubst, rule that, simp_all)+
qed

lemma canonicalizeExpectation_Inr_fields:
  assumes "canonicalizeExpectation x = Inr e"
  shows "canonical_fields e"
  using assms
proof (rule canonicalizeExpectation_InrE, goal_cases)
  case 1
  note f = 1(8)
  have g: "js_get x ''direction'' = e_direction e" "js_get x ''sourceDomain'' = e_sourceDomain e"
    "js_get x ''destinationDomain'' = e_destinationDomain e"
    by (subst f, simp)+
  have h: "js_string (js_get x ''sender'') = e_sender e" "js_string (js_get x ''recipient'') = e_recipient e"
    "js_string (js_get x ''destinationCaller'') = e_destinationCaller e"
    "js_string (js_get x ''burnToken'') = e_burnToken e"
    "js_string (js_get x ''mintRecipient'') = e_mintRecipient e"
    "js_string (js_get x ''messageSender'') = e_messageSender e"
    "js_string (js_get x ''hookData'') = e_hookData e"
    by (subst f, simp)+
  have t: "e_minFinalityThreshold e \<in> {1000, 2000}"
    by (subst f) simp
  have k: "\<And>f. f \<in> set BYTES32_FIELDS \<Longrightarrow> BYTES32_STRICT_RE (js_string (js_get x f))"
    "HOOK_DATA_RE (js_string (js_get x ''hookData''))"
    using 1(2,4) by (auto simp: list_all_iff js_bytes32_string js_hook_data_string)
  have s: "list_all BYTES32_STRICT_RE [e_sender e, e_recipient e, e_destinationCaller e, e_burnToken e,
       e_mintRecipient e, e_messageSender e]"
    unfolding h(1-6) [symmetric] using k(1) by (simp add: BYTES32_FIELDS_def)
  have u: "if e_direction e = JStr ''stellar-to-base''
      then (\<exists>b. e_burnUnits7 e = Some b \<and> DECIMAL_RE b \<and> dec_val b = 10 * dec_val (e_amount e))
      else e_burnUnits7 e = None"
    using 1(7) unfolding canonicalBurnUnits7_Inr g(1) by (simp split: if_splits) blast
  show ?case unfolding canonical_fields_def
    using 1(1,5,6) g h(7) k(2) t s u by (simp add: expectDecimalString_Inr)
qed

lemma canonicalizeExpectation_of_fields:
  assumes "canonical_fields e"
  shows "canonicalizeExpectation (expectation_js e) = Inr e"
proof -
  have "canonicalBurnUnits7 (expectation_js e) (e_amount e) = Inr (e_burnUnits7 e)"
    using assms by (auto simp: canonicalBurnUnits7_Inr canonical_fields_def split: if_splits)
  moreover have "list_all (\<lambda>f. js_bytes32 (js_get (expectation_js e) f)) BYTES32_FIELDS"
    using assms by (simp add: BYTES32_FIELDS_def canonical_fields_def)
  moreover have "e_minFinalityThreshold e = 1000 \<or> e_minFinalityThreshold e = 2000"
    using assms by (simp add: canonical_fields_def)
  ultimately show ?thesis using assms unfolding canonicalizeExpectation_def canonical_fields_def
    by (elim disjE) simp_all
qed

lemma canonicalize_iff_fields:
  "canonicalizeExpectation (expectation_js e) = Inr e \<longleftrightarrow> canonical_fields e"
  using canonicalizeExpectation_Inr_fields canonicalizeExpectation_of_fields by blast

subsection \<open>Normalisation is idempotent\<close>

lemma normalizeSourceDomain_Inr:
  "normalizeSourceDomain d = Inr n \<longleftrightarrow> d = JNum n \<and> (n = STELLAR_DOMAIN \<or> n = BASE_DOMAIN)"
  by (auto simp: normalizeSourceDomain_def)

lemma domains_distinct [simp]: "STELLAR_DOMAIN \<noteq> BASE_DOMAIN" "BASE_DOMAIN \<noteq> STELLAR_DOMAIN"
  by (simp_all add: STELLAR_DOMAIN_def BASE_DOMAIN_def)

lemma HEX64_lower: "HEX64_CI_RE h \<Longrightarrow> HEX64_CI_RE (toLowerCase h)"
  unfolding HEX64_CI_RE_def using list_all_lhex_lower [of h]
  by (auto simp: list_all_iff lhex_is_hex)

lemma stellarHash_idem: "stellarHash h = Inr b \<Longrightarrow> stellarHash b = Inr b"
  by (auto simp: stellarHash_def HEX64_lower split: if_splits)

lemma baseHash_idem: "baseHash h = Inr b \<Longrightarrow> baseHash b = Inr b"
  by (auto simp: baseHash_def startsWith0x_conv HEX64_lower split: if_splits)

lemma normalizeBurnTxHash_idem:
  "normalizeBurnTxHash sd h = Inr b \<Longrightarrow> normalizeBurnTxHash sd (JStr b) = Inr b"
  by (cases h) (auto simp: ebind_Inr_iff split: if_splits dest: stellarHash_idem baseHash_idem)

lemma normalizeMintTxHash_idem:
  "normalizeMintTxHash sd h = Inr b \<Longrightarrow> normalizeMintTxHash sd (JStr b) = Inr b"
  by (cases h) (auto simp: ebind_Inr_iff split: if_splits dest: stellarHash_idem baseHash_idem)

lemma normalizeMintTxHash_domain:
  "normalizeMintTxHash (JNum d) h = Inr b \<Longrightarrow> d = STELLAR_DOMAIN \<or> d = BASE_DOMAIN"
  by (cases h) (auto simp: ebind_Inr_iff normalizeSourceDomain_Inr)

declare normalizeBurnTxHash.simps [simp del] normalizeMintTxHash.simps [simp del]

lemma EVEN_HEX_lower: "EVEN_HEX_RE s \<Longrightarrow> EVEN_HEX_RE (toLowerCase s)"
proof -
  assume s: "EVEN_HEX_RE s"
  then obtain t where t: "s = CHR ''0'' # CHR ''x'' # t" "list_all is_hex t"
    by (auto simp: EVEN_HEX_RE_def startsWith0x_conv)
  then have "list_all is_hex (toLowerCase t)"
    using list_all_lhex_lower [of t] by (auto simp: list_all_iff lhex_is_hex)
  with s t show ?thesis
    by (auto simp: EVEN_HEX_RE_def startsWith0x_conv) (simp add: toLowerCase_def)
qed

lemma nonce_lower:
  "startsWith0x s \<Longrightarrow> HEX64_CI_RE (drop 2 s) \<Longrightarrow>
   startsWith0x (toLowerCase s) \<and> HEX64_CI_RE (drop 2 (toLowerCase s))"
  by (auto simp: startsWith0x_conv HEX64_lower)

lemma normalizeEvidence_idem:
  assumes "normalizeEvidence sha m n a = Inr v"
  shows "normalizeEvidence sha (JStr (v_messageHex v)) (JStr (v_nonceHex v)) (JStr (v_attestationHex v))
    = Inr v"
  using assms unfolding normalizeEvidence_def
  by (auto simp: js_even_hex_string js_nonce_string EVEN_HEX_lower nonce_lower Let_def
      split: if_splits)

end
