(* ===== verification/RelayRecord.thy ===== *)
theory RelayRecord
  imports Expectation
begin

section \<open>One relay record and its compare-and-transition operations\<close>

text \<open>
  The durable record of one CCTP mint (\<open>relayer/src/store.mjs\<close>) and the pure transitions every
  backend shares: one record in, the next record, an idempotent no-op or a thrown error code
  out. A missing record (\<open>!current\<close>) is \<open>None\<close>. Every numeric field is an integer: the
  \<open>Number.isSafeInteger\<close> guards of the source are kept, and a sum of two safe integers that
  leaves the safe range is unsafe in the model exactly when it is in IEEE arithmetic.
  The lease token, execution id and reason code are typed as strings; what arrives from the
  network (domains, hashes, evidence, expectations) is untyped and checked as the source does.
\<close>

datatype relay_state =
    attestation_pending
  | attested
  | mint_submitting
  | mint_submitted
  | minted
  | blocked
  | uncertain

definition RELAY_CLAIMABLE_STATES :: "relay_state list" where
  "RELAY_CLAIMABLE_STATES = [attestation_pending, attested, mint_submitted]"

definition RELAY_TERMINAL_STATES :: "relay_state list" where
  "RELAY_TERMINAL_STATES = [minted, blocked, uncertain]"

definition RELAY_BLOCKED_REASONS :: "string list" where
  "RELAY_BLOCKED_REASONS =
     [''message_mismatch'', ''message_ambiguous'', ''attested_evidence_changed'',
      ''destination_reverted'', ''legacy_record_unrecoverable'']"

definition RELAY_UNCERTAIN_REASONS :: "string list" where
  "RELAY_UNCERTAIN_REASONS =
     [''submission_unknown'', ''submitted_checkpoint_failed'', ''submission_lease_expired'']"

record relay_record =
  execId :: string
  sourceDomain :: "int option"
  burnTxHash :: "string option"
  r_expectation :: "expectation option"
  r_expectationDigest :: "string option"
  rstate :: relay_state
  messageHex :: "string option"
  nonceHex :: "string option"
  messageDigest :: "string option"
  attestationHex :: "string option"
  attestationDigest :: "string option"
  evidenceVersion :: int
  mintTxHash :: "string option"
  reasonCode :: "string option"
  attempts :: int
  leaseToken :: "string option"
  leaseExpiresAt :: "int option"
  createdAt :: int
  updatedAt :: int

text \<open>A transition's outcome: \<open>{ next }\<close> or \<open>{ unchanged: true }\<close>.\<close>

datatype relay_outcome = Next relay_record | Unchanged

subsection \<open>Argument guards\<close>

definition requireNow :: "int \<Rightarrow> relay_error + unit" where
  "requireNow now = require (safe_int now) RELAY_VALIDATION"

definition requireLeaseArgs :: "int \<Rightarrow> int \<Rightarrow> relay_error + unit" where
  "requireLeaseArgs now leaseMs =
     ebind (requireNow now) (\<lambda>_. require (safe_int leaseMs \<and> 0 < leaseMs) RELAY_VALIDATION)"

text \<open>The caller must hold the record's live lease.\<close>

definition assertLease :: "relay_record option \<Rightarrow> string \<Rightarrow> int \<Rightarrow> relay_error + relay_record" where
  "assertLease current token now =
     (case current of
        None \<Rightarrow> Inl RELAY_CAS_CONFLICT
      | Some r \<Rightarrow>
          if token = [] \<or> leaseToken r = None \<or> leaseToken r \<noteq> Some token then Inl RELAY_CAS_CONFLICT
          else case leaseExpiresAt r of
            None \<Rightarrow> Inl RELAY_CAS_CONFLICT
          | Some t \<Rightarrow> if \<not> safe_int t \<or> t \<le> now then Inl RELAY_CAS_CONFLICT else Inr r)"

subsection \<open>New work\<close>

definition relayIdentityConflicts ::
  "relay_record \<Rightarrow> int \<Rightarrow> string \<Rightarrow> string \<Rightarrow> bool" where
  "relayIdentityConflicts r sd burn digest \<longleftrightarrow>
     (if sourceDomain r \<noteq> Some sd then False
      else if sd = 27 then burnTxHash r = Some burn
      else burnTxHash r = Some burn \<and> r_expectationDigest r = Some digest)"

definition relayNewPendingRecord ::
  "string \<Rightarrow> int \<Rightarrow> string \<Rightarrow> expectation \<Rightarrow> string \<Rightarrow> int \<Rightarrow> relay_error + relay_record" where
  "relayNewPendingRecord eid sd burn e digest now =
     ebind (requireNow now) (\<lambda>_. Inr
       \<lparr>execId = eid, sourceDomain = Some sd, burnTxHash = Some burn, r_expectation = Some e,
        r_expectationDigest = Some digest, rstate = attestation_pending,
        messageHex = None, nonceHex = None, messageDigest = None,
        attestationHex = None, attestationDigest = None, evidenceVersion = 0,
        mintTxHash = None, reasonCode = None, attempts = 0,
        leaseToken = None, leaseExpiresAt = None, createdAt = now, updatedAt = now\<rparr>)"

text \<open>
  The enqueue decision. \<open>hasIdentityConflict\<close> says whether a different execution id already owns
  the source identity; the flag of the result is \<open>changed\<close>.
\<close>

definition relayEnqueueDecision ::
  "(string \<Rightarrow> string) \<Rightarrow> relay_record option \<Rightarrow> (int \<Rightarrow> string \<Rightarrow> string \<Rightarrow> bool)
    \<Rightarrow> string \<Rightarrow> jsv \<Rightarrow> jsv \<Rightarrow> jsv \<Rightarrow> int \<Rightarrow> relay_error + (relay_record \<times> bool)" where
  "relayEnqueueDecision sha256 existing hasIdentityConflict eid sd burnHash x now =
     (if eid = [] then Inl RELAY_VALIDATION
      else ebind (normalizeSourceDomain sd) (\<lambda>d.
        ebind (canonicalizeExpectation x) (\<lambda>canonical.
          let digest = expectationDigest sha256 canonical in
          case existing of
            Some r \<Rightarrow>
              (let burn = (case normalizeBurnTxHash sd burnHash of Inl _ \<Rightarrow> None | Inr b \<Rightarrow> Some b) in
               if sourceDomain r \<noteq> Some d \<or> burn = None \<or> burnTxHash r \<noteq> burn
                 \<or> r_expectationDigest r \<noteq> Some digest
               then Inl RELAY_ENQUEUE_CONFLICT
               else Inr (r, False))
          | None \<Rightarrow>
              if e_sourceDomain canonical \<noteq> sd then Inl RELAY_VALIDATION
              else ebind (normalizeBurnTxHash sd burnHash) (\<lambda>burn.
                if hasIdentityConflict d burn digest then Inl RELAY_ENQUEUE_CONFLICT
                else ebind (relayNewPendingRecord eid d burn canonical digest now) (\<lambda>r.
                  Inr (r, True))))))"

subsection \<open>Transitions\<close>

text \<open>\<open>Inr None\<close> is the refusal \<open>null\<close>.\<close>

definition relayClaim ::
  "relay_record option \<Rightarrow> int \<Rightarrow> int \<Rightarrow> string \<Rightarrow> relay_error + relay_record option" where
  "relayClaim current now leaseMs token =
     ebind (requireLeaseArgs now leaseMs) (\<lambda>_.
       case current of
         None \<Rightarrow> Inr None
       | Some r \<Rightarrow>
           if rstate r \<notin> set RELAY_CLAIMABLE_STATES then Inr None
           else if leaseToken r \<noteq> None then Inr None
           else Inr (Some (r\<lparr>attempts := attempts r + 1, leaseToken := Some token,
                            leaseExpiresAt := Some (now + leaseMs), updatedAt := now\<rparr>)))"

definition relayRenew ::
  "relay_record option \<Rightarrow> string \<Rightarrow> int \<Rightarrow> int \<Rightarrow> relay_error + relay_outcome" where
  "relayRenew current token now leaseMs =
     ebind (requireLeaseArgs now leaseMs) (\<lambda>_.
       ebind (assertLease current token now) (\<lambda>r.
         if rstate r \<in> set RELAY_TERMINAL_STATES then Inl RELAY_CAS_CONFLICT
         else Inr (Next (r\<lparr>leaseExpiresAt := Some (now + leaseMs), updatedAt := now\<rparr>))))"

definition relayRecordAttested ::
  "(string \<Rightarrow> string) \<Rightarrow> relay_record option \<Rightarrow> string \<Rightarrow> jsv \<Rightarrow> jsv \<Rightarrow> jsv \<Rightarrow> int
    \<Rightarrow> relay_error + relay_outcome" where
  "relayRecordAttested sha256 current token message nonce attestation now =
     ebind (requireNow now) (\<lambda>_.
       ebind (normalizeEvidence sha256 message nonce attestation) (\<lambda>v.
         ebind (assertLease current token now) (\<lambda>r.
           if rstate r = attestation_pending then
             Inr (Next (r\<lparr>messageHex := Some (v_messageHex v), nonceHex := Some (v_nonceHex v),
                          messageDigest := Some (v_messageDigest v),
                          attestationHex := Some (v_attestationHex v),
                          attestationDigest := Some (v_attestationDigest v),
                          rstate := attested, evidenceVersion := 1, updatedAt := now\<rparr>))
           else if rstate r \<noteq> attested then Inl RELAY_CAS_CONFLICT
           else if Some (v_messageHex v) \<noteq> messageHex r \<or> Some (v_nonceHex v) \<noteq> nonceHex r
           then Inl RELAY_CAS_CONFLICT
           else if Some (v_attestationHex v) = attestationHex r then Inr Unchanged
           else Inr (Next (r\<lparr>attestationHex := Some (v_attestationHex v),
                             attestationDigest := Some (v_attestationDigest v),
                             evidenceVersion := evidenceVersion r + 1, updatedAt := now\<rparr>)))))"

definition relayMarkMintSubmitting ::
  "relay_record option \<Rightarrow> string \<Rightarrow> int \<Rightarrow> relay_error + relay_outcome" where
  "relayMarkMintSubmitting current token now =
     ebind (requireNow now) (\<lambda>_.
       ebind (assertLease current token now) (\<lambda>r.
         if rstate r \<noteq> attested then Inl RELAY_CAS_CONFLICT
         else Inr (Next (r\<lparr>rstate := mint_submitting, updatedAt := now\<rparr>))))"

text \<open>The record's source domain as the value the hash normalisation reads.\<close>

definition recordDomain :: "relay_record \<Rightarrow> jsv" where
  "recordDomain r = js_opt_num (sourceDomain r)"

definition relayMarkMintSubmitted ::
  "relay_record option \<Rightarrow> string \<Rightarrow> jsv \<Rightarrow> int \<Rightarrow> relay_error + relay_outcome" where
  "relayMarkMintSubmitted current token hash now =
     ebind (requireNow now) (\<lambda>_.
       case current of
         None \<Rightarrow> Inl RELAY_CAS_CONFLICT
       | Some r0 \<Rightarrow>
           ebind (normalizeMintTxHash (recordDomain r0) hash) (\<lambda>h.
             ebind (assertLease current token now) (\<lambda>r.
               if rstate r \<noteq> mint_submitting then Inl RELAY_CAS_CONFLICT
               else Inr (Next (r\<lparr>rstate := mint_submitted, mintTxHash := Some h,
                                updatedAt := now\<rparr>)))))"

definition relayFinishMinted ::
  "relay_record option \<Rightarrow> string \<Rightarrow> jsv \<Rightarrow> int \<Rightarrow> relay_error + relay_outcome" where
  "relayFinishMinted current token hash now =
     ebind (requireNow now) (\<lambda>_.
       ebind (assertLease current token now) (\<lambda>r.
         if rstate r \<noteq> mint_submitted then Inl RELAY_CAS_CONFLICT
         else ebind (normalizeMintTxHash (recordDomain r) hash) (\<lambda>h.
           if Some h \<noteq> mintTxHash r then Inl RELAY_CAS_CONFLICT
           else Inr (Next (r\<lparr>rstate := minted, leaseToken := None, leaseExpiresAt := None,
                            updatedAt := now\<rparr>)))))"

definition relayFinishBlocked ::
  "relay_record option \<Rightarrow> string \<Rightarrow> string \<Rightarrow> int \<Rightarrow> relay_error + relay_outcome" where
  "relayFinishBlocked current token reason now =
     ebind (requireNow now) (\<lambda>_.
       if reason \<notin> set RELAY_BLOCKED_REASONS then Inl RELAY_VALIDATION
       else ebind (assertLease current token now) (\<lambda>r.
         if rstate r \<in> set RELAY_TERMINAL_STATES then Inl RELAY_CAS_CONFLICT
         else Inr (Next (r\<lparr>rstate := blocked, reasonCode := Some reason, leaseToken := None,
                          leaseExpiresAt := None, updatedAt := now\<rparr>))))"

text \<open>The mint hash is optional: \<open>JUndef\<close> keeps the recorded one.\<close>

definition relayFinishUncertain ::
  "relay_record option \<Rightarrow> string \<Rightarrow> jsv \<Rightarrow> string \<Rightarrow> int \<Rightarrow> relay_error + relay_outcome" where
  "relayFinishUncertain current token hash reason now =
     ebind (requireNow now) (\<lambda>_.
       if reason \<notin> set RELAY_UNCERTAIN_REASONS then Inl RELAY_VALIDATION
       else case current of
         None \<Rightarrow> Inl RELAY_CAS_CONFLICT
       | Some r0 \<Rightarrow>
           ebind (if hash = JUndef then Inr None
                  else ebind (normalizeMintTxHash (recordDomain r0) hash) (\<lambda>h. Inr (Some h))) (\<lambda>h.
             ebind (assertLease current token now) (\<lambda>r.
               if rstate r \<noteq> mint_submitting \<and> rstate r \<noteq> mint_submitted
               then Inl RELAY_CAS_CONFLICT
               else Inr (Next (r\<lparr>rstate := uncertain, reasonCode := Some reason,
                                mintTxHash := (case h of None \<Rightarrow> mintTxHash r | Some t \<Rightarrow> Some t),
                                leaseToken := None, leaseExpiresAt := None,
                                updatedAt := now\<rparr>)))))"

definition relayRelease :: "relay_record option \<Rightarrow> string \<Rightarrow> int \<Rightarrow> relay_error + relay_outcome" where
  "relayRelease current token now =
     ebind (requireNow now) (\<lambda>_.
       ebind (assertLease current token now) (\<lambda>r.
         if rstate r \<notin> set RELAY_CLAIMABLE_STATES then Inl RELAY_CAS_CONFLICT
         else Inr (Next (r\<lparr>leaseToken := None, leaseExpiresAt := None, updatedAt := now\<rparr>))))"

definition relayReconcileExpired :: "relay_record \<Rightarrow> int \<Rightarrow> relay_record" where
  "relayReconcileExpired r now =
     (if rstate r = mint_submitting then
        r\<lparr>rstate := uncertain, reasonCode := Some ''submission_lease_expired'',
          leaseToken := None, leaseExpiresAt := None, updatedAt := now\<rparr>
      else r\<lparr>leaseToken := None, leaseExpiresAt := None, updatedAt := now\<rparr>)"

end
