(* ===== verification/RelayStore.thy ===== *)
theory RelayStore
  imports RelayRecord
begin

section \<open>The checkpointed relay store\<close>

text \<open>
  \<open>createRelayStore\<close> of \<open>relayer/src/store.mjs\<close>: the rows are a dictionary from execution id to
  record, and every operation is one synchronous critical section that loads the rows, computes
  the transition fully and assigns last, so a thrown error leaves the rows as they were. An
  operation returns the new rows together with its result. Lease tokens come from
  \<open>randomUUID\<close>; the token of a claim is an argument. The sweep queries sort with comparators
  that are lexicographic orders, modelled by \<open>sort_key\<close> on the corresponding tuple.
\<close>

type_synonym rows = "(string \<times> relay_record) list"

text \<open>One guarded transition of the row \<open>eid\<close> inside \<open>transact\<close>.\<close>

definition transact ::
  "rows \<Rightarrow> string \<Rightarrow> (relay_record option \<Rightarrow> relay_error + relay_outcome)
    \<Rightarrow> relay_error + (rows \<times> relay_record)" where
  "transact rows eid f =
     ebind (f (map_of rows eid)) (\<lambda>out. case out of
         Next r \<Rightarrow> Inr (AList.update eid r rows, r)
       | Unchanged \<Rightarrow> (case map_of rows eid of
             Some r \<Rightarrow> Inr (rows, r) | None \<Rightarrow> Inl RELAY_CAS_CONFLICT))"

definition enqueue ::
  "(string \<Rightarrow> string) \<Rightarrow> rows \<Rightarrow> string \<Rightarrow> jsv \<Rightarrow> jsv \<Rightarrow> jsv \<Rightarrow> int
    \<Rightarrow> relay_error + (rows \<times> relay_record)" where
  "enqueue sha256 rows eid sd burnHash x now =
     ebind (relayEnqueueDecision sha256 (map_of rows eid)
             (\<lambda>d burn digest. list_ex (\<lambda>r. relayIdentityConflicts r d burn digest) (js_values rows))
             eid sd burnHash x now) (\<lambda>(r, changed).
       Inr (if changed then AList.update eid r rows else rows, r))"

definition get :: "rows \<Rightarrow> string \<Rightarrow> relay_record option" where
  "get rows eid = map_of rows eid"

definition claim ::
  "rows \<Rightarrow> string \<Rightarrow> int \<Rightarrow> int \<Rightarrow> string \<Rightarrow> relay_error + (rows \<times> relay_record option)" where
  "claim rows eid now leaseMs newToken =
     ebind (relayClaim (map_of rows eid) now leaseMs newToken) (\<lambda>out. case out of
         None \<Rightarrow> Inr (rows, None)
       | Some r \<Rightarrow> Inr (AList.update eid r rows, Some r))"

definition renew ::
  "rows \<Rightarrow> string \<Rightarrow> string \<Rightarrow> int \<Rightarrow> int \<Rightarrow> relay_error + (rows \<times> relay_record)" where
  "renew rows eid token now leaseMs = transact rows eid (\<lambda>c. relayRenew c token now leaseMs)"

definition recordAttested ::
  "(string \<Rightarrow> string) \<Rightarrow> rows \<Rightarrow> string \<Rightarrow> string \<Rightarrow> jsv \<Rightarrow> jsv \<Rightarrow> jsv \<Rightarrow> int
    \<Rightarrow> relay_error + (rows \<times> relay_record)" where
  "recordAttested sha256 rows eid token message nonce attestation now =
     transact rows eid (\<lambda>c. relayRecordAttested sha256 c token message nonce attestation now)"

definition markMintSubmitting ::
  "rows \<Rightarrow> string \<Rightarrow> string \<Rightarrow> int \<Rightarrow> relay_error + (rows \<times> relay_record)" where
  "markMintSubmitting rows eid token now = transact rows eid (\<lambda>c. relayMarkMintSubmitting c token now)"

definition markMintSubmitted ::
  "rows \<Rightarrow> string \<Rightarrow> string \<Rightarrow> jsv \<Rightarrow> int \<Rightarrow> relay_error + (rows \<times> relay_record)" where
  "markMintSubmitted rows eid token hash now =
     transact rows eid (\<lambda>c. relayMarkMintSubmitted c token hash now)"

definition finishMinted ::
  "rows \<Rightarrow> string \<Rightarrow> string \<Rightarrow> jsv \<Rightarrow> int \<Rightarrow> relay_error + (rows \<times> relay_record)" where
  "finishMinted rows eid token hash now = transact rows eid (\<lambda>c. relayFinishMinted c token hash now)"

definition finishBlocked ::
  "rows \<Rightarrow> string \<Rightarrow> string \<Rightarrow> string \<Rightarrow> int \<Rightarrow> relay_error + (rows \<times> relay_record)" where
  "finishBlocked rows eid token reason now =
     transact rows eid (\<lambda>c. relayFinishBlocked c token reason now)"

definition finishUncertain ::
  "rows \<Rightarrow> string \<Rightarrow> string \<Rightarrow> jsv \<Rightarrow> string \<Rightarrow> int \<Rightarrow> relay_error + (rows \<times> relay_record)" where
  "finishUncertain rows eid token hash reason now =
     transact rows eid (\<lambda>c. relayFinishUncertain c token hash reason now)"

definition release :: "rows \<Rightarrow> string \<Rightarrow> string \<Rightarrow> int \<Rightarrow> relay_error + (rows \<times> relay_record)" where
  "release rows eid token now = transact rows eid (\<lambda>c. relayRelease c token now)"

subsection \<open>Sweep queries\<close>

definition relayByCreated :: "relay_record \<Rightarrow> int \<times> string" where
  "relayByCreated r = (createdAt r, execId r)"

definition relayByActionableAge :: "relay_record \<Rightarrow> int \<times> int \<times> string" where
  "relayByActionableAge r = (updatedAt r, createdAt r, execId r)"

definition requireLimit :: "int \<Rightarrow> relay_error + unit" where
  "requireLimit limit = require (safe_int limit \<and> 0 < limit) RELAY_VALIDATION"

definition actionable :: "relay_record \<Rightarrow> bool" where
  "actionable r \<longleftrightarrow> rstate r \<in> set RELAY_CLAIMABLE_STATES \<and> leaseToken r = None"

definition listForSweep ::
  "rows \<Rightarrow> int \<Rightarrow> int \<Rightarrow> bool \<Rightarrow> relay_error + relay_record list" where
  "listForSweep rows now limit includeTerminal =
     ebind (requireNow now) (\<lambda>_. ebind (requireLimit limit) (\<lambda>_. Inr (take (nat limit)
       (if includeTerminal
        then sort_key relayByCreated (filter (\<lambda>r. rstate r \<noteq> minted) (js_values rows))
        else sort_key relayByActionableAge (filter actionable (js_values rows))))))"

definition listSweepSummary :: "rows \<Rightarrow> int \<Rightarrow> int \<Rightarrow> relay_error + relay_record list" where
  "listSweepSummary rows now limit =
     ebind (requireNow now) (\<lambda>_. ebind (requireLimit limit) (\<lambda>_. Inr (take (nat limit)
       (sort_key relayByCreated (filter (\<lambda>r. rstate r \<in> {blocked, uncertain} \<or> leaseToken r \<noteq> None)
         (js_values rows))))))"

subsection \<open>Expired leases\<close>

definition expiredLease :: "relay_record \<Rightarrow> int \<Rightarrow> bool" where
  "expiredLease r now \<longleftrightarrow>
     leaseToken r \<noteq> None
   \<and> (case leaseExpiresAt r of None \<Rightarrow> False | Some t \<Rightarrow> safe_int t \<and> t \<le> now)
   \<and> rstate r \<in> {attestation_pending, attested, mint_submitting, mint_submitted}"

definition reconcileKey :: "relay_record \<Rightarrow> int \<times> int \<times> string" where
  "reconcileKey r = (case leaseExpiresAt r of None \<Rightarrow> 0 | Some t \<Rightarrow> t, createdAt r, execId r)"

definition expiredBatch :: "rows \<Rightarrow> int \<Rightarrow> int \<Rightarrow> relay_record list" where
  "expiredBatch rows now limit =
     take (nat limit) (sort_key reconcileKey (filter (\<lambda>r. expiredLease r now) (js_values rows)))"

definition reconcileExpired ::
  "rows \<Rightarrow> int \<Rightarrow> int \<Rightarrow> relay_error + (rows \<times> relay_record list)" where
  "reconcileExpired rows now limit =
     ebind (requireNow now) (\<lambda>_. ebind (requireLimit limit) (\<lambda>_.
       let expired = expiredBatch rows now limit in
       Inr (fold (\<lambda>r rs. AList.update (execId r) (relayReconcileExpired r now) rs) expired rows,
            map (\<lambda>r. relayReconcileExpired r now) expired)))"

definition reconcileOne ::
  "rows \<Rightarrow> string \<Rightarrow> int \<Rightarrow> relay_error + (rows \<times> relay_record option)" where
  "reconcileOne rows eid now =
     ebind (requireNow now) (\<lambda>_.
       case map_of rows eid of
         None \<Rightarrow> Inr (rows, None)
       | Some r \<Rightarrow>
           if rstate r \<in> set RELAY_TERMINAL_STATES \<or> leaseToken r = None
             \<or> (case leaseExpiresAt r of None \<Rightarrow> now < 0 | Some t \<Rightarrow> now < t)
           then Inr (rows, Some r)
           else let r' = relayReconcileExpired r now in Inr (AList.update eid r' rows, Some r'))"

subsection \<open>The redacted status\<close>

record relay_status =
  s_execId :: string
  s_sourceDomain :: "int option"
  s_state :: relay_state
  s_burnTxHash :: "string option"
  s_mintTxHash :: "string option"
  s_reasonCode :: "string option"
  s_attempts :: int
  s_createdAt :: int
  s_updatedAt :: int

definition relayStatusOf :: "relay_record option \<Rightarrow> relay_status option" where
  "relayStatusOf ro = (case ro of None \<Rightarrow> None | Some r \<Rightarrow> Some
     \<lparr>s_execId = execId r, s_sourceDomain = sourceDomain r, s_state = rstate r,
      s_burnTxHash = burnTxHash r, s_mintTxHash = mintTxHash r, s_reasonCode = reasonCode r,
      s_attempts = attempts r, s_createdAt = createdAt r, s_updatedAt = updatedAt r\<rparr>)"

definition statusOf :: "rows \<Rightarrow> string \<Rightarrow> relay_status option" where
  "statusOf rows eid = relayStatusOf (map_of rows eid)"

end
