(* ===== verification/RelayMachine.thy ===== *)
theory RelayMachine
  imports RelayStore "HOL-Library.Multiset"
begin

section \<open>The relay state machine and its refinement by the store\<close>

text \<open>
  The state machine the store documents,
  \<open>attestation_pending \<rightarrow> attested \<rightarrow> mint_submitting \<rightarrow> mint_submitted \<rightarrow> minted\<close> with the
  terminal states \<open>blocked\<close> and \<open>uncertain\<close>, as a step relation on states, and the proof that
  every store operation refines it: it moves at most the row it names along that relation and
  never touches a row's immutable identity. The safety theorems about arbitrary interleavings
  of store operations are proved once, in the locale \<open>fenced_machine\<close>, for any machine with a
  non-decreasing rank and a fence, and then read off by interpretation.
\<close>

subsection \<open>The abstract machine\<close>

inductive relay_move :: "relay_state \<Rightarrow> relay_state \<Rightarrow> bool" where
  stay: "s \<notin> set RELAY_TERMINAL_STATES \<Longrightarrow> relay_move s s"
| attest: "relay_move attestation_pending attested"
| fence: "relay_move attested mint_submitting"
| checkpoint: "relay_move mint_submitting mint_submitted"
| mint: "relay_move mint_submitted minted"
| block: "s \<notin> set RELAY_TERMINAL_STATES \<Longrightarrow> relay_move s blocked"
| unsure: "s \<in> {mint_submitting, mint_submitted} \<Longrightarrow> relay_move s uncertain"

inductive_cases from_terminal: "relay_move minted s" "relay_move blocked s" "relay_move uncertain s"
inductive_simps relay_move_to_attested: "relay_move s attested"
inductive_simps relay_move_to_submitting: "relay_move s mint_submitting"

primrec stage :: "relay_state \<Rightarrow> nat" where
  "stage attestation_pending = 0"
| "stage attested = 1"
| "stage mint_submitting = 2"
| "stage mint_submitted = 3"
| "stage minted = 4"
| "stage blocked = 4"
| "stage uncertain = 4"

lemma stage_le: "stage s \<le> 4"
  by (cases s) simp_all

lemma relay_move_stage: "relay_move s s' \<Longrightarrow> stage s \<le> stage s'"
  by (induction rule: relay_move.induct) (simp_all add: stage_le)

lemma terminal_no_move: "s \<in> set RELAY_TERMINAL_STATES \<Longrightarrow> \<not> relay_move s s'"
  by (auto simp: RELAY_TERMINAL_STATES_def elim: relay_move.cases)

lemma terminal_iff_stage: "s \<in> set RELAY_TERMINAL_STATES \<longleftrightarrow> stage s = 4"
  by (cases s) (auto simp: RELAY_TERMINAL_STATES_def)

definition same_identity :: "relay_record \<Rightarrow> relay_record \<Rightarrow> bool" where
  "same_identity r r' \<longleftrightarrow>
     execId r' = execId r \<and> sourceDomain r' = sourceDomain r \<and> burnTxHash r' = burnTxHash r
   \<and> r_expectation r' = r_expectation r \<and> r_expectationDigest r' = r_expectationDigest r
   \<and> createdAt r' = createdAt r"

definition row_evolves :: "relay_record \<Rightarrow> relay_record \<Rightarrow> bool" where
  "row_evolves r r' \<longleftrightarrow> same_identity r r' \<and> relay_move (rstate r) (rstate r')"

lemmas row_evolves_defs = row_evolves_def same_identity_def

subsection \<open>Each transition moves its record along the machine\<close>

lemma assertLease_Inr:
  "assertLease c token now = Inr r \<longleftrightarrow>
     c = Some r \<and> token \<noteq> [] \<and> leaseToken r = Some token
   \<and> (\<exists>t. leaseExpiresAt r = Some t \<and> safe_int t \<and> now < t)"
  by (auto simp: assertLease_def split: option.splits if_splits)

lemma requireNow_Inr [simp]: "requireNow now = Inr u \<longleftrightarrow> safe_int now"
  by (simp add: requireNow_def)

lemma requireLeaseArgs_Inr [simp]:
  "requireLeaseArgs now ms = Inr u \<longleftrightarrow> safe_int now \<and> safe_int ms \<and> 0 < ms"
  by (auto simp: requireLeaseArgs_def ebind_Inr_iff)

lemma requireLimit_Inr [simp]: "requireLimit n = Inr u \<longleftrightarrow> safe_int n \<and> 0 < n"
  by (simp add: requireLimit_def)

lemma claimable_not_terminal: "s \<in> set RELAY_CLAIMABLE_STATES \<Longrightarrow> s \<notin> set RELAY_TERMINAL_STATES"
  by (auto simp: RELAY_CLAIMABLE_STATES_def RELAY_TERMINAL_STATES_def)

lemmas claimable_stay [intro] = relay_move.stay [OF claimable_not_terminal]

lemma attested_stay [intro]: "relay_move attested attested"
  by (rule relay_move.stay) (simp add: RELAY_TERMINAL_STATES_def)

lemma relayClaim_evolves: "relayClaim (Some r) now ms token = Inr (Some r') \<Longrightarrow> row_evolves r r'"
  by (auto simp: relayClaim_def ebind_Inr_iff row_evolves_defs split: if_splits)

lemma relayRenew_evolves: "relayRenew (Some r) token now ms = Inr (Next r') \<Longrightarrow> row_evolves r r'"
  by (auto simp: relayRenew_def ebind_Inr_iff assertLease_Inr row_evolves_defs
      intro: relay_move.stay split: if_splits)

lemma relayRecordAttested_evolves:
  "relayRecordAttested sha (Some r) token m n a now = Inr (Next r') \<Longrightarrow> row_evolves r r'"
  by (auto simp: relayRecordAttested_def ebind_Inr_iff assertLease_Inr row_evolves_defs
      intro: relay_move.attest split: if_splits)

lemma relayMarkMintSubmitting_evolves:
  "relayMarkMintSubmitting (Some r) token now = Inr (Next r') \<Longrightarrow> row_evolves r r'"
  by (auto simp: relayMarkMintSubmitting_def ebind_Inr_iff assertLease_Inr row_evolves_defs
      intro: relay_move.intros split: if_splits)

lemma relayMarkMintSubmitted_evolves:
  "relayMarkMintSubmitted (Some r) token h now = Inr (Next r') \<Longrightarrow> row_evolves r r'"
  by (auto simp: relayMarkMintSubmitted_def ebind_Inr_iff assertLease_Inr row_evolves_defs
      intro: relay_move.intros split: if_splits)

lemma relayFinishMinted_evolves:
  "relayFinishMinted (Some r) token h now = Inr (Next r') \<Longrightarrow> row_evolves r r'"
  by (auto simp: relayFinishMinted_def ebind_Inr_iff assertLease_Inr row_evolves_defs
      intro: relay_move.intros split: if_splits)

lemma relayFinishBlocked_evolves:
  "relayFinishBlocked (Some r) token reason now = Inr (Next r') \<Longrightarrow> row_evolves r r'"
  by (auto simp: relayFinishBlocked_def ebind_Inr_iff assertLease_Inr row_evolves_defs
      intro: relay_move.intros split: if_splits)

lemma relayFinishUncertain_evolves:
  "relayFinishUncertain (Some r) token h reason now = Inr (Next r') \<Longrightarrow> row_evolves r r'"
  by (auto simp: relayFinishUncertain_def ebind_Inr_iff assertLease_Inr row_evolves_defs
      intro: relay_move.intros split: if_splits)

lemma relayRelease_evolves: "relayRelease (Some r) token now = Inr (Next r') \<Longrightarrow> row_evolves r r'"
  by (auto simp: relayRelease_def ebind_Inr_iff assertLease_Inr row_evolves_defs
      split: if_splits)

lemma relayReconcileExpired_evolves:
  "rstate r \<notin> set RELAY_TERMINAL_STATES \<Longrightarrow> row_evolves r (relayReconcileExpired r now)"
  by (auto simp: relayReconcileExpired_def row_evolves_defs intro: relay_move.intros)

lemma transition_None:
  "relayRenew None token now ms \<noteq> Inr out"
  "relayRecordAttested sha None token m n a now \<noteq> Inr out"
  "relayMarkMintSubmitting None token now \<noteq> Inr out"
  "relayMarkMintSubmitted None token h now \<noteq> Inr out"
  "relayFinishMinted None token h now \<noteq> Inr out"
  "relayFinishBlocked None token reason now \<noteq> Inr out"
  "relayFinishUncertain None token h reason now \<noteq> Inr out"
  "relayRelease None token now \<noteq> Inr out"
  by (auto simp: relayRenew_def relayRecordAttested_def relayMarkMintSubmitting_def
      relayMarkMintSubmitted_def relayFinishMinted_def relayFinishBlocked_def
      relayFinishUncertain_def relayRelease_def ebind_Inr_iff assertLease_Inr split: if_splits)


subsection \<open>Store operations as data\<close>

text \<open>
  The twelve operations that can change the rows, with their arguments, so that an interleaving
  of workers, retries and recoveries is a list of operations. A thrown error changes nothing.
\<close>

datatype store_op =
    Enqueue string jsv jsv jsv int
  | Claim string int int string
  | Renew string string int int
  | RecordAttested string string jsv jsv jsv int
  | MarkMintSubmitting string string int
  | MarkMintSubmitted string string jsv int
  | FinishMinted string string jsv int
  | FinishBlocked string string string int
  | FinishUncertain string string jsv string int
  | Release string string int
  | ReconcileExpired int int
  | ReconcileOne string int

definition rows_of :: "relay_error + (rows \<times> 'a) \<Rightarrow> relay_error + rows" where
  "rows_of m = ebind m (\<lambda>(rows, _). Inr rows)"

fun store_exec :: "(string \<Rightarrow> string) \<Rightarrow> rows \<Rightarrow> store_op \<Rightarrow> relay_error + rows" where
  "store_exec sha rows (Enqueue eid sd burn x now) = rows_of (enqueue sha rows eid sd burn x now)"
| "store_exec sha rows (Claim eid now ms tok) = rows_of (claim rows eid now ms tok)"
| "store_exec sha rows (Renew eid tok now ms) = rows_of (renew rows eid tok now ms)"
| "store_exec sha rows (RecordAttested eid tok m n a now) =
     rows_of (recordAttested sha rows eid tok m n a now)"
| "store_exec sha rows (MarkMintSubmitting eid tok now) = rows_of (markMintSubmitting rows eid tok now)"
| "store_exec sha rows (MarkMintSubmitted eid tok h now) = rows_of (markMintSubmitted rows eid tok h now)"
| "store_exec sha rows (FinishMinted eid tok h now) = rows_of (finishMinted rows eid tok h now)"
| "store_exec sha rows (FinishBlocked eid tok why now) = rows_of (finishBlocked rows eid tok why now)"
| "store_exec sha rows (FinishUncertain eid tok h why now) =
     rows_of (finishUncertain rows eid tok h why now)"
| "store_exec sha rows (Release eid tok now) = rows_of (release rows eid tok now)"
| "store_exec sha rows (ReconcileExpired now limit) = rows_of (reconcileExpired rows now limit)"
| "store_exec sha rows (ReconcileOne eid now) = rows_of (reconcileOne rows eid now)"

definition store_apply :: "(string \<Rightarrow> string) \<Rightarrow> rows \<Rightarrow> store_op \<Rightarrow> rows" where
  "store_apply sha rows op = (case store_exec sha rows op of Inl _ \<Rightarrow> rows | Inr rows' \<Rightarrow> rows')"

lemma rows_of_Inr: "rows_of m = Inr rows' \<longleftrightarrow> (\<exists>a. m = Inr (rows', a))"
  by (auto simp: rows_of_def ebind_Inr_iff)

text \<open>The rows of a store: distinct keys, each row filed under its own execution id.\<close>

definition rows_ok :: "rows \<Rightarrow> bool" where
  "rows_ok rows \<longleftrightarrow> distinct (map fst rows) \<and> (\<forall>(k, r) \<in> set rows. execId r = k)"

lemma rows_ok_Nil [simp]: "rows_ok []"
  by (simp add: rows_ok_def)

lemma rows_ok_distinct: "rows_ok rows \<Longrightarrow> distinct (map fst rows)"
  by (simp add: rows_ok_def)

lemma rows_ok_lookup: "rows_ok rows \<Longrightarrow> map_of rows eid = Some r \<Longrightarrow> execId r = eid"
  by (auto simp: rows_ok_def dest: map_of_SomeD)

lemma rows_ok_update: "rows_ok rows \<Longrightarrow> execId r = eid \<Longrightarrow> rows_ok (AList.update eid r rows)"
  by (auto simp: rows_ok_def update_set_other split: if_splits)

lemma rows_ok_value:
  "rows_ok rows \<Longrightarrow> r \<in> set (js_values rows) \<Longrightarrow> map_of rows (execId r) = Some r"
  by (auto simp: rows_ok_def)

subsection \<open>What one operation does to the rows\<close>

text \<open>
  A row that is there stays there, unchanged or moved along the machine with its identity
  kept; a row that appears is fresh pending work.
\<close>

definition rows_evolve :: "rows \<Rightarrow> rows \<Rightarrow> bool" where
  "rows_evolve rows rows' \<longleftrightarrow>
     rows_ok rows'
   \<and> (\<forall>eid. case map_of rows eid of
        Some r \<Rightarrow> (\<exists>r'. map_of rows' eid = Some r' \<and> (r' = r \<or> row_evolves r r'))
      | None \<Rightarrow> (\<forall>r'. map_of rows' eid = Some r' \<longrightarrow> rstate r' = attestation_pending))"

lemma rows_evolve_refl: "rows_ok rows \<Longrightarrow> rows_evolve rows rows"
  by (auto simp: rows_evolve_def split: option.splits)

lemma rows_evolve_update:
  assumes "rows_ok rows" "map_of rows eid = Some r" "row_evolves r r'"
  shows "rows_evolve rows (AList.update eid r' rows)"
proof -
  have "execId r' = eid"
    using assms rows_ok_lookup by (auto simp: row_evolves_defs)
  then show ?thesis
    using assms rows_ok_update by (auto simp: rows_evolve_def split: option.splits)
qed

lemma rows_evolve_insert:
  assumes "rows_ok rows" "map_of rows eid = None" "execId r = eid" "rstate r = attestation_pending"
  shows "rows_evolve rows (AList.update eid r rows)"
  using assms rows_ok_update by (auto simp: rows_evolve_def split: option.splits)

lemma transact_InrE:
  assumes "transact rows eid f = Inr (rows', r')" and "\<And>out. f None \<noteq> Inr out"
  obtains r where "map_of rows eid = Some r" "f (Some r) = Inr (Next r')"
      "rows' = AList.update eid r' rows"
    | "map_of rows eid = Some r'" "f (Some r') = Inr Unchanged" "rows' = rows"
proof -
  obtain out where out: "f (map_of rows eid) = Inr out"
    using assms(1) by (auto simp: transact_def ebind_Inr_iff)
  then obtain r where r: "map_of rows eid = Some r"
    using assms(2) by (cases "map_of rows eid") auto
  show thesis
    using assms(1) out r that by (cases out) (auto simp: transact_def)
qed

lemma transact_evolves:
  assumes "rows_ok rows" "transact rows eid f = Inr (rows', r')"
    and "\<And>out. f None \<noteq> Inr out"
    and "\<And>r r''. f (Some r) = Inr (Next r'') \<Longrightarrow> row_evolves r r''"
  shows "rows_evolve rows rows'"
  using assms(2,3) by (rule transact_InrE) (auto intro: rows_evolve_refl rows_evolve_update assms(1,4))

text \<open>The two ways an enqueue succeeds: an exact retry, or a fresh identity.\<close>

lemma enqueue_InrE:
  assumes "enqueue sha rows eid sd burnHash x now = Inr (rows', r)"
  obtains (retry) d e burn where
      "normalizeSourceDomain sd = Inr d" "canonicalizeExpectation x = Inr e"
      "normalizeBurnTxHash sd burnHash = Inr burn"
      "map_of rows eid = Some r" "rows' = rows" "eid \<noteq> []"
      "sourceDomain r = Some d" "burnTxHash r = Some burn"
      "r_expectationDigest r = Some (expectationDigest sha e)"
    | (fresh) d e burn where
      "normalizeSourceDomain sd = Inr d" "canonicalizeExpectation x = Inr e"
      "normalizeBurnTxHash sd burnHash = Inr burn"
      "map_of rows eid = None" "rows' = AList.update eid r rows" "eid \<noteq> []"
      "e_sourceDomain e = sd"
      "\<not> list_ex (\<lambda>r. relayIdentityConflicts r d burn (expectationDigest sha e)) (js_values rows)"
      "relayNewPendingRecord eid d burn e (expectationDigest sha e) now = Inr r"
proof -
  from assms obtain d e where d: "normalizeSourceDomain sd = Inr d" "canonicalizeExpectation x = Inr e"
      "eid \<noteq> []"
    by (auto simp: enqueue_def relayEnqueueDecision_def ebind_Inr_iff split: if_splits)
  show thesis
  proof (cases "map_of rows eid")
    case None
    with assms d show thesis
      by (auto simp: enqueue_def relayEnqueueDecision_def ebind_Inr_iff Let_def split: if_splits
          intro!: fresh)
  next
    case (Some r0)
    with assms d show thesis
      by (auto simp: enqueue_def relayEnqueueDecision_def ebind_Inr_iff Let_def
          split: if_splits sum.splits intro!: retry)
  qed
qed

lemma relayNewPendingRecord_Inr:
  assumes "relayNewPendingRecord eid d burn e digest now = Inr r"
  shows "execId r = eid" "sourceDomain r = Some d" "burnTxHash r = Some burn"
    "r_expectation r = Some e" "r_expectationDigest r = Some digest" "rstate r = attestation_pending"
    "leaseToken r = None" "leaseExpiresAt r = None" "safe_int now" "createdAt r = now" "updatedAt r = now"
    "messageHex r = None" "nonceHex r = None" "messageDigest r = None" "attestationHex r = None"
    "attestationDigest r = None" "evidenceVersion r = 0" "mintTxHash r = None" "reasonCode r = None"
    "attempts r = 0"
  using assms by (auto simp: relayNewPendingRecord_def ebind_Inr_iff)

lemma enqueue_evolves:
  assumes "rows_ok rows" "enqueue sha rows eid sd burn x now = Inr (rows', r)"
  shows "rows_evolve rows rows'"
  using assms(2)
proof (cases rule: enqueue_InrE)
  case retry
  then show ?thesis using assms(1) rows_evolve_refl by simp
next
  case fresh
  then show ?thesis using assms(1) rows_evolve_insert relayNewPendingRecord_Inr(1,6) by simp
qed

lemma claim_evolves:
  assumes "rows_ok rows" "claim rows eid now ms tok = Inr (rows', out)"
  shows "rows_evolve rows rows'"
proof (cases "map_of rows eid")
  case None
  with assms show ?thesis
    by (auto simp: claim_def relayClaim_def ebind_Inr_iff rows_evolve_refl)
next
  case (Some r)
  with assms show ?thesis
    using rows_evolve_update [OF assms(1) Some] relayClaim_evolves rows_evolve_refl
    by (auto simp: claim_def ebind_Inr_iff split: option.splits)
qed

lemma reconcileOne_evolves:
  assumes "rows_ok rows" "reconcileOne rows eid now = Inr (rows', out)"
  shows "rows_evolve rows rows'"
  using assms rows_evolve_refl rows_evolve_update relayReconcileExpired_evolves
  by (auto simp: reconcileOne_def ebind_Inr_iff Let_def split: option.splits if_splits)


text \<open>
  Reconciling a batch: the rows in the batch are distinct, non-terminal rows of the store, so
  the loop updates each of them once, from its loaded value.
\<close>

lemma expiredBatch_rows:
  assumes "rows_ok rows"
  shows "distinct (map execId (expiredBatch rows now limit))"
    and "r \<in> set (expiredBatch rows now limit) \<Longrightarrow>
      map_of rows (execId r) = Some r \<and> expiredLease r now"
proof -
  let ?vs = "filter (\<lambda>r. expiredLease r now) (js_values rows)"
  have sub: "r \<in> set (expiredBatch rows now limit) \<Longrightarrow> r \<in> set ?vs" for r
    by (auto simp: expiredBatch_def dest!: in_set_takeD)
  then show "r \<in> set (expiredBatch rows now limit) \<Longrightarrow>
      map_of rows (execId r) = Some r \<and> expiredLease r now"
    using rows_ok_value [OF assms] by force
  have "map execId (js_values rows) = map fst rows"
    using assms by (auto simp: rows_ok_def)
  then have "distinct (map execId (js_values rows))"
    using rows_ok_distinct [OF assms] by metis
  then have "distinct (map execId ?vs)"
    by (simp add: distinct_map_filter)
  moreover have "mset (map execId (sort_key reconcileKey ?vs)) = mset (map execId ?vs)"
    by simp
  ultimately have "distinct (map execId (sort_key reconcileKey ?vs))"
    by (metis mset_eq_imp_distinct_iff)
  then show "distinct (map execId (expiredBatch rows now limit))"
    by (simp add: expiredBatch_def take_map [symmetric])
qed

lemma fold_reconcile_lookup:
  assumes "distinct (map execId rs)"
  shows "map_of (fold (\<lambda>r rows. AList.update (execId r) (relayReconcileExpired r now) rows) rs rows) eid =
    (case find (\<lambda>r. execId r = eid) rs of
       Some r \<Rightarrow> Some (relayReconcileExpired r now) | None \<Rightarrow> map_of rows eid)"
  using assms
proof (induction rs arbitrary: rows)
  case (Cons r rs)
  from Cons.prems have "execId r \<notin> execId ` set rs" by simp
  then have "execId r = eid \<Longrightarrow> find (\<lambda>r. execId r = eid) rs = None"
    unfolding find_None_iff by (metis imageI)
  with Cons show ?case by (auto split: option.splits)
qed simp

lemma fold_reconcile_ok:
  assumes "rows_ok rows"
  shows "rows_ok (fold (\<lambda>r rows. AList.update (execId r) (relayReconcileExpired r now) rows) rs rows)"
  using assms
proof (induction rs arbitrary: rows)
  case (Cons r rs)
  have "execId (relayReconcileExpired r now) = execId r"
    by (simp add: relayReconcileExpired_def)
  with Cons show ?case by (simp add: rows_ok_update)
qed simp

lemma expiredLease_not_terminal: "expiredLease r now \<Longrightarrow> rstate r \<notin> set RELAY_TERMINAL_STATES"
  by (auto simp: expiredLease_def RELAY_TERMINAL_STATES_def)

text \<open>The row an execution id has after a batch reconciliation.\<close>

lemma reconcileExpired_lookup:
  assumes ok: "rows_ok rows" and ex: "reconcileExpired rows now limit = Inr (rows', out)"
  shows "map_of rows' eid = (case map_of rows eid of
      None \<Rightarrow> None
    | Some r \<Rightarrow> Some (if r \<in> set (expiredBatch rows now limit) then relayReconcileExpired r now else r))"
proof -
  let ?b = "expiredBatch rows now limit"
  from ex have rows': "rows' =
      fold (\<lambda>r rows. AList.update (execId r) (relayReconcileExpired r now) rows) ?b rows"
    by (auto simp: reconcileExpired_def ebind_Inr_iff Let_def)
  show ?thesis
  proof (cases "find (\<lambda>r. execId r = eid) ?b")
    case None
    then have "\<forall>r \<in> set ?b. execId r \<noteq> eid" by (simp add: find_None_iff)
    then have "map_of rows eid = Some r \<Longrightarrow> r \<notin> set ?b" for r
      using rows_ok_lookup [OF ok] by blast
    then show ?thesis
      using None expiredBatch_rows(1) [OF ok] unfolding rows'
      by (auto simp: fold_reconcile_lookup split: option.splits)
  next
    case (Some r)
    then have r: "r \<in> set ?b" "execId r = eid" by (auto simp: find_Some_iff)
    then have "map_of rows eid = Some r" using expiredBatch_rows(2) [OF ok] by blast
    then show ?thesis
      using Some r expiredBatch_rows(1) [OF ok] unfolding rows'
      by (simp add: fold_reconcile_lookup)
  qed
qed

lemma reconcileExpired_evolves:
  assumes "rows_ok rows" "reconcileExpired rows now limit = Inr (rows', out)"
  shows "rows_evolve rows rows'"
proof -
  have ok: "rows_ok rows'"
    using assms fold_reconcile_ok by (auto simp: reconcileExpired_def ebind_Inr_iff Let_def)
  have ev: "row_evolves r (relayReconcileExpired r now)" if "r \<in> set (expiredBatch rows now limit)" for r
    using that expiredBatch_rows(2) [OF assms(1)] expiredLease_not_terminal
    by (blast intro: relayReconcileExpired_evolves)
  show ?thesis
    unfolding rows_evolve_def
    using ok ev by (auto simp: reconcileExpired_lookup [OF assms] split: option.splits)
qed

subsection \<open>Refinement\<close>

lemma transact_ops_evolve:
  assumes "rows_ok rows"
  shows
    "renew rows eid tok now ms = Inr (rows', r) \<Longrightarrow> rows_evolve rows rows'"
    and "recordAttested sha rows eid tok m n a now = Inr (rows', r) \<Longrightarrow> rows_evolve rows rows'"
    and "markMintSubmitting rows eid tok now = Inr (rows', r) \<Longrightarrow> rows_evolve rows rows'"
    and "markMintSubmitted rows eid tok h now = Inr (rows', r) \<Longrightarrow> rows_evolve rows rows'"
    and "finishMinted rows eid tok h now = Inr (rows', r) \<Longrightarrow> rows_evolve rows rows'"
    and "finishBlocked rows eid tok why now = Inr (rows', r) \<Longrightarrow> rows_evolve rows rows'"
    and "finishUncertain rows eid tok h why now = Inr (rows', r) \<Longrightarrow> rows_evolve rows rows'"
    and "release rows eid tok now = Inr (rows', r) \<Longrightarrow> rows_evolve rows rows'"
  unfolding renew_def recordAttested_def markMintSubmitting_def markMintSubmitted_def finishMinted_def finishBlocked_def finishUncertain_def release_def
  by (erule transact_evolves [OF assms], rule transition_None,
      erule relayRenew_evolves relayRecordAttested_evolves relayMarkMintSubmitting_evolves
        relayMarkMintSubmitted_evolves relayFinishMinted_evolves relayFinishBlocked_evolves
        relayFinishUncertain_evolves relayRelease_evolves)+

lemmas store_ops_evolve =
  enqueue_evolves claim_evolves transact_ops_evolve reconcileExpired_evolves reconcileOne_evolves

lemma store_exec_evolves:
  assumes "rows_ok rows" "store_exec sha rows op = Inr rows'"
  shows "rows_evolve rows rows'"
  using assms by (cases op) (auto simp: rows_of_Inr dest: store_ops_evolve [OF assms(1)])

lemma store_apply_evolves: "rows_ok rows \<Longrightarrow> rows_evolve rows (store_apply sha rows op)"
  by (auto simp: store_apply_def rows_evolve_refl store_exec_evolves split: sum.splits)

lemma rows_evolve_ok: "rows_evolve rows rows' \<Longrightarrow> rows_ok rows'"
  by (simp add: rows_evolve_def)

end
