(* ===== verification/Machines.thy ===== *)
theory Machines
  imports Main
begin

section \<open>Machines driven by a sequence of operations\<close>

text \<open>
  The interfaces the safety arguments share. A machine applies one operation at a time; what
  several workers, retries and crash recoveries do to it is one list of operations.
  \<open>invariant_machine\<close> asks that every operation keeps an invariant, \<open>fenced_machine\<close> adds a
  rank no operation decreases and a fence that is crossed only from below a bar to the bar or
  above, \<open>reset_machine\<close> lets some operations reset the rank, \<open>absorbing_machine\<close> a set of final observations no operation changes, and
  \<open>refining_machine\<close> a view whose every change is a step of an abstract machine.
\<close>

fun run_ops :: "('s \<Rightarrow> 'op \<Rightarrow> 's) \<Rightarrow> 's \<Rightarrow> 'op list \<Rightarrow> 's" where
  "run_ops app s [] = s"
| "run_ops app s (op # ops) = run_ops app (app s op) ops"

text \<open>How many operations of a run satisfy a predicate in the state they are applied in.\<close>

fun count_in_run :: "('s \<Rightarrow> 'op \<Rightarrow> 's) \<Rightarrow> ('s \<Rightarrow> 'op \<Rightarrow> bool) \<Rightarrow> 's \<Rightarrow> 'op list \<Rightarrow> nat" where
  "count_in_run app p s [] = 0"
| "count_in_run app p s (op # ops) =
     (if p s op then 1 else 0) + count_in_run app p (app s op) ops"

lemma run_ops_append: "run_ops app s (xs @ ys) = run_ops app (run_ops app s xs) ys"
  by (induction xs arbitrary: s) auto

lemma count_in_run_append:
  "count_in_run app p s (xs @ ys) = count_in_run app p s xs + count_in_run app p (run_ops app s xs) ys"
  by (induction xs arbitrary: s) auto

locale invariant_machine =
  fixes app :: "'s \<Rightarrow> 'op \<Rightarrow> 's" and inv :: "'s \<Rightarrow> bool"
  assumes inv_app: "inv s \<Longrightarrow> inv (app s op)"
begin

lemma run_inv: "inv s \<Longrightarrow> inv (run_ops app s ops)"
  by (induction ops arbitrary: s) (auto intro: inv_app)

end

locale reset_machine = invariant_machine +
  fixes rank :: "'a \<Rightarrow> nat" and crosses :: "'a \<Rightarrow> 'b \<Rightarrow> bool" and resets :: "'a \<Rightarrow> 'b \<Rightarrow> bool" and bar :: nat
  assumes rank_kept: "inv s \<Longrightarrow> \<not> resets s op \<Longrightarrow> rank s \<le> rank (app s op)"
    and crosses_from: "inv s \<Longrightarrow> crosses s op \<Longrightarrow> rank s < bar"
    and crosses_to: "inv s \<Longrightarrow> crosses s op \<Longrightarrow> bar \<le> rank (app s op)"
begin

lemma crossed_per_reset:
  "inv s \<Longrightarrow> count_in_run app crosses s ops + (if bar \<le> rank s then 1 else 0) \<le> 1 + count_in_run app resets s ops"
proof (induction ops arbitrary: s)
  case (Cons op ops)
  note IH = Cons.IH [OF inv_app [OF Cons.prems, of op]]
  show ?case
  proof (cases "crosses s op")
    case True
    then show ?thesis using IH crosses_from [OF Cons.prems True] crosses_to [OF Cons.prems True] by simp
  next
    case False
    then show ?thesis using IH rank_kept [OF Cons.prems, of op] by (auto split: if_splits)
  qed
qed simp

lemma rank_without_reset: "inv s \<Longrightarrow> count_in_run app resets s ops = 0 \<Longrightarrow> rank s \<le> rank (run_ops app s ops)"
proof (induction ops arbitrary: s)
  case (Cons op ops)
  then have "rank s \<le> rank (app s op)" by (intro rank_kept) (auto split: if_splits)
  also have "\<dots> \<le> rank (run_ops app (app s op) ops)" using Cons inv_app by (auto split: if_splits)
  finally show ?case by simp
qed simp

end

locale fenced_machine = invariant_machine +
  fixes rank :: "'a \<Rightarrow> nat" and crosses :: "'a \<Rightarrow> 'b \<Rightarrow> bool" and bar :: nat
  assumes rank_mono: "inv s \<Longrightarrow> rank s \<le> rank (app s op)"
    and crosses_below: "inv s \<Longrightarrow> crosses s op \<Longrightarrow> rank s < bar"
    and crosses_above: "inv s \<Longrightarrow> crosses s op \<Longrightarrow> bar \<le> rank (app s op)"
begin

lemma run_rank_mono: "inv s \<Longrightarrow> rank s \<le> rank (run_ops app s ops)"
proof (induction ops arbitrary: s)
  case (Cons op ops)
  have "rank s \<le> rank (app s op)" using Cons.prems by (rule rank_mono)
  also have "\<dots> \<le> rank (run_ops app (app s op) ops)" using Cons inv_app by blast
  finally show ?case by simp
qed simp

lemma no_crossing_above: "inv s \<Longrightarrow> bar \<le> rank s \<Longrightarrow> count_in_run app crosses s ops = 0"
proof (induction ops arbitrary: s)
  case (Cons op ops)
  then have "\<not> crosses s op" using crosses_below by fastforce
  moreover have "bar \<le> rank (app s op)"
    using Cons.prems rank_mono [of s op] by simp
  ultimately show ?case using Cons inv_app by simp
qed simp

lemma crossed_at_most_once: "inv s \<Longrightarrow> count_in_run app crosses s ops \<le> 1"
proof (induction ops arbitrary: s)
  case (Cons op ops)
  show ?case
  proof (cases "crosses s op")
    case True
    then have "count_in_run app crosses (app s op) ops = 0"
      using Cons.prems by (intro no_crossing_above inv_app crosses_above)
    with True show ?thesis by simp
  next
    case False
    with Cons inv_app show ?thesis by simp
  qed
qed simp

end

locale absorbing_machine = invariant_machine +
  fixes obs :: "'a \<Rightarrow> 'o" and final :: "'o \<Rightarrow> bool"
  assumes final_stable: "inv s \<Longrightarrow> final (obs s) \<Longrightarrow> obs (app s op) = obs s"
begin

lemma run_final_stable: "inv s \<Longrightarrow> final (obs s) \<Longrightarrow> obs (run_ops app s ops) = obs s"
proof (induction ops arbitrary: s)
  case (Cons op ops)
  then have "obs (app s op) = obs s" by (intro final_stable)
  with Cons inv_app show ?case by simp
qed simp

end

locale refining_machine = invariant_machine +
  fixes view :: "'a \<Rightarrow> 'v" and step :: "'v \<Rightarrow> 'v \<Rightarrow> bool"
  assumes refines: "inv s \<Longrightarrow> step (view s) (view (app s op))"
begin

lemma run_refines: "inv s \<Longrightarrow> step\<^sup>*\<^sup>* (view s) (view (run_ops app s ops))"
proof (induction ops arbitrary: s)
  case (Cons op ops)
  have "step (view s) (view (app s op))" using Cons.prems by (rule refines)
  moreover have "step\<^sup>*\<^sup>* (view (app s op)) (view (run_ops app (app s op) ops))" using Cons inv_app by blast
  ultimately show ?case by (simp add: converse_rtranclp_into_rtranclp)
qed simp

end

end
