(* ===== verification/Samples.thy ===== *)
theory Samples
  imports RelayMachine Machines
begin

section \<open>Sample data for closed instances\<close>

text \<open>
  One forward burn of 1.0000000 USDC, its evidence and the operations that take it to a
  confirmed mint. The closed instances of the theorems evaluate the model on these values; the
  digest function is left open where its value does not matter.
\<close>

definition zero32 :: string where
  "zero32 = CHR ''0'' # CHR ''x'' # replicate 64 (CHR ''0'')"

definition sample_exp :: expectation where
  "sample_exp =
     \<lparr>e_direction = JStr ''stellar-to-base'', e_sourceDomain = JNum 27, e_destinationDomain = JNum 6,
      e_sender = zero32, e_recipient = zero32, e_destinationCaller = zero32, e_burnToken = zero32,
      e_mintRecipient = zero32, e_messageSender = zero32, e_amount = ''1000000'',
      e_burnUnits7 = Some ''10000000'', e_maxFee = ''0'', e_minFinalityThreshold = 2000,
      e_hookData = ''0x''\<rparr>"

definition sample_expectation :: jsv where
  "sample_expectation = expectation_js sample_exp"

definition sample_burn :: jsv where
  "sample_burn = JStr (replicate 64 (CHR ''A''))"

definition sample_ops :: "store_op list" where
  "sample_ops =
     [Enqueue ''x1'' (JNum 27) sample_burn sample_expectation 1000,
      Claim ''x1'' 1001 60000 ''t1'',
      RecordAttested ''x1'' ''t1'' (JStr ''0xAB'') (JStr zero32) (JStr ''0xcd'') 1002,
      MarkMintSubmitting ''x1'' ''t1'' 1003,
      MarkMintSubmitting ''x1'' ''t1'' 1004,
      MarkMintSubmitted ''x1'' ''t1'' (JStr zero32) 1005,
      FinishMinted ''x1'' ''t1'' (JStr zero32) 1006]"

lemma hex_chars [simp]: "is_lhex (CHR ''0'')" "is_hex (CHR ''0'')" "is_hex (CHR ''A'')"
  "is_lhex (CHR ''a'')" "is_hex (CHR ''a'')"
  "is_hex (CHR ''B'')" "is_hex (CHR ''c'')" "is_hex (CHR ''d'')"
  "lower_char (CHR ''A'') = CHR ''a''" "lower_char (CHR ''0'') = CHR ''0''" "lower_char (CHR ''x'') = CHR ''x''"
  by code_simp+

lemma list_all_replicateI [simp]: "list_all P (replicate n c) \<longleftrightarrow> n = 0 \<or> P c"
  by (induction n) auto

lemma zero32_drop [simp]: "drop 2 zero32 = replicate 64 (CHR ''0'')" "startsWith0x zero32"
  by (simp_all add: zero32_def startsWith0x_conv numeral_2_eq_2)

lemma zero32_lower [simp]: "toLowerCase zero32 = zero32"
  by (simp add: zero32_def toLowerCase_def)

lemma zero32_hex64 [simp]: "HEX64_CI_RE (replicate 64 (CHR ''0''))"
  by (simp add: HEX64_CI_RE_def)

lemma zero32_strict [simp]: "BYTES32_STRICT_RE zero32"
  by (simp add: BYTES32_STRICT_RE_def)

lemma zero32_base [simp]: "baseHash zero32 = Inr zero32"
  by (simp add: baseHash_def)

lemma sample_exp_canonical [simp]: "canonical_fields sample_exp"
proof -
  have "DECIMAL_RE ''1000000''" "DECIMAL_RE ''10000000''" "DECIMAL_RE ''0''" "HOOK_DATA_RE ''0x''"
    "digit_val (CHR ''0'') = 0" "digit_val (CHR ''1'') = 1"
    by code_simp+
  moreover from this(5,6) have "dec_val ''10000000'' = 10 * dec_val ''1000000''"
    by (simp add: dec_val_def)
  ultimately show ?thesis
    by (simp add: canonical_fields_def sample_exp_def DIRECTION_DOMAINS_def STELLAR_DOMAIN_def
        BASE_DOMAIN_def)
qed

lemma sample_canonicalized [simp]: "canonicalizeExpectation sample_expectation = Inr sample_exp"
  unfolding sample_expectation_def by (rule canonicalizeExpectation_of_fields) simp

lemma sample_domain [simp]: "normalizeSourceDomain (JNum 27) = Inr 27" "e_sourceDomain sample_exp = JNum 27"
  by (simp_all add: normalizeSourceDomain_def STELLAR_DOMAIN_def sample_exp_def)

lemma sample_burn_hash [simp]: "normalizeBurnTxHash (JNum 27) sample_burn = Inr (replicate 64 (CHR ''a''))"
  by (simp add: sample_burn_def normalizeBurnTxHash.simps stellarHash_def HEX64_CI_RE_def toLowerCase_def STELLAR_DOMAIN_def)

lemma sample_mint_hash [simp]: "normalizeMintTxHash (JNum 27) (JStr zero32) = Inr zero32"
  by (simp add: normalizeMintTxHash.simps STELLAR_DOMAIN_def)

lemma sample_hex [simp]: "EVEN_HEX_RE ''0xAB''" "EVEN_HEX_RE ''0xcd''"
  by code_simp+

lemmas store_eval =
  store_apply_def rows_of_def enqueue_def relayEnqueueDecision_def relayNewPendingRecord_def
  claim_def relayClaim_def requireLeaseArgs_def requireNow_def require_def safe_int_def
  recordAttested_def transact_def relayRecordAttested_def normalizeEvidence_def assertLease_def
  markMintSubmitting_def relayMarkMintSubmitting_def markMintSubmitted_def relayMarkMintSubmitted_def
  finishMinted_def relayFinishMinted_def recordDomain_def RELAY_CLAIMABLE_STATES_def
  RELAY_TERMINAL_STATES_def STELLAR_DOMAIN_def BASE_DOMAIN_def normalizeSourceDomain_def Let_def

lemma sample_run_minted:
  "map_option rstate (map_of (run_ops (store_apply sha) [] sample_ops) ''x1'') = Some minted"
  by (simp add: sample_ops_def store_eval)

end
