(* ===== verification/RelaySafety.thy ===== *)
theory RelaySafety
  imports Samples
begin

section \<open>Safety of the relay store under any interleaving\<close>

text \<open>
  What the store guarantees whatever sequence of operations workers, retries and recoveries
  perform on it: the submit fence of an execution is crossed at most once in its lifetime,
  terminal records never change, a lease excludes every other worker until it expires, and
  no two executions own the same source identity.
\<close>

subsection \<open>Interpretations of the machine interfaces\<close>

interpretation relay_rows: invariant_machine "store_apply sha" rows_ok for sha
  by unfold_locales (rule rows_evolve_ok [OF store_apply_evolves])

definition row_stage :: "string \<Rightarrow> rows \<Rightarrow> nat" where
  "row_stage eid rows = (case map_of rows eid of None \<Rightarrow> 0 | Some r \<Rightarrow> stage (rstate r))"

text \<open>The operation is the submit fence of \<open>eid\<close>, and the store accepts it.\<close>

fun crosses_submit_fence :: "(string \<Rightarrow> string) \<Rightarrow> string \<Rightarrow> rows \<Rightarrow> store_op \<Rightarrow> bool" where
  "crosses_submit_fence sha eid rows (MarkMintSubmitting e tok now) =
     (e = eid \<and> is_ok (markMintSubmitting rows e tok now))"
| "crosses_submit_fence sha eid rows op = False"

lemma rows_evolve_stage: "rows_evolve rows rows' \<Longrightarrow> row_stage eid rows \<le> row_stage eid rows'"
proof -
  assume ev: "rows_evolve rows rows'"
  show ?thesis
  proof (cases "map_of rows eid")
    case (Some r)
    then obtain r' where "map_of rows' eid = Some r'" "r' = r \<or> row_evolves r r'"
      using ev by (fastforce simp: rows_evolve_def split: option.splits)
    with Some show ?thesis
      by (auto simp: row_stage_def row_evolves_def relay_move_stage)
  qed (simp add: row_stage_def)
qed

lemma markMintSubmitting_ok:
  assumes "markMintSubmitting rows eid tok now = Inr (rows', r')"
  obtains r where "map_of rows eid = Some r" "rstate r = attested" "leaseToken r = Some tok"
    "rows' = AList.update eid (r\<lparr>rstate := mint_submitting, updatedAt := now\<rparr>) rows"
    "r' = r\<lparr>rstate := mint_submitting, updatedAt := now\<rparr>"
  using assms transition_None(3) unfolding markMintSubmitting_def
  by (elim transact_InrE)
    (auto simp: relayMarkMintSubmitting_def ebind_Inr_iff assertLease_Inr split: if_splits)

lemma is_ok_iff: "is_ok m \<longleftrightarrow> (\<exists>a. m = Inr a)"
  by (cases m) auto

lemma crosses_submit_fence_effect:
  assumes "crosses_submit_fence sha eid rows op"
  shows "row_stage eid rows < 2" and "2 \<le> row_stage eid (store_apply sha rows op)"
proof -
  from assms obtain tok now where op: "op = MarkMintSubmitting eid tok now"
    and ok: "is_ok (markMintSubmitting rows eid tok now)"
    by (cases op) auto
  then obtain rows' r' where ex: "markMintSubmitting rows eid tok now = Inr (rows', r')"
    by (auto simp: is_ok_iff)
  then show "row_stage eid rows < 2"
    by (rule markMintSubmitting_ok) (simp add: row_stage_def)
  have "store_apply sha rows op = rows'"
    using op ex by (simp add: store_apply_def rows_of_def)
  then show "2 \<le> row_stage eid (store_apply sha rows op)"
    using ex by (elim markMintSubmitting_ok) (simp add: row_stage_def)
qed

interpretation relay_fence: fenced_machine "store_apply sha" rows_ok "row_stage eid"
    "crosses_submit_fence sha eid" 2 for sha eid
  by unfold_locales
    (auto intro: rows_evolve_stage store_apply_evolves crosses_submit_fence_effect)

definition terminal_row :: "relay_record option \<Rightarrow> bool" where
  "terminal_row ro \<longleftrightarrow> (case ro of None \<Rightarrow> False | Some r \<Rightarrow> rstate r \<in> set RELAY_TERMINAL_STATES)"

lemma rows_evolve_terminal:
  assumes "rows_evolve rows rows'" "terminal_row (map_of rows eid)"
  shows "map_of rows' eid = map_of rows eid"
proof -
  obtain r where r: "map_of rows eid = Some r" "rstate r \<in> set RELAY_TERMINAL_STATES"
    using assms(2) by (auto simp: terminal_row_def split: option.splits)
  then obtain r' where "map_of rows' eid = Some r'" "r' = r \<or> row_evolves r r'"
    using assms(1) by (fastforce simp: rows_evolve_def split: option.splits)
  with r show ?thesis using terminal_no_move by (auto simp: row_evolves_def)
qed

interpretation relay_final: absorbing_machine "store_apply sha" rows_ok "\<lambda>rows. map_of rows eid"
    terminal_row for sha eid
  by unfold_locales (auto intro: rows_evolve_terminal store_apply_evolves)

subsection \<open>The submit fence is crossed at most once\<close>

text \<open>
  C3. Over any sequence of store operations, by any workers in any order, the store accepts the
  pre-send fence \<open>markMintSubmitting\<close> of one execution id at most once.
\<close>

theorem submit_fence_at_most_once:
  assumes "rows_ok rows"
  shows "count_in_run (store_apply sha) (crosses_submit_fence sha eid) rows ops \<le> 1"
  using assms by (rule relay_fence.crossed_at_most_once)

theorem submit_fence_at_most_once_witness:
  "rows_ok []
   \<and> count_in_run (store_apply id) (crosses_submit_fence id ''x1'') [] sample_ops = 1
   \<and> count_in_run (store_apply id) (crosses_submit_fence id ''x1'') [] sample_ops \<le> 1"
proof -
  have "count_in_run (store_apply id) (crosses_submit_fence id ''x1'') [] sample_ops = 1"
    by (simp add: sample_ops_def store_eval)
  then show ?thesis
    using submit_fence_at_most_once [of "[]" id "''x1''" sample_ops] by simp
qed

text \<open>
  C5. A terminal record (minted, blocked or uncertain) is the same record after any sequence of
  store operations.
\<close>

theorem terminal_record_immutable:
  assumes "rows_ok rows" "map_of rows eid = Some r" "rstate r \<in> set RELAY_TERMINAL_STATES"
  shows "map_of (run_ops (store_apply sha) rows ops) eid = Some r"
proof -
  have "terminal_row (map_of rows eid)" using assms by (simp add: terminal_row_def)
  with assms(1) have "map_of (run_ops (store_apply sha) rows ops) eid = map_of rows eid"
    by (rule relay_final.run_final_stable)
  with assms(2) show ?thesis by simp
qed


theorem terminal_record_immutable_witness:
  "\<exists>r. map_of (run_ops (store_apply id) [] sample_ops) ''x1'' = Some r \<and> rstate r = minted
     \<and> map_of (run_ops (store_apply id) (run_ops (store_apply id) [] sample_ops)
          [ReconcileOne ''x1'' 99999, Claim ''x1'' 99999 5 ''t2'']) ''x1'' = Some r"
proof -
  obtain r where r: "map_of (run_ops (store_apply id) [] sample_ops) ''x1'' = Some r" "rstate r = minted"
    using sample_run_minted [of id] by auto
  moreover have "rows_ok (run_ops (store_apply id) [] sample_ops)"
    by (rule relay_rows.run_inv) simp
  ultimately show ?thesis
    using terminal_record_immutable [of "run_ops (store_apply id) [] sample_ops" "''x1''" r id]
    by (metis RELAY_TERMINAL_STATES_def list.set_intros(1))
qed

subsection \<open>Refinement of the documented state machine\<close>

text \<open>
  C14. Every store operation refines the documented machine: after it, each existing row is the
  same row or has moved one step along \<open>relay_move\<close> with its execution id, source domain, burn
  hash, expectation, digest and creation time unchanged; a row that appears is pending; and rows
  stay filed under their own execution id.
\<close>

theorem store_refines_machine:
  assumes "rows_ok rows"
  shows "rows_evolve rows (store_apply sha rows op)"
  using assms by (rule store_apply_evolves)

theorem store_refines_machine_witness:
  "rows_ok [] \<and> rows_evolve [] (store_apply id [] (hd sample_ops))
   \<and> map_of (store_apply id [] (hd sample_ops)) ''x1'' \<noteq> None"
  using store_refines_machine [of "[]" id "hd sample_ops"]
  by (simp add: sample_ops_def store_eval)

subsection \<open>Lease exclusion\<close>

text \<open>The lease token an operation presents, and the time it is performed at.\<close>

fun op_token :: "store_op \<Rightarrow> string option" where
  "op_token (Renew eid tok now ms) = Some tok"
| "op_token (RecordAttested eid tok m n a now) = Some tok"
| "op_token (MarkMintSubmitting eid tok now) = Some tok"
| "op_token (MarkMintSubmitted eid tok h now) = Some tok"
| "op_token (FinishMinted eid tok h now) = Some tok"
| "op_token (FinishBlocked eid tok why now) = Some tok"
| "op_token (FinishUncertain eid tok h why now) = Some tok"
| "op_token (Release eid tok now) = Some tok"
| "op_token _ = None"

fun op_now :: "store_op \<Rightarrow> int" where
  "op_now (Enqueue eid sd burn x now) = now"
| "op_now (Claim eid now ms tok) = now"
| "op_now (Renew eid tok now ms) = now"
| "op_now (RecordAttested eid tok m n a now) = now"
| "op_now (MarkMintSubmitting eid tok now) = now"
| "op_now (MarkMintSubmitted eid tok h now) = now"
| "op_now (FinishMinted eid tok h now) = now"
| "op_now (FinishBlocked eid tok why now) = now"
| "op_now (FinishUncertain eid tok h why now) = now"
| "op_now (Release eid tok now) = now"
| "op_now (ReconcileExpired now limit) = now"
| "op_now (ReconcileOne eid now) = now"

fun is_reconcile :: "store_op \<Rightarrow> bool" where
  "is_reconcile (ReconcileExpired now limit) = True"
| "is_reconcile (ReconcileOne eid now) = True"
| "is_reconcile op = False"

definition live_lease :: "relay_record \<Rightarrow> string \<Rightarrow> int \<Rightarrow> bool" where
  "live_lease r tok now \<longleftrightarrow>
     leaseToken r = Some tok \<and> (\<exists>t. leaseExpiresAt r = Some t \<and> safe_int t \<and> now < t)"

text \<open>A guarded transition succeeds only with the live lease of the record.\<close>

lemma guarded_live_lease:
  "relayRenew c tok now ms = Inr out \<Longrightarrow> \<exists>r. c = Some r \<and> live_lease r tok now"
  "relayRecordAttested sha c tok m n a now = Inr out \<Longrightarrow> \<exists>r. c = Some r \<and> live_lease r tok now"
  "relayMarkMintSubmitting c tok now = Inr out \<Longrightarrow> \<exists>r. c = Some r \<and> live_lease r tok now"
  "relayMarkMintSubmitted c tok h now = Inr out \<Longrightarrow> \<exists>r. c = Some r \<and> live_lease r tok now"
  "relayFinishMinted c tok h now = Inr out \<Longrightarrow> \<exists>r. c = Some r \<and> live_lease r tok now"
  "relayFinishBlocked c tok why now = Inr out \<Longrightarrow> \<exists>r. c = Some r \<and> live_lease r tok now"
  "relayFinishUncertain c tok h why now = Inr out \<Longrightarrow> \<exists>r. c = Some r \<and> live_lease r tok now"
  "relayRelease c tok now = Inr out \<Longrightarrow> \<exists>r. c = Some r \<and> live_lease r tok now"
  by (auto simp: relayRenew_def relayRecordAttested_def relayMarkMintSubmitting_def
      relayMarkMintSubmitted_def relayFinishMinted_def relayFinishBlocked_def
      relayFinishUncertain_def relayRelease_def ebind_Inr_iff assertLease_Inr live_lease_def
      split: if_splits option.splits)

lemma transact_changed:
  assumes "transact rows e f = Inr (rows', x)" "map_of rows' eid \<noteq> map_of rows eid"
  shows "e = eid \<and> (\<exists>out. f (map_of rows eid) = Inr out)"
proof -
  obtain out where out: "f (map_of rows e) = Inr out"
    using assms(1) by (auto simp: transact_def ebind_Inr_iff)
  moreover have "e = eid"
    using assms out by (cases out) (auto simp: transact_def split: option.splits if_splits)
  ultimately show ?thesis by blast
qed

lemma guarded_op_live:
  assumes "store_exec sha rows op = Inr rows'" "op_token op = Some tk"
    "map_of rows' eid \<noteq> map_of rows eid"
  shows "\<exists>r. map_of rows eid = Some r \<and> live_lease r tk (op_now op)"
  using assms
  by (cases op) (auto simp: rows_of_Inr renew_def recordAttested_def markMintSubmitting_def
      markMintSubmitted_def finishMinted_def finishBlocked_def finishUncertain_def release_def
      dest!: transact_changed guarded_live_lease)

lemma unguarded_kinds:
  "op_token op = None \<Longrightarrow> is_reconcile op \<or> (\<exists>e sd burn x now. op = Enqueue e sd burn x now)
     \<or> (\<exists>e now ms tk. op = Claim e now ms tk)"
  by (cases op) auto

text \<open>
  C13. While a record is leased, the only operations that change its row are those that present
  its lease token before the lease expires, and the reconciliations performed at or after the
  expiry; a second claim in particular is refused.
\<close>

theorem lease_excludes_others:
  assumes ok: "rows_ok rows" and r: "map_of rows eid = Some r" "leaseToken r = Some tok"
    "leaseExpiresAt r = Some t"
    and ch: "map_of (store_apply sha rows op) eid \<noteq> Some r"
  shows "(op_token op = Some tok \<and> op_now op < t) \<or> (is_reconcile op \<and> t \<le> op_now op)"
proof -
  from ch r obtain rows' where ex: "store_exec sha rows op = Inr rows'"
    and ne: "map_of rows' eid \<noteq> map_of rows eid"
    by (auto simp: store_apply_def split: sum.splits)
  show ?thesis
  proof (cases "op_token op")
    case (Some tk)
    then show ?thesis
      using guarded_op_live [OF ex Some ne] r by (auto simp: live_lease_def)
  next
    case None
    have "False" if "op = Enqueue e sd burn x now" for e sd burn x now
      using that ex ne r by (auto simp: rows_of_Inr elim!: enqueue_InrE split: if_splits)
    moreover have "False" if "op = Claim e now ms tk" for e now ms tk
      using that ex ne r
      by (auto simp: rows_of_Inr claim_def relayClaim_def ebind_Inr_iff split: if_splits option.splits)
    moreover have "t \<le> now" if o: "op = ReconcileExpired now limit" for now limit
    proof -
      obtain out where "reconcileExpired rows now limit = Inr (rows', out)"
        using o ex by (auto simp: rows_of_Inr)
      then have "r \<in> set (expiredBatch rows now limit)"
        using ne r reconcileExpired_lookup [OF ok] by (auto split: if_splits)
      then show ?thesis
        using r expiredBatch_rows(2) [OF ok] by (fastforce simp: expiredLease_def)
    qed
    moreover have "t \<le> now" if "op = ReconcileOne e now" for e now
      using that ex ne r
      by (auto simp: rows_of_Inr reconcileOne_def ebind_Inr_iff Let_def split: if_splits option.splits)
    ultimately show ?thesis
      using unguarded_kinds [OF None] by (cases op) auto
  qed
qed


definition leased_rows :: rows where
  "leased_rows = run_ops (store_apply id) [] (take 2 sample_ops)"

lemma leased_row:
  "\<exists>r. map_of leased_rows ''x1'' = Some r \<and> leaseToken r = Some ''t1'' \<and> leaseExpiresAt r = Some 61001"
  by (simp add: leased_rows_def sample_ops_def store_eval)

theorem lease_excludes_others_witness:
  "\<exists>r. map_of leased_rows ''x1'' = Some r \<and> leaseToken r = Some ''t1''
     \<and> map_of (store_apply id leased_rows (Release ''x1'' ''t1'' 2000)) ''x1'' \<noteq> Some r
     \<and> (op_token (Release ''x1'' ''t1'' 2000) = Some ''t1'' \<and> op_now (Release ''x1'' ''t1'' 2000) < 61001
        \<or> is_reconcile (Release ''x1'' ''t1'' 2000) \<and> 61001 \<le> op_now (Release ''x1'' ''t1'' 2000))"
proof -
  obtain r where r: "map_of leased_rows ''x1'' = Some r" "leaseToken r = Some ''t1''"
      "leaseExpiresAt r = Some 61001"
    using leased_row by blast
  have ok: "rows_ok leased_rows"
    unfolding leased_rows_def by (rule relay_rows.run_inv) simp
  have "map_option leaseToken
      (map_of (store_apply id leased_rows (Release ''x1'' ''t1'' 2000)) ''x1'') = Some None"
    by (simp add: leased_rows_def sample_ops_def release_def relayRelease_def store_eval)
  then have ch: "map_of (store_apply id leased_rows (Release ''x1'' ''t1'' 2000)) ''x1'' \<noteq> Some r"
    using r by auto
  show ?thesis
    using r ch lease_excludes_others [OF ok r ch] by blast
qed

subsection \<open>Unique source identities\<close>

text \<open>
  No row owns a source identity that conflicts with another row's: Stellar burns are unique by
  transaction hash, Base burns by transaction hash and expectation digest.
\<close>

definition unique_identities :: "rows \<Rightarrow> bool" where
  "unique_identities rows \<longleftrightarrow>
     (\<forall>k1 r1 k2 r2 d burn digest.
        map_of rows k1 = Some r1 \<longrightarrow> map_of rows k2 = Some r2 \<longrightarrow> k1 \<noteq> k2 \<longrightarrow>
        sourceDomain r2 = Some d \<longrightarrow> burnTxHash r2 = Some burn \<longrightarrow> r_expectationDigest r2 = Some digest \<longrightarrow>
        \<not> relayIdentityConflicts r1 d burn digest)"

lemma relayIdentityConflicts_same:
  "same_identity r r' \<Longrightarrow> relayIdentityConflicts r' d burn digest = relayIdentityConflicts r d burn digest"
  by (simp add: relayIdentityConflicts_def same_identity_def)

lemma unique_identities_kept:
  assumes u: "unique_identities rows" and ev: "rows_evolve rows rows'"
    and no: "\<And>eid. map_of rows eid = None \<Longrightarrow> map_of rows' eid = None"
  shows "unique_identities rows'"
proof -
  have old: "\<exists>r0. map_of rows k = Some r0 \<and> same_identity r0 r" if m: "map_of rows' k = Some r" for k r
  proof (cases "map_of rows k")
    case None
    with no m show ?thesis by simp
  next
    case (Some r0)
    with ev m show ?thesis
      by (fastforce simp: rows_evolve_def row_evolves_def same_identity_def split: option.splits)
  qed
  show ?thesis
    unfolding unique_identities_def
  proof (intro allI impI)
    fix k1 r1 k2 r2 d burn digest
    assume r1: "map_of rows' k1 = Some r1" and r2: "map_of rows' k2 = Some r2" and ne: "k1 \<noteq> k2"
      and id2: "sourceDomain r2 = Some d" "burnTxHash r2 = Some burn" "r_expectationDigest r2 = Some digest"
    obtain q1 q2 where q: "map_of rows k1 = Some q1" "same_identity q1 r1"
        "map_of rows k2 = Some q2" "same_identity q2 r2"
      using old [OF r1] old [OF r2] by blast
    then have "\<not> relayIdentityConflicts q1 d burn digest"
      using u ne id2 by (auto simp: unique_identities_def same_identity_def)
    then show "\<not> relayIdentityConflicts r1 d burn digest"
      using relayIdentityConflicts_same [OF q(2)] by simp
  qed
qed

lemma conflict_sym:
  assumes "relayIdentityConflicts r d burn digest"
    and "sourceDomain r = Some d'" "burnTxHash r = Some burn'" "r_expectationDigest r = Some digest'"
    and "sourceDomain q = Some d" "burnTxHash q = Some burn" "r_expectationDigest q = Some digest"
  shows "relayIdentityConflicts q d' burn' digest'"
  using assms by (auto simp: relayIdentityConflicts_def split: if_splits)

lemma unique_identities_insert:
  assumes u: "unique_identities rows" and new: "map_of rows eid = None"
    and r: "sourceDomain r = Some d" "burnTxHash r = Some burn" "r_expectationDigest r = Some digest"
    and nc: "\<not> list_ex (\<lambda>q. relayIdentityConflicts q d burn digest) (js_values rows)"
  shows "unique_identities (AList.update eid r rows)"
proof -
  have nc': "\<not> relayIdentityConflicts q d burn digest" if "map_of rows k = Some q" for k q
    using nc that by (force simp: list_ex_iff dest: map_of_SomeD)
  show ?thesis
    unfolding unique_identities_def
  proof (intro allI impI)
    fix k1 r1 k2 r2 d' burn' digest'
    assume a: "map_of (AList.update eid r rows) k1 = Some r1"
      "map_of (AList.update eid r rows) k2 = Some r2" "k1 \<noteq> k2"
      "sourceDomain r2 = Some d'" "burnTxHash r2 = Some burn'" "r_expectationDigest r2 = Some digest'"
    consider "k1 = eid" | "k2 = eid" | "k1 \<noteq> eid" "k2 \<noteq> eid" by blast
    then show "\<not> relayIdentityConflicts r1 d' burn' digest'"
    proof cases
      case 1
      with a have "map_of rows k2 = Some r2" "r1 = r" by auto
      then show ?thesis using conflict_sym [OF _ r a(4-6)] nc' by blast
    next
      case 2
      with a have "map_of rows k1 = Some r1" "r2 = r" by auto
      then show ?thesis using nc' r a by auto
    next
      case 3
      with a u show ?thesis by (auto simp: unique_identities_def)
    qed
  qed
qed

lemma no_new_rows:
  assumes "rows_ok rows" "store_exec sha rows op = Inr rows'" "\<And>e sd b x now. op \<noteq> Enqueue e sd b x now"
    and "map_of rows eid = None"
  shows "map_of rows' eid = None"
proof (rule ccontr)
  assume "map_of rows' eid \<noteq> None"
  then have ne: "map_of rows' eid \<noteq> map_of rows eid" using assms(4) by simp
  show False
  proof (cases "op_token op")
    case (Some tk)
    then show False using guarded_op_live [OF assms(2) Some ne] assms(4) by auto
  next
    case None
    have "\<And>e now ms tk. op \<noteq> Claim e now ms tk"
      using assms(2,4) ne by (auto simp: rows_of_Inr claim_def relayClaim_def ebind_Inr_iff
          split: if_splits option.splits)
    moreover have "\<And>e now. op \<noteq> ReconcileOne e now"
      using assms(2,4) ne by (auto simp: rows_of_Inr reconcileOne_def ebind_Inr_iff Let_def
          split: if_splits option.splits)
    moreover have "\<And>now limit. op \<noteq> ReconcileExpired now limit"
      using assms(1,2,4) ne reconcileExpired_lookup by (fastforce simp: rows_of_Inr)
    ultimately show False using None by (cases op) (auto simp: assms(3))
  qed
qed

lemma store_apply_unique:
  assumes ok: "rows_ok rows" and u: "unique_identities rows"
  shows "unique_identities (store_apply sha rows op)"
proof (cases "store_exec sha rows op")
  case (Inl e)
  with u show ?thesis by (simp add: store_apply_def)
next
  case (Inr rows')
  have "unique_identities rows'"
  proof (cases "\<exists>e sd b x now. op = Enqueue e sd b x now")
    case True
    then obtain e sd b x now r where "enqueue sha rows e sd b x now = Inr (rows', r)"
      using Inr by (auto simp: rows_of_Inr)
    then show ?thesis
    proof (cases rule: enqueue_InrE)
      case retry
      with u show ?thesis by simp
    next
      case (fresh d ex burn)
      then show ?thesis
        using unique_identities_insert [OF u fresh(4) _ _ _ fresh(8)] relayNewPendingRecord_Inr [OF fresh(9)]
        by simp
    qed
  next
    case False
    then show ?thesis
      using unique_identities_kept [OF u store_exec_evolves [OF ok Inr]] no_new_rows [OF ok Inr] by blast
  qed
  with Inr show ?thesis by (simp add: store_apply_def)
qed

interpretation relay_unique: invariant_machine "store_apply sha"
    "\<lambda>rows. rows_ok rows \<and> unique_identities rows" for sha
  by unfold_locales (auto intro: store_apply_unique relay_rows.inv_app)

text \<open>
  Starting from an empty store, after any sequence of operations no two execution ids own
  the same source identity.
\<close>

theorem reachable_identities_unique:
  "unique_identities (run_ops (store_apply sha) [] ops)"
proof -
  have "rows_ok [] \<and> unique_identities []" by (simp add: unique_identities_def)
  then show ?thesis using relay_unique.run_inv [where sha = sha and ops = ops] by blast
qed

end
