(* ===== verification/RelayCanonical.thy ===== *)
theory RelayCanonical
  imports RelaySafety
begin

section \<open>Persisted records: the canonical-record validator and the file store\<close>

text \<open>
  \<open>assertCanonicalRelayRecord\<close> of \<open>relayer/src/store.mjs\<close> decides, on a row read back from
  disk, whether it can become runtime authority; \<open>createFileStore\<close> replaces every row that
  fails it, and every unfinished Base row, by a terminal legacy tombstone. Both work on untyped
  JSON. A typed record is written as \<open>record_js\<close>; the theory relates the validator to the
  transitions: which of them keep a record canonical, and under which discipline of the caller.
\<close>

subsection \<open>Rows as JSON\<close>

primrec state_name :: "relay_state \<Rightarrow> string" where
  "state_name attestation_pending = ''attestation_pending''"
| "state_name attested = ''attested''"
| "state_name mint_submitting = ''mint_submitting''"
| "state_name mint_submitted = ''mint_submitted''"
| "state_name minted = ''minted''"
| "state_name blocked = ''blocked''"
| "state_name uncertain = ''uncertain''"

definition RELAY_ALL_STATES :: "relay_state list" where
  "RELAY_ALL_STATES =
     [attestation_pending, attested, mint_submitting, mint_submitted] @ RELAY_TERMINAL_STATES"

definition js_state_in :: "jsv \<Rightarrow> relay_state list \<Rightarrow> bool" where
  "js_state_in v ss \<longleftrightarrow> v \<in> set (map (\<lambda>s. JStr (state_name s)) ss)"

definition record_js :: "relay_record \<Rightarrow> jsv" where
  "record_js r = JObj
     [(''execId'', JStr (execId r)), (''sourceDomain'', js_opt_num (sourceDomain r)),
      (''burnTxHash'', js_opt_str (burnTxHash r)),
      (''expectation'', case r_expectation r of None \<Rightarrow> JNull | Some e \<Rightarrow> expectation_js e),
      (''expectationDigest'', js_opt_str (r_expectationDigest r)),
      (''state'', JStr (state_name (rstate r))),
      (''messageHex'', js_opt_str (messageHex r)), (''nonceHex'', js_opt_str (nonceHex r)),
      (''messageDigest'', js_opt_str (messageDigest r)),
      (''attestationHex'', js_opt_str (attestationHex r)),
      (''attestationDigest'', js_opt_str (attestationDigest r)),
      (''evidenceVersion'', JNum (evidenceVersion r)), (''mintTxHash'', js_opt_str (mintTxHash r)),
      (''reasonCode'', js_opt_str (reasonCode r)), (''attempts'', JNum (attempts r)),
      (''leaseToken'', js_opt_str (leaseToken r)), (''leaseExpiresAt'', js_opt_num (leaseExpiresAt r)),
      (''createdAt'', JNum (createdAt r)), (''updatedAt'', JNum (updatedAt r))]"

text \<open>\<open>Number.isSafeInteger(v) && v >= lo\<close>.\<close>

fun js_int_ge :: "jsv \<Rightarrow> int \<Rightarrow> bool" where
  "js_int_ge (JNum n) lo = (safe_int n \<and> lo \<le> n)"
| "js_int_ge _ lo = False"

fun js_num :: "jsv \<Rightarrow> int" where
  "js_num (JNum n) = n"
| "js_num _ = 0"

definition js_nonempty_str :: "jsv \<Rightarrow> bool" where
  "js_nonempty_str v \<longleftrightarrow> js_is_str v \<and> v \<noteq> JStr []"

subsection \<open>The validator\<close>

definition lease_absent :: "jsv \<Rightarrow> bool" where
  "lease_absent v \<longleftrightarrow> js_get v ''leaseToken'' = JNull \<and> js_get v ''leaseExpiresAt'' = JNull"

definition lease_present :: "jsv \<Rightarrow> bool" where
  "lease_present v \<longleftrightarrow>
     js_nonempty_str (js_get v ''leaseToken'') \<and> js_int_ge (js_get v ''leaseExpiresAt'') 0"

definition record_shape_ok :: "jsv \<Rightarrow> bool" where
  "record_shape_ok v \<longleftrightarrow>
     js_is_obj v \<and> js_nonempty_str (js_get v ''execId'') \<and> js_state_in (js_get v ''state'') RELAY_ALL_STATES
   \<and> js_int_ge (js_get v ''attempts'') 0 \<and> js_int_ge (js_get v ''createdAt'') 0
   \<and> js_int_ge (js_get v ''updatedAt'') (js_num (js_get v ''createdAt''))"

definition EVIDENCE_FIELDS :: "string list" where
  "EVIDENCE_FIELDS =
     [''messageHex'', ''nonceHex'', ''messageDigest'', ''attestationHex'', ''attestationDigest'']"

definition has_evidence :: "jsv \<Rightarrow> bool" where
  "has_evidence v \<longleftrightarrow> list_all (\<lambda>f. js_get v f \<noteq> JNull) EVIDENCE_FIELDS"

definition binding_ok :: "(string \<Rightarrow> string) \<Rightarrow> jsv \<Rightarrow> relay_error + unit" where
  "binding_ok sha v =
     ebind (normalizeSourceDomain (js_get v ''sourceDomain'')) (\<lambda>sd.
       ebind (normalizeBurnTxHash (js_get v ''sourceDomain'') (js_get v ''burnTxHash'')) (\<lambda>b.
         if JStr b \<noteq> js_get v ''burnTxHash'' then Inl RELAY_VALIDATION
         else ebind (canonicalizeExpectation (js_get v ''expectation'')) (\<lambda>e.
           if e_sourceDomain e \<noteq> JNum sd
             \<or> json (expectation_js e) \<noteq> json (js_get v ''expectation'')
             \<or> JStr (expectationDigest sha e) \<noteq> js_get v ''expectationDigest''
           then Inl RELAY_VALIDATION else Inr ())))"

definition evidence_ok :: "(string \<Rightarrow> string) \<Rightarrow> jsv \<Rightarrow> relay_error + unit" where
  "evidence_ok sha v =
     (if has_evidence v then
        ebind (normalizeEvidence sha (js_get v ''messageHex'') (js_get v ''nonceHex'')
                 (js_get v ''attestationHex'')) (\<lambda>ev.
          if JStr (v_messageHex ev) \<noteq> js_get v ''messageHex''
            \<or> JStr (v_nonceHex ev) \<noteq> js_get v ''nonceHex''
            \<or> JStr (v_messageDigest ev) \<noteq> js_get v ''messageDigest''
            \<or> JStr (v_attestationHex ev) \<noteq> js_get v ''attestationHex''
            \<or> JStr (v_attestationDigest ev) \<noteq> js_get v ''attestationDigest''
            \<or> \<not> js_int_ge (js_get v ''evidenceVersion'') 1
          then Inl RELAY_VALIDATION else Inr ())
      else if \<not> list_all (\<lambda>f. js_get v f = JNull) EVIDENCE_FIELDS then Inl RELAY_VALIDATION
      else if js_get v ''evidenceVersion'' \<noteq> JNum 0 then Inl RELAY_VALIDATION
      else Inr ())"

definition state_evidence_ok :: "jsv \<Rightarrow> bool" where
  "state_evidence_ok v \<longleftrightarrow>
     (js_state_in (js_get v ''state'') [attested, mint_submitting, mint_submitted, minted, uncertain]
        = has_evidence v \<or> js_get v ''state'' = JStr ''blocked'')
   \<and> \<not> (js_get v ''state'' = JStr ''attestation_pending'' \<and> has_evidence v)
   \<and> (js_get v ''state'' = JStr ''mint_submitting'' \<longrightarrow> lease_present v)"

definition needs_mint_hash :: "jsv \<Rightarrow> bool" where
  "needs_mint_hash v \<longleftrightarrow>
     js_state_in (js_get v ''state'') [mint_submitted, minted]
   \<or> (js_get v ''state'' = JStr ''blocked'' \<and> js_get v ''reasonCode'' = JStr ''destination_reverted'')"

definition mint_hash_ok :: "jsv \<Rightarrow> relay_error + unit" where
  "mint_hash_ok v =
     ebind (if js_get v ''mintTxHash'' \<noteq> JNull then
              ebind (normalizeMintTxHash (js_get v ''sourceDomain'') (js_get v ''mintTxHash'')) (\<lambda>h.
                if JStr h \<noteq> js_get v ''mintTxHash'' then Inl RELAY_VALIDATION else Inr ())
            else if needs_mint_hash v then Inl RELAY_VALIDATION
            else Inr ()) (\<lambda>_.
       if \<not> needs_mint_hash v \<and> js_get v ''state'' \<noteq> JStr ''uncertain''
         \<and> js_get v ''mintTxHash'' \<noteq> JNull
       then Inl RELAY_VALIDATION else Inr ())"

definition reason_ok :: "jsv \<Rightarrow> bool" where
  "reason_ok v \<longleftrightarrow>
     (if js_get v ''state'' = JStr ''blocked''
      then js_get v ''reasonCode'' \<in> set (map JStr RELAY_BLOCKED_REASONS)
      else if js_get v ''state'' = JStr ''uncertain''
      then js_get v ''reasonCode'' \<in> set (map JStr RELAY_UNCERTAIN_REASONS)
      else js_get v ''reasonCode'' = JNull)"

definition assertCanonicalRelayRecord :: "(string \<Rightarrow> string) \<Rightarrow> jsv \<Rightarrow> relay_error + jsv" where
  "assertCanonicalRelayRecord sha v =
     (if \<not> record_shape_ok v then Inl RELAY_VALIDATION
      else if \<not> lease_absent v \<and> \<not> lease_present v then Inl RELAY_VALIDATION
      else if js_state_in (js_get v ''state'') RELAY_TERMINAL_STATES \<and> \<not> lease_absent v
      then Inl RELAY_VALIDATION
      else if js_get v ''reasonCode'' = JStr ''legacy_record_unrecoverable'' then
        (if js_get v ''state'' \<noteq> JStr ''blocked'' \<or> \<not> lease_absent v
           \<or> js_get v ''mintTxHash'' \<noteq> JNull
         then Inl RELAY_VALIDATION else Inr v)
      else ebind (binding_ok sha v) (\<lambda>_.
        ebind (evidence_ok sha v) (\<lambda>_.
          if \<not> state_evidence_ok v then Inl RELAY_VALIDATION
          else ebind (mint_hash_ok v) (\<lambda>_.
            if \<not> reason_ok v then Inl RELAY_VALIDATION else Inr v))))"

subsection \<open>Opening the file store\<close>

definition isCurrentRelayRecord :: "(string \<Rightarrow> string) \<Rightarrow> jsv \<Rightarrow> bool" where
  "isCurrentRelayRecord sha v = is_ok (assertCanonicalRelayRecord sha v)"

definition legacyConversion :: "string \<Rightarrow> jsv \<Rightarrow> int \<Rightarrow> relay_record" where
  "legacyConversion eid legacy now =
     \<lparr>execId = eid,
      sourceDomain = (if js_get legacy ''sourceDomain'' = JNum STELLAR_DOMAIN then Some STELLAR_DOMAIN
                      else if js_get legacy ''sourceDomain'' = JNum BASE_DOMAIN then Some BASE_DOMAIN
                      else None),
      burnTxHash = (case js_get legacy ''burnTxHash'' of JStr s \<Rightarrow> Some s | _ \<Rightarrow> None),
      r_expectation = None, r_expectationDigest = None, rstate = blocked,
      messageHex = None, nonceHex = None, messageDigest = None,
      attestationHex = None, attestationDigest = None, evidenceVersion = 0, mintTxHash = None,
      reasonCode = Some ''legacy_record_unrecoverable'', attempts = 0,
      leaseToken = None, leaseExpiresAt = None, createdAt = now, updatedAt = now\<rparr>"

definition unsupportedReverse :: "(string \<Rightarrow> string) \<Rightarrow> jsv \<Rightarrow> bool" where
  "unsupportedReverse sha v \<longleftrightarrow>
     isCurrentRelayRecord sha v \<and> js_get v ''sourceDomain'' = JNum BASE_DOMAIN
   \<and> \<not> js_state_in (js_get v ''state'') RELAY_TERMINAL_STATES"

text \<open>
  The rows after the one-time conversion at open, and whether the file is rewritten; \<open>now\<close> is
  the clock reading of the conversion.
\<close>

definition openFileStore ::
  "(string \<Rightarrow> string) \<Rightarrow> (string \<times> jsv) list \<Rightarrow> int \<Rightarrow> (string \<times> jsv) list \<times> bool" where
  "openFileStore sha initial now =
     (map (\<lambda>(k, v). (k, if \<not> isCurrentRelayRecord sha v \<or> unsupportedReverse sha v
                         then record_js (legacyConversion k v now) else v)) initial,
      list_ex (\<lambda>(k, v). \<not> isCurrentRelayRecord sha v \<or> unsupportedReverse sha v) initial)"

subsection \<open>Reading a written record\<close>

lemma js_get_record [simp]:
  "js_get (record_js r) ''execId'' = JStr (execId r)"
  "js_get (record_js r) ''sourceDomain'' = js_opt_num (sourceDomain r)"
  "js_get (record_js r) ''burnTxHash'' = js_opt_str (burnTxHash r)"
  "js_get (record_js r) ''expectation'' = (case r_expectation r of None \<Rightarrow> JNull | Some e \<Rightarrow> expectation_js e)"
  "js_get (record_js r) ''expectationDigest'' = js_opt_str (r_expectationDigest r)"
  "js_get (record_js r) ''state'' = JStr (state_name (rstate r))"
  "js_get (record_js r) ''messageHex'' = js_opt_str (messageHex r)"
  "js_get (record_js r) ''nonceHex'' = js_opt_str (nonceHex r)"
  "js_get (record_js r) ''messageDigest'' = js_opt_str (messageDigest r)"
  "js_get (record_js r) ''attestationHex'' = js_opt_str (attestationHex r)"
  "js_get (record_js r) ''attestationDigest'' = js_opt_str (attestationDigest r)"
  "js_get (record_js r) ''evidenceVersion'' = JNum (evidenceVersion r)"
  "js_get (record_js r) ''mintTxHash'' = js_opt_str (mintTxHash r)"
  "js_get (record_js r) ''reasonCode'' = js_opt_str (reasonCode r)"
  "js_get (record_js r) ''attempts'' = JNum (attempts r)"
  "js_get (record_js r) ''leaseToken'' = js_opt_str (leaseToken r)"
  "js_get (record_js r) ''leaseExpiresAt'' = js_opt_num (leaseExpiresAt r)"
  "js_get (record_js r) ''createdAt'' = JNum (createdAt r)"
  "js_get (record_js r) ''updatedAt'' = JNum (updatedAt r)"
  by (simp_all add: record_js_def)

lemma js_is_obj_record [simp]: "js_is_obj (record_js r)"
  by (simp add: record_js_def)

lemma state_name_inj [simp]: "state_name s = state_name s' \<longleftrightarrow> s = s'"
  by (cases s; cases s'; simp)

lemma state_name_eq [simp]:
  "state_name s = ''blocked'' \<longleftrightarrow> s = blocked" "state_name s = ''uncertain'' \<longleftrightarrow> s = uncertain"
  "state_name s = ''attestation_pending'' \<longleftrightarrow> s = attestation_pending"
  "state_name s = ''mint_submitting'' \<longleftrightarrow> s = mint_submitting"
  by (cases s; simp)+

lemma js_state_in_record [simp]: "js_state_in (JStr (state_name s)) ss \<longleftrightarrow> s \<in> set ss"
  by (auto simp: js_state_in_def)

lemma all_states [simp]: "s \<in> set RELAY_ALL_STATES"
  by (cases s) (simp_all add: RELAY_ALL_STATES_def RELAY_TERMINAL_STATES_def)


subsection \<open>Canonical records, on the typed fields\<close>

definition lease_pair_ok :: "relay_record \<Rightarrow> bool" where
  "lease_pair_ok r \<longleftrightarrow>
     (leaseToken r = None \<and> leaseExpiresAt r = None)
   \<or> (\<exists>tok t. leaseToken r = Some tok \<and> tok \<noteq> [] \<and> leaseExpiresAt r = Some t \<and> safe_int t \<and> 0 \<le> t)"

definition bound_intent :: "(string \<Rightarrow> string) \<Rightarrow> relay_record \<Rightarrow> bool" where
  "bound_intent sha r \<longleftrightarrow>
     (\<exists>d b e. sourceDomain r = Some d \<and> (d = STELLAR_DOMAIN \<or> d = BASE_DOMAIN)
        \<and> burnTxHash r = Some b \<and> normalizeBurnTxHash (JNum d) (JStr b) = Inr b
        \<and> r_expectation r = Some e \<and> canonical_fields e \<and> e_sourceDomain e = JNum d
        \<and> r_expectationDigest r = Some (expectationDigest sha e))"

definition no_evidence :: "relay_record \<Rightarrow> bool" where
  "no_evidence r \<longleftrightarrow>
     messageHex r = None \<and> nonceHex r = None \<and> messageDigest r = None \<and> attestationHex r = None
   \<and> attestationDigest r = None \<and> evidenceVersion r = 0"

definition bound_evidence :: "(string \<Rightarrow> string) \<Rightarrow> relay_record \<Rightarrow> bool" where
  "bound_evidence sha r \<longleftrightarrow>
     safe_int (evidenceVersion r) \<and> 1 \<le> evidenceVersion r
   \<and> (\<exists>ev. normalizeEvidence sha (JStr (v_messageHex ev)) (JStr (v_nonceHex ev))
              (JStr (v_attestationHex ev)) = Inr ev
        \<and> messageHex r = Some (v_messageHex ev) \<and> nonceHex r = Some (v_nonceHex ev)
        \<and> messageDigest r = Some (v_messageDigest ev)
        \<and> attestationHex r = Some (v_attestationHex ev)
        \<and> attestationDigest r = Some (v_attestationDigest ev))"

definition bound_mint :: "relay_record \<Rightarrow> bool" where
  "bound_mint r \<longleftrightarrow> (\<exists>h. mintTxHash r = Some h \<and> normalizeMintTxHash (recordDomain r) (JStr h) = Inr h)"

fun state_fields_ok :: "(string \<Rightarrow> string) \<Rightarrow> relay_record \<Rightarrow> relay_state \<Rightarrow> bool" where
  "state_fields_ok sha r attestation_pending = (no_evidence r \<and> mintTxHash r = None \<and> reasonCode r = None)"
| "state_fields_ok sha r attested = (bound_evidence sha r \<and> mintTxHash r = None \<and> reasonCode r = None)"
| "state_fields_ok sha r mint_submitting =
     (bound_evidence sha r \<and> mintTxHash r = None \<and> reasonCode r = None \<and> leaseToken r \<noteq> None)"
| "state_fields_ok sha r mint_submitted = (bound_evidence sha r \<and> bound_mint r \<and> reasonCode r = None)"
| "state_fields_ok sha r minted =
     (bound_evidence sha r \<and> bound_mint r \<and> reasonCode r = None \<and> leaseToken r = None)"
| "state_fields_ok sha r blocked =
     ((no_evidence r \<or> bound_evidence sha r) \<and> leaseToken r = None
      \<and> (\<exists>why. reasonCode r = Some why \<and> why \<in> set RELAY_BLOCKED_REASONS
           \<and> (if why = ''destination_reverted'' then bound_mint r else mintTxHash r = None)))"
| "state_fields_ok sha r uncertain =
     (bound_evidence sha r \<and> leaseToken r = None \<and> (mintTxHash r = None \<or> bound_mint r)
      \<and> (\<exists>why. reasonCode r = Some why \<and> why \<in> set RELAY_UNCERTAIN_REASONS))"

definition frame_ok :: "relay_record \<Rightarrow> bool" where
  "frame_ok r \<longleftrightarrow>
     execId r \<noteq> [] \<and> safe_int (attempts r) \<and> 0 \<le> attempts r
   \<and> safe_int (createdAt r) \<and> 0 \<le> createdAt r \<and> safe_int (updatedAt r) \<and> createdAt r \<le> updatedAt r
   \<and> lease_pair_ok r"

definition tombstone :: "relay_record \<Rightarrow> bool" where
  "tombstone r \<longleftrightarrow>
     reasonCode r = Some ''legacy_record_unrecoverable'' \<and> rstate r = blocked
   \<and> leaseToken r = None \<and> mintTxHash r = None"

definition canonical_record :: "(string \<Rightarrow> string) \<Rightarrow> relay_record \<Rightarrow> bool" where
  "canonical_record sha r \<longleftrightarrow>
     frame_ok r \<and> (tombstone r \<or> (bound_intent sha r \<and> state_fields_ok sha r (rstate r)))"

lemma canonicalize_own_js:
  assumes "canonicalizeExpectation (expectation_js e) = Inr e'"
  shows "e' = e"
proof -
  have "canonical_fields e'" using assms by (rule canonicalizeExpectation_Inr_fields)
  from assms show ?thesis
    by (rule canonicalizeExpectation_InrE)
      (cases e, cases e', auto simp: expectDecimalString_Inr canonicalBurnUnits7_Inr split: if_splits)
qed

lemma binding_ok_record: "binding_ok sha (record_js r) = Inr () \<longleftrightarrow> bound_intent sha r"
proof
  assume "binding_ok sha (record_js r) = Inr ()"
  then obtain sd b e where
    a: "normalizeSourceDomain (js_opt_num (sourceDomain r)) = Inr sd"
      "normalizeBurnTxHash (js_opt_num (sourceDomain r)) (js_opt_str (burnTxHash r)) = Inr b"
      "burnTxHash r = Some b"
      "canonicalizeExpectation (case r_expectation r of None \<Rightarrow> JNull | Some e \<Rightarrow> expectation_js e) = Inr e"
      "e_sourceDomain e = JNum sd" "r_expectationDigest r = Some (expectationDigest sha e)"
    by (auto simp: binding_ok_def ebind_Inr_iff split: if_splits)
  then obtain e0 where "r_expectation r = Some e0" "canonicalizeExpectation (expectation_js e0) = Inr e"
    by (cases "r_expectation r") (auto simp: canonicalizeExpectation_def)
  with a show "bound_intent sha r"
    using canonicalize_own_js [of e0 e] canonicalizeExpectation_Inr_fields
    by (fastforce simp: bound_intent_def normalizeSourceDomain_Inr)
next
  assume "bound_intent sha r"
  then show "binding_ok sha (record_js r) = Inr ()"
    by (auto simp: bound_intent_def binding_ok_def normalizeSourceDomain_def
        canonicalizeExpectation_of_fields)
qed

lemma has_evidence_record:
  "has_evidence (record_js r) \<longleftrightarrow> messageHex r \<noteq> None \<and> nonceHex r \<noteq> None \<and> messageDigest r \<noteq> None
     \<and> attestationHex r \<noteq> None \<and> attestationDigest r \<noteq> None"
  by (simp add: has_evidence_def EVIDENCE_FIELDS_def)

lemma evidence_ok_record:
  "evidence_ok sha (record_js r) = Inr () \<longleftrightarrow>
     (if has_evidence (record_js r) then bound_evidence sha r else no_evidence r)"
proof (cases "has_evidence (record_js r)")
  case True
  then obtain m n d a g where "messageHex r = Some m" "nonceHex r = Some n" "messageDigest r = Some d"
      "attestationHex r = Some a" "attestationDigest r = Some g"
    by (auto simp: has_evidence_record)
  with True show ?thesis
    by (simp add: evidence_ok_def bound_evidence_def ebind_Inr_iff) metis
next
  case False
  then show ?thesis
    by (auto simp: evidence_ok_def no_evidence_def EVIDENCE_FIELDS_def)
qed

lemma bound_evidence_has: "bound_evidence sha r \<Longrightarrow> has_evidence (record_js r)"
  by (auto simp: bound_evidence_def has_evidence_record)

lemma no_evidence_has: "no_evidence r \<Longrightarrow> \<not> has_evidence (record_js r)"
  by (auto simp: no_evidence_def has_evidence_record)

lemma evidence_cases:
  "evidence_ok sha (record_js r) = Inr () \<longleftrightarrow> bound_evidence sha r \<or> no_evidence r"
  "bound_evidence sha r \<Longrightarrow> \<not> no_evidence r"
  using bound_evidence_has no_evidence_has by (auto simp: evidence_ok_record)

lemma lease_record:
  "lease_absent (record_js r) \<longleftrightarrow> leaseToken r = None \<and> leaseExpiresAt r = None"
  "lease_present (record_js r) \<longleftrightarrow>
     (\<exists>tok t. leaseToken r = Some tok \<and> tok \<noteq> [] \<and> leaseExpiresAt r = Some t \<and> safe_int t \<and> 0 \<le> t)"
  by (auto simp: lease_absent_def lease_present_def js_nonempty_str_def js_opt_str_def js_opt_num_def
      split: option.splits)

lemma mint_hash_ok_record:
  "mint_hash_ok (record_js r) = Inr () \<longleftrightarrow>
     (mintTxHash r = None \<or> bound_mint r)
   \<and> (needs_mint_hash (record_js r) \<longrightarrow> mintTxHash r \<noteq> None)
   \<and> (\<not> needs_mint_hash (record_js r) \<and> rstate r \<noteq> uncertain \<longrightarrow> mintTxHash r = None)"
  by (cases "mintTxHash r")
    (auto simp: mint_hash_ok_def bound_mint_def recordDomain_def ebind_Inr_iff split: if_splits)

lemma needs_mint_hash_record:
  "needs_mint_hash (record_js r) \<longleftrightarrow>
     rstate r \<in> {mint_submitted, minted}
   \<or> (rstate r = blocked \<and> reasonCode r = Some ''destination_reverted'')"
  by (auto simp: needs_mint_hash_def)

lemma legacy_blocked_reason: "''legacy_record_unrecoverable'' \<in> set RELAY_BLOCKED_REASONS"
  by (simp add: RELAY_BLOCKED_REASONS_def)

text \<open>The state-dependent half of the validator, on a record with a sound lease pair.\<close>

lemma state_checks_record:
  assumes "lease_pair_ok r" "rstate r \<in> set RELAY_TERMINAL_STATES \<longrightarrow> leaseToken r = None"
    and "reasonCode r \<noteq> Some ''legacy_record_unrecoverable''"
  shows "(evidence_ok sha (record_js r) = Inr () \<and> state_evidence_ok (record_js r)
      \<and> mint_hash_ok (record_js r) = Inr () \<and> reason_ok (record_js r))
    \<longleftrightarrow> state_fields_ok sha r (rstate r)"
proof (cases "bound_evidence sha r \<or> no_evidence r")
  case False
  then have "\<not> state_fields_ok sha r (rstate r)" by (cases "rstate r") auto
  with False show ?thesis by (simp add: evidence_cases(1))
next
  case True
  then have has: "has_evidence (record_js r) = bound_evidence sha r"
    and ev: "no_evidence r = (\<not> bound_evidence sha r)"
    using bound_evidence_has no_evidence_has by blast+
  have lp: "lease_present (record_js r) = (leaseToken r \<noteq> None)"
    using assms(1) by (auto simp: lease_record lease_pair_ok_def)
  have bm: "bound_mint r \<Longrightarrow> mintTxHash r \<noteq> None" by (auto simp: bound_mint_def)
  have re: "js_opt_str (reasonCode r) \<in> JStr ` R \<longleftrightarrow> (\<exists>why. reasonCode r = Some why \<and> why \<in> R)" for R
    by (cases "reasonCode r") auto
  show ?thesis
    using True assms(2) bm
    by (cases "rstate r"; simp add: evidence_cases(1) mint_hash_ok_record needs_mint_hash_record
        state_evidence_ok_def reason_ok_def has ev lp re RELAY_TERMINAL_STATES_def js_state_in_def;
        cases "reasonCode r"; cases "mintTxHash r"; auto)
qed

lemma shape_ok_record:
  "record_shape_ok (record_js r) \<and> (lease_absent (record_js r) \<or> lease_present (record_js r)) \<longleftrightarrow> frame_ok r"
  by (auto simp: record_shape_ok_def frame_ok_def lease_pair_ok_def lease_record js_nonempty_str_def)

lemma is_ok_ebind_unit: "is_ok (ebind (m :: 'e + unit) f) \<longleftrightarrow> m = Inr () \<and> is_ok (f ())"
  by (cases m) auto

lemma state_fields_terminal:
  "state_fields_ok sha r (rstate r) \<Longrightarrow> rstate r \<in> set RELAY_TERMINAL_STATES \<Longrightarrow> leaseToken r = None"
  by (cases "rstate r") (auto simp: RELAY_TERMINAL_STATES_def)

text \<open>The validator accepts exactly the canonical records.\<close>

lemma canonical_iff: "isCurrentRelayRecord sha (record_js r) \<longleftrightarrow> canonical_record sha r"
proof (cases "frame_ok r \<and> (rstate r \<in> set RELAY_TERMINAL_STATES \<longrightarrow> leaseToken r = None)")
  case False
  have "tombstone r \<Longrightarrow> leaseToken r = None" by (simp add: tombstone_def)
  with False have "\<not> canonical_record sha r"
    using state_fields_terminal by (auto simp: canonical_record_def)
  moreover have "\<not> isCurrentRelayRecord sha (record_js r)"
    using False shape_ok_record [of r]
    by (cases "frame_ok r")
      (auto simp: isCurrentRelayRecord_def assertCanonicalRelayRecord_def lease_record)
  ultimately show ?thesis by simp
next
  case True
  then have l: "lease_pair_ok r" by (simp add: frame_ok_def)
  have abs: "lease_absent (record_js r) \<longleftrightarrow> leaseToken r = None"
    using l by (auto simp: lease_record lease_pair_ok_def)
  note shape = shape_ok_record [of r]
  show ?thesis
  proof (cases "reasonCode r = Some ''legacy_record_unrecoverable''")
    case legacy: True
    have "state_fields_ok sha r (rstate r) \<Longrightarrow> tombstone r"
      using legacy by (cases "rstate r") (auto simp: tombstone_def RELAY_UNCERTAIN_REASONS_def)
    then have "canonical_record sha r = tombstone r"
      using True by (auto simp: canonical_record_def)
    then show ?thesis
      using True legacy shape abs
      by (auto simp: isCurrentRelayRecord_def assertCanonicalRelayRecord_def tombstone_def)
  next
    case other: False
    then have "canonical_record sha r = (bound_intent sha r \<and> state_fields_ok sha r (rstate r))"
      using True by (simp add: canonical_record_def tombstone_def)
    then show ?thesis
      using True other shape abs state_checks_record [OF l _ other, of sha]
      by (auto simp: isCurrentRelayRecord_def assertCanonicalRelayRecord_def
          is_ok_ebind_unit binding_ok_record)
  qed
qed


subsection \<open>Transitions keep records canonical\<close>

lemma bound_update [simp]:
  "bound_evidence sha (r\<lparr>rstate := x1\<rparr>) = bound_evidence sha r"
  "bound_evidence sha (r\<lparr>updatedAt := x2\<rparr>) = bound_evidence sha r"
  "bound_evidence sha (r\<lparr>leaseToken := x3\<rparr>) = bound_evidence sha r"
  "bound_evidence sha (r\<lparr>leaseExpiresAt := x4\<rparr>) = bound_evidence sha r"
  "bound_evidence sha (r\<lparr>reasonCode := x5\<rparr>) = bound_evidence sha r"
  "bound_evidence sha (r\<lparr>attempts := x6\<rparr>) = bound_evidence sha r"
  "bound_evidence sha (r\<lparr>mintTxHash := x7\<rparr>) = bound_evidence sha r"
  "no_evidence (r\<lparr>rstate := x1\<rparr>) = no_evidence r"
  "no_evidence (r\<lparr>updatedAt := x2\<rparr>) = no_evidence r"
  "no_evidence (r\<lparr>leaseToken := x3\<rparr>) = no_evidence r"
  "no_evidence (r\<lparr>leaseExpiresAt := x4\<rparr>) = no_evidence r"
  "no_evidence (r\<lparr>reasonCode := x5\<rparr>) = no_evidence r"
  "no_evidence (r\<lparr>attempts := x6\<rparr>) = no_evidence r"
  "bound_mint (r\<lparr>rstate := x1\<rparr>) = bound_mint r"
  "bound_mint (r\<lparr>updatedAt := x2\<rparr>) = bound_mint r"
  "bound_mint (r\<lparr>leaseToken := x3\<rparr>) = bound_mint r"
  "bound_mint (r\<lparr>leaseExpiresAt := x4\<rparr>) = bound_mint r"
  "bound_mint (r\<lparr>reasonCode := x5\<rparr>) = bound_mint r"
  "bound_mint (r\<lparr>attempts := x6\<rparr>) = bound_mint r"
  by (simp_all add: bound_evidence_def no_evidence_def bound_mint_def recordDomain_def)

lemma bound_intent_same: "same_identity r r' \<Longrightarrow> bound_intent sha r' = bound_intent sha r"
  by (simp add: bound_intent_def same_identity_def)

text \<open>A timestamp at or after the record's creation, as the clock of the caller should give.\<close>

definition clock_ok :: "relay_record \<Rightarrow> int \<Rightarrow> bool" where
  "clock_ok r now \<longleftrightarrow> safe_int now \<and> createdAt r \<le> now"

lemma canonical_stepI:
  assumes "canonical_record sha r" "row_evolves r r'"
    and "frame_ok r \<Longrightarrow> frame_ok r'"
    and "frame_ok r \<Longrightarrow> state_fields_ok sha r (rstate r) \<Longrightarrow> state_fields_ok sha r' (rstate r')"
  shows "canonical_record sha r'"
proof -
  have "\<not> tombstone r"
    using assms(2) terminal_no_move
    by (auto simp: tombstone_def row_evolves_def RELAY_TERMINAL_STATES_def)
  with assms show ?thesis
    using bound_intent_same by (auto simp: canonical_record_def row_evolves_def)
qed

lemmas transition_defs =
  relayClaim_def relayRenew_def relayRecordAttested_def relayMarkMintSubmitting_def
  relayMarkMintSubmitted_def relayFinishMinted_def relayFinishBlocked_def relayFinishUncertain_def
  relayRelease_def ebind_Inr_iff assertLease_Inr

lemma claim_canonical:
  assumes c: "canonical_record sha r" and ex: "relayClaim (Some r) now ms tok = Inr (Some r')"
    and cl: "clock_ok r now" "tok \<noteq> []" "safe_int (now + ms)" "safe_int (attempts r + 1)"
  shows "canonical_record sha r'"
proof -
  from ex have r': "r' = r\<lparr>attempts := attempts r + 1, leaseToken := Some tok,
      leaseExpiresAt := Some (now + ms), updatedAt := now\<rparr>"
    and st: "rstate r \<in> set RELAY_CLAIMABLE_STATES" and ms: "0 < ms"
    by (auto simp: transition_defs split: if_splits)
  show ?thesis
  proof (rule canonical_stepI [OF c relayClaim_evolves [OF ex]])
    assume "frame_ok r"
    then show "frame_ok r'"
      using cl ms by (auto simp: r' frame_ok_def clock_ok_def lease_pair_ok_def)
    assume "state_fields_ok sha r (rstate r)"
    then show "state_fields_ok sha r' (rstate r')"
      using st by (auto simp: r' RELAY_CLAIMABLE_STATES_def)
  qed
qed

lemma renew_canonical:
  assumes c: "canonical_record sha r" and ex: "relayRenew (Some r) tok now ms = Inr (Next r')"
    and cl: "clock_ok r now" "safe_int (now + ms)"
  shows "canonical_record sha r'"
proof -
  from ex have r': "r' = r\<lparr>leaseExpiresAt := Some (now + ms), updatedAt := now\<rparr>"
    and l: "leaseToken r = Some tok" "tok \<noteq> []" and ms: "0 < ms"
    and st: "rstate r \<notin> set RELAY_TERMINAL_STATES"
    by (auto simp: transition_defs split: if_splits)
  show ?thesis
  proof (rule canonical_stepI [OF c relayRenew_evolves [OF ex]])
    assume "frame_ok r"
    then show "frame_ok r'"
      using cl ms l by (auto simp: r' frame_ok_def clock_ok_def lease_pair_ok_def)
    assume "state_fields_ok sha r (rstate r)"
    then show "state_fields_ok sha r' (rstate r')"
      using st by (cases "rstate r") (auto simp: r' RELAY_TERMINAL_STATES_def)
  qed
qed

lemma evidence_digest:
  "normalizeEvidence sha m n a = Inr v \<Longrightarrow> v_messageDigest v = sha256Bytes sha (drop 2 (v_messageHex v))"
  by (auto simp: normalizeEvidence_def Let_def split: if_splits)

lemma attested_canonical:
  assumes c: "canonical_record sha r" and ex: "relayRecordAttested sha (Some r) tok m n a now = Inr (Next r')"
    and cl: "clock_ok r now" "safe_int (evidenceVersion r + 1)"
  shows "canonical_record sha r'"
proof (rule canonical_stepI [OF c relayRecordAttested_evolves [OF ex]])
  show "frame_ok r'" if "frame_ok r"
    using that cl(1) ex
    by (auto simp: transition_defs frame_ok_def clock_ok_def lease_pair_ok_def split: if_splits)
next
  assume sf: "state_fields_ok sha r (rstate r)"
  obtain v where v: "normalizeEvidence sha m n a = Inr v"
    using ex by (auto simp: transition_defs)
  note idem = normalizeEvidence_idem [OF v]
  consider (new) "rstate r = attestation_pending"
      "r' = r\<lparr>messageHex := Some (v_messageHex v), nonceHex := Some (v_nonceHex v),
          messageDigest := Some (v_messageDigest v), attestationHex := Some (v_attestationHex v),
          attestationDigest := Some (v_attestationDigest v),
          rstate := attested, evidenceVersion := 1, updatedAt := now\<rparr>"
    | (refresh) "rstate r = attested"
      "r' = r\<lparr>attestationHex := Some (v_attestationHex v),
          attestationDigest := Some (v_attestationDigest v),
          evidenceVersion := evidenceVersion r + 1, updatedAt := now\<rparr>"
      "messageHex r = Some (v_messageHex v)" "nonceHex r = Some (v_nonceHex v)"
    using ex v by (auto simp: transition_defs split: if_splits)
  then show "state_fields_ok sha r' (rstate r')"
  proof cases
    case new
    have "bound_evidence sha r'"
      unfolding bound_evidence_def using idem by (intro conjI exI [of _ v]) (simp_all add: new safe_int_def)
    then show ?thesis using new sf by simp
  next
    case refresh
    have be: "bound_evidence sha r" using sf refresh(1) by simp
    then have "messageDigest r = Some (v_messageDigest v)"
      using refresh(3) evidence_digest [OF v] evidence_digest by (auto simp: bound_evidence_def)
    then have "bound_evidence sha r'"
      unfolding bound_evidence_def using idem cl(2) be refresh
      by (intro conjI exI [of _ v]) (simp_all add: bound_evidence_def)
    then show ?thesis using refresh sf by simp
  qed
qed

lemma fence_canonical:
  assumes c: "canonical_record sha r" and ex: "relayMarkMintSubmitting (Some r) tok now = Inr (Next r')"
    and cl: "clock_ok r now"
  shows "canonical_record sha r'"
proof (rule canonical_stepI [OF c relayMarkMintSubmitting_evolves [OF ex]])
  show "frame_ok r'" if "frame_ok r"
    using that cl ex
    by (auto simp: transition_defs frame_ok_def clock_ok_def lease_pair_ok_def split: if_splits)
  show "state_fields_ok sha r' (rstate r')" if "state_fields_ok sha r (rstate r)"
    using that ex by (auto simp: transition_defs split: if_splits)
qed

lemma submitted_canonical:
  assumes c: "canonical_record sha r" and ex: "relayMarkMintSubmitted (Some r) tok h now = Inr (Next r')"
    and cl: "clock_ok r now"
  shows "canonical_record sha r'"
proof (rule canonical_stepI [OF c relayMarkMintSubmitted_evolves [OF ex]])
  show "frame_ok r'" if "frame_ok r"
    using that cl ex
    by (auto simp: transition_defs frame_ok_def clock_ok_def lease_pair_ok_def split: if_splits)
  show "state_fields_ok sha r' (rstate r')" if "state_fields_ok sha r (rstate r)"
    using that ex
    by (auto simp: transition_defs recordDomain_def bound_mint_def normalizeMintTxHash_idem split: if_splits)
qed

lemma minted_canonical:
  assumes c: "canonical_record sha r" and ex: "relayFinishMinted (Some r) tok h now = Inr (Next r')"
    and cl: "clock_ok r now"
  shows "canonical_record sha r'"
proof (rule canonical_stepI [OF c relayFinishMinted_evolves [OF ex]])
  show "frame_ok r'" if "frame_ok r"
    using that cl ex
    by (auto simp: transition_defs frame_ok_def clock_ok_def lease_pair_ok_def split: if_splits)
  show "state_fields_ok sha r' (rstate r')" if "state_fields_ok sha r (rstate r)"
    using that ex by (auto simp: transition_defs split: if_splits)
qed

text \<open>
  The reason of a block has to fit the state: a definitive destination failure is recorded
  exactly when a submission was checkpointed.
\<close>

definition reason_fits :: "relay_record \<Rightarrow> string \<Rightarrow> bool" where
  "reason_fits r why \<longleftrightarrow>
     (why = ''destination_reverted'' \<longleftrightarrow> rstate r = mint_submitted)"

lemma blocked_canonical:
  assumes c: "canonical_record sha r" and ex: "relayFinishBlocked (Some r) tok why now = Inr (Next r')"
    and cl: "clock_ok r now" "reason_fits r why"
  shows "canonical_record sha r'"
proof (rule canonical_stepI [OF c relayFinishBlocked_evolves [OF ex]])
  show "frame_ok r'" if "frame_ok r"
    using that cl ex
    by (auto simp: transition_defs frame_ok_def clock_ok_def lease_pair_ok_def split: if_splits)
  show "state_fields_ok sha r' (rstate r')" if "state_fields_ok sha r (rstate r)"
    using that ex cl(2)
    by (cases "rstate r") (auto simp: transition_defs reason_fits_def RELAY_TERMINAL_STATES_def split: if_splits)
qed

lemma uncertain_canonical:
  assumes c: "canonical_record sha r" and ex: "relayFinishUncertain (Some r) tok h why now = Inr (Next r')"
    and cl: "clock_ok r now"
  shows "canonical_record sha r'"
proof (rule canonical_stepI [OF c relayFinishUncertain_evolves [OF ex]])
  show "frame_ok r'" if "frame_ok r"
    using that cl ex
    by (auto simp: transition_defs frame_ok_def clock_ok_def lease_pair_ok_def split: if_splits option.splits)
  show "state_fields_ok sha r' (rstate r')" if "state_fields_ok sha r (rstate r)"
    using that ex
    by (cases "rstate r")
      (auto simp: transition_defs recordDomain_def bound_mint_def normalizeMintTxHash_idem
        split: if_splits option.splits)
qed

lemma release_canonical:
  assumes c: "canonical_record sha r" and ex: "relayRelease (Some r) tok now = Inr (Next r')"
    and cl: "clock_ok r now"
  shows "canonical_record sha r'"
proof (rule canonical_stepI [OF c relayRelease_evolves [OF ex]])
  show "frame_ok r'" if "frame_ok r"
    using that cl ex
    by (auto simp: transition_defs frame_ok_def clock_ok_def lease_pair_ok_def split: if_splits)
  show "state_fields_ok sha r' (rstate r')" if "state_fields_ok sha r (rstate r)"
    using that ex
    by (auto simp: transition_defs RELAY_CLAIMABLE_STATES_def split: if_splits)
qed

lemma reconcile_canonical:
  assumes c: "canonical_record sha r" and st: "rstate r \<notin> set RELAY_TERMINAL_STATES"
    and cl: "clock_ok r now"
  shows "canonical_record sha (relayReconcileExpired r now)"
proof (rule canonical_stepI [OF c relayReconcileExpired_evolves [OF st]])
  show "frame_ok (relayReconcileExpired r now)" if "frame_ok r"
    using that cl by (auto simp: relayReconcileExpired_def frame_ok_def clock_ok_def lease_pair_ok_def)
  show "state_fields_ok sha (relayReconcileExpired r now) (rstate (relayReconcileExpired r now))"
    if "state_fields_ok sha r (rstate r)"
    using that st
    by (cases "rstate r")
      (auto simp: relayReconcileExpired_def RELAY_TERMINAL_STATES_def RELAY_UNCERTAIN_REASONS_def)
qed


subsection \<open>The store keeps its rows canonical\<close>

definition on_row :: "rows \<Rightarrow> string \<Rightarrow> (relay_record \<Rightarrow> bool) \<Rightarrow> bool" where
  "on_row rows eid P \<longleftrightarrow> (case map_of rows eid of None \<Rightarrow> True | Some r \<Rightarrow> P r)"

text \<open>
  The discipline a caller owes the store: a clock that does not run behind a row's creation,
  lease ends and counters inside the safe integers, non-empty lease tokens, and a block reason
  that fits the state.
\<close>

fun disciplined :: "rows \<Rightarrow> store_op \<Rightarrow> bool" where
  "disciplined rows (Enqueue eid sd burn x now) = (0 \<le> now)"
| "disciplined rows (Claim eid now ms tok) =
     (tok \<noteq> [] \<and> safe_int (now + ms) \<and> on_row rows eid (\<lambda>r. clock_ok r now \<and> safe_int (attempts r + 1)))"
| "disciplined rows (Renew eid tok now ms) =
     (safe_int (now + ms) \<and> on_row rows eid (\<lambda>r. clock_ok r now))"
| "disciplined rows (RecordAttested eid tok m n a now) =
     on_row rows eid (\<lambda>r. clock_ok r now \<and> safe_int (evidenceVersion r + 1))"
| "disciplined rows (MarkMintSubmitting eid tok now) = on_row rows eid (\<lambda>r. clock_ok r now)"
| "disciplined rows (MarkMintSubmitted eid tok h now) = on_row rows eid (\<lambda>r. clock_ok r now)"
| "disciplined rows (FinishMinted eid tok h now) = on_row rows eid (\<lambda>r. clock_ok r now)"
| "disciplined rows (FinishBlocked eid tok why now) =
     on_row rows eid (\<lambda>r. clock_ok r now \<and> reason_fits r why)"
| "disciplined rows (FinishUncertain eid tok h why now) = on_row rows eid (\<lambda>r. clock_ok r now)"
| "disciplined rows (Release eid tok now) = on_row rows eid (\<lambda>r. clock_ok r now)"
| "disciplined rows (ReconcileExpired now limit) = list_all (\<lambda>r. clock_ok r now) (js_values rows)"
| "disciplined rows (ReconcileOne eid now) = on_row rows eid (\<lambda>r. clock_ok r now)"

definition canonical_rows :: "(string \<Rightarrow> string) \<Rightarrow> rows \<Rightarrow> bool" where
  "canonical_rows sha rows \<longleftrightarrow>
     rows_ok rows \<and> (\<forall>eid. on_row rows eid (\<lambda>r. isCurrentRelayRecord sha (record_js r)))"

lemma canonical_rowsD:
  "canonical_rows sha rows \<Longrightarrow> map_of rows eid = Some r \<Longrightarrow> canonical_record sha r"
  unfolding canonical_rows_def on_row_def canonical_iff by (metis option.simps(5))

lemma canonical_rows_update:
  assumes "canonical_rows sha rows" "canonical_record sha r" "execId r = eid"
  shows "canonical_rows sha (AList.update eid r rows)"
  using assms rows_ok_update by (auto simp: canonical_rows_def on_row_def canonical_iff)

lemma pending_canonical:
  assumes "relayNewPendingRecord eid d burn e (expectationDigest sha e) now = Inr r"
    and "normalizeSourceDomain (JNum d) = Inr d" "canonical_fields e" "e_sourceDomain e = JNum d"
    and "normalizeBurnTxHash (JNum d) h = Inr burn" "eid \<noteq> []" "0 \<le> now"
  shows "canonical_record sha r"
proof -
  note f = relayNewPendingRecord_Inr [OF assms(1)]
  have "frame_ok r"
    using f assms(6,7) by (simp add: frame_ok_def lease_pair_ok_def safe_int_def)
  moreover have "bound_intent sha r"
    using f assms normalizeBurnTxHash_idem by (fastforce simp: bound_intent_def normalizeSourceDomain_Inr)
  ultimately show ?thesis
    using f by (simp add: canonical_record_def no_evidence_def)
qed

lemma enqueue_canonical:
  assumes c: "canonical_rows sha rows" and ex: "enqueue sha rows eid sd bh x now = Inr (rows', r)" and "0 \<le> now"
  shows "canonical_rows sha rows'"
  using ex
proof (cases rule: enqueue_InrE)
  case retry
  with c show ?thesis by simp
next
  case (fresh d e burn)
  have sd: "sd = JNum d" using fresh(1) by (simp add: normalizeSourceDomain_Inr)
  have "canonical_record sha r"
    using pending_canonical [OF fresh(9)] fresh assms(3) canonicalizeExpectation_Inr_fields [OF fresh(2)]
    unfolding sd by blast
  then show ?thesis
    using fresh c relayNewPendingRecord_Inr(1) [OF fresh(9)] canonical_rows_update by simp
qed

lemma transact_canonical:
  assumes c: "canonical_rows sha rows" and ex: "transact rows eid f = Inr (rows', r')"
    and "\<And>out. f None \<noteq> Inr out"
    and "\<And>r r''. f (Some r) = Inr (Next r'') \<Longrightarrow> row_evolves r r''"
    and "\<And>r r''. map_of rows eid = Some r \<Longrightarrow> canonical_record sha r \<Longrightarrow> f (Some r) = Inr (Next r'')
      \<Longrightarrow> canonical_record sha r''"
  shows "canonical_rows sha rows'"
  using ex assms(3)
proof (rule transact_InrE)
  fix r
  assume r: "map_of rows eid = Some r" "f (Some r) = Inr (Next r')" "rows' = AList.update eid r' rows"
  have "execId r' = eid"
    using assms(4) [OF r(2)] rows_ok_lookup c r(1) by (auto simp: row_evolves_defs canonical_rows_def)
  then show ?thesis
    using r assms(5) canonical_rowsD [OF c r(1)] canonical_rows_update [OF c] by blast
qed (use c in simp)

text \<open>One lemma for the eight guarded operations.\<close>

lemma transact_ops_canonical:
  assumes c: "canonical_rows sha rows"
  shows
    "renew rows eid tok now ms = Inr (rows', r) \<Longrightarrow> disciplined rows (Renew eid tok now ms)
      \<Longrightarrow> canonical_rows sha rows'"
    "recordAttested sha rows eid tok m n a now = Inr (rows', r)
      \<Longrightarrow> disciplined rows (RecordAttested eid tok m n a now) \<Longrightarrow> canonical_rows sha rows'"
    "markMintSubmitting rows eid tok now = Inr (rows', r)
      \<Longrightarrow> disciplined rows (MarkMintSubmitting eid tok now) \<Longrightarrow> canonical_rows sha rows'"
    "markMintSubmitted rows eid tok h now = Inr (rows', r)
      \<Longrightarrow> disciplined rows (MarkMintSubmitted eid tok h now) \<Longrightarrow> canonical_rows sha rows'"
    "finishMinted rows eid tok h now = Inr (rows', r)
      \<Longrightarrow> disciplined rows (FinishMinted eid tok h now) \<Longrightarrow> canonical_rows sha rows'"
    "finishBlocked rows eid tok why now = Inr (rows', r)
      \<Longrightarrow> disciplined rows (FinishBlocked eid tok why now) \<Longrightarrow> canonical_rows sha rows'"
    "finishUncertain rows eid tok h why now = Inr (rows', r)
      \<Longrightarrow> disciplined rows (FinishUncertain eid tok h why now) \<Longrightarrow> canonical_rows sha rows'"
    "release rows eid tok now = Inr (rows', r)
      \<Longrightarrow> disciplined rows (Release eid tok now) \<Longrightarrow> canonical_rows sha rows'"
  unfolding renew_def recordAttested_def markMintSubmitting_def markMintSubmitted_def
    finishMinted_def finishBlocked_def finishUncertain_def release_def
  by (erule transact_canonical [OF c], rule transition_None,
      (erule relayRenew_evolves relayRecordAttested_evolves relayMarkMintSubmitting_evolves
        relayMarkMintSubmitted_evolves relayFinishMinted_evolves relayFinishBlocked_evolves
        relayFinishUncertain_evolves relayRelease_evolves),
      (erule (1) renew_canonical attested_canonical fence_canonical submitted_canonical minted_canonical
        blocked_canonical uncertain_canonical release_canonical; simp add: on_row_def))+

lemma claim_rows_canonical:
  assumes c: "canonical_rows sha rows" and ex: "claim rows eid now ms tok = Inr (rows', out)"
    and d: "disciplined rows (Claim eid now ms tok)"
  shows "canonical_rows sha rows'"
proof (cases out)
  case None
  with ex c show ?thesis by (auto simp: claim_def ebind_Inr_iff split: option.splits)
next
  case (Some r')
  with ex obtain r where r: "map_of rows eid = Some r" "relayClaim (Some r) now ms tok = Inr (Some r')"
      "rows' = AList.update eid r' rows"
    by (auto simp: claim_def relayClaim_def ebind_Inr_iff split: option.splits if_splits)
  have "canonical_record sha r'"
    using claim_canonical [OF canonical_rowsD [OF c r(1)] r(2)] d r(1) by (simp add: on_row_def)
  moreover have "execId r' = eid"
    using relayClaim_evolves [OF r(2)] rows_ok_lookup c r(1) by (auto simp: row_evolves_defs canonical_rows_def)
  ultimately show ?thesis using canonical_rows_update [OF c] r(3) by simp
qed

lemma reconcileOne_canonical:
  assumes c: "canonical_rows sha rows" and ex: "reconcileOne rows eid now = Inr (rows', out)"
    and d: "disciplined rows (ReconcileOne eid now)"
  shows "canonical_rows sha rows'"
proof (cases "rows' = rows")
  case False
  with ex obtain r where r: "map_of rows eid = Some r" "rstate r \<notin> set RELAY_TERMINAL_STATES"
      "rows' = AList.update eid (relayReconcileExpired r now) rows"
    by (auto simp: reconcileOne_def ebind_Inr_iff Let_def split: option.splits if_splits)
  have "execId (relayReconcileExpired r now) = eid"
    using rows_ok_lookup c r(1) by (auto simp: relayReconcileExpired_def canonical_rows_def)
  then show ?thesis
    using reconcile_canonical [OF canonical_rowsD [OF c r(1)] r(2)] d r canonical_rows_update [OF c]
    by (simp add: on_row_def)
qed (use c in simp)

lemma reconcileExpired_canonical:
  assumes c: "canonical_rows sha rows" and ex: "reconcileExpired rows now limit = Inr (rows', out)"
    and d: "disciplined rows (ReconcileExpired now limit)"
  shows "canonical_rows sha rows'"
proof -
  have ok: "rows_ok rows" using c by (simp add: canonical_rows_def)
  have "canonical_record sha r'" if m: "map_of rows' eid = Some r'" for eid r'
  proof -
    obtain r where r: "map_of rows eid = Some r"
        "r' = (if r \<in> set (expiredBatch rows now limit) then relayReconcileExpired r now else r)"
      using m reconcileExpired_lookup [OF ok ex, of eid] by (auto split: option.splits)
    have "clock_ok r now"
      using d r(1) by (force simp: list_all_iff dest: map_of_SomeD)
    moreover have "rstate r \<notin> set RELAY_TERMINAL_STATES" if "r \<in> set (expiredBatch rows now limit)"
      using that expiredBatch_rows(2) [OF ok] expiredLease_not_terminal by blast
    ultimately show ?thesis
      using r(2) canonical_rowsD [OF c r(1)] reconcile_canonical by simp
  qed
  moreover have "rows_ok rows'"
    using reconcileExpired_evolves [OF ok ex] by (rule rows_evolve_ok)
  ultimately show ?thesis
    by (auto simp: canonical_rows_def on_row_def canonical_iff split: option.splits)
qed

lemma store_exec_canonical:
  assumes "canonical_rows sha rows" "store_exec sha rows op = Inr rows'" "disciplined rows op"
  shows "canonical_rows sha rows'"
  using assms(2,3)
  by (cases op) (auto simp: rows_of_Inr simp del: disciplined.simps(2-12) dest!: enqueue_canonical [OF assms(1)]
      claim_rows_canonical [OF assms(1)] transact_ops_canonical [OF assms(1)]
      reconcileExpired_canonical [OF assms(1)] reconcileOne_canonical [OF assms(1)])


lemma store_apply_canonical:
  assumes "canonical_rows sha rows" "disciplined rows op"
  shows "canonical_rows sha (store_apply sha rows op)"
  using assms store_exec_canonical by (auto simp: store_apply_def split: sum.splits)

lemma leased_rows_canonical: "canonical_rows id leased_rows"
proof -
  have e: "canonical_rows id []" by (simp add: canonical_rows_def on_row_def)
  have s1: "canonical_rows id (store_apply id [] (hd sample_ops))"
    by (rule store_apply_canonical [OF e]) (simp add: sample_ops_def)
  have "canonical_rows id (store_apply id (store_apply id [] (hd sample_ops)) (sample_ops ! 1))"
    by (rule store_apply_canonical [OF s1])
      (simp add: sample_ops_def store_eval on_row_def clock_ok_def)
  then show ?thesis by (simp add: leased_rows_def sample_ops_def)
qed

text \<open>
  C22. An operation performed under the caller's discipline keeps every row acceptable to the
  store's own validator: what the store writes, a reopened store reads back as current.
\<close>

theorem store_keeps_rows_canonical:
  assumes "canonical_rows sha rows" "disciplined rows op"
  shows "canonical_rows sha (store_apply sha rows op)"
  using assms by (rule store_apply_canonical)

theorem store_keeps_rows_canonical_witness:
  "canonical_rows id leased_rows \<and> disciplined leased_rows (Release ''x1'' ''t1'' 2000)
   \<and> canonical_rows id (store_apply id leased_rows (Release ''x1'' ''t1'' 2000))"
proof -
  have "disciplined leased_rows (Release ''x1'' ''t1'' 2000)"
    by (simp add: leased_rows_def sample_ops_def store_eval on_row_def clock_ok_def)
  then show ?thesis
    using leased_rows_canonical store_keeps_rows_canonical [of id leased_rows "Release ''x1'' ''t1'' 2000"]
    by blast
qed

text \<open>
  Outside that discipline the store accepts a transition its validator rejects: a record
  whose submission is checkpointed can be blocked for a reason other than
  \<open>destination_reverted\<close>, and the result is not a current record, so that a reopened file store
  replaces it by a tombstone without the mint hash.
\<close>

theorem blocked_reason_breaks_canonical:
  assumes "canonical_record sha r" "rstate r = mint_submitted"
    and "relayFinishBlocked (Some r) tok why now = Inr (Next r')" "why \<noteq> ''destination_reverted''"
  shows "\<not> isCurrentRelayRecord sha (record_js r')
    \<and> mintTxHash r' \<noteq> None \<and> mintTxHash (legacyConversion (execId r') (record_js r') now) = None"
proof -
  have "state_fields_ok sha r mint_submitted"
    using assms(1,2) by (simp add: canonical_record_def tombstone_def)
  then have h: "mintTxHash r \<noteq> None" by (auto simp: bound_mint_def)
  have r': "rstate r' = blocked" "reasonCode r' = Some why" "mintTxHash r' = mintTxHash r"
    using assms(3) by (auto simp: transition_defs split: if_splits)
  have "\<not> canonical_record sha r'"
    using h r' assms(4) by (auto simp: canonical_record_def tombstone_def)
  then show ?thesis
    using h r' by (simp add: canonical_iff legacyConversion_def)
qed

definition submitted_rows :: rows where
  "submitted_rows = run_ops (store_apply id) [] (take 6 sample_ops)"

lemma submitted_rows_canonical: "canonical_rows id submitted_rows"
proof -
  define s3 where "s3 = store_apply id leased_rows (sample_ops ! 2)"
  define s4 where "s4 = store_apply id s3 (sample_ops ! 3)"
  define s5 where "s5 = store_apply id s4 (sample_ops ! 4)"
  note evals = leased_rows_def sample_ops_def store_eval on_row_def clock_ok_def
  have c3: "canonical_rows id s3"
    unfolding s3_def by (rule store_apply_canonical [OF leased_rows_canonical]) (simp add: evals)
  have c4: "canonical_rows id s4"
    unfolding s4_def by (rule store_apply_canonical [OF c3]) (simp add: s3_def evals)
  have c5: "canonical_rows id s5"
    unfolding s5_def by (rule store_apply_canonical [OF c4]) (simp add: s3_def s4_def evals)
  have "canonical_rows id (store_apply id s5 (sample_ops ! 5))"
    by (rule store_apply_canonical [OF c5]) (simp add: s3_def s4_def s5_def evals)
  then show ?thesis
    by (simp add: submitted_rows_def s3_def s4_def s5_def leased_rows_def sample_ops_def numeral_eq_Suc)
qed

theorem blocked_reason_breaks_canonical_witness:
  "\<exists>r r'. canonical_record id r \<and> rstate r = mint_submitted
     \<and> relayFinishBlocked (Some r) ''t1'' ''message_mismatch'' 1006 = Inr (Next r')
     \<and> \<not> isCurrentRelayRecord id (record_js r')"
proof -
  have "\<exists>r r'. map_of submitted_rows ''x1'' = Some r \<and> rstate r = mint_submitted
      \<and> relayFinishBlocked (Some r) ''t1'' ''message_mismatch'' 1006 = Inr (Next r')"
    by (simp add: submitted_rows_def sample_ops_def store_eval relayFinishBlocked_def
        RELAY_BLOCKED_REASONS_def)
  then obtain r r' where r: "map_of submitted_rows ''x1'' = Some r" "rstate r = mint_submitted"
      "relayFinishBlocked (Some r) ''t1'' ''message_mismatch'' 1006 = Inr (Next r')"
    by blast
  have c: "canonical_record id r" using canonical_rowsD [OF submitted_rows_canonical r(1)] .
  show ?thesis using blocked_reason_breaks_canonical [OF c r(2,3)] c r by auto
qed

subsection \<open>Opening a file\<close>

lemma tombstone_current:
  assumes "k \<noteq> []" "safe_int now" "0 \<le> now"
  shows "isCurrentRelayRecord sha (record_js (legacyConversion k v now))"
    and "\<not> unsupportedReverse sha (record_js (legacyConversion k v now))"
  using assms
  by (auto simp: canonical_iff canonical_record_def frame_ok_def tombstone_def lease_pair_ok_def
      legacyConversion_def safe_int_def unsupportedReverse_def RELAY_TERMINAL_STATES_def js_state_in_def)

definition loadable :: "(string \<Rightarrow> string) \<Rightarrow> jsv \<Rightarrow> bool" where
  "loadable sha v \<longleftrightarrow> isCurrentRelayRecord sha v \<and> \<not> unsupportedReverse sha v"

lemma openFileStore_loadable:
  "openFileStore sha initial now =
     (map (\<lambda>(k, v). (k, if loadable sha v then v else record_js (legacyConversion k v now))) initial,
      \<not> list_all (loadable sha \<circ> snd) initial)"
proof -
  have "list_ex (\<lambda>(k, v). \<not> isCurrentRelayRecord sha v \<or> unsupportedReverse sha v) initial
      = (\<not> list_all (loadable sha \<circ> snd) initial)"
    by (induction initial) (auto simp: loadable_def)
  moreover have "(\<lambda>(k, v). (k, if \<not> isCurrentRelayRecord sha v \<or> unsupportedReverse sha v
        then record_js (legacyConversion k v now) else v))
      = (\<lambda>(k, v). (k, if loadable sha v then v else record_js (legacyConversion k v now)))"
    by (rule ext) (auto simp: loadable_def split: prod.splits)
  ultimately show ?thesis by (simp add: openFileStore_def)
qed

lemma converted_loadable:
  assumes "list_all (\<lambda>(k, v). k \<noteq> []) initial" "safe_int now" "0 \<le> now"
  shows "list_all (loadable sha \<circ> snd) (fst (openFileStore sha initial now))"
proof -
  have "loadable sha (record_js (legacyConversion k v now))" if "k \<noteq> []" for k v
    using tombstone_current [OF that assms(2,3)] by (simp add: loadable_def)
  then show ?thesis
    using assms(1) by (induction initial) (auto simp: openFileStore_loadable)
qed

lemma loadable_fixpoint:
  "list_all (loadable sha \<circ> snd) xs \<Longrightarrow> openFileStore sha xs now = (xs, False)"
  by (induction xs) (auto simp: openFileStore_loadable)

text \<open>
  Whatever the file holds, after opening it every row is a current record and no Base row is
  unfinished; the execution ids are kept in order; rows that were current and supported are kept
  as they are; and opening the converted file again converts nothing.
\<close>

theorem open_file_store_fails_closed:
  assumes "list_all (\<lambda>(k, v). k \<noteq> []) initial" "safe_int now" "0 \<le> now"
    and "openFileStore sha initial now = (rows, converted)"
  shows "list_all (\<lambda>(k, v). isCurrentRelayRecord sha v \<and> \<not> unsupportedReverse sha v) rows
    \<and> map fst rows = map fst initial
    \<and> openFileStore sha rows now' = (rows, False)
    \<and> (\<forall>i < length initial. isCurrentRelayRecord sha (snd (initial ! i))
          \<and> \<not> unsupportedReverse sha (snd (initial ! i)) \<longrightarrow> rows ! i = initial ! i)"
proof -
  have l: "list_all (loadable sha \<circ> snd) rows"
    using converted_loadable [OF assms(1-3), of sha] assms(4) by simp
  have rows: "rows = map (\<lambda>(k, v). (k, if loadable sha v then v else record_js (legacyConversion k v now))) initial"
    using assms(4) by (simp add: openFileStore_loadable)
  have "list_all (\<lambda>(k, v). isCurrentRelayRecord sha v \<and> \<not> unsupportedReverse sha v) rows"
    using l by (simp add: list_all_iff loadable_def case_prod_unfold)
  moreover have "map fst rows = map fst initial"
    unfolding rows by (simp add: case_prod_unfold comp_def)
  moreover have "\<forall>i < length initial. isCurrentRelayRecord sha (snd (initial ! i))
          \<and> \<not> unsupportedReverse sha (snd (initial ! i)) \<longrightarrow> rows ! i = initial ! i"
    unfolding rows by (simp add: case_prod_unfold loadable_def)
  ultimately show ?thesis using loadable_fixpoint [OF l] by blast
qed

definition legacy_file :: "(string \<times> jsv) list" where
  "legacy_file = [(''old1'', JObj [(''status'', JStr ''minted''), (''mintTxHash'', JStr ''0xdead'')])]"

theorem open_file_store_fails_closed_witness:
  "list_all (\<lambda>(k, v). k \<noteq> []) legacy_file
   \<and> list_all (\<lambda>(k, v). isCurrentRelayRecord id v \<and> \<not> unsupportedReverse id v)
        (fst (openFileStore id legacy_file 1000))
   \<and> openFileStore id (fst (openFileStore id legacy_file 1000)) 2000
       = (fst (openFileStore id legacy_file 1000), False)"
proof -
  have k: "list_all (\<lambda>(k, v). k \<noteq> []) legacy_file" by (simp add: legacy_file_def)
  have n: "safe_int 1000" "0 \<le> (1000::int)" by (simp_all add: safe_int_def)
  have p: "openFileStore id legacy_file 1000
      = (fst (openFileStore id legacy_file 1000), snd (openFileStore id legacy_file 1000))" by simp
  show ?thesis
    using k open_file_store_fails_closed [OF k n p] by blast
qed

end
