(* ===== verification/ExpectationDigest.thy ===== *)
theory ExpectationDigest
  imports Samples
begin

section \<open>What an expectation digest binds\<close>

text \<open>
  \<open>canonicalizeExpectation\<close> and \<open>expectationDigest\<close> of \<open>relayer/src/store.mjs\<close>: the canonical
  object is a fixed point of the validation, a forward burn is worth exactly ten times the
  message amount, and the digest of a canonical expectation determines every field of it, up to a
  collision of the hash, which the theorem exhibits.
\<close>

subsection \<open>Plain strings in JSON\<close>

text \<open>Characters that \<open>JSON.stringify\<close> writes as they are.\<close>

definition plain_char :: "char \<Rightarrow> bool" where
  "plain_char c \<longleftrightarrow> json_escape c = [c] \<and> c \<noteq> CHR 0x22"

lemma json_quote_plain: "list_all plain_char s \<Longrightarrow> json_quote s = [CHR 0x22] @ s @ [CHR 0x22]"
proof -
  have "list_all plain_char s \<Longrightarrow> concat (map json_escape s) = s"
    by (induction s) (auto simp: plain_char_def)
  then show "list_all plain_char s \<Longrightarrow> json_quote s = [CHR 0x22] @ s @ [CHR 0x22]"
    by (simp add: json_quote_def)
qed

lemma closing_quote_cancel:
  assumes "list_all plain_char s" "list_all plain_char t"
  shows "s @ CHR 0x22 # a = t @ CHR 0x22 # b \<longleftrightarrow> s = t \<and> a = b"
  using assms
proof (induction s arbitrary: t)
  case Nil
  then show ?case by (cases t) (auto simp: plain_char_def)
next
  case (Cons c s)
  then show ?case by (cases t) (auto simp: plain_char_def)
qed

lemma json_quote_cancel:
  assumes "list_all plain_char s" "list_all plain_char t"
  shows "json_quote s @ a = json_quote t @ b \<longleftrightarrow> s = t \<and> a = b"
  using assms by (simp add: json_quote_plain closing_quote_cancel)

lemma plain_chars:
  "is_lhex c \<Longrightarrow> plain_char c" "is_digit c \<Longrightarrow> plain_char c" "plain_char (CHR ''0'')" "plain_char (CHR ''x'')"
proof -
  have "list_all plain_char ''0123456789abcdefx''" by code_simp
  then show "is_lhex c \<Longrightarrow> plain_char c" "is_digit c \<Longrightarrow> plain_char c" "plain_char (CHR ''0'')" "plain_char (CHR ''x'')"
    by (auto simp: is_lhex_def is_digit_def)
qed

lemma plain_strings:
  "BYTES32_STRICT_RE s \<Longrightarrow> list_all plain_char s" "DECIMAL_RE s \<Longrightarrow> list_all plain_char s"
  "HOOK_DATA_RE s \<Longrightarrow> list_all plain_char s"
  by (auto simp: BYTES32_STRICT_RE_def DECIMAL_RE_def HOOK_DATA_RE_def startsWith0x_conv plain_chars
      elim!: list.pred_mono_strong)

subsection \<open>The text of a canonical expectation\<close>

text \<open>The names of the two directions the relay serves.\<close>

definition direction_name :: "bool \<Rightarrow> string" where
  "direction_name fwd = (if fwd then ''stellar-to-base'' else ''base-to-stellar'')"

lemma direction_plain: "list_all plain_char (direction_name fwd)"
proof -
  have "list_all plain_char (direction_name True)" "list_all plain_char (direction_name False)"
    by code_simp+
  then show ?thesis by (cases fwd) simp_all
qed

lemma direction_name_inj: "direction_name a = direction_name b \<longleftrightarrow> a = b"
  by (cases a; cases b) (simp_all add: direction_name_def)

lemma served_direction:
  assumes "canonical_fields e" "e_direction e = JStr d" "e_sourceDomain e = JNum n"
  shows "\<exists>fwd. d = direction_name fwd \<and> e_sourceDomain e = JNum (if fwd then 27 else 6)
    \<and> e_destinationDomain e = JNum (if fwd then 6 else 27)
    \<and> (case e_burnUnits7 e of None \<Rightarrow> \<not> fwd | Some b \<Rightarrow> fwd \<and> DECIMAL_RE b)"
proof (cases "d = ''stellar-to-base''")
  case True
  then have "d = direction_name True" by (simp add: direction_name_def)
  with assms True show ?thesis
    by (intro exI [of _ True])
      (auto simp: canonical_fields_def DIRECTION_DOMAINS_def STELLAR_DOMAIN_def BASE_DOMAIN_def)
next
  case False
  then have "d = ''base-to-stellar''"
    using assms by (auto simp: canonical_fields_def DIRECTION_DOMAINS_def split: if_splits)
  then have "d = direction_name False" by (simp add: direction_name_def)
  with assms \<open>d = ''base-to-stellar''\<close> show ?thesis
    by (intro exI [of _ False])
      (auto simp: canonical_fields_def DIRECTION_DOMAINS_def STELLAR_DOMAIN_def BASE_DOMAIN_def)
qed

text \<open>The constant text that introduces a property after the first one.\<close>

definition json_sep :: "string \<Rightarrow> string" where
  "json_sep k = '','' @ json_quote k @ '':''"

definition json_head :: string where
  "json_head = ''{'' @ json_quote ''version'' @ '':'' @ show_int 1"

lemma json_text_expectation:
  assumes "e_direction e = JStr d" "e_sourceDomain e = JNum sd" "e_destinationDomain e = JNum dd"
  shows "json_text (expectation_js e) =
    json_head @ json_sep ''direction'' @ json_quote d @
    json_sep ''sourceDomain'' @ show_int sd @ json_sep ''destinationDomain'' @ show_int dd @
    json_sep ''sender'' @ json_quote (e_sender e) @
    json_sep ''recipient'' @ json_quote (e_recipient e) @
    json_sep ''destinationCaller'' @ json_quote (e_destinationCaller e) @
    json_sep ''burnToken'' @ json_quote (e_burnToken e) @
    json_sep ''mintRecipient'' @ json_quote (e_mintRecipient e) @
    json_sep ''messageSender'' @ json_quote (e_messageSender e) @
    json_sep ''amount'' @ json_quote (e_amount e) @
    json_sep ''burnUnits7'' @ (case e_burnUnits7 e of None \<Rightarrow> ''null'' | Some b \<Rightarrow> json_quote b) @
    json_sep ''maxFee'' @ json_quote (e_maxFee e) @
    json_sep ''minFinalityThreshold'' @ show_int (e_minFinalityThreshold e) @
    json_sep ''hookData'' @ json_quote (e_hookData e) @ ''}''"
  using assms
  by (cases "e_burnUnits7 e") (simp_all add: json_text_def expectation_js_def json_sep_def json_head_def)

text \<open>A served expectation: canonical, with a direction and domains the store accepts.\<close>

definition served :: "expectation \<Rightarrow> bool" where
  "served e \<longleftrightarrow> canonical_fields e \<and> js_is_str (e_direction e) \<and> is_ok (normalizeSourceDomain (e_sourceDomain e))"

lemma servedE:
  assumes "served e"
  obtains fwd where "e_direction e = JStr (direction_name fwd)" "e_sourceDomain e = JNum (if fwd then 27 else 6)"
    "e_destinationDomain e = JNum (if fwd then 6 else 27)" "canonical_fields e"
    "case e_burnUnits7 e of None \<Rightarrow> \<not> fwd | Some b \<Rightarrow> fwd \<and> DECIMAL_RE b"
proof -
  obtain d where d: "e_direction e = JStr d"
    using assms by (cases "e_direction e") (auto simp: served_def)
  obtain n where n: "e_sourceDomain e = JNum n"
    using assms by (auto simp: served_def normalizeSourceDomain_def split: if_splits)
  show thesis
    using served_direction [OF _ d n] assms d that by (auto simp: served_def)
qed

lemma show_thresholds: "show_int 1000 = ''1000''" "show_int 2000 = ''2000''"
  by code_simp+

lemma finality_cancel:
  "a \<in> {1000, 2000} \<Longrightarrow> b \<in> {1000, 2000} \<Longrightarrow>
   show_int a @ xs = show_int b @ ys \<longleftrightarrow> a = b \<and> xs = ys"
  by (auto simp: show_thresholds)

lemma canonical_plain:
  assumes "canonical_fields e"
  shows "list_all plain_char (e_sender e)" "list_all plain_char (e_recipient e)"
    "list_all plain_char (e_destinationCaller e)" "list_all plain_char (e_burnToken e)"
    "list_all plain_char (e_mintRecipient e)" "list_all plain_char (e_messageSender e)"
    "list_all plain_char (e_amount e)" "list_all plain_char (e_maxFee e)" "list_all plain_char (e_hookData e)"
    "e_minFinalityThreshold e \<in> {1000, 2000}"
  using assms by (simp_all add: canonical_fields_def plain_strings)

lemma expectation_text_inj:
  assumes "served e" "served e'" "json_text (expectation_js e) = json_text (expectation_js e')"
  shows "e = e'"
proof -
  obtain f where f: "e_direction e = JStr (direction_name f)" "e_sourceDomain e = JNum (if f then 27 else 6)"
    "e_destinationDomain e = JNum (if f then 6 else 27)" "canonical_fields e"
    "case e_burnUnits7 e of None \<Rightarrow> \<not> f | Some b \<Rightarrow> f \<and> DECIMAL_RE b"
    using assms(1) by (rule servedE)
  obtain f' where f': "e_direction e' = JStr (direction_name f')" "e_sourceDomain e' = JNum (if f' then 27 else 6)"
    "e_destinationDomain e' = JNum (if f' then 6 else 27)" "canonical_fields e'"
    "case e_burnUnits7 e' of None \<Rightarrow> \<not> f' | Some b \<Rightarrow> f' \<and> DECIMAL_RE b"
    using assms(2) by (rule servedE)
  note texts = json_text_expectation [OF f(1-3)] json_text_expectation [OF f'(1-3)]
  note dir = json_quote_cancel [OF direction_plain direction_plain]
  have eq: "f' = f"
    using assms(3) unfolding texts by (simp only: same_append_eq dir direction_name_inj simp_thms)
  note q = canonical_plain(1-9) [OF f(4)] canonical_plain(1-9) [OF f'(4)]
  have u: "(case e_burnUnits7 e of None \<Rightarrow> ''null'' | Some b \<Rightarrow> json_quote b) @ x
       = (case e_burnUnits7 e' of None \<Rightarrow> ''null'' | Some b \<Rightarrow> json_quote b) @ y
     \<longleftrightarrow> e_burnUnits7 e = e_burnUnits7 e' \<and> x = y" for x y
    using f(5) f'(5) eq plain_strings(2) json_quote_cancel
    by (cases "e_burnUnits7 e"; cases "e_burnUnits7 e'") auto
  have "e_sender e = e_sender e' \<and> e_recipient e = e_recipient e'
      \<and> e_destinationCaller e = e_destinationCaller e' \<and> e_burnToken e = e_burnToken e'
      \<and> e_mintRecipient e = e_mintRecipient e' \<and> e_messageSender e = e_messageSender e'
      \<and> e_amount e = e_amount e' \<and> e_burnUnits7 e = e_burnUnits7 e' \<and> e_maxFee e = e_maxFee e'
      \<and> e_minFinalityThreshold e = e_minFinalityThreshold e' \<and> e_hookData e = e_hookData e'"
    using assms(3) unfolding texts eq
    by (simp only: same_append_eq json_quote_cancel q u simp_thms
        finality_cancel [OF canonical_plain(10) [OF f(4)] canonical_plain(10) [OF f'(4)]])
  then show ?thesis using f(1-3) f'(1-3) eq by (simp add: expectation.equality)
qed

text \<open>Two texts the hash does not tell apart.\<close>

definition collision :: "(string \<Rightarrow> string) \<Rightarrow> string \<Rightarrow> string \<Rightarrow> bool" where
  "collision sha x y \<longleftrightarrow> x \<noteq> y \<and> sha x = sha y"

text \<open>The text \<open>expectationDigest\<close> hashes.\<close>

definition hashed_text :: "expectation \<Rightarrow> string" where
  "hashed_text e = EXPECTATION_DIGEST_DOMAIN @ CHR 0x00 # json_text (expectation_js e)"

text \<open>
  C29. The digest binds the whole expectation: two served canonical expectations (whose direction is a
  string) have the same digest only when they agree on every field, amounts and recipients
  included, or when the two texts that were hashed are a collision of the hash. Nothing is assumed of
  the hash.
\<close>

theorem digest_binds_expectation:
  assumes "served e" "served e'"
  shows "expectationDigest sha e = expectationDigest sha e' \<longleftrightarrow>
    e = e' \<or> collision sha (hashed_text e) (hashed_text e')"
  using expectation_text_inj [OF assms] by (auto simp: expectationDigest_def collision_def hashed_text_def)

lemma sample_served: "served sample_exp" "served (sample_exp\<lparr>e_maxFee := ''0'', e_minFinalityThreshold := 1000\<rparr>)"
  using sample_exp_canonical
  by (simp_all add: served_def sample_domain canonical_fields_def)
    (simp_all add: sample_exp_def)

theorem digest_binds_expectation_witness:
  "served sample_exp \<and> served (sample_exp\<lparr>e_maxFee := ''0'', e_minFinalityThreshold := 1000\<rparr>)
   \<and> (expectationDigest (take 64) sample_exp = expectationDigest (take 64) (sample_exp\<lparr>e_maxFee := ''0'', e_minFinalityThreshold := 1000\<rparr>) \<longleftrightarrow>
      collision (take 64) (hashed_text sample_exp)
        (hashed_text (sample_exp\<lparr>e_maxFee := ''0'', e_minFinalityThreshold := 1000\<rparr>)))"
proof -
  have "sample_exp \<noteq> sample_exp\<lparr>e_maxFee := ''0'', e_minFinalityThreshold := 1000\<rparr>"
    by (simp add: sample_exp_def)
  then show ?thesis
    using digest_binds_expectation [OF sample_served] sample_served by blast
qed

text \<open>
  Validation accepts exactly once: what it returns is a fixed point of it, its hashes and
  amounts are canonical, a forward burn of 7-decimal units is ten times the 6-decimal amount and
  a reverse one carries no units.
\<close>

theorem canonical_expectation_fixpoint:
  assumes "canonicalizeExpectation x = Inr e"
  shows "canonicalizeExpectation (expectation_js e) = Inr e
    \<and> (\<forall>h \<in> {e_sender e, e_recipient e, e_destinationCaller e, e_burnToken e, e_mintRecipient e,
          e_messageSender e}. BYTES32_STRICT_RE h)
    \<and> (if e_direction e = JStr ''stellar-to-base''
       then e_sourceDomain e = JNum STELLAR_DOMAIN \<and> e_destinationDomain e = JNum BASE_DOMAIN
         \<and> (\<exists>b. e_burnUnits7 e = Some b \<and> dec_val b = 10 * dec_val (e_amount e))
       else e_burnUnits7 e = None)"
proof -
  have c: "canonical_fields e" using assms by (rule canonicalizeExpectation_Inr_fields)
  then show ?thesis
    using canonicalizeExpectation_of_fields [OF c]
    by (auto simp: canonical_fields_def DIRECTION_DOMAINS_def split: if_splits)
qed

theorem canonical_expectation_fixpoint_witness:
  "canonicalizeExpectation sample_expectation = Inr sample_exp
   \<and> canonicalizeExpectation (expectation_js sample_exp) = Inr sample_exp"
  using canonical_expectation_fixpoint [OF sample_canonicalized] by simp

text \<open>
  A direction that is not a string but names one as a property key, such as the array
  \<open>['stellar-to-base']\<close>, passes the validation with the forward domains and is then treated as
  a reverse one: its 7-decimal burn units must be \<open>null\<close> and are never checked against the
  amount.
\<close>

theorem array_direction_skips_units:
  assumes "canonicalizeExpectation (expectation_js e) = Inr e" "e_direction e = JStr ''stellar-to-base''"
  shows "canonicalizeExpectation
      (expectation_js (e\<lparr>e_direction := JArr [JStr ''stellar-to-base''], e_burnUnits7 := None\<rparr>))
    = Inr (e\<lparr>e_direction := JArr [JStr ''stellar-to-base''], e_burnUnits7 := None\<rparr>)"
  using assms unfolding canonicalize_iff_fields
  by (auto simp: canonical_fields_def)

theorem array_direction_skips_units_witness:
  "canonicalizeExpectation
      (expectation_js (sample_exp\<lparr>e_direction := JArr [JStr ''stellar-to-base''], e_burnUnits7 := None\<rparr>))
    = Inr (sample_exp\<lparr>e_direction := JArr [JStr ''stellar-to-base''], e_burnUnits7 := None\<rparr>)"
proof -
  have "canonicalizeExpectation (expectation_js sample_exp) = Inr sample_exp"
    by (simp add: canonicalize_iff_fields)
  then show ?thesis by (rule array_direction_skips_units) (simp add: sample_exp_def)
qed

end
