(* ===== verification/CctpMessage.thy ===== *)
theory CctpMessage
  imports Samples
begin

section \<open>The CCTP v2 burn message: parser and matcher\<close>

text \<open>
  \<open>relayer/src/cctp/messageV2.mjs\<close>: the strict parser of Circle's raw message bytes and the
  matcher that compares them with the immutable expectation. Integers are exact (\<open>BigInt\<close>),
  so they are natural numbers; the wire fields keep their widths through the byte runs they are
  read from. A reference encoder states what the layout is, and the parser is shown to be its
  inverse; the matcher is shown to accept exactly the messages of a declarative specification.
\<close>

datatype cctp_error =
    CCTP_MESSAGE_FORMAT | CCTP_MESSAGE_LENGTH | CCTP_MESSAGE_VERSION | CCTP_MESSAGE_MISMATCH
  | CCTP_MESSAGE_AMBIGUOUS | CCTP_EXPECTATION_REQUIRED | CCTP_ATTESTATION_TIMEOUT

definition CCTP_V2_WIRE_VERSION :: nat where "CCTP_V2_WIRE_VERSION = 1"
definition FINALITY_FAST :: nat where "FINALITY_FAST = 1000"
definition FINALITY_STANDARD :: nat where "FINALITY_STANDARD = 2000"

definition SUPPORTED_EXECUTED_FINALITIES :: "nat list" where
  "SUPPORTED_EXECUTED_FINALITIES = [FINALITY_FAST, FINALITY_STANDARD]"

definition ZERO_BYTES32 :: string where
  "ZERO_BYTES32 = ''0x'' @ concat (replicate 32 ''00'')"

definition BURN_UNITS7_PER_MESSAGE_UNIT :: nat where "BURN_UNITS7_PER_MESSAGE_UNIT = 10"

subsection \<open>Wire layout\<close>

datatype wire_field =
    W_headerVersion | W_sourceDomain | W_destinationDomain | W_nonce | W_sender | W_recipient
  | W_destinationCaller | W_minFinalityThreshold | W_finalityThresholdExecuted | W_bodyVersion
  | W_burnToken | W_mintRecipient | W_amount | W_messageSender | W_maxFee | W_feeExecuted
  | W_expirationBlock | W_hookData

primrec OFFSET :: "wire_field \<Rightarrow> nat" where
  "OFFSET W_headerVersion = 0"
| "OFFSET W_sourceDomain = 4"
| "OFFSET W_destinationDomain = 8"
| "OFFSET W_nonce = 12"
| "OFFSET W_sender = 44"
| "OFFSET W_recipient = 76"
| "OFFSET W_destinationCaller = 108"
| "OFFSET W_minFinalityThreshold = 140"
| "OFFSET W_finalityThresholdExecuted = 144"
| "OFFSET W_bodyVersion = 148"
| "OFFSET W_burnToken = 152"
| "OFFSET W_mintRecipient = 184"
| "OFFSET W_amount = 216"
| "OFFSET W_messageSender = 248"
| "OFFSET W_maxFee = 280"
| "OFFSET W_feeExecuted = 312"
| "OFFSET W_expirationBlock = 344"
| "OFFSET W_hookData = 376"

definition MIN_MESSAGE_BYTES :: nat where
  "MIN_MESSAGE_BYTES = OFFSET W_hookData"

record cctp_message =
  m_headerVersion :: nat
  m_sourceDomain :: nat
  m_destinationDomain :: nat
  m_nonce :: string
  m_sender :: string
  m_recipient :: string
  m_destinationCaller :: string
  m_minFinalityThreshold :: nat
  m_finalityThresholdExecuted :: nat
  m_bodyVersion :: nat
  m_burnToken :: string
  m_mintRecipient :: string
  m_amount :: nat
  m_messageSender :: string
  m_maxFee :: nat
  m_feeExecuted :: nat
  m_expirationBlock :: nat
  m_hookData :: string

subsection \<open>The parser\<close>

definition readU32BigInt :: "byte list \<Rightarrow> wire_field \<Rightarrow> nat" where
  "readU32BigInt bytes f = hex_val (bytes_hex (slice (OFFSET f) 4 bytes))"

definition readU256BigInt :: "byte list \<Rightarrow> wire_field \<Rightarrow> nat" where
  "readU256BigInt bytes f = hex_val (bytes_hex (slice (OFFSET f) 32 bytes))"

definition readBytes32 :: "byte list \<Rightarrow> wire_field \<Rightarrow> string" where
  "readBytes32 bytes f = ''0x'' @ bytes_hex (slice (OFFSET f) 32 bytes)"

definition parsed_fields :: "byte list \<Rightarrow> cctp_message" where
  "parsed_fields bytes =
     \<lparr>m_headerVersion = readU32BigInt bytes W_headerVersion,
      m_sourceDomain = readU32BigInt bytes W_sourceDomain,
      m_destinationDomain = readU32BigInt bytes W_destinationDomain,
      m_nonce = readBytes32 bytes W_nonce,
      m_sender = readBytes32 bytes W_sender,
      m_recipient = readBytes32 bytes W_recipient,
      m_destinationCaller = readBytes32 bytes W_destinationCaller,
      m_minFinalityThreshold = readU32BigInt bytes W_minFinalityThreshold,
      m_finalityThresholdExecuted = readU32BigInt bytes W_finalityThresholdExecuted,
      m_bodyVersion = readU32BigInt bytes W_bodyVersion,
      m_burnToken = readBytes32 bytes W_burnToken,
      m_mintRecipient = readBytes32 bytes W_mintRecipient,
      m_amount = readU256BigInt bytes W_amount,
      m_messageSender = readBytes32 bytes W_messageSender,
      m_maxFee = readU256BigInt bytes W_maxFee,
      m_feeExecuted = readU256BigInt bytes W_feeExecuted,
      m_expirationBlock = readU256BigInt bytes W_expirationBlock,
      m_hookData = ''0x'' @ bytes_hex (drop (OFFSET W_hookData) bytes)\<rparr>"

definition parse_bytes :: "byte list \<Rightarrow> cctp_error + cctp_message" where
  "parse_bytes bytes =
     (if length bytes < MIN_MESSAGE_BYTES then Inl CCTP_MESSAGE_LENGTH
      else if readU32BigInt bytes W_headerVersion \<noteq> CCTP_V2_WIRE_VERSION then Inl CCTP_MESSAGE_VERSION
      else if readU32BigInt bytes W_bodyVersion \<noteq> CCTP_V2_WIRE_VERSION then Inl CCTP_MESSAGE_VERSION
      else Inr (parsed_fields bytes))"

fun parseCctpV2Message :: "jsv \<Rightarrow> cctp_error + cctp_message" where
  "parseCctpV2Message (JStr msgHex) =
     (if \<not> startsWith0x msgHex then Inl CCTP_MESSAGE_FORMAT
      else let hex = drop 2 msgHex in
        if hex = [] \<or> odd (length hex) \<or> \<not> list_all is_hex hex then Inl CCTP_MESSAGE_FORMAT
        else parse_bytes (hex_bytes hex))"
| "parseCctpV2Message _ = Inl CCTP_MESSAGE_FORMAT"

subsection \<open>The matcher\<close>

definition assertField :: "bool \<Rightarrow> cctp_error + unit" where
  "assertField ok = require ok CCTP_MESSAGE_MISMATCH"

fun expectBigInt :: "jsv \<Rightarrow> cctp_error + nat" where
  "expectBigInt (JStr s) =
     (if s \<noteq> [] \<and> list_all is_digit s then Inr (dec_val s) else Inl CCTP_MESSAGE_MISMATCH)"
| "expectBigInt (JNum n) = (if safe_int n \<and> 0 \<le> n then Inr (nat n) else Inl CCTP_MESSAGE_MISMATCH)"
| "expectBigInt _ = Inl CCTP_MESSAGE_MISMATCH"

text \<open>\<open>expectation && typeof expectation === 'object'\<close>: arrays are objects as well.\<close>

fun js_typeof_object :: "jsv \<Rightarrow> bool" where
  "js_typeof_object (JObj kvs) = True"
| "js_typeof_object (JArr xs) = True"
| "js_typeof_object _ = False"

definition MATCHED_BYTES_FIELDS :: "(string \<times> (cctp_message \<Rightarrow> string)) list" where
  "MATCHED_BYTES_FIELDS =
     [(''sender'', m_sender), (''recipient'', m_recipient),
      (''destinationCaller'', m_destinationCaller), (''burnToken'', m_burnToken),
      (''mintRecipient'', m_mintRecipient), (''messageSender'', m_messageSender),
      (''hookData'', m_hookData)]"

text \<open>\<open>assertField(field, parsed.f === expectBigInt(expectation.f))\<close>.\<close>

definition assertNat :: "nat \<Rightarrow> jsv \<Rightarrow> cctp_error + unit" where
  "assertNat n v = ebind (expectBigInt v) (\<lambda>k. assertField (n = k))"

text \<open>The direction branch at the end of the matcher.\<close>

definition assertDirection :: "cctp_message \<Rightarrow> jsv \<Rightarrow> cctp_error + unit" where
  "assertDirection m x =
     (if js_get x ''direction'' = JStr ''stellar-to-base'' then
        ebind (assertField (m_destinationCaller m = ZERO_BYTES32)) (\<lambda>_.
        ebind (assertField (m_minFinalityThreshold m = FINALITY_STANDARD)) (\<lambda>_.
        ebind (assertField (m_maxFee m = 0)) (\<lambda>_.
        ebind (assertField (m_feeExecuted m = 0)) (\<lambda>_.
        ebind (expectBigInt (js_get x ''burnUnits7'')) (\<lambda>burnUnits7.
        ebind (assertField (burnUnits7 mod BURN_UNITS7_PER_MESSAGE_UNIT = 0)) (\<lambda>_.
          assertField (m_amount m = burnUnits7 div BURN_UNITS7_PER_MESSAGE_UNIT)))))))
      else if js_get x ''direction'' = JStr ''base-to-stellar'' then
        ebind (assertField (js_get x ''burnUnits7'' = JNull)) (\<lambda>_.
          assertNat (m_amount m) (js_get x ''amount''))
      else Inl CCTP_MESSAGE_MISMATCH)"

definition assertCctpV2BurnMatches :: "jsv \<Rightarrow> jsv \<Rightarrow> cctp_error + cctp_message" where
  "assertCctpV2BurnMatches msgHex x =
     ebind (parseCctpV2Message msgHex) (\<lambda>m.
     if \<not> js_typeof_object x then Inl CCTP_MESSAGE_MISMATCH
     else ebind (assertField (js_get x ''version'' = JNum 1)) (\<lambda>_.
       ebind (assertNat (m_sourceDomain m) (js_get x ''sourceDomain'')) (\<lambda>_.
       ebind (assertNat (m_destinationDomain m) (js_get x ''destinationDomain'')) (\<lambda>_.
       ebind (assertField (list_all (\<lambda>(f, sel). js_get x f = JStr (sel m)) MATCHED_BYTES_FIELDS)) (\<lambda>_.
       ebind (assertNat (m_minFinalityThreshold m) (js_get x ''minFinalityThreshold'')) (\<lambda>_.
       ebind (assertField (m_finalityThresholdExecuted m \<in> set SUPPORTED_EXECUTED_FINALITIES)) (\<lambda>_.
       ebind (assertField (m_minFinalityThreshold m \<le> m_finalityThresholdExecuted m)) (\<lambda>_.
       ebind (assertNat (m_maxFee m) (js_get x ''maxFee'')) (\<lambda>_.
       ebind (assertField (m_feeExecuted m \<le> m_maxFee m)) (\<lambda>_.
       ebind (assertDirection m x) (\<lambda>_. Inr m)))))))))))"

subsection \<open>The reference encoding\<close>

text \<open>
  The layout as an encoder: what the wire table of the module documents. \<open>wire_ok\<close> says which
  field values fit their wire width.
\<close>

definition hex_field :: "string \<Rightarrow> byte list" where
  "hex_field s = hex_bytes (drop 2 s)"

definition encode_message :: "cctp_message \<Rightarrow> byte list" where
  "encode_message m =
     be_bytes 4 (m_headerVersion m) @ be_bytes 4 (m_sourceDomain m) @
     be_bytes 4 (m_destinationDomain m) @ hex_field (m_nonce m) @ hex_field (m_sender m) @
     hex_field (m_recipient m) @ hex_field (m_destinationCaller m) @
     be_bytes 4 (m_minFinalityThreshold m) @ be_bytes 4 (m_finalityThresholdExecuted m) @
     be_bytes 4 (m_bodyVersion m) @ hex_field (m_burnToken m) @ hex_field (m_mintRecipient m) @
     be_bytes 32 (m_amount m) @ hex_field (m_messageSender m) @ be_bytes 32 (m_maxFee m) @
     be_bytes 32 (m_feeExecuted m) @ be_bytes 32 (m_expirationBlock m) @ hex_field (m_hookData m)"

definition wire_ok :: "cctp_message \<Rightarrow> bool" where
  "wire_ok m \<longleftrightarrow>
     m_headerVersion m = 1 \<and> m_bodyVersion m = 1
   \<and> list_all (\<lambda>n. n < 2 ^ 32) [m_sourceDomain m, m_destinationDomain m, m_minFinalityThreshold m,
       m_finalityThresholdExecuted m]
   \<and> list_all (\<lambda>n. n < 2 ^ 256) [m_amount m, m_maxFee m, m_feeExecuted m, m_expirationBlock m]
   \<and> list_all BYTES32_STRICT_RE [m_nonce m, m_sender m, m_recipient m, m_destinationCaller m,
       m_burnToken m, m_mintRecipient m, m_messageSender m]
   \<and> HOOK_DATA_RE (m_hookData m)"

lemma hex_field_0x [simp]: "hex_field (CHR ''0'' # CHR ''x'' # bytes_hex bs) = bs"
  by (simp add: hex_field_def)

lemma hex_field_bytes32:
  assumes "BYTES32_STRICT_RE s"
  shows "length (hex_field s) = 32" "CHR ''0'' # CHR ''x'' # bytes_hex (hex_field s) = s"
  using assms
  by (auto simp: BYTES32_STRICT_RE_def hex_field_def startsWith0x_conv bytes_hex_hex_bytes)

lemma hex_field_hook:
  "HOOK_DATA_RE s \<Longrightarrow> CHR ''0'' # CHR ''x'' # bytes_hex (hex_field s) = s"
  by (auto simp: HOOK_DATA_RE_def hex_field_def startsWith0x_conv bytes_hex_hex_bytes)

lemma slice_skip: "length p \<le> off \<Longrightarrow> slice off len (p @ r) = slice (off - length p) len r"
  by (simp add: slice_def)

lemma slice_hit: "length p = len \<Longrightarrow> slice 0 len (p @ r) = p"
  by (simp add: slice_def)

lemma drop_skip: "length p \<le> off \<Longrightarrow> drop off (p @ r) = drop (off - length p) r"
  by simp

lemma parsed_fields_encode:
  assumes "wire_ok m"
  shows "parsed_fields (encode_message m) = m"
proof -
  have u32: "be_val (be_bytes 4 n) = n" if "n < 2 ^ 32" for n
    using that by (intro be_val_be_bytes) simp
  have u256: "be_val (be_bytes 32 n) = n" if "n < 2 ^ 256" for n
    using that by (intro be_val_be_bytes) simp
  have one: "be_val (be_bytes 4 1) = 1" by (rule u32) simp
  have b32: "BYTES32_STRICT_RE (m_nonce m)" "BYTES32_STRICT_RE (m_sender m)" "BYTES32_STRICT_RE (m_recipient m)"
    "BYTES32_STRICT_RE (m_destinationCaller m)" "BYTES32_STRICT_RE (m_burnToken m)"
    "BYTES32_STRICT_RE (m_mintRecipient m)" "BYTES32_STRICT_RE (m_messageSender m)"
    using assms by (simp_all add: wire_ok_def)
  note rd = readU32BigInt_def readU256BigInt_def readBytes32_def encode_message_def slice_skip slice_hit
    b32 [THEN hex_field_bytes32(1)] b32 [THEN hex_field_bytes32(2)]
  show ?thesis
    using assms hex_field_hook
    by (intro cctp_message.equality)
      (simp_all add: parsed_fields_def rd u32 u256 one wire_ok_def)
qed

lemma length_encode: "wire_ok m \<Longrightarrow> 376 \<le> length (encode_message m)"
  by (simp add: encode_message_def wire_ok_def hex_field_bytes32)

lemma encode_parsed_fields:
  assumes "376 \<le> length bs"
  shows "encode_message (parsed_fields bs) = bs"
proof -
  have be: "be_bytes k (be_val (slice off k bs)) = slice off k bs" if "off + k \<le> 376" for off k
    using be_bytes_be_val [of "slice off k bs"] that assms by simp
  have "bs = slice 0 4 bs @ slice 4 4 bs @ slice 8 4 bs @ slice 12 32 bs @ slice 44 32 bs @
      slice 76 32 bs @ slice 108 32 bs @ slice 140 4 bs @ slice 144 4 bs @ slice 148 4 bs @
      slice 152 32 bs @ slice 184 32 bs @ slice 216 32 bs @ slice 248 32 bs @ slice 280 32 bs @
      slice 312 32 bs @ slice 344 32 bs @ drop 376 bs"
    using slice_drop [of 0 4 bs] slice_drop [of 4 4 bs] slice_drop [of 8 4 bs] slice_drop [of 12 32 bs]
      slice_drop [of 44 32 bs] slice_drop [of 76 32 bs] slice_drop [of 108 32 bs] slice_drop [of 140 4 bs]
      slice_drop [of 144 4 bs] slice_drop [of 148 4 bs] slice_drop [of 152 32 bs] slice_drop [of 184 32 bs]
      slice_drop [of 216 32 bs] slice_drop [of 248 32 bs] slice_drop [of 280 32 bs] slice_drop [of 312 32 bs]
      slice_drop [of 344 32 bs]
    by simp
  then show ?thesis
    by (simp add: encode_message_def parsed_fields_def readU32BigInt_def readU256BigInt_def
        readBytes32_def be)
qed

lemma wire_ok_parsed_fields:
  assumes "376 \<le> length bs" "readU32BigInt bs W_headerVersion = 1" "readU32BigInt bs W_bodyVersion = 1"
  shows "wire_ok (parsed_fields bs)"
proof -
  have u32: "be_val (slice off 4 bs) < 2 ^ 32" if "off + 4 \<le> 376" for off
    using be_val_bound [of "slice off 4 bs"] that assms(1) by simp
  have u256: "be_val (slice off 32 bs) < 2 ^ 256" if "off + 32 \<le> 376" for off
    using be_val_bound [of "slice off 32 bs"] that assms(1) by simp
  have b: "BYTES32_STRICT_RE (CHR ''0'' # CHR ''x'' # bytes_hex (slice off 32 bs))" if "off + 32 \<le> 376" for off
    using that assms(1) by (simp add: BYTES32_STRICT_RE_def startsWith0x_def)
  have h: "HOOK_DATA_RE (CHR ''0'' # CHR ''x'' # bytes_hex r)" for r
    by (simp add: HOOK_DATA_RE_def startsWith0x_def)
  have v: "be_val (slice 0 4 bs) = 1" "be_val (slice 148 4 bs) = 1"
    using assms(2,3) by (simp_all add: readU32BigInt_def)
  show ?thesis
    unfolding wire_ok_def parsed_fields_def readU32BigInt_def readU256BigInt_def readBytes32_def
    by (simp add: v b h) (use u32 u256 in \<open>simp\<close>)
qed

lemma parse_bytes_iff: "parse_bytes bs = Inr m \<longleftrightarrow> wire_ok m \<and> bs = encode_message m"
proof
  assume "parse_bytes bs = Inr m"
  then have l: "376 \<le> length bs" "readU32BigInt bs W_headerVersion = 1" "readU32BigInt bs W_bodyVersion = 1"
    and m: "m = parsed_fields bs"
    by (auto simp: parse_bytes_def MIN_MESSAGE_BYTES_def CCTP_V2_WIRE_VERSION_def split: if_splits)
  show "wire_ok m \<and> bs = encode_message m"
    unfolding m using wire_ok_parsed_fields [OF l] encode_parsed_fields [OF l(1)] by simp
next
  assume m: "wire_ok m \<and> bs = encode_message m"
  then have p: "parsed_fields bs = m" using parsed_fields_encode by blast
  have "m_headerVersion (parsed_fields bs) = 1" "m_bodyVersion (parsed_fields bs) = 1"
    unfolding p using m by (simp_all add: wire_ok_def)
  then have "readU32BigInt bs W_headerVersion = 1" "readU32BigInt bs W_bodyVersion = 1"
    by (simp_all add: parsed_fields_def)
  moreover have "\<not> length bs < 376" using m length_encode [of m] by simp
  ultimately show "parse_bytes bs = Inr m"
    using p by (simp add: parse_bytes_def MIN_MESSAGE_BYTES_def CCTP_V2_WIRE_VERSION_def)
qed

lemma parse_iff:
  "parseCctpV2Message (JStr s) = Inr m \<longleftrightarrow>
     wire_ok m \<and> startsWith0x s \<and> list_all is_hex (drop 2 s)
   \<and> toLowerCase s = ''0x'' @ bytes_hex (encode_message m)"
proof (cases "startsWith0x s \<and> list_all is_hex (drop 2 s)")
  case True
  then obtain t where t: "s = CHR ''0'' # CHR ''x'' # t" "list_all is_hex t"
    by (auto simp: startsWith0x_conv)
  have lo: "list_all is_lhex (toLowerCase t)" using t(2) by (rule list_all_lhex_lower)
  have eq: "hex_bytes t = bs \<and> even (length t) \<longleftrightarrow> toLowerCase t = bytes_hex bs" for bs
  proof
    assume a: "hex_bytes t = bs \<and> even (length t)"
    then have "bytes_hex (hex_bytes (toLowerCase t)) = toLowerCase t"
      using lo by (intro bytes_hex_hex_bytes) simp_all
    with a show "toLowerCase t = bytes_hex bs" by (simp add: hex_bytes_lower)
  next
    assume a: "toLowerCase t = bytes_hex bs"
    then have "hex_bytes (toLowerCase t) = bs" "length (toLowerCase t) = 2 * length bs" by simp_all
    then show "hex_bytes t = bs \<and> even (length t)" by (simp add: hex_bytes_lower)
  qed
  have ne: "t \<noteq> []" if "wire_ok m" "hex_bytes t = encode_message m"
    using length_encode [OF that(1)] that(2) by (metis length_hex_bytes not_numeral_le_zero list.size(3) div_0)
  show ?thesis
    using True ne eq [of "encode_message m"] t by (auto simp: parse_bytes_iff Let_def startsWith0x_def)
qed (auto simp: Let_def)

text \<open>
  C23. The parser is the inverse of the wire layout: it returns \<open>m\<close> on a string exactly when
  every field of \<open>m\<close> fits its width, both versions are 1, and the string is the hex encoding of
  the layout of \<open>m\<close> in any letter case. So no two byte strings parse to the same message, and
  every well-formed message is reached.
\<close>

theorem parse_inverts_layout:
  "parseCctpV2Message (JStr s) = Inr m \<longleftrightarrow>
     wire_ok m \<and> startsWith0x s \<and> list_all is_hex (drop 2 s)
   \<and> toLowerCase s = ''0x'' @ bytes_hex (encode_message m)"
  by (rule parse_iff)

subsection \<open>What the matcher accepts\<close>

text \<open>
  The specification of a match: every field the expectation fixes is the message's field, the
  executed finality is one of the two Circle attests and at least the minimum, the fee is
  within the maximum, and the direction's own invariants hold.
\<close>

definition matches_expectation :: "cctp_message \<Rightarrow> expectation \<Rightarrow> bool" where
  "matches_expectation m e \<longleftrightarrow>
     e_sourceDomain e = JNum (int (m_sourceDomain m)) \<and> e_destinationDomain e = JNum (int (m_destinationDomain m))
   \<and> m_sender m = e_sender e \<and> m_recipient m = e_recipient e
   \<and> m_destinationCaller m = e_destinationCaller e \<and> m_burnToken m = e_burnToken e
   \<and> m_mintRecipient m = e_mintRecipient e \<and> m_messageSender m = e_messageSender e
   \<and> m_hookData m = e_hookData e
   \<and> int (m_minFinalityThreshold m) = e_minFinalityThreshold e
   \<and> m_finalityThresholdExecuted m \<in> {1000, 2000}
   \<and> m_minFinalityThreshold m \<le> m_finalityThresholdExecuted m
   \<and> m_maxFee m = dec_val (e_maxFee e) \<and> m_feeExecuted m \<le> m_maxFee m
   \<and> m_amount m = dec_val (e_amount e)
   \<and> (e_direction e = JStr ''base-to-stellar''
      \<or> e_direction e = JStr ''stellar-to-base'' \<and> m_destinationCaller m = ZERO_BYTES32
        \<and> m_minFinalityThreshold m = 2000 \<and> m_maxFee m = 0 \<and> m_feeExecuted m = 0)"

lemma assertField_Inr [simp]: "assertField ok = Inr u \<longleftrightarrow> ok"
  by (simp add: assertField_def)

lemma expectBigInt_decimal: "DECIMAL_RE s \<Longrightarrow> expectBigInt (JStr s) = Inr (dec_val s)"
  by (auto simp: DECIMAL_RE_def is_digit_def)

lemma assertNat_decimal [simp]: "DECIMAL_RE s \<Longrightarrow> assertNat n (JStr s) = Inr u \<longleftrightarrow> n = dec_val s"
  by (simp add: assertNat_def expectBigInt_decimal del: expectBigInt.simps)

lemma assertNat_num: "assertNat n (JNum k) = Inr u \<longleftrightarrow> safe_int k \<and> k = int n"
  by (auto simp: assertNat_def ebind_Inr_iff)

lemma assertDirection_Inr:
  assumes "canonical_fields e"
  shows "assertDirection m (expectation_js e) = Inr u \<longleftrightarrow>
     m_amount m = dec_val (e_amount e) \<and> (e_direction e = JStr ''base-to-stellar''
      \<or> e_direction e = JStr ''stellar-to-base'' \<and> m_destinationCaller m = ZERO_BYTES32
        \<and> m_minFinalityThreshold m = 2000 \<and> m_maxFee m = 0 \<and> m_feeExecuted m = 0)"
proof (cases "e_direction e = JStr ''stellar-to-base''")
  case True
  with assms obtain b where "e_burnUnits7 e = Some b" "DECIMAL_RE b" "dec_val b = 10 * dec_val (e_amount e)"
    by (auto simp: canonical_fields_def)
  with True show ?thesis
    by (auto simp: assertDirection_def ebind_Inr_iff expectBigInt_decimal FINALITY_STANDARD_def
        BURN_UNITS7_PER_MESSAGE_UNIT_def simp del: expectBigInt.simps)
next
  case False
  with assms have "e_burnUnits7 e = None" "DECIMAL_RE (e_amount e)"
    by (auto simp: canonical_fields_def)
  with False show ?thesis
    by (auto simp: assertDirection_def ebind_Inr_iff)
qed

lemma matched_bytes:
  "list_all (\<lambda>(f, sel). js_get (expectation_js e) f = JStr (sel m)) MATCHED_BYTES_FIELDS \<longleftrightarrow>
     m_sender m = e_sender e \<and> m_recipient m = e_recipient e
   \<and> m_destinationCaller m = e_destinationCaller e \<and> m_burnToken m = e_burnToken e
   \<and> m_mintRecipient m = e_mintRecipient e \<and> m_messageSender m = e_messageSender e
   \<and> m_hookData m = e_hookData e"
  by (auto simp: MATCHED_BYTES_FIELDS_def)

lemma canonical_domain_num:
  assumes "canonical_fields e" "e_direction e = JStr ''stellar-to-base'' \<or> e_direction e = JStr ''base-to-stellar''"
  shows "\<exists>a b. e_sourceDomain e = JNum a \<and> e_destinationDomain e = JNum b \<and> safe_int a \<and> safe_int b"
  using assms by (auto simp: canonical_fields_def DIRECTION_DOMAINS_def STELLAR_DOMAIN_def BASE_DOMAIN_def
      safe_int_def eq_commute [of "JNum n" "e_sourceDomain e" for n]
      eq_commute [of "JNum n" "e_destinationDomain e" for n])

lemma burn_match_iff:
  assumes "canonical_fields e"
  shows "assertCctpV2BurnMatches v (expectation_js e) = Inr m \<longleftrightarrow>
     parseCctpV2Message v = Inr m \<and> matches_expectation m e"
proof (cases "e_direction e = JStr ''stellar-to-base'' \<or> e_direction e = JStr ''base-to-stellar''")
  case True
  then obtain a b where d: "e_sourceDomain e = JNum a" "e_destinationDomain e = JNum b" "safe_int a" "safe_int b"
    using canonical_domain_num [OF assms] by blast
  have f: "DECIMAL_RE (e_maxFee e)" "safe_int (e_minFinalityThreshold e)"
    using assms by (auto simp: canonical_fields_def safe_int_def)
  have o: "js_typeof_object (expectation_js e)" by (simp add: expectation_js_def)
  show ?thesis
    unfolding assertCctpV2BurnMatches_def ebind_Inr_iff
    by (auto simp: ebind_Inr_iff o d f assertNat_num assertDirection_Inr [OF assms] matched_bytes
        matches_expectation_def SUPPORTED_EXECUTED_FINALITIES_def FINALITY_FAST_def FINALITY_STANDARD_def)
next
  case False
  then have "\<not> matches_expectation m e" by (auto simp: matches_expectation_def)
  moreover have "assertDirection m' (expectation_js e) \<noteq> Inr u" for m' u
    using False by (simp add: assertDirection_Inr [OF assms])
  ultimately show ?thesis
    by (auto simp: assertCctpV2BurnMatches_def ebind_Inr_iff)
qed

text \<open>
  C24. Against a canonical expectation the matcher returns a message exactly when the raw bytes
  parse to it and it satisfies the specification of a match; in particular a forward message
  is worth the burned 7-decimal units divided by ten, has no fee, no destination caller and
  standard finality.
\<close>

theorem burn_match_sound_complete:
  assumes "canonicalizeExpectation (expectation_js e) = Inr e"
  shows "(assertCctpV2BurnMatches v (expectation_js e) = Inr m \<longleftrightarrow>
       parseCctpV2Message v = Inr m \<and> matches_expectation m e)
    \<and> (assertCctpV2BurnMatches v (expectation_js e) = Inr m \<and> e_direction e = JStr ''stellar-to-base'' \<longrightarrow>
       (\<exists>b. e_burnUnits7 e = Some b \<and> dec_val b = 10 * m_amount m)
     \<and> m_maxFee m = 0 \<and> m_feeExecuted m = 0 \<and> m_finalityThresholdExecuted m = 2000
     \<and> m_destinationCaller m = ZERO_BYTES32 \<and> m_sourceDomain m = 27 \<and> m_destinationDomain m = 6)"
proof -
  have c: "canonical_fields e" using assms by (simp add: canonicalize_iff_fields)
  then show ?thesis
    unfolding burn_match_iff [OF c]
    by (auto simp: matches_expectation_def canonical_fields_def DIRECTION_DOMAINS_def STELLAR_DOMAIN_def
        BASE_DOMAIN_def)
qed

definition sample_message :: cctp_message where
  "sample_message =
     \<lparr>m_headerVersion = 1, m_sourceDomain = 27, m_destinationDomain = 6, m_nonce = zero32,
      m_sender = zero32, m_recipient = zero32, m_destinationCaller = zero32,
      m_minFinalityThreshold = 2000, m_finalityThresholdExecuted = 2000, m_bodyVersion = 1,
      m_burnToken = zero32, m_mintRecipient = zero32, m_amount = 1000000, m_messageSender = zero32,
      m_maxFee = 0, m_feeExecuted = 0, m_expirationBlock = 0, m_hookData = ''0x''\<rparr>"

definition sample_wire :: jsv where
  "sample_wire = JStr (''0x'' @ bytes_hex (encode_message sample_message))"

lemma sample_wire_ok: "wire_ok sample_message"
proof -
  have "HOOK_DATA_RE ''0x''" by code_simp
  then show ?thesis by (simp add: wire_ok_def sample_message_def)
qed

lemma sample_wire_parses: "parseCctpV2Message sample_wire = Inr sample_message"
proof -
  have "list_all is_hex (bytes_hex bs)" for bs
    using bytes_hex_lhex [of bs] by (auto simp: list_all_iff lhex_is_hex)
  then show ?thesis
    unfolding sample_wire_def parse_iff by (simp add: sample_wire_ok startsWith0x_def)
qed

lemma zero32_ZERO_BYTES32: "zero32 = ZERO_BYTES32"
  by (simp add: zero32_def ZERO_BYTES32_def numeral_eq_Suc)

lemma sample_matches: "matches_expectation sample_message sample_exp"
proof -
  have "dec_val ''1000000'' = 1000000" "dec_val ''0'' = 0"
    by (simp_all add: dec_val_def digit_val_def)
  then show ?thesis
    by (simp add: matches_expectation_def sample_message_def sample_exp_def zero32_ZERO_BYTES32)
qed

lemma sample_exp_fixpoint: "canonicalizeExpectation (expectation_js sample_exp) = Inr sample_exp"
  by (simp add: canonicalize_iff_fields)

theorem burn_match_sound_complete_witness:
  "canonicalizeExpectation (expectation_js sample_exp) = Inr sample_exp
   \<and> assertCctpV2BurnMatches sample_wire (expectation_js sample_exp) = Inr sample_message"
  using burn_match_sound_complete [OF sample_exp_fixpoint, of sample_wire sample_message]
    sample_exp_fixpoint sample_wire_parses sample_matches by blast

declare parseCctpV2Message.simps(1) [simp del]

end
