(* ===== verification/Iris.thy ===== *)
theory Iris
  imports CctpMessage
begin

section \<open>Polling the attestation service\<close>

text \<open>
  \<open>relayer/src/cctp/iris.mjs\<close>. The service's answers are an argument: \<open>answers k\<close> is what
  \<open>body\<close> holds after the \<open>try\<close> block of attempt \<open>k\<close>, \<open>JNull\<close> for a failed fetch, an empty
  or a non-JSON text. A match carries the raw message, its own attestation and the parsed
  message; sleeping between attempts has no effect on the result.
\<close>

definition DEFAULT_MAX_ATTEMPTS :: int where "DEFAULT_MAX_ATTEMPTS = 300"

record iris_match =
  i_message :: jsv
  i_attestation :: jsv
  i_parsed :: cctp_message

definition isCompleteCandidate :: "jsv \<Rightarrow> bool" where
  "isCompleteCandidate c \<longleftrightarrow>
     js_truthy c \<and> js_get c ''status'' = JStr ''complete''
   \<and> js_truthy (js_get c ''attestation'') \<and> js_get c ''attestation'' \<noteq> JStr ''PENDING''
   \<and> js_is_str (js_get c ''message'') \<and> js_get c ''message'' \<noteq> JStr []"

text \<open>The candidate loop: the matches found so far, and whether a candidate was pending.\<close>

fun scanCandidates :: "jsv \<Rightarrow> jsv list \<Rightarrow> iris_match list \<Rightarrow> bool \<Rightarrow> iris_match list \<times> bool" where
  "scanCandidates x [] matches hasPending = (matches, hasPending)"
| "scanCandidates x (c # cs) matches hasPending =
     (if \<not> isCompleteCandidate c then scanCandidates x cs matches True
      else case assertCctpV2BurnMatches (js_get c ''message'') x of
        Inl _ \<Rightarrow> scanCandidates x cs matches hasPending
      | Inr m \<Rightarrow> scanCandidates x cs
          (matches @ [\<lparr>i_message = js_get c ''message'', i_attestation = js_get c ''attestation'',
                       i_parsed = m\<rparr>]) hasPending)"

text \<open>\<open>Inr None\<close> is \<open>{ kind: 'not-ready' }\<close>.\<close>

fun selectUniqueMatch :: "jsv \<Rightarrow> jsv \<Rightarrow> cctp_error + iris_match option" where
  "selectUniqueMatch (JArr cs) x =
     (if cs = [] then Inr None
      else let (matches, hasPending) = scanCandidates x cs [] False in
        if 1 < length matches then Inl CCTP_MESSAGE_AMBIGUOUS
        else if hasPending then Inr None
        else case matches of [mt] \<Rightarrow> Inr (Some mt) | _ \<Rightarrow> Inl CCTP_MESSAGE_MISMATCH)"
| "selectUniqueMatch _ x = Inr None"

fun pollLoop :: "(nat \<Rightarrow> jsv) \<Rightarrow> jsv \<Rightarrow> nat \<Rightarrow> nat \<Rightarrow> cctp_error + iris_match" where
  "pollLoop answers x attempt 0 = Inl CCTP_ATTESTATION_TIMEOUT"
| "pollLoop answers x attempt (Suc left) =
     ebind (selectUniqueMatch (js_get (answers attempt) ''messages'') x) (\<lambda>sel. case sel of
         Some mt \<Rightarrow> Inr mt
       | None \<Rightarrow> pollLoop answers x (Suc attempt) left)"

definition pollAttestation :: "(nat \<Rightarrow> jsv) \<Rightarrow> jsv \<Rightarrow> int \<Rightarrow> cctp_error + iris_match" where
  "pollAttestation answers x maxAttempts =
     (if x = JUndef \<or> x = JNull then Inl CCTP_EXPECTATION_REQUIRED
      else pollLoop answers x 0 (nat maxAttempts))"

subsection \<open>Unique selection\<close>

text \<open>The match a complete candidate yields, if its raw bytes satisfy the expectation.\<close>

definition candidate_match :: "jsv \<Rightarrow> jsv \<Rightarrow> iris_match option" where
  "candidate_match x c =
     (case assertCctpV2BurnMatches (js_get c ''message'') x of
        Inr m \<Rightarrow> if isCompleteCandidate c
          then Some \<lparr>i_message = js_get c ''message'', i_attestation = js_get c ''attestation'', i_parsed = m\<rparr>
          else None
      | Inl _ \<Rightarrow> None)"

definition response_matches :: "jsv \<Rightarrow> jsv list \<Rightarrow> iris_match list" where
  "response_matches x cs = List.map_filter (candidate_match x) cs"

lemma scanCandidates_eq:
  "scanCandidates x cs ms p =
     (ms @ response_matches x cs, p \<or> \<not> list_all isCompleteCandidate cs)"
  by (induction cs arbitrary: ms p)
    (auto simp: response_matches_def List.map_filter_def candidate_match_def split: sum.splits)

lemma selectUniqueMatch_spec:
  "selectUniqueMatch v x =
     (case v of JArr cs \<Rightarrow>
        if cs = [] then Inr None
        else if 1 < length (response_matches x cs) then Inl CCTP_MESSAGE_AMBIGUOUS
        else if \<not> list_all isCompleteCandidate cs then Inr None
        else (case response_matches x cs of [mt] \<Rightarrow> Inr (Some mt) | _ \<Rightarrow> Inl CCTP_MESSAGE_MISMATCH)
      | _ \<Rightarrow> Inr None)"
  by (cases v) (simp_all add: scanCandidates_eq)

lemma select_matchD:
  assumes "selectUniqueMatch v x = Inr (Some mt)"
  obtains cs where "v = JArr cs" "list_all isCompleteCandidate cs" "response_matches x cs = [mt]"
  using assms unfolding selectUniqueMatch_spec
  by (auto split: jsv.splits if_splits list.splits)

lemma pollLoop_Inr:
  "pollLoop answers x k n = Inr mt \<longleftrightarrow>
     (\<exists>i < n. (\<forall>j < i. selectUniqueMatch (js_get (answers (k + j)) ''messages'') x = Inr None)
       \<and> selectUniqueMatch (js_get (answers (k + i)) ''messages'') x = Inr (Some mt))"
proof (induction n arbitrary: k)
  case (Suc n)
  let ?s = "\<lambda>i. selectUniqueMatch (js_get (answers (k + i)) ''messages'') x"
  have split: "(\<exists>i < Suc n. P i) \<longleftrightarrow> P 0 \<or> (\<exists>i < n. P (Suc i))" for P
    using less_Suc_eq_0_disj by auto
  have all: "(\<forall>j < Suc i. Q j) \<longleftrightarrow> Q 0 \<and> (\<forall>j < i. Q (Suc j))" for Q i
    using less_Suc_eq_0_disj by auto
  show ?case
    unfolding split all using Suc.IH [of "Suc k"]
    by (cases "?s 0") (auto split: option.splits)
qed simp

subsection \<open>What a poll returns\<close>

text \<open>A candidate whose raw bytes parse to a message the expectation allows.\<close>

definition authentic :: "expectation \<Rightarrow> jsv \<Rightarrow> bool" where
  "authentic e c \<longleftrightarrow> (\<exists>m. parseCctpV2Message (js_get c ''message'') = Inr m \<and> matches_expectation m e)"

lemma candidate_match_Some:
  assumes "canonical_fields e"
  shows "candidate_match (expectation_js e) c = Some mt \<longleftrightarrow>
     isCompleteCandidate c \<and> i_message mt = js_get c ''message'' \<and> i_attestation mt = js_get c ''attestation''
   \<and> parseCctpV2Message (js_get c ''message'') = Inr (i_parsed mt) \<and> matches_expectation (i_parsed mt) e"
proof -
  have eq: "\<lparr>i_message = a, i_attestation = b, i_parsed = m\<rparr> = mt \<longleftrightarrow>
      i_message mt = a \<and> i_attestation mt = b \<and> i_parsed mt = m" for a b m
    by (cases mt) auto
  have "assertCctpV2BurnMatches (js_get c ''message'') (expectation_js e) = Inr (i_parsed mt) \<longleftrightarrow>
      parseCctpV2Message (js_get c ''message'') = Inr (i_parsed mt) \<and> matches_expectation (i_parsed mt) e"
    by (rule burn_match_iff [OF assms])
  then show ?thesis
    by (cases "assertCctpV2BurnMatches (js_get c ''message'') (expectation_js e)")
      (auto simp: candidate_match_def eq)
qed

lemma candidate_match_None:
  assumes "canonical_fields e" "isCompleteCandidate c"
  shows "candidate_match (expectation_js e) c \<noteq> None \<longleftrightarrow> authentic e c"
proof
  assume "candidate_match (expectation_js e) c \<noteq> None"
  then show "authentic e c" using candidate_match_Some [OF assms(1)] by (fastforce simp: authentic_def)
next
  assume "authentic e c"
  then obtain m where m: "parseCctpV2Message (js_get c ''message'') = Inr m" "matches_expectation m e"
    by (auto simp: authentic_def)
  have "candidate_match (expectation_js e) c =
      Some \<lparr>i_message = js_get c ''message'', i_attestation = js_get c ''attestation'', i_parsed = m\<rparr>"
    using m assms(2) by (simp add: candidate_match_Some [OF assms(1)])
  then show "candidate_match (expectation_js e) c \<noteq> None" by simp
qed

lemma response_matches_length:
  assumes "canonical_fields e" "list_all isCompleteCandidate cs"
  shows "length (response_matches (expectation_js e) cs) = length (filter (authentic e) cs)"
  using assms(2) candidate_match_None [OF assms(1)]
  by (induction cs) (auto simp: response_matches_def List.map_filter_def split: option.splits)

lemma response_matches_mem:
  "mt \<in> set (response_matches x cs) \<longleftrightarrow> (\<exists>c \<in> set cs. candidate_match x c = Some mt)"
  by (force simp: response_matches_def List.map_filter_def)

text \<open>
  C25. A poll returns only unambiguous raw evidence: the answer it took is an array in which
  every candidate is complete, exactly one of them has bytes that parse to a message the
  expectation allows, and the result is that candidate's message with its own attestation.
\<close>

theorem poll_returns_unique_match:
  assumes "canonicalizeExpectation (expectation_js e) = Inr e"
    and "pollAttestation answers (expectation_js e) maxAttempts = Inr mt"
  shows "\<exists>k cs c. int k < maxAttempts \<and> js_get (answers k) ''messages'' = JArr cs \<and> c \<in> set cs
    \<and> list_all isCompleteCandidate cs \<and> length (filter (authentic e) cs) = 1
    \<and> i_message mt = js_get c ''message'' \<and> i_attestation mt = js_get c ''attestation''
    \<and> parseCctpV2Message (i_message mt) = Inr (i_parsed mt) \<and> matches_expectation (i_parsed mt) e"
proof -
  have c: "canonical_fields e" using assms(1) by (simp add: canonicalize_iff_fields)
  have "pollLoop answers (expectation_js e) 0 (nat maxAttempts) = Inr mt"
    using assms(2) by (simp add: pollAttestation_def split: if_splits)
  then obtain k where k: "k < nat maxAttempts"
      "selectUniqueMatch (js_get (answers k) ''messages'') (expectation_js e) = Inr (Some mt)"
    by (auto simp: pollLoop_Inr)
  from k(2) obtain cs where cs: "js_get (answers k) ''messages'' = JArr cs" "list_all isCompleteCandidate cs"
      "response_matches (expectation_js e) cs = [mt]"
    by (rule select_matchD)
  obtain a where a: "a \<in> set cs" "candidate_match (expectation_js e) a = Some mt"
    using response_matches_mem [of mt "expectation_js e" cs] cs(3) by auto
  show ?thesis
    using k(1) cs a response_matches_length [OF c cs(2)]
    by (intro exI [of _ k] exI [of _ cs] exI [of _ a]) (auto simp: candidate_match_Some [OF c])
qed

text \<open>The answer with one complete candidate that carries the sample message.\<close>

definition sample_answer :: jsv where
  "sample_answer = JObj [(''messages'', JArr [JObj [(''status'', JStr ''complete''),
     (''attestation'', JStr ''0xcd''), (''message'', sample_wire)]])]"

definition sample_answers :: "nat \<Rightarrow> jsv" where
  "sample_answers k = (if k = 0 then JNull else sample_answer)"

definition sample_match :: iris_match where
  "sample_match = \<lparr>i_message = sample_wire, i_attestation = JStr ''0xcd'', i_parsed = sample_message\<rparr>"

lemma sample_select:
  "selectUniqueMatch (js_get sample_answer ''messages'') (expectation_js sample_exp) = Inr (Some sample_match)"
proof -
  have m: "assertCctpV2BurnMatches sample_wire (expectation_js sample_exp) = Inr sample_message"
    using burn_match_iff [OF sample_exp_canonical] sample_wire_parses sample_matches by blast
  have "js_is_str sample_wire \<and> sample_wire \<noteq> JStr []" by (simp add: sample_wire_def)
  with m show ?thesis
    by (simp add: sample_answer_def isCompleteCandidate_def sample_match_def)
qed

lemma expectation_js_nonnull [simp]: "expectation_js e \<noteq> JNull" "expectation_js e \<noteq> JUndef"
  by (simp_all add: expectation_js_def)

lemma sample_poll: "pollAttestation sample_answers (expectation_js sample_exp) 2 = Inr sample_match"
proof -
  have "pollLoop sample_answers (expectation_js sample_exp) 0 (Suc (Suc 0)) = Inr sample_match"
    using sample_select by (simp add: sample_answers_def)
  then show ?thesis by (simp add: pollAttestation_def numeral_2_eq_2)
qed

theorem poll_returns_unique_match_witness:
  "pollAttestation sample_answers (expectation_js sample_exp) 2 = Inr sample_match
   \<and> matches_expectation (i_parsed sample_match) sample_exp"
  using poll_returns_unique_match [OF sample_exp_fixpoint sample_poll] sample_poll by blast

text \<open>
  How a poll ends, for any expectation and any budget: it returns the match of the first
  answer that is ready, the terminal error of the first answer that is ambiguous or all wrong,
  and the timeout exactly when the whole budget passed without such an answer. Failed and
  pending answers never end it early.
\<close>

theorem poll_outcome:
  assumes "x \<noteq> JUndef" "x \<noteq> JNull"
  shows "pollAttestation answers x maxAttempts =
    (case find (\<lambda>k. selectUniqueMatch (js_get (answers k) ''messages'') x \<noteq> Inr None) [0..<nat maxAttempts] of
       None \<Rightarrow> Inl CCTP_ATTESTATION_TIMEOUT
     | Some k \<Rightarrow> (case selectUniqueMatch (js_get (answers k) ''messages'') x of
         Inl err \<Rightarrow> Inl err | Inr (Some mt) \<Rightarrow> Inr mt | Inr None \<Rightarrow> Inl CCTP_ATTESTATION_TIMEOUT))"
proof -
  let ?s = "\<lambda>k. selectUniqueMatch (js_get (answers k) ''messages'') x"
  have "pollLoop answers x k n =
    (case find (\<lambda>k. ?s k \<noteq> Inr None) [k..<k + n] of None \<Rightarrow> Inl CCTP_ATTESTATION_TIMEOUT
     | Some k \<Rightarrow> (case ?s k of Inl err \<Rightarrow> Inl err | Inr (Some mt) \<Rightarrow> Inr mt
         | Inr None \<Rightarrow> Inl CCTP_ATTESTATION_TIMEOUT))" for k n
  proof (induction n arbitrary: k)
    case (Suc n)
    have "[k..<k + Suc n] = k # [Suc k..<Suc k + n]" by (simp add: upt_conv_Cons)
    with Suc show ?case
      by (cases "?s k") (auto split: option.splits)
  qed simp
  from this [of 0 "nat maxAttempts"] show ?thesis
    using assms by (simp add: pollAttestation_def)
qed

theorem poll_outcome_witness:
  "pollAttestation sample_answers (expectation_js sample_exp) 2 = Inr sample_match"
proof -
  have "[0..<nat 2] = [0, 1]" by (simp add: upt_rec)
  then show ?thesis
    using poll_outcome [of "expectation_js sample_exp" sample_answers 2] sample_select
    by (simp add: sample_answers_def)
qed

end
