(* ===== verification/RelayQueries.thy ===== *)
theory RelayQueries
  imports RelaySafety
begin

section \<open>Enqueue retries, lease reconciliation and sweep queries\<close>

text \<open>
  The operations of \<open>relayer/src/store.mjs\<close> a caller repeats: an enqueue retried at any later
  time returns the live record and changes nothing, a reconciliation with a large enough limit
  leaves no expired lease behind and destroys no fenced submission, and the sweep queries
  return the least rows of their order and nothing else.
\<close>

subsection \<open>Identity along a run\<close>

definition lookup_identity :: "string \<Rightarrow> relay_record \<Rightarrow> rows \<Rightarrow> bool" where
  "lookup_identity eid r rows \<longleftrightarrow>
     rows_ok rows \<and> (case map_of rows eid of None \<Rightarrow> False | Some r' \<Rightarrow> same_identity r r')"

lemma same_identity_refl [simp]: "same_identity r r"
  by (simp add: same_identity_def)

lemma same_identity_trans: "same_identity a b \<Longrightarrow> same_identity b c \<Longrightarrow> same_identity a c"
  by (simp add: same_identity_def)

interpretation relay_identity: invariant_machine "store_apply sha" "lookup_identity eid r" for sha eid r
proof unfold_locales
  fix rows op assume inv: "lookup_identity eid r rows"
  then obtain r1 where r1: "map_of rows eid = Some r1" "same_identity r r1" and ok: "rows_ok rows"
    by (auto simp: lookup_identity_def split: option.splits)
  have ev: "rows_evolve rows (store_apply sha rows op)" using ok by (rule store_apply_evolves)
  then obtain r2 where "map_of (store_apply sha rows op) eid = Some r2" "r2 = r1 \<or> row_evolves r1 r2"
    using r1(1) by (fastforce simp: rows_evolve_def split: option.splits)
  with r1(2) rows_evolve_ok [OF ev] show "lookup_identity eid r (store_apply sha rows op)"
    by (auto simp: lookup_identity_def row_evolves_def intro: same_identity_trans)
qed

lemma enqueue_lookup:
  assumes "rows_ok rows" "enqueue sha rows eid sd burn x now = Inr (rows1, r)"
  shows "lookup_identity eid r rows1"
proof -
  have ok: "rows_ok rows1" using enqueue_evolves [OF assms] by (rule rows_evolve_ok)
  show ?thesis using assms(2)
    by (cases rule: enqueue_InrE) (use ok in \<open>auto simp: lookup_identity_def\<close>)
qed

lemma enqueue_same_identity:
  assumes "enqueue sha rows eid sd burn x now = Inr (rows1, r)"
    and "map_of rows2 eid = Some r2" "same_identity r r2"
  shows "enqueue sha rows2 eid sd burn x now2 = Inr (rows2, r2)"
  using assms(1)
  by (cases rule: enqueue_InrE)
    (use assms(2,3) relayNewPendingRecord_Inr in
      \<open>auto simp: enqueue_def relayEnqueueDecision_def same_identity_def Let_def\<close>)

text \<open>
  Once an enqueue was accepted, repeating it after any sequence of store operations is
  accepted, returns the record as it then is, with the identity of the first answer, and leaves
  the rows unchanged.
\<close>

theorem enqueue_retry_idempotent:
  assumes "rows_ok rows" "enqueue sha rows eid sd burn x now = Inr (rows1, r)"
    and "rows2 = run_ops (store_apply sha) rows1 ops"
  shows "\<exists>r2. enqueue sha rows2 eid sd burn x now2 = Inr (rows2, r2)
      \<and> get rows2 eid = Some r2 \<and> same_identity r r2"
proof -
  have "lookup_identity eid r rows2"
    unfolding assms(3) using enqueue_lookup [OF assms(1,2)] by (rule relay_identity.run_inv)
  then obtain r2 where r2: "map_of rows2 eid = Some r2" "same_identity r r2"
    by (auto simp: lookup_identity_def split: option.splits)
  then show ?thesis using enqueue_same_identity [OF assms(2) r2] by (auto simp: get_def)
qed

theorem enqueue_retry_idempotent_witness:
  "\<exists>rows1 r r2. enqueue id [] ''x1'' (JNum 27) sample_burn sample_expectation 1000 = Inr (rows1, r)
     \<and> enqueue id (run_ops (store_apply id) rows1 [Claim ''x1'' 1001 60000 ''t1'']) ''x1'' (JNum 27)
         sample_burn sample_expectation 5000
       = Inr (run_ops (store_apply id) rows1 [Claim ''x1'' 1001 60000 ''t1''], r2)"
proof -
  have "\<exists>p. enqueue id [] ''x1'' (JNum 27) sample_burn sample_expectation 1000 = Inr p"
    by (simp add: store_eval)
  then obtain rows1 r where e: "enqueue id [] ''x1'' (JNum 27) sample_burn sample_expectation 1000 = Inr (rows1, r)"
    by auto
  have "rows_ok []" by simp
  from enqueue_retry_idempotent [OF this e refl, of "[Claim ''x1'' 1001 60000 ''t1'']" 5000] e
  show ?thesis by blast
qed

lemma canonicalizeExpectation_Inl: "canonicalizeExpectation x = Inl err \<Longrightarrow> err = RELAY_VALIDATION"
proof -
  have d: "expectDecimalString v = Inl e \<Longrightarrow> e = RELAY_VALIDATION" for v e
    by (cases v) (auto split: if_splits)
  have b: "canonicalBurnUnits7 x a = Inl e \<Longrightarrow> e = RELAY_VALIDATION" for a e
    by (auto simp: canonicalBurnUnits7_def ebind_Inl_iff dest: d split: if_splits)
  show "canonicalizeExpectation x = Inl err \<Longrightarrow> err = RELAY_VALIDATION"
    by (auto simp: canonicalizeExpectation_def ebind_Inl_iff dest: d b
        split: if_splits option.splits prod.splits)
qed

text \<open>
  Under an execution id that exists, a well-formed request whose source domain, burn hash
  or expectation digest differs from the stored one is refused as a conflict; a malformed
  expectation or domain is refused as invalid before the record is compared.
\<close>

theorem enqueue_conflict_codes:
  assumes "map_of rows eid = Some r" "eid \<noteq> []"
  shows "enqueue sha rows eid sd burn x now =
    (case normalizeSourceDomain sd of Inl _ \<Rightarrow> Inl RELAY_VALIDATION | Inr d \<Rightarrow>
      (case canonicalizeExpectation x of Inl _ \<Rightarrow> Inl RELAY_VALIDATION | Inr e \<Rightarrow>
        if sourceDomain r = Some d \<and> normalizeBurnTxHash sd burn = Inr (the (burnTxHash r))
          \<and> burnTxHash r \<noteq> None \<and> r_expectationDigest r = Some (expectationDigest sha e)
        then Inr (rows, r) else Inl RELAY_ENQUEUE_CONFLICT))"
proof (cases "normalizeSourceDomain sd")
  case (Inl a)
  then show ?thesis
    using assms by (simp add: enqueue_def relayEnqueueDecision_def normalizeSourceDomain_def split: if_splits)
next
  case d: (Inr d)
  show ?thesis
  proof (cases "canonicalizeExpectation x")
    case (Inl a)
    then show ?thesis
      using assms d canonicalizeExpectation_Inl [OF Inl] by (simp add: enqueue_def relayEnqueueDecision_def)
  next
    case (Inr e)
    then show ?thesis
      using assms d by (auto simp: enqueue_def relayEnqueueDecision_def Let_def split: sum.splits)
  qed
qed

theorem enqueue_conflict_codes_witness:
  "\<exists>r. map_of leased_rows ''x1'' = Some r
     \<and> enqueue id leased_rows ''x1'' (JNum 27) (JStr ''zz'') sample_expectation 9 = Inl RELAY_ENQUEUE_CONFLICT
     \<and> enqueue id leased_rows ''x1'' (JNum 27) sample_burn JNull 9 = Inl RELAY_VALIDATION"
proof -
  obtain r where r: "map_of leased_rows ''x1'' = Some r"
    using leased_row by blast
  have n: "''x1'' \<noteq> []" by simp
  have b: "normalizeBurnTxHash (JNum 27) (JStr ''zz'') = Inl RELAY_VALIDATION"
    by (simp add: normalizeBurnTxHash.simps stellarHash_def HEX64_CI_RE_def STELLAR_DOMAIN_def)
  have x: "canonicalizeExpectation JNull = Inl RELAY_VALIDATION"
    by (simp add: canonicalizeExpectation_def)
  show ?thesis
    using r enqueue_conflict_codes [OF r n, of id "JNum 27"] b x by simp
qed

subsection \<open>Reconciling expired leases\<close>

lemma expiredBatch_all:
  assumes "length rows \<le> nat limit"
  shows "set (expiredBatch rows now limit) = {r \<in> set (js_values rows). expiredLease r now}"
proof -
  have "length (filter (\<lambda>r. expiredLease r now) (js_values rows)) \<le> nat limit"
    using assms length_filter_le [of _ "js_values rows"] by (metis length_map le_trans)
  then show ?thesis by (auto simp: expiredBatch_def)
qed

lemma reconciled_not_expired: "\<not> expiredLease (relayReconcileExpired r now) now'"
  by (simp add: relayReconcileExpired_def expiredLease_def)

text \<open>
  A reconciliation whose limit covers the rows leaves no expired lease behind: every row
  with an expired lease loses it, a row caught between fence and checkpoint becomes
  \<open>uncertain\<close> with reason \<open>submission_lease_expired\<close> and is never made claimable again, any other expired row keeps its
  state, and every other row is the same record.
\<close>

theorem reconcile_expired_complete:
  assumes "rows_ok rows" "reconcileExpired rows now limit = Inr (rows', out)"
    and "int (length rows) \<le> limit" "map_of rows eid = Some r"
  shows "\<exists>r'. map_of rows' eid = Some r' \<and> \<not> expiredLease r' now
    \<and> (if \<not> expiredLease r now then r' = r
       else leaseToken r' = None \<and> updatedAt r' = now \<and> mintTxHash r' = mintTxHash r
          \<and> (if rstate r = mint_submitting
             then rstate r' = uncertain \<and> reasonCode r' = Some ''submission_lease_expired''
             else rstate r' = rstate r \<and> reasonCode r' = reasonCode r))"
proof -
  have "length rows \<le> nat limit" using assms(3) by linarith
  from expiredBatch_all [OF this] have b: "r \<in> set (expiredBatch rows now limit) \<longleftrightarrow> expiredLease r now"
    using map_of_SomeD [OF assms(4)] by force
  show ?thesis
    using reconcileExpired_lookup [OF assms(1,2), of eid] assms(4) b reconciled_not_expired
    by (simp add: relayReconcileExpired_def)
qed

theorem reconcile_expired_complete_witness:
  "\<exists>rows' out r'. reconcileExpired leased_rows 70000 10 = Inr (rows', out)
     \<and> map_of rows' ''x1'' = Some r' \<and> leaseToken r' = None"
proof -
  obtain r where r: "map_of leased_rows ''x1'' = Some r" "leaseToken r = Some ''t1''"
      "leaseExpiresAt r = Some 61001" "rstate r = attestation_pending"
    by (simp add: leased_rows_def sample_ops_def store_eval)
  have ok: "rows_ok leased_rows"
    unfolding leased_rows_def by (rule relay_rows.run_inv) simp
  have len: "int (length leased_rows) \<le> 10"
    by (simp add: leased_rows_def sample_ops_def store_eval)
  obtain rows' out where ex: "reconcileExpired leased_rows 70000 10 = Inr (rows', out)"
    by (simp add: reconcileExpired_def requireNow_def requireLimit_def require_def safe_int_def Let_def)
  have "expiredLease r 70000" using r by (simp add: expiredLease_def safe_int_def)
  with reconcile_expired_complete [OF ok ex len r(1)] ex show ?thesis by auto
qed

subsection \<open>Sweep queries\<close>

text \<open>
  A bounded query: the first \<open>n\<close> rows, in the order of a key, of the rows that satisfy a
  predicate.
\<close>

definition first_by :: "('a \<Rightarrow> 'k::linorder) \<Rightarrow> ('a \<Rightarrow> bool) \<Rightarrow> nat \<Rightarrow> 'a list \<Rightarrow> 'a list \<Rightarrow> bool" where
  "first_by key p n xs ys \<longleftrightarrow>
     sorted (map key ys) \<and> set ys \<subseteq> {x \<in> set xs. p x}
   \<and> length ys = min n (length (filter p xs))
   \<and> (\<forall>x \<in> set xs. p x \<longrightarrow> x \<in> set ys \<or> (\<forall>y \<in> set ys. key y \<le> key x))"

lemma first_by_sort_key: "first_by key p n xs (take n (sort_key key (filter p xs)))"
proof -
  let ?s = "sort_key key (filter p xs)"
  have srt: "sorted (map key ?s)" by simp
  have mem: "x \<in> set (take n ?s) \<or> (\<forall>y \<in> set (take n ?s). key y \<le> key x)" if "x \<in> set ?s" for x
  proof (cases "x \<in> set (take n ?s)")
    case False
    then have "x \<in> set (drop n ?s)"
      using that by (metis Un_iff append_take_drop_id set_append)
    moreover have "sorted (map key (take n ?s) @ map key (drop n ?s))"
      using srt by (metis append_take_drop_id map_append)
    ultimately show ?thesis by (auto simp: sorted_append)
  qed simp
  have "sorted (map key (take n ?s))"
    using srt by (metis sorted_wrt_take take_map)
  moreover have "set (take n ?s) \<subseteq> {x \<in> set xs. p x}"
    using set_take_subset [of n ?s] by auto
  moreover have "length (take n ?s) = min n (length (filter p xs))"
    by simp
  ultimately show ?thesis
    using mem unfolding first_by_def by auto
qed

text \<open>
  A sweep query with valid arguments returns the first \<open>limit\<close> rows of its order and
  nothing else: the rows a sweep drives are exactly the oldest claimable unleased ones, and
  everything with a live lease, a submit fence or a terminal state is left out.
\<close>

theorem sweep_queries_first:
  assumes "safe_int now" "safe_int limit" "0 < limit"
  shows "\<exists>due open summary.
      listForSweep rows now limit False = Inr due
    \<and> first_by relayByActionableAge actionable (nat limit) (js_values rows) due
    \<and> listForSweep rows now limit True = Inr open
    \<and> first_by relayByCreated (\<lambda>r. rstate r \<noteq> minted) (nat limit) (js_values rows) open
    \<and> listSweepSummary rows now limit = Inr summary
    \<and> first_by relayByCreated (\<lambda>r. rstate r \<in> {blocked, uncertain} \<or> leaseToken r \<noteq> None)
        (nat limit) (js_values rows) summary
    \<and> set due \<inter> set summary = {}"
proof -
  have disj: "actionable r \<Longrightarrow> \<not> (rstate r \<in> {blocked, uncertain} \<or> leaseToken r \<noteq> None)" for r
    by (auto simp: actionable_def RELAY_CLAIMABLE_STATES_def)
  show ?thesis
    using assms disj
    by (auto simp: listForSweep_def listSweepSummary_def requireNow_def requireLimit_def require_def
        intro!: first_by_sort_key dest!: in_set_takeD)
qed

theorem sweep_queries_first_witness:
  "safe_int 5 \<and> (\<exists>due. listForSweep leased_rows 5 3 False = Inr due
     \<and> first_by relayByActionableAge actionable 3 (js_values leased_rows) due)"
proof -
  have s: "safe_int 5" "safe_int 3" "(0::int) < 3" by (simp_all add: safe_int_def)
  show ?thesis using s(1) sweep_queries_first [OF s, of leased_rows] by auto
qed

end
