(* ===== verification/Watcher.thy ===== *)
theory Watcher
  imports Iris RelayQueries
begin

section \<open>The checkpointed CCTP watcher\<close>

text \<open>
  \<open>createWatcher\<close> of \<open>relayer/src/cctp/watcher.mjs\<close>. An invocation of \<open>drive\<close> runs in
  segments: it computes, changes the store, and suspends at each \<open>await\<close>. A suspended
  invocation is a \<open>worker_pc\<close>; the three external calls (the attestation poll, the destination
  send, the confirmation) answer with an \<open>answer\<close> value that is an argument of the segment
  that follows, and every \<open>nowFn()\<close> reading of a segment is an argument \<open>clk k\<close>. Each segment
  returns the new rows, the next suspension point and the destination sends it performed, so
  that a whole system of workers is an interleaving of segments.
\<close>

definition DEFAULT_LEASE_MS :: int where "DEFAULT_LEASE_MS = 60000"
definition DEFAULT_POLL_MAX_ATTEMPTS :: int where "DEFAULT_POLL_MAX_ATTEMPTS = 300"
definition DEFAULT_POLL_INTERVAL_MS :: int where "DEFAULT_POLL_INTERVAL_MS = 5000"
definition LEASE_MARGIN_MS :: int where "LEASE_MARGIN_MS = 120000"

definition MESSAGE_MISMATCH_CODES :: "cctp_error list" where
  "MESSAGE_MISMATCH_CODES =
     [CCTP_MESSAGE_MISMATCH, CCTP_MESSAGE_FORMAT, CCTP_MESSAGE_LENGTH, CCTP_MESSAGE_VERSION]"

record watcher_config =
  domain_stellar :: int
  domain_base :: int
  cfg_leaseMs :: int
  pollMaxAttempts :: int
  pollIntervalMs :: int

definition default_config :: watcher_config where
  "default_config =
     \<lparr>domain_stellar = 27, domain_base = 6, cfg_leaseMs = DEFAULT_LEASE_MS,
      pollMaxAttempts = DEFAULT_POLL_MAX_ATTEMPTS, pollIntervalMs = DEFAULT_POLL_INTERVAL_MS\<rparr>"

definition effectiveLeaseMs :: "watcher_config \<Rightarrow> int" where
  "effectiveLeaseMs cfg =
     max (cfg_leaseMs cfg) (pollMaxAttempts cfg * pollIntervalMs cfg + LEASE_MARGIN_MS)"

subsection \<open>Results, answers and suspension points\<close>

datatype drive_result =
    R_already_minted "string option"
  | R_blocked "string option"
  | R_uncertain "string option"
  | R_attestation_pending
  | R_in_progress
  | R_mint_submitted "string option"
  | R_minted "string option"

datatype drive_error = NoRecord | StoreError relay_error

text \<open>The poll throws with a code (none for an error without one) or returns its evidence.\<close>

datatype poll_answer = PollThrew "cctp_error option" | PollReturned jsv

datatype submit_answer = SubmitThrew | SubmitReturned jsv

datatype confirm_answer = ConfirmThrew string | Confirmed

datatype worker_pc =
    PollWait relay_record relay_record string
  | Polled relay_record relay_record string
  | SubmitWait relay_record relay_record string
  | Submitted relay_record relay_record string
  | ConfirmWait relay_record relay_record string
  | Done drive_result
  | Failed drive_error

text \<open>A destination send: the execution, whether it goes to Base, the message and attestation.\<close>

record send =
  send_exec :: string
  send_forward :: bool
  send_message :: "string option"
  send_attestation :: "string option"

type_synonym segment = "rows \<times> worker_pc \<times> send list"

definition isForward :: "watcher_config \<Rightarrow> relay_record \<Rightarrow> bool" where
  "isForward cfg r \<longleftrightarrow> sourceDomain r = Some (domain_stellar cfg)"

definition terminalResult :: "relay_record \<Rightarrow> drive_result option" where
  "terminalResult r =
     (if rstate r = minted then Some (R_already_minted (mintTxHash r))
      else if rstate r = blocked then Some (R_blocked (reasonCode r))
      else if rstate r = uncertain then Some (R_uncertain (reasonCode r))
      else None)"

definition releaseQuietly :: "rows \<Rightarrow> string \<Rightarrow> string \<Rightarrow> int \<Rightarrow> rows" where
  "releaseQuietly rows eid tok now =
     (case release rows eid tok now of Inl _ \<Rightarrow> rows | Inr (rows', _) \<Rightarrow> rows')"

text \<open>The expectation of a stored record as the value the matcher reads.\<close>

definition record_expectation :: "relay_record \<Rightarrow> jsv" where
  "record_expectation r = (case r_expectation r of None \<Rightarrow> JNull | Some e \<Rightarrow> expectation_js e)"

text \<open>The \<open>catch\<close> of \<open>drive\<close>: release the lease quietly and rethrow.\<close>

definition abort :: "rows \<Rightarrow> string \<Rightarrow> string \<Rightarrow> int \<Rightarrow> relay_error \<Rightarrow> segment" where
  "abort rows eid tok now err = (releaseQuietly rows eid tok now, Failed (StoreError err), [])"

text \<open>\<open>store.finishBlocked(...)\<close> followed by its result, or the \<open>catch\<close> of \<open>drive\<close>.\<close>

definition stopBlocked :: "rows \<Rightarrow> string \<Rightarrow> string \<Rightarrow> string \<Rightarrow> (nat \<Rightarrow> int) \<Rightarrow> segment" where
  "stopBlocked rows eid tok why clk =
     (case finishBlocked rows eid tok why (clk 8) of
        Inr (rows', _) \<Rightarrow> (rows', Done (R_blocked (Some why)), [])
      | Inl err \<Rightarrow> abort rows eid tok (clk 9) err)"

definition stopUncertain ::
  "rows \<Rightarrow> string \<Rightarrow> string \<Rightarrow> jsv \<Rightarrow> string \<Rightarrow> (nat \<Rightarrow> int) \<Rightarrow> segment" where
  "stopUncertain rows eid tok hash why clk =
     (case finishUncertain rows eid tok hash why (clk 8) of
        Inr (rows', _) \<Rightarrow> (rows', Done (R_uncertain (Some why)), [])
      | Inl err \<Rightarrow> abort rows eid tok (clk 9) err)"

subsection \<open>The phases\<close>

text \<open>The \<open>try\<close> of the poll: the thrown code, or the evidence with the message it parses to.\<close>

definition polledEvidence :: "relay_record \<Rightarrow> poll_answer \<Rightarrow> cctp_error option + (jsv \<times> cctp_message)" where
  "polledEvidence record answer =
     (case answer of
        PollThrew code \<Rightarrow> Inl code
      | PollReturned ev \<Rightarrow>
          (case assertCctpV2BurnMatches (js_get ev ''message'') (record_expectation record) of
             Inl code \<Rightarrow> Inl (Some code)
           | Inr m \<Rightarrow> Inr (ev, m)))"

definition pollPhase ::
  "(string \<Rightarrow> string) \<Rightarrow> rows \<Rightarrow> relay_record \<Rightarrow> relay_record \<Rightarrow> string \<Rightarrow> poll_answer \<Rightarrow> (nat \<Rightarrow> int)
    \<Rightarrow> segment" where
  "pollPhase sha rows record claimed tok answer clk =
     (let eid = execId record in
      case polledEvidence record answer of
        Inl code \<Rightarrow>
          if code = Some CCTP_MESSAGE_AMBIGUOUS then stopBlocked rows eid tok ''message_ambiguous'' clk
          else if code \<in> set (map Some MESSAGE_MISMATCH_CODES)
          then stopBlocked rows eid tok ''message_mismatch'' clk
          else (releaseQuietly rows eid tok (clk 0), Done R_attestation_pending, [])
      | Inr (ev, m) \<Rightarrow>
          (case recordAttested sha rows eid tok (js_get ev ''message'') (JStr (m_nonce m))
                  (js_get ev ''attestation'') (clk 0) of
             Inr (rows', r) \<Rightarrow> (rows', Polled record r tok, [])
           | Inl err \<Rightarrow>
               if err = RELAY_CAS_CONFLICT \<and> rstate claimed = attested
               then stopBlocked rows eid tok ''attested_evidence_changed'' clk
               else abort rows eid tok (clk 9) err))"

text \<open>\<open>submitPhase\<close> up to the send: the durable fence, then the call.\<close>

definition submitPhase ::
  "watcher_config \<Rightarrow> rows \<Rightarrow> relay_record \<Rightarrow> relay_record \<Rightarrow> string \<Rightarrow> (nat \<Rightarrow> int) \<Rightarrow> segment" where
  "submitPhase cfg rows record attestedRec tok clk =
     (case markMintSubmitting rows (execId record) tok (clk 0) of
        Inl err \<Rightarrow> abort rows (execId record) tok (clk 9) err
      | Inr (rows', _) \<Rightarrow>
          (rows', SubmitWait record attestedRec tok,
           [\<lparr>send_exec = execId record, send_forward = isForward cfg record,
             send_message = messageHex attestedRec, send_attestation = attestationHex attestedRec\<rparr>]))"

text \<open>\<open>submitPhase\<close> after the send answered.\<close>

definition submitAnswered ::
  "rows \<Rightarrow> relay_record \<Rightarrow> string \<Rightarrow> submit_answer \<Rightarrow> (nat \<Rightarrow> int) \<Rightarrow> segment" where
  "submitAnswered rows record tok answer clk =
     (case answer of
        SubmitThrew \<Rightarrow> stopUncertain rows (execId record) tok JUndef ''submission_unknown'' clk
      | SubmitReturned hash \<Rightarrow>
          (case markMintSubmitted rows (execId record) tok hash (clk 0) of
             Inr (rows', r) \<Rightarrow> (rows', Submitted record r tok, [])
           | Inl _ \<Rightarrow>
               let retained = (case normalizeMintTxHash (recordDomain record) hash of
                                 Inl _ \<Rightarrow> JUndef | Inr h \<Rightarrow> JStr h)
               in stopUncertain rows (execId record) tok retained ''submitted_checkpoint_failed'' clk))"

definition confirmPhase ::
  "rows \<Rightarrow> relay_record \<Rightarrow> relay_record \<Rightarrow> string \<Rightarrow> confirm_answer \<Rightarrow> (nat \<Rightarrow> int) \<Rightarrow> segment" where
  "confirmPhase rows record submitted tok answer clk =
     (let eid = execId record; hash = mintTxHash submitted in
      case answer of
        ConfirmThrew code \<Rightarrow>
          if code = ''CCTP_MINT_REVERTED'' \<or> code = ''STELLAR_TX_FAILED''
          then stopBlocked rows eid tok ''destination_reverted'' clk
          else (releaseQuietly rows eid tok (clk 0), Done (R_mint_submitted hash), [])
      | Confirmed \<Rightarrow>
          (case finishMinted rows eid tok (js_opt_str hash) (clk 0) of
             Inr (rows', _) \<Rightarrow> (rows', Done (R_minted hash), [])
           | Inl _ \<Rightarrow> (releaseQuietly rows eid tok (clk 1), Done (R_mint_submitted hash), [])))"

subsection \<open>Driving one execution\<close>

text \<open>\<open>drive\<close> up to its first suspension; \<open>tok\<close> is the lease token the claim draws.\<close>

definition drive :: "watcher_config \<Rightarrow> rows \<Rightarrow> string \<Rightarrow> string \<Rightarrow> (nat \<Rightarrow> int) \<Rightarrow> segment" where
  "drive cfg rows eid tok clk =
     (case get rows eid of
        None \<Rightarrow> (rows, Failed NoRecord, [])
      | Some record \<Rightarrow>
          (case terminalResult record of
             Some res \<Rightarrow> (rows, Done res, [])
           | None \<Rightarrow>
               (case claim rows eid (clk 0) (effectiveLeaseMs cfg) tok of
                  Inl err \<Rightarrow> (rows, Failed (StoreError err), [])
                | Inr (rows', None) \<Rightarrow> (rows', Done R_in_progress, [])
                | Inr (rows', Some claimed) \<Rightarrow>
                    if rstate claimed = attestation_pending \<or> rstate claimed = attested
                    then (rows', PollWait record claimed tok, [])
                    else (rows', ConfirmWait record claimed tok, []))))"

text \<open>The answer a suspended worker resumes with.\<close>

datatype worker_input = Poll poll_answer | Resume | Submit submit_answer | Confirm confirm_answer

text \<open>The segment that follows a suspension; an input of the wrong kind resumes nothing.\<close>

fun continueDrive ::
  "(string \<Rightarrow> string) \<Rightarrow> watcher_config \<Rightarrow> rows \<Rightarrow> worker_pc \<Rightarrow> worker_input \<Rightarrow> (nat \<Rightarrow> int) \<Rightarrow> segment" where
  "continueDrive sha cfg rows (PollWait record claimed tok) (Poll a) clk =
     pollPhase sha rows record claimed tok a clk"
| "continueDrive sha cfg rows (Polled record working tok) Resume clk =
     (if rstate working = attested then submitPhase cfg rows record working tok clk
      else (rows, ConfirmWait record working tok, []))"
| "continueDrive sha cfg rows (SubmitWait record working tok) (Submit a) clk =
     submitAnswered rows record tok a clk"
| "continueDrive sha cfg rows (Submitted record working tok) Resume clk =
     (rows, ConfirmWait record working tok, [])"
| "continueDrive sha cfg rows (ConfirmWait record submitted tok) (Confirm a) clk =
     confirmPhase rows record submitted tok a clk"
| "continueDrive sha cfg rows pc i clk = (rows, pc, [])"

text \<open>The common tail of the entry points: answer a terminal record, drive any other.\<close>

definition answerOrDrive ::
  "watcher_config \<Rightarrow> rows \<Rightarrow> relay_record \<Rightarrow> string \<Rightarrow> string \<Rightarrow> (nat \<Rightarrow> int) \<Rightarrow> segment" where
  "answerOrDrive cfg rows record eid tok clk =
     (case terminalResult record of
        Some res \<Rightarrow> (rows, Done res, [])
      | None \<Rightarrow> drive cfg rows eid tok clk)"

text \<open>
  \<open>relayMint\<close> and \<open>resumeExisting\<close> up to their first suspension; \<open>busy\<close> is the in-flight
  test and the flag of the result says whether the execution id was added to \<open>inFlight\<close>.
\<close>

definition relayMint ::
  "(string \<Rightarrow> string) \<Rightarrow> watcher_config \<Rightarrow> rows \<Rightarrow> bool \<Rightarrow> string \<Rightarrow> jsv \<Rightarrow> jsv \<Rightarrow> jsv \<Rightarrow> string
    \<Rightarrow> (nat \<Rightarrow> int) \<Rightarrow> segment \<times> bool" where
  "relayMint sha cfg rows busy eid sd burnHash x tok clk =
     (if busy then ((rows, Done R_in_progress, []), False)
      else (case enqueue sha rows eid sd burnHash x (clk 5) of
          Inl err \<Rightarrow> (rows, Failed (StoreError err), [])
        | Inr (rows', record) \<Rightarrow> answerOrDrive cfg rows' record eid tok clk, True))"

text \<open>The lazy reconciliation of \<open>resumeExisting\<close>: an expired lease is settled first.\<close>

definition resumeReconcile ::
  "rows \<Rightarrow> relay_record \<Rightarrow> string \<Rightarrow> (nat \<Rightarrow> int) \<Rightarrow> relay_error + (rows \<times> relay_record option)" where
  "resumeReconcile rows record eid clk =
     (if leaseToken record \<noteq> None
        \<and> (case leaseExpiresAt record of None \<Rightarrow> 0 \<le> clk 5 | Some t \<Rightarrow> t \<le> clk 5)
      then reconcileOne rows eid (clk 6)
      else Inr (rows, Some record))"

definition resumeExisting ::
  "watcher_config \<Rightarrow> rows \<Rightarrow> bool \<Rightarrow> string \<Rightarrow> string \<Rightarrow> (nat \<Rightarrow> int) \<Rightarrow> segment \<times> bool" where
  "resumeExisting cfg rows busy eid tok clk =
     (if busy then ((rows, Done R_in_progress, []), False)
      else case get rows eid of
        None \<Rightarrow> ((rows, Failed NoRecord, []), False)
      | Some record \<Rightarrow>
          if sourceDomain record \<noteq> Some (domain_base cfg) then ((rows, Failed NoRecord, []), False)
          else (case resumeReconcile rows record eid clk of
                  Inl err \<Rightarrow> (rows, Failed (StoreError err), [])
                | Inr (rows', None) \<Rightarrow> (rows', Failed NoRecord, [])
                | Inr (rows', Some r) \<Rightarrow> answerOrDrive cfg rows' r eid tok clk, True))"

record recovery_evidence =
  re_burnTxHash :: "string option"
  re_expectationDigest :: "string option"
  re_messageDigest :: "string option"
  re_attestationDigest :: "string option"
  re_evidenceVersion :: string
  re_mintTxHash :: "string option"

definition recoveryEvidence :: "relay_record \<Rightarrow> recovery_evidence" where
  "recoveryEvidence r =
     \<lparr>re_burnTxHash = burnTxHash r, re_expectationDigest = r_expectationDigest r,
      re_messageDigest = messageDigest r, re_attestationDigest = attestationDigest r,
      re_evidenceVersion = show_int (evidenceVersion r), re_mintTxHash = mintTxHash r\<rparr>"

definition getRecoveryEvidence :: "rows \<Rightarrow> string \<Rightarrow> drive_error + recovery_evidence" where
  "getRecoveryEvidence rows eid =
     (case get rows eid of
        None \<Rightarrow> Inl NoRecord
      | Some r \<Rightarrow> if rstate r \<noteq> minted then Inl NoRecord else Inr (recoveryEvidence r))"

end
