(* ===== verification/RowProperty.thy ===== *)
theory RowProperty
  imports RelayQueries
begin

section \<open>Properties every stored row has\<close>

text \<open>
  Where a row comes from: after a store operation each row is the row it was, the result of
  one transition of it, or a fresh pending record. The locale \<open>row_property\<close> turns a property
  that holds of fresh records and is kept by every transition into an invariant of the store;
  its instance here is the well-formedness the watcher relies on: a canonical expectation and
  a destination hash in canonical form.
\<close>

definition row_step :: "(string \<Rightarrow> string) \<Rightarrow> relay_record \<Rightarrow> relay_record \<Rightarrow> bool" where
  "row_step sha r r' \<longleftrightarrow>
     (\<exists>now ms tok. relayClaim (Some r) now ms tok = Inr (Some r'))
   \<or> (\<exists>tok now ms. relayRenew (Some r) tok now ms = Inr (Next r'))
   \<or> (\<exists>tok m n a now. relayRecordAttested sha (Some r) tok m n a now = Inr (Next r'))
   \<or> (\<exists>tok now. relayMarkMintSubmitting (Some r) tok now = Inr (Next r'))
   \<or> (\<exists>tok h now. relayMarkMintSubmitted (Some r) tok h now = Inr (Next r'))
   \<or> (\<exists>tok h now. relayFinishMinted (Some r) tok h now = Inr (Next r'))
   \<or> (\<exists>tok why now. relayFinishBlocked (Some r) tok why now = Inr (Next r'))
   \<or> (\<exists>tok h why now. relayFinishUncertain (Some r) tok h why now = Inr (Next r'))
   \<or> (\<exists>tok now. relayRelease (Some r) tok now = Inr (Next r'))
   \<or> (\<exists>now. r' = relayReconcileExpired r now)"

definition row_fresh :: "(string \<Rightarrow> string) \<Rightarrow> relay_record \<Rightarrow> bool" where
  "row_fresh sha r \<longleftrightarrow>
     (\<exists>eid d burn e now. canonical_fields e \<and> e_sourceDomain e = JNum d
        \<and> relayNewPendingRecord eid d burn e (expectationDigest sha e) now = Inr r)"

definition row_origin :: "(string \<Rightarrow> string) \<Rightarrow> rows \<Rightarrow> rows \<Rightarrow> bool" where
  "row_origin sha rows rows' \<longleftrightarrow>
     (\<forall>eid r'. map_of rows' eid = Some r' \<longrightarrow>
        map_of rows eid = Some r' \<or> (\<exists>r. map_of rows eid = Some r \<and> row_step sha r r') \<or> row_fresh sha r')"

lemma row_origin_refl: "row_origin sha rows rows"
  by (simp add: row_origin_def)

lemma row_origin_step:
  "map_of rows eid = Some r \<Longrightarrow> row_step sha r r' \<Longrightarrow> row_origin sha rows (AList.update eid r' rows)"
  by (auto simp: row_origin_def)

lemma transact_origin:
  assumes "transact rows eid f = Inr (rows', x)" "\<And>out. f None \<noteq> Inr out"
    and "\<And>r r'. f (Some r) = Inr (Next r') \<Longrightarrow> row_step sha r r'"
  shows "row_origin sha rows rows'"
  using assms(1,2) by (rule transact_InrE) (auto intro: row_origin_refl row_origin_step assms(3))

lemma row_stepI:
  "relayRenew (Some r) tok now ms = Inr (Next r') \<Longrightarrow> row_step sha r r'"
  "relayRecordAttested sha (Some r) tok m n a now = Inr (Next r') \<Longrightarrow> row_step sha r r'"
  "relayMarkMintSubmitting (Some r) tok now = Inr (Next r') \<Longrightarrow> row_step sha r r'"
  "relayMarkMintSubmitted (Some r) tok h now = Inr (Next r') \<Longrightarrow> row_step sha r r'"
  "relayFinishMinted (Some r) tok h now = Inr (Next r') \<Longrightarrow> row_step sha r r'"
  "relayFinishBlocked (Some r) tok why now = Inr (Next r') \<Longrightarrow> row_step sha r r'"
  "relayFinishUncertain (Some r) tok h why now = Inr (Next r') \<Longrightarrow> row_step sha r r'"
  "relayRelease (Some r) tok now = Inr (Next r') \<Longrightarrow> row_step sha r r'"
  by (auto simp: row_step_def)

lemma row_step_reconcile: "row_step sha r (relayReconcileExpired r now)"
  by (auto simp: row_step_def)

lemma transact_ops_origin:
  "renew rows eid tok now ms = Inr (rows', r) \<Longrightarrow> row_origin sha rows rows'"
  "recordAttested sha rows eid tok m n a now = Inr (rows', r) \<Longrightarrow> row_origin sha rows rows'"
  "markMintSubmitting rows eid tok now = Inr (rows', r) \<Longrightarrow> row_origin sha rows rows'"
  "markMintSubmitted rows eid tok h now = Inr (rows', r) \<Longrightarrow> row_origin sha rows rows'"
  "finishMinted rows eid tok h now = Inr (rows', r) \<Longrightarrow> row_origin sha rows rows'"
  "finishBlocked rows eid tok why now = Inr (rows', r) \<Longrightarrow> row_origin sha rows rows'"
  "finishUncertain rows eid tok h why now = Inr (rows', r) \<Longrightarrow> row_origin sha rows rows'"
  "release rows eid tok now = Inr (rows', r) \<Longrightarrow> row_origin sha rows rows'"
  unfolding renew_def recordAttested_def markMintSubmitting_def markMintSubmitted_def
    finishMinted_def finishBlocked_def finishUncertain_def release_def
  by (erule transact_origin, rule transition_None, erule row_stepI)+

lemma enqueue_origin:
  assumes "enqueue sha rows eid sd b x now = Inr (rows', r)"
  shows "row_origin sha rows rows'"
  using assms
proof (cases rule: enqueue_InrE)
  case retry
  then show ?thesis by (simp add: row_origin_refl)
next
  case (fresh d e burn)
  have "e_sourceDomain e = JNum d" using fresh(1,7) by (simp add: normalizeSourceDomain_Inr)
  then have "row_fresh sha r"
    unfolding row_fresh_def using fresh(9) canonicalizeExpectation_Inr_fields [OF fresh(2)] by blast
  then show ?thesis using fresh(5) by (simp add: row_origin_def)
qed

lemma claim_origin:
  assumes "claim rows eid now ms tok = Inr (rows', out)"
  shows "row_origin sha rows rows'"
proof (cases out)
  case None
  with assms show ?thesis by (auto simp: claim_def ebind_Inr_iff row_origin_refl split: option.splits)
next
  case (Some r')
  with assms obtain r where r: "map_of rows eid = Some r" "relayClaim (Some r) now ms tok = Inr (Some r')"
      "rows' = AList.update eid r' rows"
    by (auto simp: claim_def relayClaim_def ebind_Inr_iff split: option.splits if_splits)
  have "row_step sha r r'" using r(2) unfolding row_step_def by (intro disjI1 exI)
  then show ?thesis using r row_origin_step by simp
qed

lemma reconcileOne_origin: "reconcileOne rows eid now = Inr (rows', out) \<Longrightarrow> row_origin sha rows rows'"
  by (auto simp: reconcileOne_def ebind_Inr_iff Let_def row_origin_refl row_origin_step row_step_reconcile
      split: option.splits if_splits)

lemma reconcileExpired_origin:
  assumes "rows_ok rows" "reconcileExpired rows now limit = Inr (rows', out)"
  shows "row_origin sha rows rows'"
  unfolding row_origin_def
proof (intro allI impI)
  fix eid r' assume "map_of rows' eid = Some r'"
  then obtain r where "map_of rows eid = Some r"
      "r' = (if r \<in> set (expiredBatch rows now limit) then relayReconcileExpired r now else r)"
    unfolding reconcileExpired_lookup [OF assms, of eid] by (auto split: option.splits)
  then show "map_of rows eid = Some r' \<or> (\<exists>r. map_of rows eid = Some r \<and> row_step sha r r') \<or> row_fresh sha r'"
    using row_step_reconcile by (auto split: if_splits)
qed

lemma store_apply_origin: "rows_ok rows \<Longrightarrow> row_origin sha rows (store_apply sha rows op)"
proof (cases "store_exec sha rows op")
  case (Inr rows')
  assume "rows_ok rows"
  with Inr have "row_origin sha rows rows'"
    by (cases op) (auto simp: rows_of_Inr dest: enqueue_origin claim_origin transact_ops_origin
        reconcileOne_origin reconcileExpired_origin)
  with Inr show ?thesis by (simp add: store_apply_def)
qed (simp add: store_apply_def row_origin_refl)

subsection \<open>Row properties as store invariants\<close>

locale row_property =
  fixes sha :: "string \<Rightarrow> string" and P :: "relay_record \<Rightarrow> bool"
  assumes fresh_P: "row_fresh sha r \<Longrightarrow> P r"
    and step_P: "P r \<Longrightarrow> row_step sha r r' \<Longrightarrow> P r'"
begin

definition all_rows :: "rows \<Rightarrow> bool" where
  "all_rows rows \<longleftrightarrow> rows_ok rows \<and> (\<forall>eid r. map_of rows eid = Some r \<longrightarrow> P r)"

lemma all_rows_apply: "all_rows rows \<Longrightarrow> all_rows (store_apply sha rows op)"
proof -
  assume a: "all_rows rows"
  then have ok: "rows_ok rows" by (simp add: all_rows_def)
  have "rows_ok (store_apply sha rows op)" using ok by (rule relay_rows.inv_app)
  moreover have "row_origin sha rows (store_apply sha rows op)" using ok by (rule store_apply_origin)
  ultimately show ?thesis
    using a fresh_P step_P unfolding all_rows_def row_origin_def by blast
qed

end

sublocale row_property \<subseteq> inv: invariant_machine "store_apply sha" all_rows
  by unfold_locales (rule all_rows_apply)

subsection \<open>Well-formed rows\<close>

definition mint_hash_canonical :: "relay_record \<Rightarrow> bool" where
  "mint_hash_canonical r \<longleftrightarrow>
     (case mintTxHash r of None \<Rightarrow> rstate r \<noteq> mint_submitted \<and> rstate r \<noteq> minted
      | Some h \<Rightarrow> normalizeMintTxHash (recordDomain r) (JStr h) = Inr h)"

definition expectation_canonical :: "relay_record \<Rightarrow> bool" where
  "expectation_canonical r \<longleftrightarrow>
     (\<exists>e d. r_expectation r = Some e \<and> canonical_fields e \<and> sourceDomain r = Some d \<and> e_sourceDomain e = JNum d)"

definition wf_row :: "relay_record \<Rightarrow> bool" where
  "wf_row r \<longleftrightarrow> expectation_canonical r \<and> mint_hash_canonical r"

lemma row_step_identity: "row_step sha r r' \<Longrightarrow> same_identity r r'"
  by (auto simp: row_step_def same_identity_def relayClaim_def relayRenew_def relayRecordAttested_def
      relayMarkMintSubmitting_def relayMarkMintSubmitted_def relayFinishMinted_def relayFinishBlocked_def
      relayFinishUncertain_def relayRelease_def relayReconcileExpired_def ebind_Inr_iff assertLease_Inr
      split: if_splits)

lemma row_step_mint_hash:
  assumes "mint_hash_canonical r" "row_step sha r r'"
  shows "mint_hash_canonical r'"
  using assms
  by (auto simp: row_step_def mint_hash_canonical_def recordDomain_def relayClaim_def relayRenew_def relayRecordAttested_def
      relayMarkMintSubmitting_def relayMarkMintSubmitted_def relayFinishMinted_def relayFinishBlocked_def
      relayFinishUncertain_def relayRelease_def relayReconcileExpired_def ebind_Inr_iff assertLease_Inr
      dest: normalizeMintTxHash_idem split: if_splits option.splits)

interpretation wf: row_property sha wf_row for sha
proof unfold_locales
  fix r assume "row_fresh sha r"
  then show "wf_row r"
    by (auto simp: row_fresh_def wf_row_def expectation_canonical_def mint_hash_canonical_def
        relayNewPendingRecord_Inr)
next
  fix r r' assume "wf_row r" "row_step sha r r'"
  then show "wf_row r'"
    using row_step_identity row_step_mint_hash
    by (fastforce simp: wf_row_def expectation_canonical_def same_identity_def)
qed

text \<open>The well-formed stores, spelled out.\<close>

definition wf_rows :: "rows \<Rightarrow> bool" where
  "wf_rows rows \<longleftrightarrow> rows_ok rows \<and> (\<forall>eid r. map_of rows eid = Some r \<longrightarrow> wf_row r)"

lemma wf_rows_eq: "wf_rows rows \<longleftrightarrow> wf.all_rows rows"
  by (simp add: wf_rows_def wf.all_rows_def)

lemma wf_rows_run: "wf_rows rows \<Longrightarrow> wf_rows (run_ops (store_apply sha) rows ops)"
  unfolding wf_rows_eq by (rule wf.inv.run_inv)

lemma wf_rows_Nil [simp]: "wf_rows []"
  by (simp add: wf_rows_def)

end
