(* ===== verification/WatcherSystem.thy ===== *)
theory WatcherSystem
  imports Watcher RowProperty
begin

section \<open>A system of watchers over one store\<close>

text \<open>
  Any number of relayer processes share the durable rows. Each process runs invocations of
  \<open>relayMint\<close>, \<open>resumeExisting\<close> and the re-drives of \<open>sweepStuck\<close> as workers whose segments
  interleave freely, may crash at any suspension, and answers of the outside world are
  arbitrary. The ghost component \<open>sys_sends\<close> logs every destination send. The theorems: the
  system never sends an execution twice, sends only raw evidence that the immutable expectation
  of the row allows, and reports a mint only when the row durably says so.
\<close>

record worker =
  wk_proc :: nat
  wk_exec :: string
  wk_owns :: bool
  wk_pc :: worker_pc

record sys =
  sys_rows :: rows
  sys_inFlight :: "(nat \<times> string) set"
  sys_workers :: "nat \<Rightarrow> worker option"
  sys_sends :: "send list"

definition spawn :: "sys \<Rightarrow> nat \<Rightarrow> nat \<Rightarrow> string \<Rightarrow> segment \<Rightarrow> bool \<Rightarrow> sys" where
  "spawn s p w eid seg owns =
     s\<lparr>sys_rows := fst seg,
       sys_inFlight := (if owns then insert (p, eid) (sys_inFlight s) else sys_inFlight s),
       sys_workers := (sys_workers s)(w \<mapsto>
         \<lparr>wk_proc = p, wk_exec = eid, wk_owns = owns, wk_pc = fst (snd seg)\<rparr>),
       sys_sends := sys_sends s @ snd (snd seg)\<rparr>"

inductive sys_step :: "(string \<Rightarrow> string) \<Rightarrow> watcher_config \<Rightarrow> sys \<Rightarrow> sys \<Rightarrow> bool" for sha cfg where
  relay: "sys_workers s w = None \<Longrightarrow>
    relayMint sha cfg (sys_rows s) ((p, eid) \<in> sys_inFlight s) eid sd burn x tok clk = (seg, owns) \<Longrightarrow>
    sys_step sha cfg s (spawn s p w eid seg owns)"
| resume: "sys_workers s w = None \<Longrightarrow>
    resumeExisting cfg (sys_rows s) ((p, eid) \<in> sys_inFlight s) eid tok clk = (seg, owns) \<Longrightarrow>
    sys_step sha cfg s (spawn s p w eid seg owns)"
| redrive: "sys_workers s w = None \<Longrightarrow> (p, eid) \<notin> sys_inFlight s \<Longrightarrow>
    drive cfg (sys_rows s) eid tok clk = seg \<Longrightarrow>
    sys_step sha cfg s (spawn s p w eid seg False)"
| continue: "sys_workers s w = Some wk \<Longrightarrow>
    continueDrive sha cfg (sys_rows s) (wk_pc wk) i clk = (rows', pc', out) \<Longrightarrow>
    sys_step sha cfg s (s\<lparr>sys_rows := rows', sys_workers := (sys_workers s)(w \<mapsto> wk\<lparr>wk_pc := pc'\<rparr>),
      sys_sends := sys_sends s @ out\<rparr>)"
| settle: "sys_workers s w = Some wk \<Longrightarrow> wk_pc wk = Done res \<or> wk_pc wk = Failed err \<Longrightarrow>
    sys_step sha cfg s (s\<lparr>sys_workers := (sys_workers s)(w := None),
      sys_inFlight := (if wk_owns wk then sys_inFlight s - {(wk_proc wk, wk_exec wk)} else sys_inFlight s)\<rparr>)"
| crash: "sys_step sha cfg s (s\<lparr>
      sys_workers := (\<lambda>w. case sys_workers s w of None \<Rightarrow> None
        | Some wk \<Rightarrow> if wk_proc wk = p then None else Some wk),
      sys_inFlight := {x \<in> sys_inFlight s. fst x \<noteq> p}\<rparr>)"
| store: "sys_step sha cfg s (s\<lparr>sys_rows := store_apply sha (sys_rows s) op\<rparr>)"

definition init_sys :: "rows \<Rightarrow> sys" where
  "init_sys rows = \<lparr>sys_rows = rows, sys_inFlight = {}, sys_workers = (\<lambda>_. None), sys_sends = []\<rparr>"

inductive reachable :: "(string \<Rightarrow> string) \<Rightarrow> watcher_config \<Rightarrow> sys \<Rightarrow> bool" for sha cfg where
  init: "wf_rows rows \<Longrightarrow> reachable sha cfg (init_sys rows)"
| step: "reachable sha cfg s \<Longrightarrow> sys_step sha cfg s s' \<Longrightarrow> reachable sha cfg s'"

subsection \<open>Segments are runs of store operations\<close>

definition runs :: "(string \<Rightarrow> string) \<Rightarrow> rows \<Rightarrow> rows \<Rightarrow> bool" where
  "runs sha rows rows' \<longleftrightarrow> (\<exists>ops. rows' = run_ops (store_apply sha) rows ops)"

lemma runs_refl [simp]: "runs sha rows rows"
  unfolding runs_def by (rule exI [of _ "[]"]) simp

lemma runs_trans: "runs sha a b \<Longrightarrow> runs sha b c \<Longrightarrow> runs sha a c"
  unfolding runs_def by (metis run_ops_append)

lemma runs_exec: "store_exec sha rows op = Inr rows' \<Longrightarrow> runs sha rows rows'"
  unfolding runs_def by (rule exI [of _ "[op]"]) (simp add: store_apply_def)

lemma runs_apply: "runs sha rows (store_apply sha rows op)"
  unfolding runs_def by (rule exI [of _ "[op]"]) simp

lemma runs_ops:
  "enqueue sha rows eid sd b x now = Inr (rows', r1) \<Longrightarrow> runs sha rows rows'"
  "claim rows eid now ms tok = Inr (rows', r2) \<Longrightarrow> runs sha rows rows'"
  "recordAttested sha rows eid tok m n a now = Inr (rows', r1) \<Longrightarrow> runs sha rows rows'"
  "markMintSubmitting rows eid tok now = Inr (rows', r1) \<Longrightarrow> runs sha rows rows'"
  "markMintSubmitted rows eid tok h now = Inr (rows', r1) \<Longrightarrow> runs sha rows rows'"
  "finishMinted rows eid tok h now = Inr (rows', r1) \<Longrightarrow> runs sha rows rows'"
  "finishBlocked rows eid tok why now = Inr (rows', r1) \<Longrightarrow> runs sha rows rows'"
  "finishUncertain rows eid tok h why now = Inr (rows', r1) \<Longrightarrow> runs sha rows rows'"
  "release rows eid tok now = Inr (rows', r1) \<Longrightarrow> runs sha rows rows'"
  "reconcileOne rows eid now = Inr (rows', r2) \<Longrightarrow> runs sha rows rows'"
proof -
  show "enqueue sha rows eid sd b x now = Inr (rows', r1) \<Longrightarrow> runs sha rows rows'"
    by (rule runs_exec [where op = "Enqueue eid sd b x now"]) (simp add: rows_of_def)
  show "claim rows eid now ms tok = Inr (rows', r2) \<Longrightarrow> runs sha rows rows'"
    by (rule runs_exec [where op = "Claim eid now ms tok"]) (simp add: rows_of_def)
  show "recordAttested sha rows eid tok m n a now = Inr (rows', r1) \<Longrightarrow> runs sha rows rows'"
    by (rule runs_exec [where op = "RecordAttested eid tok m n a now"]) (simp add: rows_of_def)
  show "markMintSubmitting rows eid tok now = Inr (rows', r1) \<Longrightarrow> runs sha rows rows'"
    by (rule runs_exec [where op = "MarkMintSubmitting eid tok now"]) (simp add: rows_of_def)
  show "markMintSubmitted rows eid tok h now = Inr (rows', r1) \<Longrightarrow> runs sha rows rows'"
    by (rule runs_exec [where op = "MarkMintSubmitted eid tok h now"]) (simp add: rows_of_def)
  show "finishMinted rows eid tok h now = Inr (rows', r1) \<Longrightarrow> runs sha rows rows'"
    by (rule runs_exec [where op = "FinishMinted eid tok h now"]) (simp add: rows_of_def)
  show "finishBlocked rows eid tok why now = Inr (rows', r1) \<Longrightarrow> runs sha rows rows'"
    by (rule runs_exec [where op = "FinishBlocked eid tok why now"]) (simp add: rows_of_def)
  show "finishUncertain rows eid tok h why now = Inr (rows', r1) \<Longrightarrow> runs sha rows rows'"
    by (rule runs_exec [where op = "FinishUncertain eid tok h why now"]) (simp add: rows_of_def)
  show "release rows eid tok now = Inr (rows', r1) \<Longrightarrow> runs sha rows rows'"
    by (rule runs_exec [where op = "Release eid tok now"]) (simp add: rows_of_def)
  show "reconcileOne rows eid now = Inr (rows', r2) \<Longrightarrow> runs sha rows rows'"
    by (rule runs_exec [where op = "ReconcileOne eid now"]) (simp add: rows_of_def)
qed

lemma runs_releaseQuietly: "runs sha rows (releaseQuietly rows eid tok now)"
  by (auto simp: releaseQuietly_def intro: runs_ops split: sum.splits prod.splits)

text \<open>What a run of store operations keeps.\<close>

lemma runs_wf: "runs sha rows rows' \<Longrightarrow> wf_rows rows \<Longrightarrow> wf_rows rows'"
  unfolding runs_def using wf_rows_run by blast

lemma runs_identity: "runs sha rows rows' \<Longrightarrow> lookup_identity eid r rows \<Longrightarrow> lookup_identity eid r rows'"
  unfolding runs_def using relay_identity.run_inv by blast

lemma runs_stage: "runs sha rows rows' \<Longrightarrow> rows_ok rows \<Longrightarrow> row_stage eid rows \<le> row_stage eid rows'"
  unfolding runs_def using relay_fence.run_rank_mono by blast

lemma runs_terminal:
  assumes "runs sha rows rows'" "rows_ok rows" "map_of rows eid = Some r" "rstate r \<in> set RELAY_TERMINAL_STATES"
  shows "map_of rows' eid = Some r"
proof -
  obtain ops where "rows' = run_ops (store_apply sha) rows ops" using assms(1) by (auto simp: runs_def)
  moreover have "terminal_row (map_of rows eid)" using assms(3,4) by (simp add: terminal_row_def)
  ultimately show ?thesis
    using relay_final.run_final_stable [OF assms(2)] assms(3) by metis
qed

subsection \<open>What a suspended worker knows\<close>

definition known :: "rows \<Rightarrow> string \<Rightarrow> relay_record \<Rightarrow> bool" where
  "known rows eid record \<longleftrightarrow> execId record = eid \<and> wf_row record \<and> lookup_identity eid record rows"

text \<open>The raw message of \<open>r\<close> parses to a message that the expectation of \<open>record\<close> allows.\<close>

definition vetted :: "relay_record \<Rightarrow> string option \<Rightarrow> bool" where
  "vetted record msg \<longleftrightarrow>
     (\<exists>e t m. r_expectation record = Some e \<and> msg = Some t
        \<and> parseCctpV2Message (JStr t) = Inr m \<and> matches_expectation m e)"

definition hashed :: "relay_record \<Rightarrow> relay_record \<Rightarrow> bool" where
  "hashed record r \<longleftrightarrow>
     (\<exists>h. mintTxHash r = Some h \<and> normalizeMintTxHash (recordDomain record) (JStr h) = Inr h)"

definition row_says :: "rows \<Rightarrow> string \<Rightarrow> relay_state \<Rightarrow> (relay_record \<Rightarrow> bool) \<Rightarrow> bool" where
  "row_says rows eid st Q \<longleftrightarrow> (\<exists>r. map_of rows eid = Some r \<and> rstate r = st \<and> Q r)"

fun result_ok :: "rows \<Rightarrow> string \<Rightarrow> drive_result \<Rightarrow> bool" where
  "result_ok rows eid (R_minted h) = row_says rows eid minted (\<lambda>r. mintTxHash r = h \<and> h \<noteq> None)"
| "result_ok rows eid (R_already_minted h) = row_says rows eid minted (\<lambda>r. mintTxHash r = h \<and> h \<noteq> None)"
| "result_ok rows eid (R_blocked why) = row_says rows eid blocked (\<lambda>r. reasonCode r = why)"
| "result_ok rows eid (R_uncertain why) = row_says rows eid uncertain (\<lambda>r. reasonCode r = why)"
| "result_ok rows eid (R_mint_submitted h) = (h \<noteq> None)"
| "result_ok rows eid _ = True"

fun pc_ok :: "rows \<Rightarrow> string \<Rightarrow> worker_pc \<Rightarrow> bool" where
  "pc_ok rows eid (PollWait record claimed tok) = known rows eid record"
| "pc_ok rows eid (Polled record r tok) = (known rows eid record \<and> rstate r = attested \<and> vetted record (messageHex r))"
| "pc_ok rows eid (SubmitWait record r tok) = known rows eid record"
| "pc_ok rows eid (Submitted record r tok) = (known rows eid record \<and> hashed record r)"
| "pc_ok rows eid (ConfirmWait record r tok) = (known rows eid record \<and> hashed record r)"
| "pc_ok rows eid (Done res) = result_ok rows eid res"
| "pc_ok rows eid (Failed err) = True"

lemma known_runs: "runs sha rows rows' \<Longrightarrow> known rows eid record \<Longrightarrow> known rows' eid record"
  by (auto simp: known_def intro: runs_identity)

lemma row_says_runs:
  assumes "runs sha rows rows'" "rows_ok rows" "row_says rows eid st Q" "st \<in> set RELAY_TERMINAL_STATES"
  shows "row_says rows' eid st Q"
  using assms runs_terminal [OF assms(1,2)] unfolding row_says_def by blast

lemma result_ok_runs:
  "runs sha rows rows' \<Longrightarrow> rows_ok rows \<Longrightarrow> result_ok rows eid res \<Longrightarrow> result_ok rows' eid res"
  by (cases res) (auto simp: RELAY_TERMINAL_STATES_def intro: row_says_runs)

lemma pc_ok_runs:
  "runs sha rows rows' \<Longrightarrow> rows_ok rows \<Longrightarrow> pc_ok rows eid pc \<Longrightarrow> pc_ok rows' eid pc"
  by (cases pc) (auto intro: known_runs result_ok_runs)

lemma known_row:
  assumes "known rows eid record"
  obtains r where "map_of rows eid = Some r" "same_identity record r"
  using assms by (auto simp: known_def lookup_identity_def split: option.splits)

subsection \<open>Each segment keeps it\<close>

text \<open>A segment from rows where the worker's knowledge holds: rows, worker, and no send.\<close>

definition quiet_ok :: "(string \<Rightarrow> string) \<Rightarrow> rows \<Rightarrow> string \<Rightarrow> segment \<Rightarrow> bool" where
  "quiet_ok sha rows eid seg \<longleftrightarrow>
     runs sha rows (fst seg) \<and> pc_ok (fst seg) eid (fst (snd seg)) \<and> snd (snd seg) = []"

lemma abort_ok: "quiet_ok sha rows eid (abort rows e tok now err)"
  by (simp add: quiet_ok_def abort_def runs_releaseQuietly)

lemma finishBlocked_row:
  assumes "finishBlocked rows eid tok why now = Inr (rows', r)"
  shows "row_says rows' eid blocked (\<lambda>r. reasonCode r = Some why)"
  by (rule transact_InrE [OF assms [unfolded finishBlocked_def] transition_None(6)])
    (auto simp: relayFinishBlocked_def ebind_Inr_iff row_says_def assertLease_Inr split: if_splits)

lemma finishUncertain_row:
  assumes "finishUncertain rows eid tok h why now = Inr (rows', r)"
  shows "row_says rows' eid uncertain (\<lambda>r. reasonCode r = Some why)"
  by (rule transact_InrE [OF assms [unfolded finishUncertain_def] transition_None(7)])
    (auto simp: relayFinishUncertain_def ebind_Inr_iff row_says_def assertLease_Inr split: if_splits)

lemma stopBlocked_ok: "quiet_ok sha rows eid (stopBlocked rows eid tok why clk)"
  using abort_ok by (auto simp: stopBlocked_def quiet_ok_def intro: runs_ops finishBlocked_row
      split: sum.splits prod.splits)

lemma stopUncertain_ok: "quiet_ok sha rows eid (stopUncertain rows eid tok h why clk)"
  using abort_ok by (auto simp: stopUncertain_def quiet_ok_def intro: runs_ops finishUncertain_row
      split: sum.splits prod.splits)

text \<open>A record written as attested carries the lowercase form of the message that was vetted.\<close>

lemma recordAttested_message:
  assumes "recordAttested sha rows eid tok (JStr t) n a now = Inr (rows', r)"
  shows "rstate r = attested" "messageHex r = Some (toLowerCase t)"
proof -
  have "rstate r = attested \<and> messageHex r = Some (toLowerCase t)"
    by (rule transact_InrE [OF assms [unfolded recordAttested_def] transition_None(2)])
      (auto simp: relayRecordAttested_def normalizeEvidence_def ebind_Inr_iff assertLease_Inr Let_def split: if_splits)
  then show "rstate r = attested" "messageHex r = Some (toLowerCase t)" by simp_all
qed

lemma parse_lower:
  assumes "parseCctpV2Message (JStr t) = Inr m"
  shows "parseCctpV2Message (JStr (toLowerCase t)) = Inr m"
proof -
  have "wire_ok m" "startsWith0x t" "list_all is_hex (drop 2 t)"
      "toLowerCase t = ''0x'' @ bytes_hex (encode_message m)"
    using assms unfolding parse_iff by simp_all
  moreover from this have "list_all is_hex (drop 2 (toLowerCase t))"
    using list_all_lhex_lower [of "drop 2 t"]
    by (auto simp: startsWith0x_conv list_all_iff lhex_is_hex)
  ultimately show ?thesis
    unfolding parse_iff by (simp add: startsWith0x_def)
qed

lemma parsed_string: "parseCctpV2Message v = Inr m \<Longrightarrow> \<exists>t. v = JStr t"
  by (cases v) auto

lemma polledEvidence_vetted:
  assumes "polledEvidence record answer = Inr (ev, m)" "wf_row record"
  obtains t where "js_get ev ''message'' = JStr t" "vetted record (Some (toLowerCase t))"
proof -
  obtain e where e: "r_expectation record = Some e" "canonical_fields e"
    using assms(2) by (auto simp: wf_row_def expectation_canonical_def)
  have "assertCctpV2BurnMatches (js_get ev ''message'') (expectation_js e) = Inr m"
    using assms(1) e by (auto simp: polledEvidence_def record_expectation_def split: poll_answer.splits sum.splits)
  then have m: "parseCctpV2Message (js_get ev ''message'') = Inr m" "matches_expectation m e"
    by (auto simp: burn_match_iff [OF e(2)])
  then obtain t where t: "js_get ev ''message'' = JStr t" using parsed_string by blast
  have "vetted record (Some (toLowerCase t))"
    using e m parse_lower t by (auto simp: vetted_def)
  with t show thesis by (rule that)
qed

lemma pollPhase_ok:
  assumes "known rows eid record"
  shows "quiet_ok sha rows eid (pollPhase sha rows record claimed tok a clk)"
proof (cases "polledEvidence record a")
  case (Inl code)
  have eid: "execId record = eid" using assms by (simp add: known_def)
  show ?thesis
    using Inl stopBlocked_ok by (auto simp: pollPhase_def eid quiet_ok_def runs_releaseQuietly)
next
  case (Inr p)
  obtain ev m where p: "p = (ev, m)" by force
  have eid: "execId record = eid" and wf: "wf_row record" using assms by (simp_all add: known_def)
  obtain t where t: "js_get ev ''message'' = JStr t" "vetted record (Some (toLowerCase t))"
    using polledEvidence_vetted [OF Inr [unfolded p] wf] .
  show ?thesis
  proof (cases "recordAttested sha rows eid tok (js_get ev ''message'') (JStr (m_nonce m)) (js_get ev ''attestation'') (clk 0)")
    case (Inl err)
    then show ?thesis
      using Inr p abort_ok stopBlocked_ok by (simp add: pollPhase_def eid Let_def)
  next
    case (Inr q)
    obtain rows' r where q: "q = (rows', r)" by force
    have run: "runs sha rows rows'" using Inr q by (auto intro: runs_ops)
    have "rstate r = attested" "vetted record (messageHex r)"
      using Inr t q recordAttested_message by auto
    then show ?thesis
      using \<open>polledEvidence record a = Inr p\<close> Inr p q known_runs [OF run assms] run
      by (simp add: pollPhase_def eid Let_def quiet_ok_def)
  qed
qed

lemma markMintSubmitted_hashed:
  assumes "markMintSubmitted rows eid tok h now = Inr (rows', r)" "known rows eid record"
  shows "hashed record r"
proof -
  obtain r0 where r0: "map_of rows eid = Some r0" "same_identity record r0" using assms(2) by (rule known_row)
  have d: "recordDomain record = recordDomain r0" using r0(2) by (simp add: recordDomain_def same_identity_def)
  show ?thesis
    unfolding hashed_def d
    by (rule transact_InrE [OF assms(1) [unfolded markMintSubmitted_def] transition_None(4)])
      (use r0(1) in \<open>auto simp: relayMarkMintSubmitted_def ebind_Inr_iff assertLease_Inr dest: normalizeMintTxHash_idem
        split: if_splits\<close>)
qed

lemma submitAnswered_ok:
  assumes "known rows eid record"
  shows "quiet_ok sha rows eid (submitAnswered rows record tok a clk)"
proof -
  have eid: "execId record = eid" using assms by (simp add: known_def)
  have sub: "quiet_ok sha rows eid (rows', Submitted record r tok, [])"
    if "markMintSubmitted rows eid tok h now = Inr (rows', r)" for h now rows' r
    using that runs_ops(5) [OF that] known_runs [OF runs_ops(5) [OF that] assms]
      markMintSubmitted_hashed [OF that assms] by (simp add: quiet_ok_def)
  show ?thesis
    using stopUncertain_ok sub
    by (auto simp: submitAnswered_def eid Let_def split: submit_answer.splits sum.splits)
qed

lemma finishMinted_row:
  assumes "finishMinted rows eid tok (JStr h) now = Inr (rows', r)"
    and "map_of rows eid = Some r0" "normalizeMintTxHash (recordDomain r0) (JStr h) = Inr h"
  shows "row_says rows' eid minted (\<lambda>r. mintTxHash r = Some h \<and> Some h \<noteq> None)"
  by (rule transact_InrE [OF assms(1) [unfolded finishMinted_def] transition_None(5)])
    (use assms(2,3) in \<open>auto simp: relayFinishMinted_def ebind_Inr_iff assertLease_Inr row_says_def split: if_splits\<close>)

lemma confirmPhase_ok:
  assumes "known rows eid record" "hashed record r"
  shows "quiet_ok sha rows eid (confirmPhase rows record r tok a clk)"
proof -
  obtain r0 where r0: "map_of rows eid = Some r0" "same_identity record r0" using assms(1) by (rule known_row)
  have eid: "execId record = eid" using assms(1) by (simp add: known_def)
  obtain h where h: "mintTxHash r = Some h" "normalizeMintTxHash (recordDomain r0) (JStr h) = Inr h"
    using assms(2) r0(2) by (auto simp: hashed_def recordDomain_def same_identity_def)
  show ?thesis
    using stopBlocked_ok finishMinted_row [OF _ r0(1) h(2)]
    by (auto simp: confirmPhase_def eid h(1) Let_def quiet_ok_def runs_releaseQuietly runs_ops
        split: confirm_answer.splits sum.splits)
qed

lemma terminalResult_ok:
  assumes "terminalResult r = Some res" "map_of rows eid = Some r" "wf_row r"
  shows "result_ok rows eid res"
  using assms
  by (auto simp: terminalResult_def row_says_def wf_row_def mint_hash_canonical_def split: if_splits option.splits)

lemma drive_ok:
  assumes wf: "wf_rows rows"
  shows "quiet_ok sha rows eid (drive cfg rows eid tok clk)"
proof (cases "map_of rows eid")
  case None
  then show ?thesis by (simp add: drive_def get_def quiet_ok_def)
next
  case (Some r)
  have wfr: "wf_row r" and ok: "rows_ok rows" using wf Some by (auto simp: wf_rows_def)
  have eid: "execId r = eid" using rows_ok_lookup [OF ok Some] .
  have kn: "known rows eid r" using Some wfr ok eid by (simp add: known_def lookup_identity_def)
  show ?thesis
  proof (cases "terminalResult r")
    case (Some res)
    then show ?thesis
      using terminalResult_ok [OF Some \<open>map_of rows eid = Some r\<close> wfr] \<open>map_of rows eid = Some r\<close>
      by (simp add: drive_def get_def quiet_ok_def)
  next
    case None
    have cl: "quiet_ok sha rows eid (if rstate c = attestation_pending \<or> rstate c = attested
        then (rows', PollWait r c tok, []) else (rows', ConfirmWait r c tok, []))"
      if c: "claim rows eid (clk 0) (effectiveLeaseMs cfg) tok = Inr (rows', Some c)" for rows' c
    proof -
      have run: "runs sha rows rows'" using c by (rule runs_ops)
      have "hashed r c" if "\<not> (rstate c = attestation_pending \<or> rstate c = attested)"
        using that c Some wfr \<open>map_of rows eid = Some r\<close>
        by (auto simp: claim_def relayClaim_def ebind_Inr_iff RELAY_CLAIMABLE_STATES_def hashed_def
            wf_row_def mint_hash_canonical_def split: if_splits option.splits)
      with run known_runs [OF run kn] show ?thesis by (simp add: quiet_ok_def)
    qed
    show ?thesis
      using None Some \<open>map_of rows eid = Some r\<close> cl runs_ops(2)
      by (auto simp: drive_def get_def quiet_ok_def split: sum.splits option.splits)
  qed
qed

lemma quiet_ok_runs:
  "runs sha rows rows1 \<Longrightarrow> quiet_ok sha rows1 eid seg \<Longrightarrow> quiet_ok sha rows eid seg"
  by (auto simp: quiet_ok_def intro: runs_trans)

lemma answerOrDrive_ok:
  assumes "wf_rows rows" "runs sha rows rows1" "map_of rows1 eid = Some r"
  shows "quiet_ok sha rows eid (answerOrDrive cfg rows1 r eid tok clk)"
proof -
  have wf1: "wf_rows rows1" using runs_wf [OF assms(2,1)] .
  then have "wf_row r" using assms(3) by (simp add: wf_rows_def)
  then show ?thesis
    using assms quiet_ok_runs [OF assms(2) drive_ok [OF wf1]] terminalResult_ok
    by (cases "terminalResult r") (auto simp: answerOrDrive_def quiet_ok_def)
qed

lemma failed_ok: "runs sha rows rows1 \<Longrightarrow> quiet_ok sha rows eid (rows1, Failed err, [])"
  by (simp add: quiet_ok_def)

lemma relayMint_ok:
  assumes wf: "wf_rows rows" and ex: "relayMint sha cfg rows busy eid sd burn x tok clk = (seg, owns)"
  shows "quiet_ok sha rows eid seg"
proof (cases "enqueue sha rows eid sd burn x (clk 5)")
  case (Inl err)
  with ex show ?thesis by (auto simp: relayMint_def quiet_ok_def split: if_splits)
next
  case (Inr p)
  obtain rows1 r where p: "p = (rows1, r)" by force
  have "runs sha rows rows1" "map_of rows1 eid = Some r"
    using runs_ops(1) [OF Inr [unfolded p]] Inr p by (auto elim!: enqueue_InrE)
  then have "quiet_ok sha rows eid (answerOrDrive cfg rows1 r eid tok clk)" by (rule answerOrDrive_ok [OF wf])
  with ex Inr p show ?thesis by (auto simp: relayMint_def quiet_ok_def split: if_splits)
qed

lemma resumeReconcile_ok:
  assumes "resumeReconcile rows record eid clk = Inr (rows1, Some r)" "map_of rows eid = Some record"
  shows "runs sha rows rows1" "map_of rows1 eid = Some r"
proof -
  have "reconcileOne rows eid (clk 6) = Inr (rows1, Some r) \<or> (rows1 = rows \<and> r = record)"
    using assms(1) by (auto simp: resumeReconcile_def split: if_splits)
  then have "runs sha rows rows1 \<and> map_of rows1 eid = Some r"
  proof
    assume rc: "reconcileOne rows eid (clk 6) = Inr (rows1, Some r)"
    then show ?thesis
      using runs_ops(10) [OF rc] assms(2)
      by (auto simp: reconcileOne_def ebind_Inr_iff Let_def split: if_splits)
  qed (use assms(2) in simp)
  then show "runs sha rows rows1" "map_of rows1 eid = Some r" by simp_all
qed

lemma resumeReconcile_runs:
  "resumeReconcile rows rc0 eid clk = Inr (rows1, ro) \<Longrightarrow> runs sha rows rows1"
  by (auto simp: resumeReconcile_def intro: runs_ops split: if_splits)

lemma resumeExisting_ok:
  assumes wf: "wf_rows rows" and ex: "resumeExisting cfg rows busy eid tok clk = (seg, owns)"
  shows "quiet_ok sha rows eid seg"
proof -
  have q: "quiet_ok sha rows eid (rows, Done R_in_progress, [])" by (simp add: quiet_ok_def)
  have tail: "quiet_ok sha rows eid (answerOrDrive cfg rows1 r eid tok clk)"
    if "resumeReconcile rows rc0 eid clk = Inr (rows1, Some r)" "map_of rows eid = Some rc0"
    for rows1 r rc0
    using answerOrDrive_ok [OF wf] resumeReconcile_ok [OF that] by blast
  have "quiet_ok sha rows eid (fst (resumeExisting cfg rows busy eid tok clk))"
    using q tail
    by (auto simp: resumeExisting_def get_def intro!: failed_ok dest!: resumeReconcile_runs
        split: option.splits sum.splits)
  then show ?thesis using ex by simp
qed

subsection \<open>Sends\<close>

text \<open>A send the durable row authorises.\<close>

definition authorised :: "watcher_config \<Rightarrow> rows \<Rightarrow> send \<Rightarrow> bool" where
  "authorised cfg rows sd \<longleftrightarrow>
     (\<exists>r. map_of rows (send_exec sd) = Some r \<and> vetted r (send_message sd)
        \<and> (send_forward sd \<longleftrightarrow> sourceDomain r = Some (domain_stellar cfg)))"

definition crossing_send :: "watcher_config \<Rightarrow> rows \<Rightarrow> rows \<Rightarrow> string \<Rightarrow> send list \<Rightarrow> bool" where
  "crossing_send cfg rows rows' eid out \<longleftrightarrow>
     out = [] \<or> (\<exists>sd. out = [sd] \<and> send_exec sd = eid \<and> authorised cfg rows' sd
       \<and> row_stage eid rows < 2 \<and> 2 \<le> row_stage eid rows')"

lemma authorised_runs:
  assumes "runs sha rows rows'" "rows_ok rows" "authorised cfg rows sd"
  shows "authorised cfg rows' sd"
proof -
  obtain r where r: "map_of rows (send_exec sd) = Some r" "vetted r (send_message sd)"
      "send_forward sd \<longleftrightarrow> sourceDomain r = Some (domain_stellar cfg)"
    using assms(3) by (auto simp: authorised_def)
  have "lookup_identity (send_exec sd) r rows"
    using r(1) assms(2) by (simp add: lookup_identity_def)
  then have "lookup_identity (send_exec sd) r rows'" by (rule runs_identity [OF assms(1)])
  then obtain r' where "map_of rows' (send_exec sd) = Some r'" "same_identity r r'"
    by (auto simp: lookup_identity_def split: option.splits)
  with r show ?thesis by (auto simp: authorised_def vetted_def same_identity_def)
qed

lemma submitPhase_ok:
  assumes "known rows eid record" "vetted record (messageHex r)"
    and "submitPhase cfg rows record r tok clk = (rows', pc', out)"
  shows "runs sha rows rows' \<and> pc_ok rows' eid pc' \<and> crossing_send cfg rows rows' eid out"
proof (cases "markMintSubmitting rows eid tok (clk 0)")
  case (Inl err)
  have eid: "execId record = eid" using assms(1) by (simp add: known_def)
  have "abort rows eid tok (clk 9) err = (rows', pc', out)"
    using assms(3) Inl by (simp add: submitPhase_def eid)
  then show ?thesis
    using abort_ok [of sha rows eid eid tok "clk 9" err] by (simp add: quiet_ok_def crossing_send_def)
next
  case (Inr p)
  have eid: "execId record = eid" using assms(1) by (simp add: known_def)
  obtain rows1 r1 where m: "markMintSubmitting rows eid tok (clk 0) = Inr (rows1, r1)"
    using Inr by (cases p) auto
  then obtain r0 where r0: "map_of rows eid = Some r0" "rstate r0 = attested"
      "rows1 = AList.update eid (r0\<lparr>rstate := mint_submitting, updatedAt := clk 0\<rparr>) rows"
    by (rule markMintSubmitting_ok)
  have e: "rows' = rows1" "pc' = SubmitWait record r tok"
      "out = [\<lparr>send_exec = eid, send_forward = isForward cfg record,
        send_message = messageHex r, send_attestation = attestationHex r\<rparr>]"
    using assms(3) m by (auto simp: submitPhase_def eid)
  have run: "runs sha rows rows'" using m e(1) runs_ops(4) by simp
  obtain q where q: "map_of rows eid = Some q" "same_identity record q" using assms(1) by (rule known_row)
  with r0(1) have "same_identity record r0" by simp
  then have "authorised cfg rows' (hd out)"
    using assms(2) r0 e by (auto simp: authorised_def vetted_def same_identity_def isForward_def)
  moreover have "row_stage eid rows < 2" "2 \<le> row_stage eid rows'"
    using r0 e(1) by (simp_all add: row_stage_def)
  ultimately show ?thesis
    using run e known_runs [OF run assms(1)] by (simp add: crossing_send_def)
qed

lemma quiet_crossing:
  assumes "quiet_ok sha rows eid (rows', pc', out)"
  shows "runs sha rows rows' \<and> pc_ok rows' eid pc' \<and> crossing_send cfg rows rows' eid out"
  using assms by (simp add: quiet_ok_def crossing_send_def)

lemma continueDrive_ok:
  assumes "pc_ok rows eid pc" "continueDrive sha cfg rows pc i clk = (rows', pc', out)"
  shows "runs sha rows rows' \<and> pc_ok rows' eid pc' \<and> crossing_send cfg rows rows' eid out"
  using assms
proof (cases rule: continueDrive.cases [of "(sha, cfg, rows, pc, i, clk)"])
  case (1 sha' cfg' rows0 rc claimed tok a clk')
  then show ?thesis using assms pollPhase_ok quiet_crossing by (metis Pair_inject continueDrive.simps(1) pc_ok.simps(1))
next
  case (2 sha' cfg' rows0 rc working tok clk')
  then show ?thesis using assms submitPhase_ok by (auto split: if_splits)
next
  case (3 sha' cfg' rows0 rc working tok a clk')
  then show ?thesis using assms submitAnswered_ok quiet_crossing by (metis Pair_inject continueDrive.simps(3) pc_ok.simps(3))
next
  case (4 sha' cfg' rows0 rc working tok clk')
  then show ?thesis using assms by (auto simp: crossing_send_def)
next
  case (5 sha' cfg' rows0 rc submitted tok a clk')
  then show ?thesis using assms confirmPhase_ok quiet_crossing by (metis Pair_inject continueDrive.simps(5) pc_ok.simps(5))
qed (use assms in \<open>auto simp: crossing_send_def\<close>)

subsection \<open>The system invariant\<close>

definition sends_of :: "string \<Rightarrow> send list \<Rightarrow> send list" where
  "sends_of eid out = filter (\<lambda>sd. send_exec sd = eid) out"

definition sys_inv :: "watcher_config \<Rightarrow> sys \<Rightarrow> bool" where
  "sys_inv cfg s \<longleftrightarrow>
     wf_rows (sys_rows s)
   \<and> (\<forall>w wk. sys_workers s w = Some wk \<longrightarrow> pc_ok (sys_rows s) (wk_exec wk) (wk_pc wk))
   \<and> (\<forall>sd \<in> set (sys_sends s). authorised cfg (sys_rows s) sd)
   \<and> (\<forall>eid. length (sends_of eid (sys_sends s)) \<le> (if 2 \<le> row_stage eid (sys_rows s) then 1 else 0))"

lemma sys_inv_segment:
  assumes inv: "sys_inv cfg s" and run: "runs sha (sys_rows s) rows'"
    and pc: "pc_ok rows' (wk_exec wk) (wk_pc wk)" and cs: "crossing_send cfg (sys_rows s) rows' (wk_exec wk) out"
  shows "sys_inv cfg (s\<lparr>sys_rows := rows', sys_inFlight := fl, sys_workers := (sys_workers s)(w \<mapsto> wk),
    sys_sends := sys_sends s @ out\<rparr>)"
proof -
  have wf: "wf_rows (sys_rows s)" and ok: "rows_ok (sys_rows s)" using inv by (auto simp: sys_inv_def wf_rows_def)
  have st: "row_stage e (sys_rows s) \<le> row_stage e rows'" for e using runs_stage [OF run ok] .
  have old: "length (sends_of e (sys_sends s)) \<le> (if 2 \<le> row_stage e (sys_rows s) then 1 else 0)" for e
    using inv by (simp add: sys_inv_def)
  have cnt: "length (sends_of e (sys_sends s @ out)) \<le> (if 2 \<le> row_stage e rows' then 1 else 0)" for e
    using old [of e] st [of e] cs by (auto simp: crossing_send_def sends_of_def split: if_splits)
  have au: "\<forall>sd \<in> set (sys_sends s @ out). authorised cfg rows' sd"
    using inv cs authorised_runs [OF run ok] by (auto simp: sys_inv_def crossing_send_def)
  have "\<forall>w' wk'. ((sys_workers s)(w \<mapsto> wk)) w' = Some wk' \<longrightarrow> pc_ok rows' (wk_exec wk') (wk_pc wk')"
    using inv pc pc_ok_runs [OF run ok] by (auto simp: sys_inv_def)
  then show ?thesis using runs_wf [OF run wf] cnt au by (simp add: sys_inv_def)
qed

lemma sys_inv_spawn:
  assumes "sys_inv cfg s" "quiet_ok sha (sys_rows s) eid seg"
  shows "sys_inv cfg (spawn s p w eid seg owns)"
  unfolding spawn_def
  by (rule sys_inv_segment [OF assms(1)]) (use assms(2) in \<open>auto simp: quiet_ok_def crossing_send_def\<close>)

lemma sys_step_inv:
  assumes "sys_step sha cfg s s'" "sys_inv cfg s"
  shows "sys_inv cfg s'"
  using assms
proof (induction rule: sys_step.induct)
  case (relay s w p eid sd burn x tok clk seg owns)
  then have "wf_rows (sys_rows s)" by (simp add: sys_inv_def)
  then show ?case using sys_inv_spawn [OF relay(3)] relayMint_ok [OF _ relay(2)] by blast
next
  case (resume s w p eid tok clk seg owns)
  then have "wf_rows (sys_rows s)" by (simp add: sys_inv_def)
  then show ?case using sys_inv_spawn [OF resume(3)] resumeExisting_ok [OF _ resume(2)] by blast
next
  case (redrive s w p eid tok clk seg)
  then have "wf_rows (sys_rows s)" by (simp add: sys_inv_def)
  then show ?case using sys_inv_spawn [OF redrive(4)] drive_ok redrive(3) by blast
next
  case (continue s w wk i clk rows' pc' out)
  have "pc_ok (sys_rows s) (wk_exec wk) (wk_pc wk)" using continue by (simp add: sys_inv_def)
  note seg = continueDrive_ok [OF this continue(2)]
  have "sys_inv cfg (s\<lparr>sys_rows := rows', sys_inFlight := sys_inFlight s,
      sys_workers := (sys_workers s)(w \<mapsto> wk\<lparr>wk_pc := pc'\<rparr>), sys_sends := sys_sends s @ out\<rparr>)"
    by (rule sys_inv_segment [OF continue(3), where sha = sha]) (use seg in simp_all)
  then show ?case by simp
next
  case (settle s w wk res err)
  then show ?case by (auto simp: sys_inv_def)
next
  case (crash s p)
  then show ?case by (auto simp: sys_inv_def split: option.splits if_splits)
next
  case (store s op)
  let ?r = "store_apply sha (sys_rows s) op"
  have run: "runs sha (sys_rows s) ?r" by (rule runs_apply)
  have wf: "wf_rows (sys_rows s)" and ok: "rows_ok (sys_rows s)" using store by (auto simp: sys_inv_def wf_rows_def)
  have old: "length (sends_of e (sys_sends s)) \<le> (if 2 \<le> row_stage e (sys_rows s) then 1 else 0)" for e
    using store by (simp add: sys_inv_def)
  have "length (sends_of e (sys_sends s)) \<le> (if 2 \<le> row_stage e ?r then 1 else 0)" for e
    using old [of e] runs_stage [OF run ok, of e] by (simp split: if_splits)
  then show ?case
    using store runs_wf [OF run wf] authorised_runs [OF run ok] pc_ok_runs [OF run ok] by (simp add: sys_inv_def)
qed

lemma reachable_inv: "reachable sha cfg s \<Longrightarrow> sys_inv cfg s"
proof (induction rule: reachable.induct)
  case (init rows)
  then show ?case by (simp add: sys_inv_def init_sys_def sends_of_def)
qed (rule sys_step_inv)

subsection \<open>System theorems\<close>

text \<open>
  C1. In every reachable state of a system of any number of relayer processes, workers,
  crashes and foreign store operations, whatever the outside world answers, at most one
  destination send was ever performed for an execution id.
\<close>

theorem at_most_one_send:
  assumes "reachable sha cfg s"
  shows "length (sends_of eid (sys_sends s)) \<le> 1"
  using reachable_inv [OF assms] by (force simp: sys_inv_def intro: le_trans)

text \<open>
  C2. Every send ever performed is of raw evidence its durable row authorises: the row exists,
  the message sent parses, and it satisfies the immutable expectation of the row; the
  destination is the one of the row's source domain.
\<close>

theorem sends_are_authorised:
  assumes "reachable sha cfg s" "sd \<in> set (sys_sends s)"
  shows "\<exists>r e t m. get (sys_rows s) (send_exec sd) = Some r \<and> r_expectation r = Some e
    \<and> send_message sd = Some t \<and> parseCctpV2Message (JStr t) = Inr m \<and> matches_expectation m e
    \<and> (send_forward sd \<longleftrightarrow> sourceDomain r = Some (domain_stellar cfg))"
  using reachable_inv [OF assms(1)] assms(2)
  by (auto simp: sys_inv_def authorised_def vetted_def get_def)

lemma sys_step_runs:
  assumes "sys_step sha cfg s s'" "sys_inv cfg s"
  shows "runs sha (sys_rows s) (sys_rows s')"
  using assms
proof (induction rule: sys_step.induct)
  case (relay s w p eid sd burn x tok clk seg owns)
  then have "quiet_ok sha (sys_rows s) eid seg" using relayMint_ok [OF _ relay(2)] by (simp add: sys_inv_def)
  then show ?case by (simp add: spawn_def quiet_ok_def)
next
  case (resume s w p eid tok clk seg owns)
  then have "quiet_ok sha (sys_rows s) eid seg" using resumeExisting_ok [OF _ resume(2)] by (simp add: sys_inv_def)
  then show ?case by (simp add: spawn_def quiet_ok_def)
next
  case (redrive s w p eid tok clk seg)
  then have "quiet_ok sha (sys_rows s) eid seg" using drive_ok by (auto simp: sys_inv_def)
  then show ?case by (simp add: spawn_def quiet_ok_def)
next
  case (continue s w wk i clk rows' pc' out)
  then have "pc_ok (sys_rows s) (wk_exec wk) (wk_pc wk)" by (simp add: sys_inv_def)
  then show ?case using continueDrive_ok [OF _ continue(2)] by simp
qed (simp_all add: runs_apply)

lemma sys_steps_runs:
  assumes "rtranclp (sys_step sha cfg) s s'" "sys_inv cfg s"
  shows "runs sha (sys_rows s) (sys_rows s') \<and> sys_inv cfg s'"
  using assms
  by (induction rule: rtranclp_induct) (auto intro: runs_trans sys_step_runs sys_step_inv)

text \<open>
  C10. What a worker reports is durable: once an invocation has finished with a minted, blocked
  or uncertain result, the row of its execution id has that terminal state, hash and reason,
  in this and in every state the system reaches from here.
\<close>

theorem results_are_durable:
  assumes "reachable sha cfg s" "sys_workers s w = Some wk" "wk_pc wk = Done res"
    and "rtranclp (sys_step sha cfg) s s'"
  shows "case res of
      R_minted h \<Rightarrow> row_says (sys_rows s') (wk_exec wk) minted (\<lambda>r. mintTxHash r = h \<and> h \<noteq> None)
    | R_already_minted h \<Rightarrow> row_says (sys_rows s') (wk_exec wk) minted (\<lambda>r. mintTxHash r = h \<and> h \<noteq> None)
    | R_blocked why \<Rightarrow> row_says (sys_rows s') (wk_exec wk) blocked (\<lambda>r. reasonCode r = why)
    | R_uncertain why \<Rightarrow> row_says (sys_rows s') (wk_exec wk) uncertain (\<lambda>r. reasonCode r = why)
    | R_mint_submitted h \<Rightarrow> h \<noteq> None
    | _ \<Rightarrow> True"
proof -
  have inv: "sys_inv cfg s" using assms(1) by (rule reachable_inv)
  then have "rows_ok (sys_rows s)" and "pc_ok (sys_rows s) (wk_exec wk) (wk_pc wk)"
    using assms(2) by (simp_all add: sys_inv_def wf_rows_def)
  then have "result_ok (sys_rows s') (wk_exec wk) res"
    using result_ok_runs sys_steps_runs [OF assms(4) inv] assms(3) by auto
  then show ?thesis by (cases res) simp_all
qed

end
