(* ===== verification/WatcherLive.thy ===== *)
theory WatcherLive
  imports WatcherSystem
begin

section \<open>Progress of an undisturbed relay\<close>

text \<open>
  One invocation run to its end with the answers of the outside world given segment by
  segment. Matching evidence, a returned destination hash and a confirmation, all within the
  lease the claim takes, end in a durable mint with exactly one send; and a record whose
  submission is checkpointed resumes by confirming its hash only.
\<close>

fun runSegments ::
  "(string \<Rightarrow> string) \<Rightarrow> watcher_config \<Rightarrow> rows \<Rightarrow> worker_pc \<Rightarrow> (worker_input \<times> (nat \<Rightarrow> int)) list \<Rightarrow> segment" where
  "runSegments sha cfg rows pc [] = (rows, pc, [])"
| "runSegments sha cfg rows pc ((i, clk) # xs) =
     (let (rows1, pc1, out1) = continueDrive sha cfg rows pc i clk;
          (rows2, pc2, out2) = runSegments sha cfg rows1 pc1 xs
      in (rows2, pc2, out1 @ out2))"

lemma transact_Next:
  "map_of rows eid = Some r \<Longrightarrow> f (Some r) = Inr (Next r') \<Longrightarrow>
   transact rows eid f = Inr (AList.update eid r' rows, r')"
  by (simp add: transact_def)

text \<open>A row leased to \<open>tok\<close> until \<open>until\<close>, read by a clock before that.\<close>

definition leased_until :: "relay_record \<Rightarrow> string \<Rightarrow> int \<Rightarrow> bool" where
  "leased_until r tok till \<longleftrightarrow> tok \<noteq> [] \<and> leaseToken r = Some tok \<and> leaseExpiresAt r = Some till \<and> safe_int till"

lemma assertLease_leased: "leased_until r tok till \<Longrightarrow> now < till \<Longrightarrow> assertLease (Some r) tok now = Inr r"
  unfolding assertLease_Inr by (auto simp: leased_until_def)

definition attested_from :: "relay_record \<Rightarrow> evidence \<Rightarrow> int \<Rightarrow> relay_record" where
  "attested_from r v now =
     r\<lparr>messageHex := Some (v_messageHex v), nonceHex := Some (v_nonceHex v),
       messageDigest := Some (v_messageDigest v), attestationHex := Some (v_attestationHex v),
       attestationDigest := Some (v_attestationDigest v), rstate := attested,
       evidenceVersion := 1, updatedAt := now\<rparr>"

lemma drive_pending:
  assumes "map_of rows eid = Some r" "rstate r = attestation_pending" "leaseToken r = None"
    and "safe_int (clk 0)" "safe_int (effectiveLeaseMs cfg)" "0 < effectiveLeaseMs cfg"
    and c_def: "c = r\<lparr>attempts := attempts r + 1, leaseToken := Some tok,
    leaseExpiresAt := Some (clk 0 + effectiveLeaseMs cfg), updatedAt := clk 0\<rparr>"
  shows "drive cfg rows eid tok clk = (AList.update eid c rows, PollWait r c tok, [])"
proof -
  have "relayClaim (Some r) (clk 0) (effectiveLeaseMs cfg) tok = Inr (Some c)"
    using assms(2-6) by (simp add: relayClaim_def requireLeaseArgs_def requireNow_def require_def
        RELAY_CLAIMABLE_STATES_def c_def)
  then have "claim rows eid (clk 0) (effectiveLeaseMs cfg) tok = Inr (AList.update eid c rows, Some c)"
    using assms(1) by (simp add: claim_def)
  moreover have "terminalResult r = None" "rstate c = attestation_pending"
    using assms(2) by (simp_all add: terminalResult_def c_def)
  ultimately show ?thesis using assms(1) by (simp add: drive_def get_def)
qed

lemma pollPhase_matches:
  assumes "map_of rows (execId rc) = Some c" "rstate c = attestation_pending" "leased_until c tok till"
    and "clk 0 < till" "safe_int (clk 0)"
    and "assertCctpV2BurnMatches (js_get ev ''message'') (record_expectation rc) = Inr m"
    and "normalizeEvidence sha (js_get ev ''message'') (JStr (m_nonce m)) (js_get ev ''attestation'') = Inr v"
  shows "pollPhase sha rows rc c tok (PollReturned ev) clk =
    (AList.update (execId rc) (attested_from c v (clk 0)) rows, Polled rc (attested_from c v (clk 0)) tok, [])"
proof -
  have "relayRecordAttested sha (Some c) tok (js_get ev ''message'') (JStr (m_nonce m))
      (js_get ev ''attestation'') (clk 0) = Inr (Next (attested_from c v (clk 0)))"
    using assms(2,5,7) assertLease_leased [OF assms(3,4)]
    by (simp add: relayRecordAttested_def requireNow_def require_def attested_from_def)
  then show ?thesis
    using assms(1,6) by (simp add: pollPhase_def polledEvidence_def recordAttested_def transact_Next)
qed

lemma submitPhase_fences:
  assumes "map_of rows (execId rc) = Some a" "rstate a = attested" "leased_until a tok till"
    and "clk 0 < till" "safe_int (clk 0)"
  shows "submitPhase cfg rows rc w tok clk =
    (AList.update (execId rc) (a\<lparr>rstate := mint_submitting, updatedAt := clk 0\<rparr>) rows, SubmitWait rc w tok,
     [\<lparr>send_exec = execId rc, send_forward = isForward cfg rc, send_message = messageHex w,
       send_attestation = attestationHex w\<rparr>])"
proof -
  have "relayMarkMintSubmitting (Some a) tok (clk 0) = Inr (Next (a\<lparr>rstate := mint_submitting, updatedAt := clk 0\<rparr>))"
    using assms(2,5) assertLease_leased [OF assms(3,4)]
    by (simp add: relayMarkMintSubmitting_def requireNow_def require_def)
  then show ?thesis using assms(1) by (simp add: submitPhase_def markMintSubmitting_def transact_Next)
qed

lemma submitAnswered_checkpoints:
  assumes "map_of rows (execId rc) = Some f" "rstate f = mint_submitting" "leased_until f tok till"
    and "clk 0 < till" "safe_int (clk 0)" "normalizeMintTxHash (recordDomain f) hash = Inr h"
    and s_def: "s = f\<lparr>rstate := mint_submitted, mintTxHash := Some h, updatedAt := clk 0\<rparr>"
  shows "submitAnswered rows rc tok (SubmitReturned hash) clk =
    (AList.update (execId rc) s rows, Submitted rc s tok, [])"
proof -
  have "relayMarkMintSubmitted (Some f) tok hash (clk 0) = Inr (Next s)"
    using assms(2,5,6) assertLease_leased [OF assms(3,4)]
    by (simp add: relayMarkMintSubmitted_def requireNow_def require_def s_def)
  then show ?thesis using assms(1) by (simp add: submitAnswered_def markMintSubmitted_def transact_Next)
qed

lemma confirmPhase_mints:
  assumes "map_of rows (execId rc) = Some s" "rstate s = mint_submitted" "leased_until s tok till"
    and "clk 0 < till" "safe_int (clk 0)" "mintTxHash s = Some h" "mintTxHash w = Some h"
    and "normalizeMintTxHash (recordDomain s) (JStr h) = Inr h"
  shows "confirmPhase rows rc w tok Confirmed clk =
    (AList.update (execId rc) (s\<lparr>rstate := minted, leaseToken := None, leaseExpiresAt := None,
       updatedAt := clk 0\<rparr>) rows, Done (R_minted (Some h)), [])"
proof -
  have "relayFinishMinted (Some s) tok (JStr h) (clk 0) =
      Inr (Next (s\<lparr>rstate := minted, leaseToken := None, leaseExpiresAt := None, updatedAt := clk 0\<rparr>))"
    using assms(2,5,6,8) assertLease_leased [OF assms(3,4)]
    by (simp add: relayFinishMinted_def requireNow_def require_def)
  then show ?thesis using assms(1,7) by (simp add: confirmPhase_def finishMinted_def transact_Next)
qed

text \<open>
  The evidence a matching message normalises to: its nonce is always a canonical 32-byte value,
  so only the attestation has to be hex.
\<close>

lemma matching_evidence:
  assumes "assertCctpV2BurnMatches v x = Inr m" "js_even_hex a"
  shows "\<exists>ev. normalizeEvidence sha v (JStr (m_nonce m)) a = Inr ev"
proof -
  have p: "parseCctpV2Message v = Inr m" using assms(1) by (auto simp: assertCctpV2BurnMatches_def ebind_Inr_iff split: if_splits)
  then obtain t where v: "v = JStr t" using parsed_string by blast
  have w: "wire_ok m" "startsWith0x t" "list_all is_hex (drop 2 t)" "toLowerCase t = ''0x'' @ bytes_hex (encode_message m)"
    using p unfolding v parse_iff by auto
  have "length (toLowerCase t) = 2 + 2 * length (encode_message m)" using w(4) by simp
  then have "length t = 2 + 2 * length (encode_message m)" by simp
  then have "length (drop 2 t) = 2 * length (encode_message m)" by simp
  moreover have "0 < length (encode_message m)" using length_encode [OF w(1)] by linarith
  ultimately have "EVEN_HEX_RE t" using w(2,3) by (auto simp: EVEN_HEX_RE_def simp del: length_drop)
  moreover have "js_nonce (JStr (m_nonce m))"
    using w(1) by (auto simp: wire_ok_def BYTES32_STRICT_RE_def HEX64_CI_RE_def list_all_iff lhex_is_hex)
  ultimately show ?thesis using assms(2) by (simp add: normalizeEvidence_def v Let_def)
qed

lemma undisturbed_run:
  assumes wf: "wf_rows rows" and tok: "tok \<noteq> []"
    and enq: "enqueue sha rows eid sd burn x (clk0 5) = Inr (rows0, r)"
    and pend: "rstate r = attestation_pending" "leaseToken r = None"
    and poll: "assertCctpV2BurnMatches (js_get ev ''message'') (record_expectation r) = Inr m"
      "js_even_hex (js_get ev ''attestation'')"
    and hash: "normalizeMintTxHash (recordDomain r) sent = Inr h"
    and lease: "safe_int (effectiveLeaseMs cfg)" "0 < effectiveLeaseMs cfg"
      "safe_int (clk0 0)" "safe_int (clk0 0 + effectiveLeaseMs cfg)"
    and clock: "list_all (\<lambda>t. safe_int t \<and> t < clk0 0 + pollMaxAttempts cfg * pollIntervalMs cfg + LEASE_MARGIN_MS)
      [clk1 0, clk2 0, clk3 0, clk5 0]"
    and start: "relayMint sha cfg rows False eid sd burn x tok clk0 = ((rows1, pc1, out1), owns)"
  shows "\<exists>rows2 sd r'. runSegments sha cfg rows1 pc1
      [(Poll (PollReturned ev), clk1), (Resume, clk2), (Submit (SubmitReturned sent), clk3), (Resume, clk4),
       (Confirm Confirmed, clk5)] = (rows2, Done (R_minted (Some h)), [sd])
    \<and> out1 = [] \<and> send_exec sd = eid
    \<and> get rows2 eid = Some r' \<and> rstate r' = minted \<and> mintTxHash r' = Some h \<and> same_identity r r'"
proof -
  define till where "till = clk0 0 + effectiveLeaseMs cfg"
  have run0: "runs sha rows rows0" using enq by (rule runs_ops)
  have m0: "map_of rows0 eid = Some r" using enq by (auto elim!: enqueue_InrE)
  have eid: "execId r = eid"
    using runs_wf [OF run0 wf] m0 rows_ok_lookup by (auto simp: wf_rows_def)
  define c where "c = r\<lparr>attempts := attempts r + 1, leaseToken := Some tok,
      leaseExpiresAt := Some till, updatedAt := clk0 0\<rparr>"
  have s1: "(rows1, pc1, out1) = (AList.update eid c rows0, PollWait r c tok, [])"
    using start enq pend drive_pending [of rows0 eid r clk0 cfg c tok] m0 lease(1-3) c_def till_def
    by (simp add: relayMint_def answerOrDrive_def terminalResult_def)
  obtain v where v: "normalizeEvidence sha (js_get ev ''message'') (JStr (m_nonce m)) (js_get ev ''attestation'') = Inr v"
    using matching_evidence [OF poll] by blast
  have before: "t < till" if "t < clk0 0 + pollMaxAttempts cfg * pollIntervalMs cfg + LEASE_MARGIN_MS" for t
    using that by (simp add: till_def effectiveLeaseMs_def)
  have ck: "clk1 0 < till" "clk2 0 < till" "clk3 0 < till" "clk5 0 < till"
      "safe_int (clk1 0)" "safe_int (clk2 0)" "safe_int (clk3 0)" "safe_int (clk5 0)"
    using clock before by simp_all
  define a where "a = attested_from c v (clk1 0)"
  define f where "f = a\<lparr>rstate := mint_submitting, updatedAt := clk2 0\<rparr>"
  define s where "s = f\<lparr>rstate := mint_submitted, mintTxHash := Some h, updatedAt := clk3 0\<rparr>"
  define t where "t = s\<lparr>rstate := minted, leaseToken := None, leaseExpiresAt := None, updatedAt := clk5 0\<rparr>"
  note parts = c_def a_def attested_from_def f_def s_def t_def
  have lu: "leased_until c tok till" "leased_until a tok till" "leased_until f tok till" "leased_until s tok till"
    using tok lease(4) by (simp_all add: leased_until_def parts till_def)
  have dom: "recordDomain f = recordDomain r" "recordDomain s = recordDomain r"
    by (simp_all add: recordDomain_def parts)
  let ?rc = "AList.update eid c rows0"
  let ?ra = "AList.update eid a ?rc"
  let ?rf = "AList.update eid f ?ra"
  let ?rs = "AList.update eid s ?rf"
  have p1: "pollPhase sha ?rc r c tok (PollReturned ev) clk1 = (?ra, Polled r a tok, [])"
    using pollPhase_matches [of ?rc r c tok till clk1 ev m sha v] lu(1) ck poll(1) v eid pend(1)
    by (simp add: a_def) (simp add: c_def)
  have p2: "submitPhase cfg ?ra r a tok clk2 = (?rf, SubmitWait r a tok,
      [\<lparr>send_exec = eid, send_forward = isForward cfg r, send_message = messageHex a, send_attestation = attestationHex a\<rparr>])"
    using submitPhase_fences [of ?ra r a tok till clk2 cfg a] lu(2) ck eid
    by (simp add: f_def) (simp add: a_def attested_from_def)
  have p3: "submitAnswered ?rf r tok (SubmitReturned sent) clk3 = (?rs, Submitted r s tok, [])"
    using submitAnswered_checkpoints [of ?rf r f tok till clk3 sent h s] lu(3) ck eid hash dom(1) s_def
    by (simp add: f_def)
  have p5: "confirmPhase ?rs r s tok Confirmed clk5 = (AList.update eid t ?rs, Done (R_minted (Some h)), [])"
    using confirmPhase_mints [of ?rs r s tok till clk5 h s] lu(4) ck eid dom(2) normalizeMintTxHash_idem [OF hash]
    by (simp add: t_def) (simp add: s_def)
  have "rstate a = attested" by (simp add: parts)
  with s1 p1 p2 p3 p5 have run: "runSegments sha cfg rows1 pc1
      [(Poll (PollReturned ev), clk1), (Resume, clk2), (Submit (SubmitReturned sent), clk3), (Resume, clk4),
       (Confirm Confirmed, clk5)] = (AList.update eid t ?rs, Done (R_minted (Some h)),
      [\<lparr>send_exec = eid, send_forward = isForward cfg r, send_message = messageHex a, send_attestation = attestationHex a\<rparr>])"
    by simp
  have "same_identity r t" "rstate t = minted" "mintTxHash t = Some h"
    by (simp_all add: same_identity_def parts)
  with run s1 show ?thesis
    by (intro exI [of _ "AList.update eid t ?rs"] exI [of _ t]) (auto simp: get_def intro!: exI)
qed

text \<open>
  C12. An undisturbed relay mints: if the enqueue is accepted with the row pending and unleased,
  the poll returns matching evidence with a hex attestation, the send returns a hash that is
  canonical for the destination and the confirmation succeeds, all read by the clock before the
  poll budget plus the margin has passed since the claim, then the invocation ends with
  \<open>minted\<close>, having sent exactly once, and the row is durably minted with that hash.
\<close>

theorem undisturbed_relay_mints:
  assumes wf: "wf_rows rows" and tok: "tok \<noteq> []"
    and enq: "enqueue sha rows eid sd burn x (clk0 5) = Inr (rows0, r)"
    and pend: "rstate r = attestation_pending" "leaseToken r = None"
    and poll: "assertCctpV2BurnMatches (js_get ev ''message'') (record_expectation r) = Inr m"
      "js_even_hex (js_get ev ''attestation'')"
    and hash: "normalizeMintTxHash (recordDomain r) sent = Inr h"
    and lease: "safe_int (effectiveLeaseMs cfg)" "0 < effectiveLeaseMs cfg"
      "safe_int (clk0 0)" "safe_int (clk0 0 + effectiveLeaseMs cfg)"
    and clock: "list_all (\<lambda>t. safe_int t \<and> t < clk0 0 + pollMaxAttempts cfg * pollIntervalMs cfg + LEASE_MARGIN_MS)
      [clk1 0, clk2 0, clk3 0, clk5 0]"
    and start: "relayMint sha cfg rows False eid sd burn x tok clk0 = ((rows1, pc1, out1), owns)"
  shows "\<exists>rows2 sd r'. runSegments sha cfg rows1 pc1
      [(Poll (PollReturned ev), clk1), (Resume, clk2), (Submit (SubmitReturned sent), clk3), (Resume, clk4),
       (Confirm Confirmed, clk5)] = (rows2, Done (R_minted (Some h)), [sd])
    \<and> out1 = [] \<and> send_exec sd = eid
    \<and> get rows2 eid = Some r' \<and> rstate r' = minted \<and> mintTxHash r' = Some h \<and> same_identity r r'"
  using assms by (rule undisturbed_run)

subsection \<open>A sample relay\<close>

definition sample_evidence :: jsv where
  "sample_evidence = JObj [(''message'', sample_wire), (''attestation'', JStr ''0xcd'')]"

definition sample_clock :: "nat \<Rightarrow> int" where
  "sample_clock k = 1000"

definition sample_segments :: "(worker_input \<times> (nat \<Rightarrow> int)) list" where
  "sample_segments =
     [(Poll (PollReturned sample_evidence), sample_clock), (Resume, sample_clock),
      (Submit (SubmitReturned (JStr zero32)), sample_clock), (Resume, sample_clock),
      (Confirm Confirmed, sample_clock)]"

definition sample_start :: "segment \<times> bool" where
  "sample_start = relayMint id default_config [] False ''x1'' (JNum 27) sample_burn sample_expectation
     ''t1'' sample_clock"

lemma sample_enqueue:
  obtains rows0 r where
    "enqueue id [] ''x1'' (JNum 27) sample_burn sample_expectation (sample_clock 5) = Inr (rows0, r)"
    "rstate r = attestation_pending" "leaseToken r = None" "r_expectation r = Some sample_exp"
    "sourceDomain r = Some 27"
proof -
  have "\<exists>rows0 r. enqueue id [] ''x1'' (JNum 27) sample_burn sample_expectation (sample_clock 5) = Inr (rows0, r)
    \<and> rstate r = attestation_pending \<and> leaseToken r = None \<and> r_expectation r = Some sample_exp
    \<and> sourceDomain r = Some 27"
    by (simp add: store_eval sample_clock_def)
  then show thesis using that by blast
qed

lemma sample_conditions:
  "safe_int (effectiveLeaseMs default_config)" "0 < effectiveLeaseMs default_config"
  "safe_int (sample_clock k)" "safe_int (sample_clock k + effectiveLeaseMs default_config)"
  "list_all (\<lambda>t. safe_int t \<and> t < sample_clock 0 + pollMaxAttempts default_config * pollIntervalMs default_config
     + LEASE_MARGIN_MS) [sample_clock 0, sample_clock 0, sample_clock 0, sample_clock 0]"
  by (simp_all add: safe_int_def effectiveLeaseMs_def default_config_def sample_clock_def LEASE_MARGIN_MS_def
      DEFAULT_LEASE_MS_def DEFAULT_POLL_MAX_ATTEMPTS_def DEFAULT_POLL_INTERVAL_MS_def)

lemma sample_poll_evidence:
  assumes "r_expectation r = Some sample_exp"
  shows "assertCctpV2BurnMatches (js_get sample_evidence ''message'') (record_expectation r) = Inr sample_message"
    "js_even_hex (js_get sample_evidence ''attestation'')"
  using burn_match_iff [OF sample_exp_canonical] sample_wire_parses sample_matches assms
  by (simp_all add: sample_evidence_def record_expectation_def)

lemma sample_hash: "sourceDomain r = Some 27 \<Longrightarrow> normalizeMintTxHash (recordDomain r) (JStr zero32) = Inr zero32"
  by (simp add: recordDomain_def)

theorem undisturbed_relay_mints_witness:
  "\<exists>rows1 pc1 rows2 sd. fst sample_start = (rows1, pc1, [])
     \<and> runSegments id default_config rows1 pc1 sample_segments = (rows2, Done (R_minted (Some zero32)), [sd])
     \<and> send_exec sd = ''x1''"
proof -
  obtain rows0 r where e: "enqueue id [] ''x1'' (JNum 27) sample_burn sample_expectation (sample_clock 5) = Inr (rows0, r)"
    "rstate r = attestation_pending" "leaseToken r = None" "r_expectation r = Some sample_exp"
    "sourceDomain r = Some 27"
    by (rule sample_enqueue)
  obtain rows1 pc1 out1 owns where st: "relayMint id default_config [] False ''x1'' (JNum 27) sample_burn
      sample_expectation ''t1'' sample_clock = ((rows1, pc1, out1), owns)"
    by (metis prod.exhaust)
  have "''t1'' \<noteq> []" by simp
  from undisturbed_relay_mints [where ?clk0.0 = sample_clock and ?clk1.0 = sample_clock and ?clk2.0 = sample_clock
      and ?clk3.0 = sample_clock and ?clk4.0 = sample_clock and ?clk5.0 = sample_clock, OF wf_rows_Nil this e(1-3) sample_poll_evidence [OF e(4)] sample_hash [OF e(5)]
      sample_conditions(1-5) st]
  show ?thesis using st by (auto simp: sample_start_def sample_segments_def)
qed

subsection \<open>The sample relay in a system\<close>

lemma runSegments_reachable:
  assumes "reachable sha cfg s" "sys_workers s w = Some wk"
    and "runSegments sha cfg (sys_rows s) (wk_pc wk) xs = (rows', pc', out)"
  shows "reachable sha cfg (s\<lparr>sys_rows := rows', sys_workers := (sys_workers s)(w \<mapsto> wk\<lparr>wk_pc := pc'\<rparr>),
    sys_sends := sys_sends s @ out\<rparr>)"
  using assms
proof (induction xs arbitrary: s wk out)
  case Nil
  then have "s\<lparr>sys_rows := rows', sys_workers := (sys_workers s)(w \<mapsto> wk\<lparr>wk_pc := pc'\<rparr>),
      sys_sends := sys_sends s @ out\<rparr> = s"
    by (cases s, cases wk) auto
  with Nil(1) show ?case by metis
next
  case (Cons x xs)
  obtain i clk where x: "x = (i, clk)" by force
  obtain rows1 pc1 out1 where c: "continueDrive sha cfg (sys_rows s) (wk_pc wk) i clk = (rows1, pc1, out1)"
    by (metis prod.exhaust)
  obtain out2 where r: "runSegments sha cfg rows1 pc1 xs = (rows', pc', out2)" "out = out1 @ out2"
    using Cons.prems(3) x c by (auto split: prod.splits)
  let ?s = "s\<lparr>sys_rows := rows1, sys_workers := (sys_workers s)(w \<mapsto> wk\<lparr>wk_pc := pc1\<rparr>),
      sys_sends := sys_sends s @ out1\<rparr>"
  have "reachable sha cfg ?s"
    using reachable.step [OF Cons.prems(1) sys_step.continue [OF Cons.prems(2) c]] .
  moreover have "sys_workers ?s w = Some (wk\<lparr>wk_pc := pc1\<rparr>)" by simp
  moreover have "runSegments sha cfg (sys_rows ?s) (wk_pc (wk\<lparr>wk_pc := pc1\<rparr>)) xs = (rows', pc', out2)"
    using r(1) by simp
  ultimately have "reachable sha cfg (?s\<lparr>sys_rows := rows',
      sys_workers := (sys_workers ?s)(w \<mapsto> (wk\<lparr>wk_pc := pc1\<rparr>)\<lparr>wk_pc := pc'\<rparr>), sys_sends := sys_sends ?s @ out2\<rparr>)"
    by (rule Cons.IH)
  moreover have "?s\<lparr>sys_rows := rows', sys_workers := (sys_workers ?s)(w \<mapsto> (wk\<lparr>wk_pc := pc1\<rparr>)\<lparr>wk_pc := pc'\<rparr>),
      sys_sends := sys_sends ?s @ out2\<rparr> = s\<lparr>sys_rows := rows',
      sys_workers := (sys_workers s)(w \<mapsto> wk\<lparr>wk_pc := pc'\<rparr>), sys_sends := sys_sends s @ out\<rparr>"
    by (cases s) (auto simp: r(2))
  ultimately show ?case by metis
qed

lemma sample_system:
  obtains s wk where "reachable id default_config s" "length (sends_of ''x1'' (sys_sends s)) = 1"
    "sys_workers s 0 = Some wk" "wk_pc wk = Done (R_minted (Some zero32))" "wk_exec wk = ''x1''"
proof -
  obtain rows0 r where e: "enqueue id [] ''x1'' (JNum 27) sample_burn sample_expectation (sample_clock 5) = Inr (rows0, r)"
    "rstate r = attestation_pending" "leaseToken r = None" "r_expectation r = Some sample_exp"
    "sourceDomain r = Some 27"
    by (rule sample_enqueue)
  obtain rows1 pc1 out1 owns where st: "relayMint id default_config [] False ''x1'' (JNum 27) sample_burn
      sample_expectation ''t1'' sample_clock = ((rows1, pc1, out1), owns)"
    by (metis prod.exhaust)
  have "''t1'' \<noteq> []" by simp
  from undisturbed_run [where ?clk0.0 = sample_clock and ?clk1.0 = sample_clock and ?clk2.0 = sample_clock
      and ?clk3.0 = sample_clock and ?clk4.0 = sample_clock and ?clk5.0 = sample_clock, OF wf_rows_Nil this e(1-3) sample_poll_evidence [OF e(4)] sample_hash [OF e(5)]
      sample_conditions(1-5) st]
  obtain rows2 sd where run: "runSegments id default_config rows1 pc1 sample_segments
      = (rows2, Done (R_minted (Some zero32)), [sd])" "out1 = []" "send_exec sd = ''x1''"
    unfolding sample_segments_def by blast
  let ?s0 = "spawn (init_sys []) 0 0 ''x1'' (rows1, pc1, out1) owns"
  have "reachable id default_config ?s0"
    by (rule reachable.step [OF reachable.init [OF wf_rows_Nil]], rule sys_step.relay)
      (use st in \<open>simp_all add: init_sys_def\<close>)
  moreover have "sys_workers ?s0 0 = Some \<lparr>wk_proc = 0, wk_exec = ''x1'', wk_owns = owns, wk_pc = pc1\<rparr>"
    by (simp add: spawn_def)
  moreover have "runSegments id default_config (sys_rows ?s0)
      (wk_pc \<lparr>wk_proc = 0, wk_exec = ''x1'', wk_owns = owns, wk_pc = pc1\<rparr>) sample_segments
    = (rows2, Done (R_minted (Some zero32)), [sd])"
    using run(1) by (simp add: spawn_def)
  ultimately show thesis
    by (rule that [OF runSegments_reachable, of _ _ _ _ _ _ _ "\<lparr>wk_proc = 0, wk_exec = ''x1'', wk_owns = owns,
        wk_pc = Done (R_minted (Some zero32))\<rparr>"]) (use run(2,3) in \<open>simp_all add: sends_of_def spawn_def init_sys_def\<close>)
qed

theorem at_most_one_send_witness:
  "\<exists>s. reachable id default_config s \<and> length (sends_of ''x1'' (sys_sends s)) = 1
     \<and> length (sends_of ''x1'' (sys_sends s)) \<le> 1"
proof -
  obtain s wk where s: "reachable id default_config s" "length (sends_of ''x1'' (sys_sends s)) = 1"
    by (rule sample_system)
  show ?thesis using s at_most_one_send [OF s(1)] by blast
qed

theorem sends_are_authorised_witness:
  "\<exists>s sd r. reachable id default_config s \<and> sd \<in> set (sys_sends s)
     \<and> get (sys_rows s) (send_exec sd) = Some r \<and> send_message sd \<noteq> None"
proof -
  obtain s wk where s: "reachable id default_config s" "length (sends_of ''x1'' (sys_sends s)) = 1"
    by (rule sample_system)
  then obtain sd where sd: "sd \<in> set (sys_sends s)"
    by (cases "sys_sends s") (auto simp: sends_of_def)
  show ?thesis using s(1) sd sends_are_authorised [OF s(1) sd] by blast
qed

theorem results_are_durable_witness:
  "\<exists>s. reachable id default_config s
     \<and> row_says (sys_rows s) ''x1'' minted (\<lambda>r. mintTxHash r = Some zero32 \<and> Some zero32 \<noteq> None)"
proof -
  obtain s wk where s: "reachable id default_config s" "sys_workers s 0 = Some wk"
      "wk_pc wk = Done (R_minted (Some zero32))" "wk_exec wk = ''x1''"
    by (rule sample_system)
  show ?thesis using s results_are_durable [OF s(1-3) rtranclp.rtrancl_refl] by auto
qed

end
