(* ===== verification/WatcherSweep.thy ===== *)
theory WatcherSweep
  imports WatcherLive
begin

section \<open>Recovery: resumed submissions and the stuck sweep\<close>

text \<open>
  \<open>sweepStuck\<close> of \<open>relayer/src/cctp/watcher.mjs\<close> reconciles expired leases, reports terminal
  and leased rows, and re-drives the claimable rows one after the other. What happens when the turn of
  an execution id comes is an argument: whether an invocation of this process drives it by then
  (\<open>inFlight\<close> is read again after the awaits of the earlier rows), the lease token, the clock
  readings, the inputs of the segments and, before each of them and before the final read, what
  everyone else has stored in the meantime. An id is due at most once, so these are functions of
  it. A re-drive that has not finished suspends the sweep (\<open>None\<close>).
\<close>

record drive_env =
  env_inFlight :: bool
  env_token :: string
  env_clock :: "nat \<Rightarrow> int"
  env_inputs :: "((rows \<Rightarrow> rows) \<times> worker_input \<times> (nat \<Rightarrow> int)) list"
  env_others :: "rows \<Rightarrow> rows"

record sweep =
  redriven :: "string list"
  held :: "string list"
  sweep_blocked :: "string list"
  sweep_uncertain :: "string list"

definition empty_sweep :: sweep where
  "empty_sweep = \<lparr>redriven = [], held = [], sweep_blocked = [], sweep_uncertain = []\<rparr>"

text \<open>The report loop over the summary page.\<close>

fun sweepReport :: "(string \<Rightarrow> bool) \<Rightarrow> relay_record list \<Rightarrow> sweep \<Rightarrow> sweep" where
  "sweepReport busy [] sw = sw"
| "sweepReport busy (r # rs) sw =
     sweepReport busy rs
       (if rstate r = blocked then sw\<lparr>sweep_blocked := sweep_blocked sw @ [execId r]\<rparr>
        else if rstate r = uncertain then sw\<lparr>sweep_uncertain := sweep_uncertain sw @ [execId r]\<rparr>
        else if leaseToken r \<noteq> None \<or> busy (execId r) then sw\<lparr>held := held sw @ [execId r]\<rparr>
        else sw)"

text \<open>Where a re-driven row is filed: by its durable state, or as redriven after a failure.\<close>

definition fileRedriven :: "rows \<Rightarrow> worker_pc \<Rightarrow> string \<Rightarrow> sweep \<Rightarrow> sweep option" where
  "fileRedriven rows pc eid sw =
     (case pc of
        Failed _ \<Rightarrow> Some (sw\<lparr>redriven := redriven sw @ [eid]\<rparr>)
      | Done _ \<Rightarrow> Some
          (case get rows eid of
             None \<Rightarrow> sw\<lparr>redriven := redriven sw @ [eid]\<rparr>
           | Some after \<Rightarrow>
               if rstate after = blocked then sw\<lparr>sweep_blocked := sweep_blocked sw @ [eid]\<rparr>
               else if rstate after = uncertain then sw\<lparr>sweep_uncertain := sweep_uncertain sw @ [eid]\<rparr>
               else sw\<lparr>redriven := redriven sw @ [eid]\<rparr>)
      | _ \<Rightarrow> None)"

text \<open>The segments of one re-drive, with the changes of others at its awaits.\<close>

fun driveSegments ::
  "(string \<Rightarrow> string) \<Rightarrow> watcher_config \<Rightarrow> rows \<Rightarrow> worker_pc \<Rightarrow> ((rows \<Rightarrow> rows) \<times> worker_input \<times> (nat \<Rightarrow> int)) list
    \<Rightarrow> rows \<times> worker_pc" where
  "driveSegments sha cfg rows pc [] = (rows, pc)"
| "driveSegments sha cfg rows pc ((others, inp, clk) # xs) =
     (let (rows1, pc1, _) = runSegments sha cfg (others rows) pc [(inp, clk)] in driveSegments sha cfg rows1 pc1 xs)"

fun sweepDrive ::
  "(string \<Rightarrow> string) \<Rightarrow> watcher_config \<Rightarrow> (string \<Rightarrow> drive_env) \<Rightarrow> rows \<Rightarrow> relay_record list
    \<Rightarrow> sweep \<Rightarrow> (rows \<times> sweep) option" where
  "sweepDrive sha cfg env rows [] sw = Some (rows, sw)"
| "sweepDrive sha cfg env rows (r # rs) sw =
     (let eid = execId r in
      if env_inFlight (env eid) then sweepDrive sha cfg env rows rs sw
      else
        let (rows1, pc1, _) = drive cfg rows eid (env_token (env eid)) (env_clock (env eid));
            (rows2, pc2) = driveSegments sha cfg rows1 pc1 (env_inputs (env eid));
            rows3 = env_others (env eid) rows2
        in case fileRedriven rows3 pc2 eid sw of
             None \<Rightarrow> None
           | Some sw' \<Rightarrow> sweepDrive sha cfg env rows3 rs sw')"

text \<open>\<open>busy\<close>: what the process is driving when the sweep starts and reports.\<close>

definition sweepStuck ::
  "(string \<Rightarrow> string) \<Rightarrow> watcher_config \<Rightarrow> (string \<Rightarrow> bool) \<Rightarrow> (string \<Rightarrow> drive_env) \<Rightarrow> rows \<Rightarrow> int \<Rightarrow> int
    \<Rightarrow> relay_error + (rows \<times> sweep) option" where
  "sweepStuck sha cfg busy env rows now limit =
     ebind (reconcileExpired rows now limit) (\<lambda>(rows0, _).
     ebind (listSweepSummary rows0 now limit) (\<lambda>summaryRows.
     ebind (listForSweep rows0 now limit False) (\<lambda>due.
       Inr (sweepDrive sha cfg env rows0 due (sweepReport busy summaryRows empty_sweep)))))"

subsection \<open>A checkpointed submission is only confirmed\<close>

lemma runSegments_finished:
  "runSegments sha cfg rows (Done res) xs = (rows, Done res, [])"
  "runSegments sha cfg rows (Failed err) xs = (rows, Failed err, [])"
  by (induction xs) auto

lemma confirmPhase_finishes:
  "\<exists>rows' res. confirmPhase rows rc w tok a clk = (rows', Done res, [])
     \<or> (\<exists>err. confirmPhase rows rc w tok a clk = (rows', Failed err, []))"
  by (auto simp: confirmPhase_def stopBlocked_def abort_def Let_def split: confirm_answer.splits sum.splits prod.splits)

lemma runSegments_ConfirmWait:
  "\<exists>rows' pc'. runSegments sha cfg rows (ConfirmWait rc w tok) xs = (rows', pc', [])
     \<and> (pc' = ConfirmWait rc w tok \<or> (\<exists>res. pc' = Done res) \<or> (\<exists>err. pc' = Failed err))"
proof (induction xs)
  case (Cons x xs)
  obtain i clk where x: "x = (i, clk)" by force
  show ?case
  proof (cases i)
    case (Confirm a)
    then show ?thesis
      using confirmPhase_finishes [of rows rc w tok a clk] x by (auto simp: runSegments_finished)
  qed (use Cons x in auto)
qed auto

definition submitted_sample :: rows where
  "submitted_sample = run_ops (store_apply id) [] (take 6 sample_ops @ [Release ''x1'' ''t1'' 1006])"

lemma submitted_sample_row: "\<exists>r. map_of submitted_sample ''x1'' = Some r \<and> rstate r = mint_submitted"
  by (simp add: submitted_sample_def sample_ops_def store_eval release_def relayRelease_def)

text \<open>
  Driving a record whose submission is checkpointed never polls and never sends again: the
  invocation is refused, or waits for the confirmation of exactly the recorded hash, and
  whatever it is answered it performs no send.
\<close>

theorem submitted_resumes_confirm_only:
  assumes "map_of rows eid = Some r" "rstate r = mint_submitted"
    and "drive cfg rows eid tok clk = (rows1, pc1, out1)"
    and "runSegments sha cfg rows1 pc1 inputs = (rows2, pc2, out2)"
  shows "out1 = [] \<and> out2 = [] \<and> (pc1 = Done R_in_progress \<or> (\<exists>err. pc1 = Failed err)
    \<or> (\<exists>c. pc1 = ConfirmWait r c tok \<and> mintTxHash c = mintTxHash r))"
proof -
  have t: "terminalResult r = None" using assms(2) by (simp add: terminalResult_def)
  have c: "(rows1 = rows \<and> pc1 = Done R_in_progress \<or> (\<exists>err. pc1 = Failed err)
      \<or> (\<exists>c. pc1 = ConfirmWait r c tok \<and> mintTxHash c = mintTxHash r)) \<and> out1 = []"
    using assms(1-3) t
    by (auto simp: drive_def get_def claim_def relayClaim_def RELAY_CLAIMABLE_STATES_def
        split: sum.splits option.splits if_splits elim!: ebind_Inr_iff [THEN iffD1, THEN exE])
  have "out2 = []" if "pc1 = ConfirmWait r w tok" for w
    using assms(4) runSegments_ConfirmWait [of sha cfg rows1 r w tok inputs] that by auto
  with c show ?thesis
    using assms(4) by (auto simp: runSegments_finished)
qed

theorem submitted_resumes_confirm_only_witness:
  "\<exists>r rows1 pc1. map_of submitted_sample ''x1'' = Some r \<and> rstate r = mint_submitted
     \<and> drive default_config submitted_sample ''x1'' ''t2'' sample_clock = (rows1, pc1, [])
     \<and> snd (snd (runSegments id default_config rows1 pc1 sample_segments)) = []"
proof -
  obtain r where r: "map_of submitted_sample ''x1'' = Some r" "rstate r = mint_submitted"
    using submitted_sample_row by blast
  obtain rows1 pc1 out1 where d: "drive default_config submitted_sample ''x1'' ''t2'' sample_clock = (rows1, pc1, out1)"
    by (metis prod.exhaust)
  obtain rows2 pc2 out2 where s: "runSegments id default_config rows1 pc1 sample_segments = (rows2, pc2, out2)"
    by (metis prod.exhaust)
  show ?thesis using r d s submitted_resumes_confirm_only [OF r d s] by auto
qed

subsection \<open>The sweep classifies every row once\<close>

definition sweep_ids :: "sweep \<Rightarrow> string list" where
  "sweep_ids sw = redriven sw @ held sw @ sweep_blocked sw @ sweep_uncertain sw"

lemma sweepReport_ids:
  "mset (sweep_ids (sweepReport busy rs sw)) =
     mset (sweep_ids sw) + mset (map execId (filter (\<lambda>r. rstate r \<in> {blocked, uncertain}
       \<or> leaseToken r \<noteq> None \<or> busy (execId r)) rs))"
  by (induction rs arbitrary: sw) (auto simp: sweep_ids_def)

lemma sweepReport_held:
  "held (sweepReport busy rs sw) = held sw @ map execId (filter (\<lambda>r. rstate r \<notin> {blocked, uncertain}
       \<and> (leaseToken r \<noteq> None \<or> busy (execId r))) rs)"
  by (induction rs arbitrary: sw) auto

lemma fileRedriven_ids:
  "fileRedriven rows pc eid sw = Some sw' \<Longrightarrow>
     mset (sweep_ids sw') = add_mset eid (mset (sweep_ids sw)) \<and> held sw' = held sw"
  by (auto simp: fileRedriven_def sweep_ids_def split: worker_pc.splits option.splits if_splits)

lemma sweepDrive_ids:
  "sweepDrive sha cfg env rows rs sw = Some (rows', sw') \<Longrightarrow>
   mset (sweep_ids sw') = mset (sweep_ids sw) + mset (map execId (filter (\<lambda>r. \<not> env_inFlight (env (execId r))) rs))
   \<and> held sw' = held sw"
proof (induction rs arbitrary: rows sw)
  case (Cons r rs)
  show ?case
  proof (cases "env_inFlight (env (execId r))")
    case True
    with Cons show ?thesis by simp
  next
    case False
    then obtain rows2 pc2 sw1 where f: "fileRedriven rows2 pc2 (execId r) sw = Some sw1"
        "sweepDrive sha cfg env rows2 rs sw1 = Some (rows', sw')"
      using Cons.prems by (auto simp: Let_def split: prod.splits option.splits)
    show ?thesis using Cons.IH [OF f(2)] fileRedriven_ids [OF f(1)] False by simp
  qed
qed simp

lemma page_distinct:
  assumes "rows_ok rows"
  shows "distinct (map execId (take n (sort_key k (filter p (js_values rows)))))"
proof -
  have "map execId (js_values rows) = map fst rows" using assms by (auto simp: rows_ok_def)
  then have "distinct (map execId (js_values rows))" using rows_ok_distinct [OF assms] by metis
  then have "distinct (map execId (filter p (js_values rows)))" by (simp add: distinct_map_filter)
  moreover have "mset (map execId (sort_key k (filter p (js_values rows)))) = mset (map execId (filter p (js_values rows)))"
    by simp
  ultimately have "distinct (map execId (sort_key k (filter p (js_values rows))))"
    by (metis mset_eq_imp_distinct_iff)
  then show ?thesis by (simp add: take_map [symmetric])
qed

lemma pages_disjoint:
  assumes "rows_ok rows"
  shows "execId ` set (take m (sort_key j (filter (\<lambda>r. rstate r \<in> {blocked, uncertain} \<or> leaseToken r \<noteq> None) (js_values rows))))
    \<inter> execId ` set (take n (sort_key k (filter actionable (js_values rows)))) = {}"
proof (intro equals0I, elim IntE imageE)
  fix x a b
  assume a: "a \<in> set (take m (sort_key j (filter (\<lambda>r. rstate r \<in> {blocked, uncertain} \<or> leaseToken r \<noteq> None) (js_values rows))))"
    and b: "b \<in> set (take n (sort_key k (filter actionable (js_values rows))))" and x: "x = execId a" "x = execId b"
  have a1: "a \<in> set (js_values rows)" "rstate a \<in> {blocked, uncertain} \<or> leaseToken a \<noteq> None"
    using in_set_takeD [OF a] by auto
  have b1: "b \<in> set (js_values rows)" "actionable b"
    using in_set_takeD [OF b] by auto
  have "a = b" using rows_ok_value [OF assms a1(1)] rows_ok_value [OF assms b1(1)] x by simp
  then show False using a1(2) b1(2) by (auto simp: actionable_def RELAY_CLAIMABLE_STATES_def)
qed

text \<open>
  C31. A sweep that finishes files, each in exactly one of its four lists, the rows of its report page
  (the first \<open>limit\<close> that are terminal or leased) and those of the first \<open>limit\<close> due rows that no
  invocation of the process is driving when their turn comes, a failed re-drive included; a due row
  that is being driven by then is left out. No execution id appears twice, and the held ones are
  exactly the reported rows that are not terminal. This holds whatever other invocations and
  processes store during the re-drives.
\<close>

theorem sweep_classifies_once:
  assumes "rows_ok rows" "sweepStuck sha cfg busy env rows now limit = Inr (Some (rows', sw))"
  shows "\<exists>rows0 out summary due. reconcileExpired rows now limit = Inr (rows0, out)
    \<and> listSweepSummary rows0 now limit = Inr summary \<and> listForSweep rows0 now limit False = Inr due
    \<and> mset (sweep_ids sw) = mset (map execId summary) + mset (map execId (filter (\<lambda>r. \<not> env_inFlight (env (execId r))) due))
    \<and> distinct (sweep_ids sw) \<and> int (length summary) \<le> limit \<and> int (length due) \<le> limit
    \<and> held sw = map execId (filter (\<lambda>r. rstate r \<notin> {blocked, uncertain}) summary)"
proof -
  obtain rows0 out summary due where s: "reconcileExpired rows now limit = Inr (rows0, out)"
      "listSweepSummary rows0 now limit = Inr summary" "listForSweep rows0 now limit False = Inr due"
      "sweepDrive sha cfg env rows0 due (sweepReport busy summary empty_sweep) = Some (rows', sw)"
    using assms(2) by (auto simp: sweepStuck_def ebind_Inr_iff)
  have ok: "rows_ok rows0" using reconcileExpired_evolves [OF assms(1) s(1)] by (rule rows_evolve_ok)
  have lim: "0 < limit" using s(1) by (auto simp: reconcileExpired_def ebind_Inr_iff)
  have summ: "summary = take (nat limit) (sort_key relayByCreated
      (filter (\<lambda>r. rstate r \<in> {blocked, uncertain} \<or> leaseToken r \<noteq> None) (js_values rows0)))"
    using s(2) by (auto simp: listSweepSummary_def ebind_Inr_iff)
  have due: "due = take (nat limit) (sort_key relayByActionableAge (filter actionable (js_values rows0)))"
    using s(3) by (auto simp: listForSweep_def ebind_Inr_iff)
  have "filter (\<lambda>r. rstate r \<in> {blocked, uncertain} \<or> leaseToken r \<noteq> None \<or> busy (execId r)) summary = summary"
    unfolding summ by (intro filter_True) (auto dest!: in_set_takeD)
  then have ids: "mset (sweep_ids sw) = mset (map execId summary) + mset (map execId (filter (\<lambda>r. \<not> env_inFlight (env (execId r))) due))"
    using conjunct1 [OF sweepDrive_ids [OF s(4)]] sweepReport_ids [of busy summary empty_sweep]
    by (simp add: sweep_ids_def empty_sweep_def)
  have "distinct (map execId summary)" "distinct (map execId (filter (\<lambda>r. \<not> env_inFlight (env (execId r))) due))"
    using page_distinct [OF ok] distinct_map_filter unfolding summ due by blast+
  moreover have "execId ` set summary \<inter> execId ` set due = {}"
    unfolding summ due by (rule pages_disjoint [OF ok])
  ultimately have "distinct (map execId summary @ map execId (filter (\<lambda>r. \<not> env_inFlight (env (execId r))) due))"
    by auto
  then have "distinct (sweep_ids sw)"
    using ids by (metis mset_append mset_eq_imp_distinct_iff)
  moreover have "int (length summary) \<le> limit" "int (length due) \<le> limit"
    using lim by (simp_all add: summ due min_def) linarith+
  moreover have "filter (\<lambda>r. rstate r \<notin> {blocked, uncertain} \<and> (leaseToken r \<noteq> None \<or> busy (execId r))) summary
      = filter (\<lambda>r. rstate r \<notin> {blocked, uncertain}) summary"
    unfolding summ by (intro filter_cong refl) (auto dest!: in_set_takeD)
  then have "held sw = map execId (filter (\<lambda>r. rstate r \<notin> {blocked, uncertain}) summary)"
    using sweepDrive_ids [OF s(4)] sweepReport_held [of busy summary empty_sweep] by (simp add: empty_sweep_def)
  ultimately show ?thesis using s ids by (intro exI conjI) assumption+
qed

definition idle_env :: drive_env where
  "idle_env = \<lparr>env_inFlight = False, env_token = ''t9'', env_clock = sample_clock, env_inputs = [], env_others = id\<rparr>"

theorem sweep_classifies_once_witness:
  "\<exists>rows' sw. sweepStuck id default_config (\<lambda>_. False) (\<lambda>_. idle_env) leased_rows 2000 10 = Inr (Some (rows', sw))
     \<and> distinct (sweep_ids sw) \<and> held sw = [''x1'']"
proof -
  have ok: "rows_ok leased_rows"
    unfolding leased_rows_def by (rule relay_rows.run_inv) simp
  have "\<exists>rows' sw. sweepStuck id default_config (\<lambda>_. False) (\<lambda>_. idle_env) leased_rows 2000 10 = Inr (Some (rows', sw))
      \<and> held sw = [''x1'']"
    by (simp add: leased_rows_def sample_ops_def store_eval sweepStuck_def reconcileExpired_def requireLimit_def
        expiredBatch_def expiredLease_def listSweepSummary_def listForSweep_def actionable_def empty_sweep_def)
  then obtain rows' sw where s: "sweepStuck id default_config (\<lambda>_. False) (\<lambda>_. idle_env) leased_rows 2000 10
      = Inr (Some (rows', sw))" "held sw = [''x1'']" by blast
  show ?thesis using s sweep_classifies_once [OF ok s(1)] by blast
qed

end
