(* ===== verification/WorkQueue.thy ===== *)
theory WorkQueue
  imports Prelude Machines
begin

section \<open>The bounded recovery work queue\<close>

text \<open>
  \<open>createWorkQueue\<close> of \<open>relayer/src/workQueue.mjs\<close>. The closure variables are the fields of
  \<open>work_queue\<close>; \<open>running\<close> lists the entries whose promise chain is not settled, and
  \<open>started\<close> and \<open>settled_drains\<close> are ghosts that log the launched entries and the resolved
  drain promises. \<open>finishEntry\<close> is the \<open>finally\<close> handler, which runs whether \<open>run\<close> resolved
  or threw.
\<close>

type_synonym entry = "jsv \<times> string"

record work_queue =
  pending :: "entry list"
  identities :: "string list"
  active :: nat
  running :: "entry list"
  stopped :: bool
  finishing :: bool
  drainResolvers :: nat
  started :: "entry list"
  settled_drains :: nat

record queue_config =
  concurrency :: nat
  maxPending :: nat

text \<open>\<open>a ?? b\<close>.\<close>

definition nullish :: "jsv \<Rightarrow> jsv \<Rightarrow> jsv" where
  "nullish a b = (if a = JUndef \<or> a = JNull then b else a)"

text \<open>\<open>item && typeof item === 'object'\<close>.\<close>

fun js_object_like :: "jsv \<Rightarrow> bool" where
  "js_object_like (JObj kvs) = True"
| "js_object_like (JArr xs) = True"
| "js_object_like _ = False"

definition item_identity :: "jsv \<Rightarrow> jsv" where
  "item_identity item =
     nullish (js_get item ''id'') (nullish (js_get item ''jobId'') (nullish (js_get item ''mandateId'')
       (nullish (js_get (js_get item ''identity'') ''id'') (js_get (js_get item ''identity'') ''childId''))))"

fun plain_identity :: "jsv \<Rightarrow> string option" where
  "plain_identity (JStr s) = Some s"
| "plain_identity (JNum n) = Some (show_int n)"
| "plain_identity (JFloat t) = Some t"
| "plain_identity _ = None"

definition identityOf :: "jsv \<Rightarrow> string option" where
  "identityOf item =
     (if js_object_like item \<and> item_identity item \<noteq> JUndef \<and> item_identity item \<noteq> JNull
      then Some (js_to_key (item_identity item))
      else plain_identity item)"

text \<open>\<open>validBound\<close> and the construction of a queue; \<open>None\<close> is the thrown configuration error.\<close>

definition validBound :: "jsv \<Rightarrow> bool \<Rightarrow> nat option" where
  "validBound v allowZero =
     (case v of JNum n \<Rightarrow> if safe_int n \<and> (if allowZero then 0 \<le> n else 1 \<le> n) then Some (nat n) else None
      | _ \<Rightarrow> None)"

definition createWorkQueue :: "jsv \<Rightarrow> jsv \<Rightarrow> (queue_config \<times> work_queue) option" where
  "createWorkQueue c p =
     (case (validBound c False, validBound p True) of
        (Some cc, Some pp) \<Rightarrow> Some
          (\<lparr>concurrency = cc, maxPending = pp\<rparr>,
           \<lparr>pending = [], identities = [], active = 0, running = [], stopped = False, finishing = False,
            drainResolvers = 0, started = [], settled_drains = 0\<rparr>)
      | _ \<Rightarrow> None)"

definition settleDrain :: "work_queue \<Rightarrow> work_queue" where
  "settleDrain q =
     (if active q \<noteq> 0 \<or> pending q \<noteq> [] then q
      else q\<lparr>drainResolvers := 0, settled_drains := settled_drains q + drainResolvers q\<rparr>)"

function launchLoop :: "queue_config \<Rightarrow> bool \<Rightarrow> work_queue \<Rightarrow> work_queue" where
  "launchLoop cfg allowStopped q =
     (if (allowStopped \<or> finishing q \<or> \<not> stopped q) \<and> active q < concurrency cfg \<and> pending q \<noteq> []
      then launchLoop cfg allowStopped
        (q\<lparr>pending := tl (pending q), active := active q + 1,
           running := running q @ [hd (pending q)], started := started q @ [hd (pending q)]\<rparr>)
      else q)"
  by auto
termination
  by (relation "measure (\<lambda>(cfg, a, q). length (pending q))") auto

declare launchLoop.simps [simp del]

definition launch :: "queue_config \<Rightarrow> bool \<Rightarrow> work_queue \<Rightarrow> work_queue" where
  "launch cfg allowStopped q = settleDrain (launchLoop cfg allowStopped q)"

definition enqueue_item :: "queue_config \<Rightarrow> work_queue \<Rightarrow> jsv \<Rightarrow> work_queue \<times> bool" where
  "enqueue_item cfg q item =
     (if stopped q then (q, False)
      else case identityOf item of
        None \<Rightarrow> (q, False)
      | Some identity \<Rightarrow>
          if identity = [] \<or> identity \<in> set (identities q) \<or> maxPending cfg \<le> length (pending q)
          then (q, False)
          else (launch cfg False (q\<lparr>identities := identities q @ [identity],
                                    pending := pending q @ [(item, identity)]\<rparr>), True))"

text \<open>The \<open>finally\<close> of a running entry.\<close>

definition finishEntry :: "queue_config \<Rightarrow> work_queue \<Rightarrow> entry \<Rightarrow> work_queue" where
  "finishEntry cfg q e =
     settleDrain (launch cfg (finishing q)
       (q\<lparr>active := active q - 1, running := remove1 e (running q),
          identities := filter (\<lambda>i. i \<noteq> snd e) (identities q)\<rparr>))"

text \<open>\<open>drain()\<close>: the flag says whether the returned promise is already resolved.\<close>

definition drain :: "work_queue \<Rightarrow> work_queue \<times> bool" where
  "drain q =
     (if active q = 0 \<and> pending q = [] then (q, True)
      else (q\<lparr>drainResolvers := drainResolvers q + 1\<rparr>, False))"

definition stop :: "queue_config \<Rightarrow> work_queue \<Rightarrow> bool \<Rightarrow> work_queue \<times> bool" where
  "stop cfg q cancelPending =
     drain (if cancelPending
       then q\<lparr>stopped := True, pending := [],
              identities := filter (\<lambda>i. i \<notin> snd ` set (pending q)) (identities q)\<rparr>
       else launch cfg True (q\<lparr>stopped := True, finishing := True\<rparr>))"

subsection \<open>The queue invariant\<close>

definition queue_ok :: "queue_config \<Rightarrow> work_queue \<Rightarrow> bool" where
  "queue_ok cfg q \<longleftrightarrow>
     active q = length (running q) \<and> active q \<le> concurrency cfg \<and> length (pending q) \<le> maxPending cfg
   \<and> distinct (identities q) \<and> set (identities q) = snd ` set (running q @ pending q)
   \<and> distinct (map snd (running q @ pending q))
   \<and> (finishing q \<longrightarrow> stopped q)"

text \<open>Work conserving: an entry waits only while every slot is taken, or after a cancelling stop.\<close>

definition no_idle_slot :: "queue_config \<Rightarrow> work_queue \<Rightarrow> bool" where
  "no_idle_slot cfg q \<longleftrightarrow>
     pending q \<noteq> [] \<longrightarrow> (finishing q \<or> \<not> stopped q) \<longrightarrow> active q = concurrency cfg"

definition no_stale_drain :: "work_queue \<Rightarrow> bool" where
  "no_stale_drain q \<longleftrightarrow> (active q = 0 \<and> pending q = [] \<longrightarrow> drainResolvers q = 0)"

lemma launchLoop_frame:
  "stopped (launchLoop cfg a q) = stopped q \<and> finishing (launchLoop cfg a q) = finishing q
   \<and> identities (launchLoop cfg a q) = identities q \<and> drainResolvers (launchLoop cfg a q) = drainResolvers q
   \<and> settled_drains (launchLoop cfg a q) = settled_drains q
   \<and> running (launchLoop cfg a q) @ pending (launchLoop cfg a q) = running q @ pending q
   \<and> started (launchLoop cfg a q) @ pending (launchLoop cfg a q) = started q @ pending q
   \<and> length (pending (launchLoop cfg a q)) \<le> length (pending q)"
proof (induction cfg a q rule: launchLoop.induct)
  case (1 cfg a q)
  show ?case
  proof (cases "(a \<or> finishing q \<or> \<not> stopped q) \<and> active q < concurrency cfg \<and> pending q \<noteq> []")
    case True
    with 1 show ?thesis
      by (subst (1 2 3 4 5 6 7 8 9 10) launchLoop.simps) (auto simp: neq_Nil_conv)
  next
    case False
    then show ?thesis by (subst (1 2 3 4 5 6 7 8 9 10) launchLoop.simps) auto
  qed
qed

lemma launchLoop_active:
  "active q = length (running q) \<Longrightarrow> active q \<le> concurrency cfg \<Longrightarrow>
   active (launchLoop cfg a q) = length (running (launchLoop cfg a q))
   \<and> active (launchLoop cfg a q) \<le> concurrency cfg \<and> active q \<le> active (launchLoop cfg a q)"
proof (induction cfg a q rule: launchLoop.induct)
  case (1 cfg a q)
  show ?case
  proof (cases "(a \<or> finishing q \<or> \<not> stopped q) \<and> active q < concurrency cfg \<and> pending q \<noteq> []")
    case True
    with 1 show ?thesis by (subst (1 2 3 4) launchLoop.simps) auto
  next
    case False
    with 1 show ?thesis by (subst (1 2 3 4) launchLoop.simps) auto
  qed
qed

lemma launchLoop_full:
  "active q \<le> concurrency cfg \<Longrightarrow> a \<or> finishing q \<or> \<not> stopped q \<Longrightarrow>
   pending (launchLoop cfg a q) \<noteq> [] \<Longrightarrow> active (launchLoop cfg a q) = concurrency cfg"
proof (induction cfg a q rule: launchLoop.induct)
  case (1 cfg a q)
  show ?case
  proof (cases "active q < concurrency cfg \<and> pending q \<noteq> []")
    case True
    with 1 show ?thesis by (subst launchLoop.simps) (auto simp: launchLoop.simps [of cfg a q])
  next
    case False
    with 1 show ?thesis by (auto simp: launchLoop.simps [of cfg a q] split: if_splits)
  qed
qed

lemma settleDrain_frame [simp]:
  "pending (settleDrain q) = pending q" "identities (settleDrain q) = identities q"
  "active (settleDrain q) = active q" "running (settleDrain q) = running q"
  "stopped (settleDrain q) = stopped q" "finishing (settleDrain q) = finishing q"
  "started (settleDrain q) = started q"
  by (simp_all add: settleDrain_def)

lemma settleDrain_fresh: "no_stale_drain (settleDrain q)"
  by (auto simp: no_stale_drain_def settleDrain_def)

definition queue_inv :: "queue_config \<Rightarrow> work_queue \<Rightarrow> bool" where
  "queue_inv cfg q \<longleftrightarrow>
     1 \<le> concurrency cfg \<and> queue_ok cfg q \<and> no_idle_slot cfg q \<and> no_stale_drain q
   \<and> (stopped q \<and> \<not> finishing q \<longrightarrow> pending q = [])"

text \<open>What \<open>launch\<close> establishes from a queue whose slots may be free.\<close>

lemma launch_inv:
  assumes ok: "queue_ok cfg q" and c: "1 \<le> concurrency cfg"
    and go: "a \<or> finishing q \<or> \<not> stopped q" and st: "a \<longrightarrow> stopped q \<longrightarrow> finishing q"
  shows "queue_inv cfg (launch cfg a q)"
proof -
  let ?l = "launchLoop cfg a q"
  note f = launchLoop_frame [of cfg a q]
  have act: "active ?l = length (running ?l)" "active ?l \<le> concurrency cfg"
    using launchLoop_active [of q cfg a] ok by (simp_all add: queue_ok_def)
  have ids: "set (identities ?l) = snd ` set (running ?l @ pending ?l)" "distinct (map snd (running ?l @ pending ?l))"
    using f ok by (simp_all add: queue_ok_def del: set_append map_append)
  have "queue_ok cfg ?l"
    using act ids f ok by (auto simp: queue_ok_def)
  moreover have "no_idle_slot cfg ?l"
    using launchLoop_full [of q cfg a] ok go by (auto simp: no_idle_slot_def queue_ok_def)
  ultimately show ?thesis
    using f go st c settleDrain_fresh
    by (auto simp: queue_inv_def launch_def queue_ok_def no_idle_slot_def)
qed

lemma enqueue_item_inv:
  assumes "queue_inv cfg q"
  shows "queue_inv cfg (fst (enqueue_item cfg q item))"
proof -
  have "queue_inv cfg (launch cfg False (q\<lparr>identities := identities q @ [i], pending := pending q @ [(item, i)]\<rparr>))"
    if "\<not> stopped q" "i \<notin> set (identities q)" "length (pending q) < maxPending cfg" for i
    using assms that by (intro launch_inv) (auto simp: queue_inv_def queue_ok_def)
  then show ?thesis
    using assms by (auto simp: enqueue_item_def split: option.splits)
qed

lemma finishEntry_ok:
  assumes "queue_inv cfg q" "e \<in> set (running q)"
  shows "queue_ok cfg (q\<lparr>active := active q - 1, running := remove1 e (running q),
    identities := filter (\<lambda>i. i \<noteq> snd e) (identities q)\<rparr>)"
proof -
  have ok: "queue_ok cfg q" using assms(1) by (simp add: queue_inv_def)
  have d: "distinct (map snd (running q))" "distinct (running q)"
    using ok distinct_map by (auto simp: queue_ok_def)
  have inj: "snd x = snd e \<longleftrightarrow> x = e" if "x \<in> set (running q)" for x
    using d(1) assms(2) that by (meson distinct_map inj_onD)
  have np: "snd e \<notin> snd ` set (pending q)"
    using ok assms(2) by (auto simp: queue_ok_def)
  have "snd ` (set (running q) - {e}) = snd ` set (running q) - {snd e}"
    using inj by auto
  moreover have "set (identities q) = snd ` set (running q) \<union> snd ` set (pending q)"
    using ok by (simp add: queue_ok_def image_Un)
  ultimately have ids: "{i \<in> set (identities q). i \<noteq> snd e} = snd ` (set (running q) - {e}) \<union> snd ` set (pending q)"
    using np by blast
  have "distinct (map snd (remove1 e (running q)))"
    using d(1) by (metis distinct_map distinct_remove1 inj_on_subset set_remove1_subset)
  then show ?thesis
    using ok ids d(2) assms(2) by (auto simp: queue_ok_def length_remove1)
qed

lemma finishEntry_inv:
  assumes "queue_inv cfg q" "e \<in> set (running q)"
  shows "queue_inv cfg (finishEntry cfg q e)"
proof (cases "finishing q \<or> \<not> stopped q")
  case True
  let ?q = "q\<lparr>active := active q - 1, running := remove1 e (running q),
    identities := filter (\<lambda>i. i \<noteq> snd e) (identities q)\<rparr>"
  have "queue_inv cfg (launch cfg (finishing q) ?q)"
    using assms(1) True finishEntry_ok [OF assms] by (intro launch_inv) (auto simp: queue_inv_def queue_ok_def)
  then show ?thesis
    using settleDrain_fresh by (auto simp: finishEntry_def queue_inv_def queue_ok_def no_idle_slot_def)
next
  case False
  then have "pending q = []" using assms(1) by (simp add: queue_inv_def)
  then show ?thesis
    using False assms(1) finishEntry_ok [OF assms] settleDrain_fresh
    by (auto simp: finishEntry_def launch_def launchLoop.simps queue_inv_def queue_ok_def no_idle_slot_def)
qed

lemma stop_inv:
  assumes "queue_inv cfg q"
  shows "queue_inv cfg (fst (stop cfg q cancel))"
proof (cases cancel)
  case True
  have ok: "queue_ok cfg q" using assms by (simp add: queue_inv_def)
  let ?q = "q\<lparr>stopped := True, pending := [],
    identities := filter (\<lambda>i. i \<notin> snd ` set (pending q)) (identities q)\<rparr>"
  have "{i \<in> set (identities q). i \<notin> snd ` set (pending q)} = snd ` set (running q)"
    using ok by (auto simp: queue_ok_def)
  then have "queue_ok cfg ?q" using ok by (auto simp: queue_ok_def)
  moreover have "no_stale_drain ?q"
    using assms by (auto simp: queue_inv_def no_stale_drain_def no_idle_slot_def queue_ok_def)
  ultimately show ?thesis
    using True assms by (auto simp: stop_def drain_def queue_inv_def no_idle_slot_def no_stale_drain_def queue_ok_def)
next
  case False
  have "queue_inv cfg (launch cfg True (q\<lparr>stopped := True, finishing := True\<rparr>))"
    using assms by (intro launch_inv) (auto simp: queue_inv_def queue_ok_def)
  then show ?thesis
    using False by (auto simp: stop_def drain_def queue_inv_def queue_ok_def no_idle_slot_def no_stale_drain_def)
qed

lemma drain_inv: "queue_inv cfg q \<Longrightarrow> queue_inv cfg (fst (drain q))"
  by (auto simp: drain_def queue_inv_def queue_ok_def no_idle_slot_def no_stale_drain_def)

subsection \<open>Any sequence of calls\<close>

datatype queue_op =
    EnqueueItem jsv
  | Finish entry
  | Drain
  | Stop bool

fun queue_apply :: "queue_config \<Rightarrow> work_queue \<Rightarrow> queue_op \<Rightarrow> work_queue" where
  "queue_apply cfg q (EnqueueItem item) = fst (enqueue_item cfg q item)"
| "queue_apply cfg q (Finish e) = (if e \<in> set (running q) then finishEntry cfg q e else q)"
| "queue_apply cfg q Drain = fst (drain q)"
| "queue_apply cfg q (Stop cancel) = fst (stop cfg q cancel)"

interpretation queue: invariant_machine "queue_apply cfg" "queue_inv cfg" for cfg
proof unfold_locales
  fix q op assume "queue_inv cfg q"
  then show "queue_inv cfg (queue_apply cfg q op)"
    by (cases op) (auto intro: enqueue_item_inv finishEntry_inv drain_inv stop_inv)
qed

lemma createWorkQueue_inv: "createWorkQueue c p = Some (cfg, q) \<Longrightarrow> queue_inv cfg q"
  by (auto simp: createWorkQueue_def validBound_def queue_inv_def queue_ok_def no_idle_slot_def
      no_stale_drain_def split: option.splits jsv.splits if_splits)

text \<open>
  C19. Whatever is enqueued, finished, drained and stopped in any order, the queue runs at most
  \<open>concurrency\<close> entries, holds at most \<open>maxPending\<close>, never runs or holds two entries of one
  identity, leaves no slot idle while work it will run is waiting, and leaves no drain promise
  unresolved once it is empty.
\<close>

theorem work_queue_bounds:
  assumes "createWorkQueue c p = Some (cfg, q0)" "q = run_ops (queue_apply cfg) q0 ops"
  shows "active q \<le> concurrency cfg \<and> active q = length (running q) \<and> length (pending q) \<le> maxPending cfg
    \<and> distinct (map snd (running q @ pending q)) \<and> set (identities q) = snd ` set (running q @ pending q)
    \<and> (pending q \<noteq> [] \<longrightarrow> active q = concurrency cfg)
    \<and> (active q = 0 \<longrightarrow> pending q = [] \<and> drainResolvers q = 0)"
proof -
  have inv: "queue_inv cfg q"
    unfolding assms(2) using createWorkQueue_inv [OF assms(1)] by (rule queue.run_inv)
  then have "pending q \<noteq> [] \<longrightarrow> active q = concurrency cfg"
    by (auto simp: queue_inv_def no_idle_slot_def)
  with inv show ?thesis
    by (auto simp: queue_inv_def queue_ok_def no_stale_drain_def simp del: map_append set_append)
qed

text \<open>Two slots, one waiting place; three jobs and a duplicate.\<close>

definition sample_queue_ops :: "queue_op list" where
  "sample_queue_ops =
     [EnqueueItem (JStr ''a''), EnqueueItem (JStr ''b''), EnqueueItem (JStr ''a''),
      EnqueueItem (JObj [(''id'', JStr ''c'')]), Stop False, Finish (JStr ''a'', ''a''), Drain]"

lemma sample_queue_created:
  "createWorkQueue (JNum 2) (JNum 1) = Some (\<lparr>concurrency = 2, maxPending = 1\<rparr>,
     \<lparr>pending = [], identities = [], active = 0, running = [], stopped = False, finishing = False,
      drainResolvers = 0, started = [], settled_drains = 0\<rparr>)"
  by (simp add: createWorkQueue_def validBound_def safe_int_def)

theorem work_queue_bounds_witness:
  "\<exists>cfg q0. createWorkQueue (JNum 2) (JNum 1) = Some (cfg, q0)
     \<and> active (run_ops (queue_apply cfg) q0 sample_queue_ops) \<le> 2"
proof -
  show ?thesis
    using sample_queue_created work_queue_bounds [OF sample_queue_created refl, of sample_queue_ops] by auto
qed

subsection \<open>Stopping finishes the accepted work\<close>

lemma finishEntry_size:
  assumes "queue_inv cfg q" "e \<in> set (running q)"
  shows "length (running (finishEntry cfg q e)) + length (pending (finishEntry cfg q e)) + 1
       = length (running q) + length (pending q)"
proof -
  let ?q = "q\<lparr>active := active q - 1, running := remove1 e (running q),
    identities := filter (\<lambda>i. i \<noteq> snd e) (identities q)\<rparr>"
  have "running (launchLoop cfg (finishing q) ?q) @ pending (launchLoop cfg (finishing q) ?q) = remove1 e (running q) @ pending q"
    using launchLoop_frame [of cfg "finishing q" ?q] by simp
  from arg_cong [OF this, of length]
  have "length (running (finishEntry cfg q e)) + length (pending (finishEntry cfg q e))
      = length (remove1 e (running q)) + length (pending q)"
    by (simp add: finishEntry_def launch_def)
  moreover have "length (running q) \<noteq> 0" using assms(2) by auto
  ultimately show ?thesis using assms(2) by (simp add: length_remove1)
qed

text \<open>A run in which each operation finishes an entry that is running then.\<close>

fun finishes_all :: "queue_config \<Rightarrow> work_queue \<Rightarrow> entry list \<Rightarrow> bool" where
  "finishes_all cfg q [] = True"
| "finishes_all cfg q (e # es) = (e \<in> set (running q) \<and> finishes_all cfg (finishEntry cfg q e) es)"

lemma run_finish:
  "queue_inv cfg q \<Longrightarrow> finishes_all cfg q es \<Longrightarrow>
   length (running (run_ops (queue_apply cfg) q (map Finish es)))
     + length (pending (run_ops (queue_apply cfg) q (map Finish es))) + length es
   = length (running q) + length (pending q)"
proof (induction es arbitrary: q)
  case (Cons e es)
  then have "queue_inv cfg (finishEntry cfg q e)" by (auto intro: finishEntry_inv)
  with Cons finishEntry_size [of cfg q e] show ?case by fastforce
qed simp

lemma finishes_possible:
  "queue_inv cfg q \<Longrightarrow> n \<le> length (running q) + length (pending q) \<Longrightarrow>
   \<exists>es. length es = n \<and> finishes_all cfg q es"
proof (induction n arbitrary: q)
  case (Suc n)
  have ne: "running q \<noteq> []"
  proof
    assume "running q = []"
    then have "active q = 0" using Suc.prems(1) by (simp add: queue_inv_def queue_ok_def)
    then have "pending q = []"
      using Suc.prems(1) by (auto simp: queue_inv_def no_idle_slot_def)
    with \<open>running q = []\<close> Suc.prems(2) show False by simp
  qed
  then have e: "hd (running q) \<in> set (running q)" by simp
  have "queue_inv cfg (finishEntry cfg q (hd (running q)))"
    using Suc.prems(1) e by (rule finishEntry_inv)
  then obtain es where "length es = n" "finishes_all cfg (finishEntry cfg q (hd (running q))) es"
    using Suc.IH [of "finishEntry cfg q (hd (running q))"] Suc.prems finishEntry_size [OF Suc.prems(1) e] by auto
  then have "length (hd (running q) # es) = Suc n \<and> finishes_all cfg q (hd (running q) # es)"
    using e by simp
  then show ?case by blast
qed (auto intro: exI [of _ "[]"])

text \<open>
  After a stop the queue drains: there is always an entry to finish until the accepted
  work is done, and once as many entries have finished as were running or waiting, nothing
  runs or waits and every drain promise, the one of the stop included, is resolved.
\<close>

theorem stop_drains:
  assumes "createWorkQueue c p = Some (cfg, q0)" "q = fst (stop cfg (run_ops (queue_apply cfg) q0 ops) cancel)"
    and "n = length (running q) + length (pending q)"
  shows "(\<exists>es. length es = n \<and> finishes_all cfg q es)
    \<and> (\<forall>es. finishes_all cfg q es \<longrightarrow> length es \<le> n \<and> (length es = n \<longrightarrow>
          active (run_ops (queue_apply cfg) q (map Finish es)) = 0
        \<and> pending (run_ops (queue_apply cfg) q (map Finish es)) = []
        \<and> drainResolvers (run_ops (queue_apply cfg) q (map Finish es)) = 0))"
proof -
  have "queue_inv cfg (run_ops (queue_apply cfg) q0 ops)"
    using createWorkQueue_inv [OF assms(1)] by (rule queue.run_inv)
  then have inv: "queue_inv cfg q" unfolding assms(2) by (rule stop_inv)
  have "length es \<le> n \<and> (length es = n \<longrightarrow>
          active (run_ops (queue_apply cfg) q (map Finish es)) = 0
        \<and> pending (run_ops (queue_apply cfg) q (map Finish es)) = []
        \<and> drainResolvers (run_ops (queue_apply cfg) q (map Finish es)) = 0)"
    if "finishes_all cfg q es" for es
    using run_finish [OF inv that] queue.run_inv [OF inv, of "map Finish es"] assms(3)
    by (auto simp: queue_inv_def queue_ok_def no_stale_drain_def)
  then show ?thesis using finishes_possible [OF inv, of n] assms(3) by blast
qed

theorem stop_drains_witness:
  "\<exists>cfg q0 q. createWorkQueue (JNum 2) (JNum 1) = Some (cfg, q0)
     \<and> q = fst (stop cfg (run_ops (queue_apply cfg) q0 (take 4 sample_queue_ops)) False)
     \<and> (\<exists>es. finishes_all cfg q es \<and> pending (run_ops (queue_apply cfg) q (map Finish es)) = [])"
  using sample_queue_created stop_drains [OF sample_queue_created refl refl, of "take 4 sample_queue_ops" False]
  by blast

end
