(* ===== verification/TransferJournal.thy ===== *)
theory TransferJournal
  imports Prelude Machines "HOL-Library.Sublist"
begin

section \<open>The durable CCTP transfer journal of the frontend\<close>

text \<open>
  \<open>frontend/src/cctp/transferJournal.js\<close>: the fence the browser keeps in front of irreversible
  actions. Records are untyped JSON, checked by \<open>validate\<close> on every read and write. The storage
  is the list of its keys with their texts; a text is \<open>Unparsable\<close>, the text \<open>JSON.stringify\<close>
  gives of a value, or another text of the value (\<open>JSON.parse\<close> inverts \<open>JSON.stringify\<close> on JSON
  values, so \<open>clone\<close> is the identity). The device is an argument: \<open>setItem\<close> may throw, or keep
  something else than what was written; \<open>getItem\<close> and \<open>removeItem\<close> may throw.
  Regular expressions are tested on \<open>String(v)\<close>, as \<open>RegExp.test\<close> does.
\<close>

type_synonym storage = "(string \<times> raw) list"

text \<open>\<open>usable\<close>: the object has the functions \<open>getItem\<close> and \<open>setItem\<close>.\<close>

record device =
  usable :: bool
  setItem :: "storage \<Rightarrow> string \<Rightarrow> raw \<Rightarrow> storage option"
  getThrows :: "storage \<Rightarrow> string \<Rightarrow> bool"
  removeThrows :: "storage \<Rightarrow> string \<Rightarrow> bool"

datatype journal_error = journal_invalid | journal_conflict | journal_unavailable | type_error

subsection \<open>Constants and regular expressions\<close>

definition PREFIX :: string where "PREFIX = ''vf.cctpTransfer.v1:''"

definition hex_run :: "nat \<Rightarrow> string \<Rightarrow> bool" where
  "hex_run n s \<longleftrightarrow> length s = n \<and> list_all is_lhex s"

definition ID_RE :: "jsv \<Rightarrow> bool" where "ID_RE v = hex_run 32 (js_to_key v)"
definition HASH_RE :: "jsv \<Rightarrow> bool" where "HASH_RE v = hex_run 64 (js_to_key v)"

definition EVM_HASH_RE :: "jsv \<Rightarrow> bool" where
  "EVM_HASH_RE v \<longleftrightarrow> startsWith0x (js_to_key v) \<and> hex_run 64 (drop 2 (js_to_key v))"

definition EVM_RE :: "jsv \<Rightarrow> bool" where
  "EVM_RE v \<longleftrightarrow> startsWith0x (js_to_key v) \<and> hex_run 40 (drop 2 (js_to_key v))"

definition is_base32 :: "char \<Rightarrow> bool" where
  "is_base32 c \<longleftrightarrow> c \<in> set ''ABCDEFGHIJKLMNOPQRSTUVWXYZ234567''"

definition strkey :: "string \<Rightarrow> bool" where
  "strkey s \<longleftrightarrow> (case s of [] \<Rightarrow> False | c # r \<Rightarrow>
     c \<in> set ''CG'' \<and> length r = 55 \<and> list_all is_base32 r)"

definition STRKEY_RE :: "jsv \<Rightarrow> bool" where "STRKEY_RE v = strkey (js_to_key v)"

definition decimal :: "string \<Rightarrow> bool" where
  "decimal s \<longleftrightarrow> s = ''0'' \<or> (s \<noteq> [] \<and> hd s \<noteq> CHR ''0'' \<and> list_all is_digit s)"

definition DECIMAL_TEST :: "jsv \<Rightarrow> bool" where "DECIMAL_TEST v = decimal (js_to_key v)"

text \<open>\<open>BigInt(v)\<close> on a value that passed \<open>DECIMAL\<close>.\<close>

definition big_int :: "jsv \<Rightarrow> nat" where "big_int v = dec_val (js_to_key v)"

definition TERMINAL :: "string list" where
  "TERMINAL = [''done'', ''error'', ''uncertain'', ''blocked'']"

definition FORWARD :: "string list" where
  "FORWARD =
     [''intent_creating'', ''intent_acked'', ''burn_submitting'', ''burn_confirmed'', ''attach_pending'',
      ''settling'']"

definition REVERSE :: "string list" where
  "REVERSE =
     [''userop_submitting'', ''userop_submitted'', ''unwind_confirmed'', ''relay_pending'', ''settling'']"

definition REASONS :: "string list" where
  "REASONS =
     [''intent_unavailable'', ''authorization_unavailable'', ''burn_submission_unknown'',
      ''burn_checkpoint_failed'', ''attach_unavailable'', ''status_unavailable'',
      ''userop_submission_unknown'', ''userop_checkpoint_failed'', ''receipt_pending'',
      ''receipt_reverted'', ''receipt_evidence_unverified'', ''unwind_attach_unavailable'',
      ''job_error'', ''job_uncertain'', ''job_blocked'', ''journal_invalid'', ''journal_unavailable'']"

definition SENSITIVE_WORDS :: "string list" where
  "SENSITIVE_WORDS =
     [''secret'', ''privatekey'', ''capability'', ''bearer'', ''authorization'', ''cookie'', ''wallet'',
      ''passkey'', ''signedxdr'', ''serializedapproval'', ''approval'', ''sessionmaterial'', ''bridgematerial'']"

definition is_alnum :: "char \<Rightarrow> bool" where
  "is_alnum c \<longleftrightarrow> c \<in> set ''abcdefghijklmnopqrstuvwxyzABCDEFGHIJKLMNOPQRSTUVWXYZ0123456789''"

definition SENSITIVE :: "string \<Rightarrow> bool" where
  "SENSITIVE key \<longleftrightarrow>
     list_ex (\<lambda>w. sublist w (toLowerCase (filter is_alnum key))) SENSITIVE_WORDS"

definition own :: "jsv \<Rightarrow> string list \<Rightarrow> bool" where
  "own v keys \<longleftrightarrow>
     js_is_obj v \<and> length (js_keys v) = length keys \<and> list_all (\<lambda>k. k \<in> set keys) (js_keys v)"

definition isSafeTime :: "jsv \<Rightarrow> bool" where
  "isSafeTime v \<longleftrightarrow> (case v of JNum n \<Rightarrow> safe_int n \<and> 0 \<le> n | _ \<Rightarrow> False)"

definition opaque_char :: "char \<Rightarrow> bool" where
  "opaque_char c \<longleftrightarrow> (let n = (of_char c :: nat) in 0x21 \<le> n \<and> n \<le> 0x7e) \<and> c \<notin> set ''/?#&=''"

definition opaque :: "jsv \<Rightarrow> bool" where
  "opaque v \<longleftrightarrow> (case v of JStr s \<Rightarrow> s \<noteq> [] \<and> length s \<le> 200 \<and> list_all opaque_char s | _ \<Rightarrow> False)"

text \<open>\<open>toUpperCase\<close> on ASCII.\<close>

definition upper_char :: "char \<Rightarrow> char" where
  "upper_char c = (let n = (of_char c :: nat) in if 97 \<le> n \<and> n \<le> 122 then char_of (n - 32) else c)"

fun ownerKey :: "jsv \<Rightarrow> string" where
  "ownerKey (JStr s) = toLowerCase s"
| "ownerKey _ = []"

fun validOwner :: "jsv \<Rightarrow> bool" where
  "validOwner (JStr s) = strkey (map upper_char s)"
| "validOwner _ = False"

definition keyFor :: "jsv \<Rightarrow> jsv \<Rightarrow> string" where
  "keyFor owner requestId = PREFIX @ ownerKey owner @ '':'' @ js_to_key requestId"

subsection \<open>Validation\<close>

text \<open>\<open>rejectUnsafe\<close>: true when it returns, false when it throws.\<close>

fun safeValue :: "jsv \<Rightarrow> bool" where
  "safeValue JUndef = False"
| "safeValue JNull = True"
| "safeValue (JBool b) = True"
| "safeValue (JNum n) = True"
| "safeValue (JFloat t) = True"
| "safeValue (JStr s) = True"
| "safeValue (JArr xs) = list_all safeValue xs"
| "safeValue (JObj kvs) = list_all (\<lambda>kv. \<not> SENSITIVE (fst kv) \<and> safeValue (snd kv)) kvs"

definition validAmount :: "jsv \<Rightarrow> bool" where
  "validAmount a \<longleftrightarrow>
     own a [''token'', ''units'', ''decimals''] \<and> js_get a ''token'' = JStr ''USDC''
   \<and> DECIMAL_TEST (js_get a ''units'') \<and> 0 < big_int (js_get a ''units'') \<and> js_get a ''decimals'' = JNum 6"

text \<open>
  One allocation of a forward transfer. The test \<open>!ids.add(id)\<close> of the source is never true,
  because \<open>Set.add\<close> returns the set.
\<close>

definition validAllocation :: "jsv \<Rightarrow> jsv \<Rightarrow> bool" where
  "validAllocation t a \<longleftrightarrow>
     own a [''allocationId'', ''executionId'', ''poolAddress'', ''amount'', ''minShares'']
   \<and> opaque (js_get a ''allocationId'') \<and> opaque (js_get a ''executionId'')
   \<and> js_get a ''executionId'' = JStr (js_to_key (js_get t ''runId'') @ '':exec:'' @ js_to_key (js_get a ''allocationId''))
   \<and> EVM_RE (js_get a ''poolAddress'') \<and> js_is_str (js_get a ''poolAddress'')
   \<and> validAmount (js_get a ''amount'') \<and> DECIMAL_TEST (js_get a ''minShares'')"

fun js_elems :: "jsv \<Rightarrow> jsv list" where
  "js_elems (JArr xs) = xs"
| "js_elems _ = []"

definition FORWARD_FIELDS :: "string list" where
  "FORWARD_FIELDS =
     [''mandateId'', ''kernelAddress'', ''bindingId'', ''bindingHash'', ''bridgeAgent'', ''runId'', ''grantTxHash'',
      ''burnUnits7'', ''allocations'', ''jobId'', ''burnTxHash'']"

definition allocation_units :: "jsv \<Rightarrow> nat" where
  "allocation_units a = big_int (js_get (js_get a ''amount'') ''units'')"

definition validForwardTransfer :: "jsv \<Rightarrow> bool" where
  "validForwardTransfer t \<longleftrightarrow>
     own t FORWARD_FIELDS \<and> ID_RE (js_get t ''mandateId'') \<and> EVM_RE (js_get t ''kernelAddress'')
   \<and> opaque (js_get t ''bindingId'') \<and> HASH_RE (js_get t ''bindingHash'')
   \<and> STRKEY_RE (js_get t ''bridgeAgent'') \<and> opaque (js_get t ''runId'') \<and> HASH_RE (js_get t ''grantTxHash'')
   \<and> DECIMAL_TEST (js_get t ''burnUnits7'') \<and> 0 < big_int (js_get t ''burnUnits7'')
   \<and> big_int (js_get t ''burnUnits7'') mod 10 = 0
   \<and> js_elems (js_get t ''allocations'') \<noteq> []
   \<and> (js_get t ''jobId'' = JNull \<or> ID_RE (js_get t ''jobId''))
   \<and> (js_get t ''burnTxHash'' = JNull \<or> HASH_RE (js_get t ''burnTxHash''))
   \<and> list_all (validAllocation t) (js_elems (js_get t ''allocations''))
   \<and> sum_list (map allocation_units (js_elems (js_get t ''allocations''))) * 10 = big_int (js_get t ''burnUnits7'')
   \<and> (js_get t ''burnTxHash'' = JNull \<or> js_get t ''jobId'' \<noteq> JNull)"

definition validReverseTransfer :: "jsv \<Rightarrow> jsv \<Rightarrow> bool" where
  "validReverseTransfer t requestId \<longleftrightarrow>
     own t [''jobId'', ''kernelAddress'', ''recipientHint'', ''userOpHash'', ''unwindTxHash'']
   \<and> js_get t ''jobId'' = requestId \<and> js_is_str requestId \<and> ID_RE (js_get t ''jobId'')
   \<and> EVM_RE (js_get t ''kernelAddress'') \<and> STRKEY_RE (js_get t ''recipientHint'')
   \<and> (js_get t ''userOpHash'' = JNull \<or> EVM_HASH_RE (js_get t ''userOpHash''))
   \<and> (js_get t ''unwindTxHash'' = JNull \<or> EVM_HASH_RE (js_get t ''unwindTxHash''))
   \<and> (js_get t ''unwindTxHash'' = JNull \<or> js_get t ''userOpHash'' \<noteq> JNull)"

definition state_in :: "jsv \<Rightarrow> string list \<Rightarrow> bool" where
  "state_in v ss \<longleftrightarrow> v \<in> JStr ` set ss"

definition hasEvidence :: "jsv \<Rightarrow> bool" where
  "hasEvidence r =
     (let t = js_get r ''transfer''; st = js_get r ''state'' in
      if js_get r ''direction'' = JStr ''forward'' then
        \<not> (state_in st [''intent_acked'', ''burn_submitting'', ''burn_confirmed'', ''attach_pending'', ''settling'']
           \<and> \<not> js_truthy (js_get t ''jobId''))
        \<and> \<not> (state_in st [''burn_confirmed'', ''attach_pending'', ''settling''] \<and> \<not> js_truthy (js_get t ''burnTxHash''))
      else
        \<not> (state_in st [''userop_submitted'', ''unwind_confirmed'', ''relay_pending'', ''settling'']
           \<and> \<not> js_truthy (js_get t ''userOpHash''))
        \<and> \<not> (state_in st [''unwind_confirmed'', ''relay_pending'', ''settling''] \<and> \<not> js_truthy (js_get t ''unwindTxHash'')))"

definition RECORD_KEYS :: "string list" where
  "RECORD_KEYS =
     [''version'', ''direction'', ''owner'', ''requestId'', ''state'', ''createdAtMs'', ''updatedAtMs'', ''reasonCode'',
      ''terminalFrom'', ''transfer'']"

definition states_of :: "jsv \<Rightarrow> string list" where
  "states_of r = (if js_get r ''direction'' = JStr ''forward'' then FORWARD else REVERSE)"

text \<open>The state and reason part of \<open>validate\<close>.\<close>

definition validState :: "jsv \<Rightarrow> bool" where
  "validState r =
     (let states = states_of r; terminal = state_in (js_get r ''state'') TERMINAL in
      (state_in (js_get r ''state'') states \<or> terminal)
      \<and> (if terminal
         then state_in (js_get r ''reasonCode'') REASONS \<and> state_in (js_get r ''terminalFrom'') states
         else js_get r ''reasonCode'' = JNull \<and> js_get r ''terminalFrom'' = JNull))"

definition js_le_num :: "jsv \<Rightarrow> jsv \<Rightarrow> bool" where
  "js_le_num a b = (case (a, b) of (JNum x, JNum y) \<Rightarrow> x \<le> y | _ \<Rightarrow> False)"

definition validate :: "jsv \<Rightarrow> bool" where
  "validate r \<longleftrightarrow>
     safeValue r \<and> own r RECORD_KEYS \<and> js_get r ''version'' = JNum 1
   \<and> state_in (js_get r ''direction'') [''forward'', ''reverse'']
   \<and> STRKEY_RE (js_get r ''owner'') \<and> ID_RE (js_get r ''requestId'')
   \<and> isSafeTime (js_get r ''createdAtMs'') \<and> isSafeTime (js_get r ''updatedAtMs'')
   \<and> js_le_num (js_get r ''createdAtMs'') (js_get r ''updatedAtMs'')
   \<and> validState r
   \<and> (if js_get r ''direction'' = JStr ''forward'' then validForwardTransfer (js_get r ''transfer'')
      else validReverseTransfer (js_get r ''transfer'') (js_get r ''requestId''))
   \<and> hasEvidence r"

subsection \<open>Storage access\<close>

type_synonym 'a journal_res = "storage \<times> (journal_error + 'a)"

definition journalWrite :: "device \<Rightarrow> storage \<Rightarrow> string \<Rightarrow> jsv \<Rightarrow> jsv journal_res" where
  "journalWrite d st key r =
     (case setItem d st key (Stringified r) of
        None \<Rightarrow> (st, Inl journal_unavailable)
      | Some st' \<Rightarrow>
          if \<not> getThrows d st' key \<and> map_of st' key = Some (Stringified r) \<and> validate r
          then (st', Inr r) else (st', Inl journal_unavailable))"

definition removeItem :: "device \<Rightarrow> storage \<Rightarrow> string \<Rightarrow> storage" where
  "removeItem d st key = (if removeThrows d st key then st else AList.delete key st)"

text \<open>The acceptance test of \<open>rawRead\<close> on the text it found.\<close>

definition acceptable :: "jsv \<Rightarrow> jsv \<Rightarrow> raw \<Rightarrow> jsv option" where
  "acceptable owner requestId raw1 =
     (case json_parse raw1 of
        None \<Rightarrow> None
      | Some r \<Rightarrow>
          if validate r \<and> ownerKey (js_get r ''owner'') = ownerKey owner
             \<and> js_is_str requestId \<and> js_get r ''requestId'' = requestId
          then Some r else None)"

definition rawRead :: "device \<Rightarrow> bool \<Rightarrow> storage \<Rightarrow> jsv \<Rightarrow> jsv \<Rightarrow> jsv option journal_res" where
  "rawRead d quarantine st owner requestId =
     (if \<not> validOwner owner \<or> \<not> ID_RE requestId then (st, Inr None)
      else if \<not> usable d \<or> getThrows d st (keyFor owner requestId) then (st, Inl journal_unavailable)
      else case map_of st (keyFor owner requestId) of
             None \<Rightarrow> (st, Inr None)
           | Some raw1 \<Rightarrow>
               (case acceptable owner requestId raw1 of
                  Some r \<Rightarrow> (st, Inr (Some r))
                | None \<Rightarrow> (if quarantine then removeItem d st (keyFor owner requestId) else st, Inr None)))"

subsection \<open>Exported operations\<close>

definition createCctpTransfer :: "device \<Rightarrow> storage \<Rightarrow> jsv \<Rightarrow> jsv journal_res" where
  "createCctpTransfer d st r =
     (if \<not> validate r then (st, Inl journal_invalid)
      else if \<not> usable d then (st, Inl journal_unavailable)
      else
        let owner = js_get r ''owner''; requestId = js_get r ''requestId'' in
        case rawRead d True st owner requestId of
          (st', Inl e) \<Rightarrow> (st', Inl e)
        | (st', Inr (Some existing)) \<Rightarrow>
            if existing = r then (st', Inr existing) else (st', Inl journal_conflict)
        | (st', Inr None) \<Rightarrow> journalWrite d st' (keyFor owner requestId) r)"

definition readCctpTransfer :: "device \<Rightarrow> bool \<Rightarrow> storage \<Rightarrow> jsv \<Rightarrow> jsv \<Rightarrow> jsv option journal_res" where
  "readCctpTransfer d quarantine st owner requestId = rawRead d quarantine st owner requestId"

text \<open>\<open>Object.entries(v)\<close>: an array and a string list their indexes, \<open>null\<close> throws.\<close>

fun js_entries :: "jsv \<Rightarrow> (string \<times> jsv) list option" where
  "js_entries JUndef = None"
| "js_entries JNull = None"
| "js_entries (JObj kvs) = Some kvs"
| "js_entries (JArr xs) = Some (zip (map show_nat [0..<length xs]) xs)"
| "js_entries (JStr s) = Some (zip (map show_nat [0..<length s]) (map (\<lambda>c. JStr [c]) s))"
| "js_entries _ = Some []"

fun js_primitive :: "jsv \<Rightarrow> bool" where
  "js_primitive (JArr xs) = False"
| "js_primitive (JObj kvs) = False"
| "js_primitive _ = True"

text \<open>\<open>a === b\<close> on values of different origin: two objects are never the same.\<close>

definition strict_eq :: "jsv \<Rightarrow> jsv \<Rightarrow> bool" where
  "strict_eq a b \<longleftrightarrow> a = b \<and> js_primitive a"

fun js_set :: "jsv \<Rightarrow> string \<Rightarrow> jsv \<Rightarrow> jsv" where
  "js_set (JObj kvs) k v = JObj (AList.update k v kvs)"
| "js_set w k v = w"

text \<open>\<open>Object.assign(target, fields)\<close>.\<close>

definition js_assign :: "jsv \<Rightarrow> (string \<times> jsv) list \<Rightarrow> jsv" where
  "js_assign target kvs = foldl (\<lambda>t kv. js_set t (fst kv) (snd kv)) target kvs"

text \<open>\<open>states.indexOf(x)\<close>.\<close>

definition index_of :: "string list \<Rightarrow> jsv \<Rightarrow> int" where
  "index_of xs v =
     (if state_in v xs then int (length (takeWhile (\<lambda>x. JStr x \<noteq> v) xs)) else -1)"

definition allowedFields :: "jsv \<Rightarrow> string list" where
  "allowedFields current =
     (if js_get current ''direction'' = JStr ''forward'' then [''jobId'', ''burnTxHash'']
      else [''userOpHash'', ''unwindTxHash''])"

text \<open>The record a checkpoint writes.\<close>

definition nextRecord :: "jsv \<Rightarrow> jsv \<Rightarrow> jsv \<Rightarrow> (string \<times> jsv) list \<Rightarrow> int \<Rightarrow> jsv" where
  "nextRecord current from to kvs now =
     (let n1 = js_set current ''state'' to;
          n2 = js_set n1 ''updatedAtMs''
                 (case js_get current ''updatedAtMs'' of JNum u \<Rightarrow> JNum (max u now) | v \<Rightarrow> v);
          n3 = js_set n2 ''transfer''
                 (js_assign (js_get current ''transfer'') (filter (\<lambda>kv. fst kv \<noteq> ''reasonCode'') kvs))
      in if state_in to TERMINAL
         then js_set (js_set n3 ''reasonCode'' (js_get (JObj kvs) ''reasonCode'')) ''terminalFrom'' from
         else n3)"

text \<open>A patch field the current transfer already holds with another value.\<close>

definition overwrites :: "jsv \<Rightarrow> string \<times> jsv \<Rightarrow> bool" where
  "overwrites current kv \<longleftrightarrow>
     fst kv \<noteq> ''reasonCode'' \<and> js_get (js_get current ''transfer'') (fst kv) \<noteq> JNull
   \<and> \<not> strict_eq (js_get (js_get current ''transfer'') (fst kv)) (snd kv)"

text \<open>The replay test: the patch is what the current record already holds.\<close>

definition alreadyHolds :: "jsv \<Rightarrow> string \<times> jsv \<Rightarrow> bool" where
  "alreadyHolds current kv =
     (if fst kv = ''reasonCode'' then strict_eq (js_get current ''reasonCode'') (snd kv)
      else strict_eq (js_get (js_get current ''transfer'') (fst kv)) (snd kv))"

text \<open>
  \<open>checkpointCctpTransfer\<close> after the current record was read: \<open>Inl\<close> an error, \<open>Inr None\<close> an
  acknowledgement that writes nothing, \<open>Inr (Some next)\<close> the record to write.
\<close>

definition checkpointDecision :: "jsv \<Rightarrow> jsv \<Rightarrow> jsv \<Rightarrow> jsv \<Rightarrow> int \<Rightarrow> journal_error + jsv option" where
  "checkpointDecision current from to patch now =
     (if \<not> safeValue patch then Inl journal_invalid
      else if js_get current ''state'' = to \<and> from \<noteq> to then
        (case js_entries patch of
           None \<Rightarrow> Inl type_error
         | Some kvs \<Rightarrow> if list_all (alreadyHolds current) kvs then Inr None else Inl journal_conflict)
      else if js_get current ''state'' \<noteq> from then Inl journal_conflict
      else
        let states = states_of current; exact = (from = to \<and> patch = JObj []); terminal = state_in to TERMINAL in
        if exact then Inr None
        else if (\<not> terminal \<and> index_of states to \<noteq> index_of states from + 1)
                \<or> (terminal \<and> \<not> state_in from states) then Inl journal_conflict
        else if \<not> terminal \<and> patch = JNull then Inl type_error
        else if \<not> own patch (if terminal then [''reasonCode'']
                             else filter (js_has_own patch) (allowedFields current)) then Inl journal_invalid
        else case js_entries patch of
          None \<Rightarrow> Inl type_error
        | Some kvs \<Rightarrow>
            if list_ex (overwrites current) kvs then Inl journal_conflict
            else let next1 = nextRecord current from to kvs now in
                 if \<not> validate next1 then Inl journal_conflict else Inr (Some next1))"

definition checkpointCctpTransfer ::
  "device \<Rightarrow> storage \<Rightarrow> jsv \<Rightarrow> jsv \<Rightarrow> jsv \<Rightarrow> jsv \<Rightarrow> jsv \<Rightarrow> int \<Rightarrow> jsv journal_res" where
  "checkpointCctpTransfer d st owner requestId from to patch now =
     (if \<not> usable d then (st, Inl journal_unavailable)
      else case rawRead d True st owner requestId of
        (st', Inl e) \<Rightarrow> (st', Inl e)
      | (st', Inr None) \<Rightarrow> (st', Inl journal_conflict)
      | (st', Inr (Some current)) \<Rightarrow>
          (case checkpointDecision current from to (if patch = JUndef then JObj [] else patch) now of
             Inl e \<Rightarrow> (st', Inl e)
           | Inr None \<Rightarrow> (st', Inr current)
           | Inr (Some next1) \<Rightarrow> journalWrite d st' (keyFor owner requestId) next1))"

fun readAll :: "device \<Rightarrow> storage \<Rightarrow> jsv \<Rightarrow> string list \<Rightarrow> jsv list journal_res" where
  "readAll d st owner [] = (st, Inr [])"
| "readAll d st owner (key # keys) =
     (let pre = PREFIX @ ownerKey owner @ '':'' in
      if take (length pre) key \<noteq> pre then readAll d st owner keys
      else case rawRead d True st owner (JStr (drop (length pre) key)) of
             (st', Inl e) \<Rightarrow> (st', Inl e)
           | (st', Inr found) \<Rightarrow>
               (case readAll d st' owner keys of
                  (st2, Inl e) \<Rightarrow> (st2, Inl e)
                | (st2, Inr rs) \<Rightarrow> (st2, Inr (case found of None \<Rightarrow> rs | Some r \<Rightarrow> r # rs))))"

text \<open>
  The order of a listing: \<open>createdAtMs\<close>, then \<open>requestId\<close> (32 lower-case hex digits, on which
  \<open>localeCompare\<close> is the order of the characters).
\<close>

definition listing_key :: "jsv \<Rightarrow> int \<times> string" where
  "listing_key r =
     ((case js_get r ''createdAtMs'' of JNum n \<Rightarrow> n | _ \<Rightarrow> 0), js_to_key (js_get r ''requestId''))"

definition listCctpTransfers :: "device \<Rightarrow> storage \<Rightarrow> jsv \<Rightarrow> jsv \<Rightarrow> jsv list journal_res" where
  "listCctpTransfers d st owner limit =
     (case (if limit = JUndef then JNum 20 else limit) of
        JNum n \<Rightarrow>
          if \<not> validOwner owner \<or> \<not> safe_int n \<or> n < 0 then (st, Inl journal_invalid)
          else if \<not> usable d then (st, Inl journal_unavailable)
          else (case readAll d st owner (map fst st) of
                  (st', Inl e) \<Rightarrow> (st', Inl e)
                | (st', Inr found) \<Rightarrow> (st', Inr (take (nat n) (sort_key listing_key found))))
      | _ \<Rightarrow> (st, Inl journal_invalid))"

definition removeCctpTransfer :: "device \<Rightarrow> storage \<Rightarrow> jsv \<Rightarrow> jsv \<Rightarrow> unit journal_res" where
  "removeCctpTransfer d st owner requestId =
     (if \<not> validOwner owner \<or> \<not> ID_RE requestId then (st, Inl journal_invalid)
      else if \<not> usable d \<or> removeThrows d st (keyFor owner requestId) then (st, Inl journal_unavailable)
      else (AList.delete (keyFor owner requestId) st, Inr ()))"

end
