(* ===== verification/JournalSafety.thy ===== *)
theory JournalSafety
  imports TransferJournal
begin

section \<open>What the transfer journal guarantees\<close>

text \<open>
  A checkpoint or a creation that returns has left the record it returns readable; a checkpoint
  moves a record one position along its direction's states or to a terminal state and never
  rewrites evidence; a repeated checkpoint is a read-only acknowledgement; over any sequence of
  operations a record never moves backwards and a terminal record never changes.
\<close>

subsection \<open>Objects\<close>

lemma js_is_obj_set [simp]: "js_is_obj (js_set v k x) = js_is_obj v"
  by (cases v) auto

lemma js_get_set: "js_is_obj v \<Longrightarrow> js_get (js_set v k x) k' = (if k' = k then x else js_get v k')"
  by (cases v) auto

lemma js_is_obj_assign [simp]: "js_is_obj (js_assign v kvs) = js_is_obj v"
  by (induction kvs arbitrary: v) (auto simp: js_assign_def)

lemma js_get_assign_other:
  "js_is_obj v \<Longrightarrow> k \<notin> fst ` set kvs \<Longrightarrow> js_get (js_assign v kvs) k = js_get v k"
  by (induction kvs arbitrary: v) (auto simp: js_assign_def js_get_set)

lemma js_get_assign_in:
  "js_is_obj v \<Longrightarrow> k \<in> fst ` set kvs \<Longrightarrow> \<exists>x. (k, x) \<in> set kvs \<and> js_get (js_assign v kvs) k = x"
proof (induction kvs arbitrary: v)
  case (Cons kv kvs)
  show ?case
  proof (cases "k \<in> fst ` set kvs")
    case True
    with Cons.IH [of "js_set v (fst kv) (snd kv)"] Cons.prems show ?thesis by (auto simp: js_assign_def)
  next
    case False
    with Cons.prems have k: "k = fst kv" by auto
    have "js_get (js_assign (js_set v (fst kv) (snd kv)) kvs) k = snd kv"
      using False Cons.prems by (simp add: js_get_assign_other js_get_set k)
    moreover have "(k, snd kv) \<in> set (kv # kvs)" by (simp add: k)
    ultimately show ?thesis by (simp add: js_assign_def)
  qed
qed simp

lemma own_obj: "own v keys \<Longrightarrow> js_is_obj v"
  by (simp add: own_def)

lemma own_keys: "own (JObj kvs) keys \<Longrightarrow> fst ` set kvs \<subseteq> set keys"
  by (auto simp: own_def list_all_iff)

lemma strict_eqD: "strict_eq a b \<Longrightarrow> a = b"
  by (simp add: strict_eq_def)

subsection \<open>Valid records\<close>

lemma validate_obj: "validate r \<Longrightarrow> js_is_obj r"
  by (simp add: validate_def own_def)

lemma validate_transfer_obj: "validate r \<Longrightarrow> js_is_obj (js_get r ''transfer'')"
  by (auto simp: validate_def validForwardTransfer_def validReverseTransfer_def own_obj split: if_splits)

lemma validate_state: "validate r \<Longrightarrow> validState r"
  by (simp add: validate_def)

lemma terminal_not_state: "state_in v TERMINAL \<Longrightarrow> \<not> state_in v (states_of r)"
  by (auto simp: state_in_def TERMINAL_def states_of_def FORWARD_def REVERSE_def)

lemma valid_terminal_reason:
  "validate r \<Longrightarrow> state_in (js_get r ''state'') TERMINAL \<Longrightarrow> js_get r ''reasonCode'' \<noteq> JNull"
  by (drule validate_state) (auto simp: validState_def Let_def state_in_def)

lemma valid_live_reason:
  "validate r \<Longrightarrow> \<not> state_in (js_get r ''state'') TERMINAL \<Longrightarrow>
     js_get r ''reasonCode'' = JNull \<and> state_in (js_get r ''state'') (states_of r)"
  by (drule validate_state) (auto simp: validState_def Let_def)

subsection \<open>Reading\<close>

lemma acceptable_iff:
  "acceptable owner rid raw1 = Some r \<longleftrightarrow>
     json_parse raw1 = Some r \<and> validate r \<and> ownerKey (js_get r ''owner'') = ownerKey owner
   \<and> js_is_str rid \<and> js_get r ''requestId'' = rid"
  by (auto simp: acceptable_def split: option.splits)

lemma rawRead_Some_iff:
  "rawRead d q st owner rid = (st', Inr (Some r)) \<longleftrightarrow>
     st' = st \<and> validOwner owner \<and> ID_RE rid \<and> usable d \<and> \<not> getThrows d st (keyFor owner rid)
   \<and> (\<exists>raw1. map_of st (keyFor owner rid) = Some raw1 \<and> acceptable owner rid raw1 = Some r)"
  by (auto simp: rawRead_def split: option.splits)

lemma write_ok:
  "journalWrite d st key r = (st', Inr r') \<Longrightarrow>
     r' = r \<and> map_of st' key = Some (Stringified r) \<and> validate r \<and> \<not> getThrows d st' key"
  by (auto simp: journalWrite_def split: option.splits if_splits)

lemma upper_base32: "is_base32 c \<Longrightarrow> upper_char c = c"
proof -
  have "list_all (\<lambda>c. upper_char c = c) ''ABCDEFGHIJKLMNOPQRSTUVWXYZ234567''" by code_simp
  then show "is_base32 c \<Longrightarrow> ?thesis" by (auto simp: is_base32_def list_all_iff)
qed

lemma strkey_base32: "strkey s \<Longrightarrow> list_all is_base32 s"
  by (auto simp: strkey_def is_base32_def split: list.splits)

lemma strkey_upper [simp]: "strkey s \<Longrightarrow> strkey (map upper_char s)"
proof -
  assume s: "strkey s"
  have "map upper_char s = s"
    using strkey_base32 [OF s] by (auto simp: list_all_iff upper_base32 intro: map_idI)
  with s show ?thesis by simp
qed

subsection \<open>The record a checkpoint writes\<close>

lemma nextRecord_get:
  assumes "js_is_obj cur"
  shows "js_get (nextRecord cur from to kvs now) k =
    (if k = ''state'' then to
     else if k = ''updatedAtMs'' then (case js_get cur ''updatedAtMs'' of JNum u \<Rightarrow> JNum (max u now) | v \<Rightarrow> v)
     else if k = ''transfer''
       then js_assign (js_get cur ''transfer'') (filter (\<lambda>kv. fst kv \<noteq> ''reasonCode'') kvs)
     else if k = ''reasonCode'' \<and> state_in to TERMINAL then js_get (JObj kvs) ''reasonCode''
     else if k = ''terminalFrom'' \<and> state_in to TERMINAL then from
     else js_get cur k)"
  using assms by (simp add: nextRecord_def Let_def js_get_set)

lemmas decision_splits = if_splits option.splits

lemma checkpointDecision_Some:
  assumes "checkpointDecision cur from to patch now = Inr (Some n)"
  obtains kvs where "patch = JObj kvs" "js_get cur ''state'' = from" "n = nextRecord cur from to kvs now"
    "validate n" "\<not> list_ex (overwrites cur) kvs"
    "if state_in to TERMINAL then state_in from (states_of cur) \<and> own patch [''reasonCode'']
     else index_of (states_of cur) to = index_of (states_of cur) from + 1
        \<and> own patch (filter (js_has_own patch) (allowedFields cur))"
proof -
  from assms have o: "js_is_obj patch"
    by (auto simp: checkpointDecision_def Let_def own_def split: decision_splits)
  then obtain kvs where "patch = JObj kvs" by (cases patch) auto
  with assms show ?thesis
    by (intro that [of kvs]) (auto simp: checkpointDecision_def Let_def split: decision_splits)
qed

lemma next_transfer:
  fixes frm to :: jsv and now :: int
  assumes cur: "validate cur" and kvs: "\<not> list_ex (overwrites cur) kvs"
    and keys: "fst ` set (filter (\<lambda>kv. fst kv \<noteq> ''reasonCode'') kvs) \<subseteq> set (allowedFields cur)"
  defines "t \<equiv> js_get cur ''transfer''"
    and "t' \<equiv> js_get (nextRecord cur frm to kvs now) ''transfer''"
  shows "js_get t k \<noteq> JNull \<or> k \<notin> set (allowedFields cur) \<Longrightarrow> js_get t' k = js_get t k"
proof -
  let ?fs = "filter (\<lambda>kv. fst kv \<noteq> ''reasonCode'') kvs"
  have t': "t' = js_assign t ?fs"
    using validate_obj [OF cur] by (simp add: t'_def t_def nextRecord_get)
  have o: "js_is_obj t" using validate_transfer_obj [OF cur] by (simp add: t_def)
  assume k: "js_get t k \<noteq> JNull \<or> k \<notin> set (allowedFields cur)"
  show ?thesis
  proof (cases "k \<in> fst ` set ?fs")
    case True
    from js_get_assign_in [OF o True] obtain x where x: "(k, x) \<in> set ?fs" "js_get t' k = x"
      by (auto simp: t')
    with True keys k have "js_get t k \<noteq> JNull" by auto
    with x kvs have "strict_eq (js_get t k) x" by (auto simp: list_ex_iff overwrites_def t_def)
    with x show ?thesis by (auto dest: strict_eqD)
  qed (simp add: t' o js_get_assign_other)
qed

lemma decision_keys:
  assumes "checkpointDecision cur from to (JObj kvs) now = Inr (Some n)"
  shows "fst ` set (filter (\<lambda>kv. fst kv \<noteq> ''reasonCode'') kvs) \<subseteq> set (allowedFields cur)"
  using assms
  by (elim checkpointDecision_Some) (auto dest!: own_keys split: if_splits)

lemma decision_from_live:
  assumes cur: "validate cur" and dec: "checkpointDecision cur from to patch now = Inr (Some n)"
  shows "js_get cur ''state'' = from \<and> state_in from (states_of cur)"
proof (rule ccontr)
  assume no: "\<not> ?thesis"
  from dec obtain kvs where d: "js_get cur ''state'' = from" "n = nextRecord cur from to kvs now" "validate n"
    "state_in to TERMINAL \<Longrightarrow> state_in from (states_of cur)"
    by (elim checkpointDecision_Some) (auto split: if_splits)
  with no have to: "\<not> state_in to TERMINAL" by auto
  with cur no d have "state_in from TERMINAL" using valid_live_reason by blast
  with cur d have "js_get cur ''reasonCode'' \<noteq> JNull" using valid_terminal_reason by blast
  moreover have "js_get n ''state'' = to" "js_get n ''reasonCode'' = js_get cur ''reasonCode''"
    using validate_obj [OF cur] to d(2) by (simp_all add: nextRecord_get)
  ultimately show False using valid_live_reason [OF d(3)] to by simp
qed

text \<open>What one writing checkpoint does to a valid record.\<close>

definition record_step :: "jsv \<Rightarrow> jsv \<Rightarrow> bool" where
  "record_step cur n \<longleftrightarrow>
     state_in (js_get cur ''state'') (states_of cur)
   \<and> (if state_in (js_get n ''state'') TERMINAL
      then js_get n ''terminalFrom'' = js_get cur ''state'' \<and> state_in (js_get n ''reasonCode'') REASONS
      else index_of (states_of cur) (js_get n ''state'') = index_of (states_of cur) (js_get cur ''state'') + 1)
   \<and> list_all (\<lambda>k. js_get n k = js_get cur k) [''version'', ''direction'', ''owner'', ''requestId'', ''createdAtMs'']
   \<and> js_le_num (js_get cur ''updatedAtMs'') (js_get n ''updatedAtMs'')"

text \<open>Evidence the record already holds, and every field no checkpoint may patch, is kept.\<close>

definition evidence_kept :: "jsv \<Rightarrow> jsv \<Rightarrow> bool" where
  "evidence_kept cur n \<longleftrightarrow>
     (let t = js_get cur ''transfer''; t' = js_get n ''transfer'' in
      \<forall>k. js_get t k \<noteq> JNull \<or> k \<notin> set (allowedFields cur) \<longrightarrow> js_get t' k = js_get t k)"

lemma decision_step:
  assumes cur: "validate cur" and dec: "checkpointDecision cur from to patch now = Inr (Some n)"
  shows "record_step cur n \<and> evidence_kept cur n \<and> validate n \<and> js_get n ''state'' = to"
proof -
  from dec obtain kvs where d: "patch = JObj kvs" "n = nextRecord cur from to kvs now" "validate n"
    "\<not> list_ex (overwrites cur) kvs"
    "\<not> state_in to TERMINAL \<Longrightarrow> index_of (states_of cur) to = index_of (states_of cur) from + 1"
    by (elim checkpointDecision_Some) (auto split: if_splits)
  note live = decision_from_live [OF cur dec]
  note get = nextRecord_get [OF validate_obj [OF cur], of "from" to kvs now, folded d(2)]
  have "evidence_kept cur n"
    using next_transfer [OF cur d(4) decision_keys [OF dec [unfolded d(1)]], of _ "from" to now]
    by (simp add: evidence_kept_def Let_def d(2))
  moreover have "state_in to TERMINAL \<Longrightarrow> state_in (js_get n ''reasonCode'') REASONS"
    using validate_state [OF d(3)] get [of "''state''"] by (simp add: validState_def Let_def)
  moreover have "isSafeTime (js_get cur ''updatedAtMs'')" using cur by (simp add: validate_def)
  ultimately show ?thesis
    using live d(3,5) by (auto simp: record_step_def get js_le_num_def isSafeTime_def split: jsv.splits)
qed

lemma decision_identity:
  assumes "validate cur" and "checkpointDecision cur from to patch now = Inr (Some n)"
  shows "js_get n ''owner'' = js_get cur ''owner''" "js_get n ''requestId'' = js_get cur ''requestId''"
  using decision_step [OF assms] by (auto simp: record_step_def)

lemma checkpoint_ok:
  assumes "checkpointCctpTransfer d st owner rid from to patch now = (st', Inr r)"
  obtains cur where "rawRead d True st owner rid = (st, Inr (Some cur))" "validate cur"
    "ownerKey (js_get cur ''owner'') = ownerKey owner" "js_is_str rid" "js_get cur ''requestId'' = rid"
    "(r = cur \<and> st' = st
        \<and> checkpointDecision cur from to (if patch = JUndef then JObj [] else patch) now = Inr None)
     \<or> (checkpointDecision cur from to (if patch = JUndef then JObj [] else patch) now = Inr (Some r)
        \<and> journalWrite d st (keyFor owner rid) r = (st', Inr r))"
proof -
  let ?p = "if patch = JUndef then JObj [] else patch"
  from assms obtain st1 cur where rd: "rawRead d True st owner rid = (st1, Inr (Some cur))"
    by (auto simp: checkpointCctpTransfer_def split: if_splits prod.splits sum.splits option.splits)
  then have st1: "st1 = st" "usable d" by (auto simp: rawRead_Some_iff)
  have "(case checkpointDecision cur from to ?p now of
             Inl e \<Rightarrow> (st, Inl e)
           | Inr None \<Rightarrow> (st, Inr cur)
           | Inr (Some next1) \<Rightarrow> journalWrite d st (keyFor owner rid) next1) = (st', Inr r)"
    using assms by (simp add: checkpointCctpTransfer_def rd st1)
  then have "(r = cur \<and> st' = st \<and> checkpointDecision cur from to ?p now = Inr None)
     \<or> (checkpointDecision cur from to ?p now = Inr (Some r) \<and> journalWrite d st (keyFor owner rid) r = (st', Inr r))"
    by (auto split: sum.splits option.splits dest: write_ok)
  with rd st1 show ?thesis by (intro that [of cur]) (auto simp: rawRead_Some_iff acceptable_iff)
qed

lemma read_back:
  assumes "rawRead d q st owner rid = (st, Inr (Some cur))" and "journalWrite d st (keyFor owner rid) r = (st', Inr r)"
    and "js_get r ''owner'' = js_get cur ''owner''" and "js_get r ''requestId'' = js_get cur ''requestId''"
  shows "rawRead d q' st' owner rid = (st', Inr (Some r))"
  using assms write_ok [OF assms(2)] by (auto simp: rawRead_Some_iff acceptable_iff)

lemma rawRead_any_quarantine:
  "rawRead d q st owner rid = (st, Inr (Some r)) \<Longrightarrow> rawRead d q' st owner rid = (st, Inr (Some r))"
  by (simp add: rawRead_Some_iff)

lemma checkpoint_reads_back:
  assumes "checkpointCctpTransfer d st owner rid from to patch now = (st', Inr r)"
  shows "rawRead d q st' owner rid = (st', Inr (Some r))"
  using assms
proof (rule checkpoint_ok)
  fix cur
  assume rd: "rawRead d True st owner rid = (st, Inr (Some cur))" and v: "validate cur"
    and dec: "(r = cur \<and> st' = st
        \<and> checkpointDecision cur from to (if patch = JUndef then JObj [] else patch) now = Inr None)
     \<or> (checkpointDecision cur from to (if patch = JUndef then JObj [] else patch) now = Inr (Some r)
        \<and> journalWrite d st (keyFor owner rid) r = (st', Inr r))"
  from dec show ?thesis
  proof (elim disjE conjE)
    assume "checkpointDecision cur from to (if patch = JUndef then JObj [] else patch) now = Inr (Some r)"
      and "journalWrite d st (keyFor owner rid) r = (st', Inr r)"
    with rd v show ?thesis by (intro read_back [OF rd]) (auto dest: decision_identity)
  qed (use rd in \<open>auto intro: rawRead_any_quarantine\<close>)
qed

lemma create_reads_back:
  assumes "createCctpTransfer d st r0 = (st', Inr r)"
    and owner: "js_is_str (js_get r0 ''owner'')" and rid: "js_is_str (js_get r0 ''requestId'')"
  shows "r = r0 \<and> rawRead d q st' (js_get r0 ''owner'') (js_get r0 ''requestId'') = (st', Inr (Some r0))"
proof -
  let ?o = "js_get r0 ''owner''" and ?i = "js_get r0 ''requestId''"
  from assms have v: "validate r0" and u: "usable d"
    by (auto simp: createCctpTransfer_def split: if_splits)
  then have oi: "validOwner ?o" "ID_RE ?i"
    using owner by (auto simp: validate_def STRKEY_RE_def elim!: js_is_str.elims)
  obtain st1 x where rd: "rawRead d True st ?o ?i = (st1, x)" by force
  show ?thesis
  proof (cases x)
    case (Inr ex)
    then show ?thesis
    proof (cases ex)
      case None
      with assms v u rd Inr have w: "journalWrite d st1 (keyFor ?o ?i) r0 = (st', Inr r)"
        by (simp add: createCctpTransfer_def Let_def)
      with write_ok [OF this] oi u rid show ?thesis by (auto simp: rawRead_Some_iff acceptable_iff)
    next
      case (Some e)
      with assms v u rd Inr have "e = r0" "st' = st1" "r = r0"
        by (auto simp: createCctpTransfer_def Let_def split: if_splits)
      moreover have "st1 = st" using rd Inr Some by (auto simp: rawRead_Some_iff)
      ultimately show ?thesis using rd Inr Some by (auto intro: rawRead_any_quarantine)
    qed
  qed (use assms v u rd in \<open>simp add: createCctpTransfer_def Let_def\<close>)
qed

text \<open>
  C27. Whatever the browser's storage does with a write, a checkpoint that returns a record, and a
  creation that returns one whose owner and request id are strings, has left the storage in a state
  from which reading that transfer returns exactly this record, and it is valid: an irreversible
  action that waits for the return is fenced by a durable record. (The checks coerce to text: a
  creation also accepts an owner that is an array of the text, and then no read finds the record,
  see \<open>array_owner_unreadable\<close>.)
\<close>

theorem journal_success_is_durable:
  shows "(checkpointCctpTransfer d st owner rid from to patch now = (st', Inr r) \<longrightarrow>
            readCctpTransfer d q st' owner rid = (st', Inr (Some r)) \<and> validate r)
       \<and> (createCctpTransfer d st r0 = (st1, Inr r1) \<longrightarrow>
            js_is_str (js_get r0 ''owner'') \<longrightarrow> js_is_str (js_get r0 ''requestId'') \<longrightarrow>
            r1 = r0 \<and> validate r0
          \<and> readCctpTransfer d q st1 (js_get r0 ''owner'') (js_get r0 ''requestId'') = (st1, Inr (Some r0)))"
  using checkpoint_reads_back [of d st owner rid "from" to patch now st' r q] create_reads_back [of d st r0 st1 r1 q]
  by (auto simp: readCctpTransfer_def rawRead_Some_iff acceptable_iff)

text \<open>
  C26. A checkpoint that returns either changed nothing and returned the current record, or moved
  the record from a live state to the next state of its direction or to a terminal state (which
  records a known reason and the state it came from). The identity of the record and its creation
  time never change, its update time never decreases, evidence it already holds is never
  overwritten and no transfer field beyond the evidence is touched.
\<close>

theorem checkpoint_moves_one_step:
  assumes "readCctpTransfer d True st owner rid = (st, Inr (Some cur))"
    and "checkpointCctpTransfer d st owner rid from to patch now = (st', Inr r)"
  shows "r = cur \<and> st' = st
       \<or> js_get cur ''state'' = from \<and> js_get r ''state'' = to \<and> record_step cur r \<and> evidence_kept cur r"
  using assms(2)
proof (rule checkpoint_ok)
  fix cur'
  assume rd: "rawRead d True st owner rid = (st, Inr (Some cur'))" and v: "validate cur'"
    and dec: "(r = cur' \<and> st' = st
        \<and> checkpointDecision cur' from to (if patch = JUndef then JObj [] else patch) now = Inr None)
     \<or> (checkpointDecision cur' from to (if patch = JUndef then JObj [] else patch) now = Inr (Some r)
        \<and> journalWrite d st (keyFor owner rid) r = (st', Inr r))"
  from rd assms(1) have "cur' = cur" by (simp add: readCctpTransfer_def)
  with dec v show ?thesis using decision_from_live decision_step by blast
qed

subsection \<open>Replays\<close>

lemma js_get_assign_distinct:
  "js_is_obj v \<Longrightarrow> distinct (map fst kvs) \<Longrightarrow> (k, x) \<in> set kvs \<Longrightarrow> js_get (js_assign v kvs) k = x"
  using js_get_assign_in [of v k kvs] by (metis eq_key_imp_eq_value image_eqI fst_conv)

lemma next_holds_patch:
  assumes cur: "validate cur" and kvs: "distinct (map fst kvs)" "\<forall>kv \<in> set kvs. js_primitive (snd kv)"
    and reason: "''reasonCode'' \<in> fst ` set kvs \<Longrightarrow> state_in to TERMINAL"
  shows "list_all (alreadyHolds (nextRecord cur from to kvs now)) kvs"
proof (clarsimp simp: list_all_iff)
  fix k x assume kx: "(k, x) \<in> set kvs"
  let ?n = "nextRecord cur from to kvs now"
  note get = nextRecord_get [OF validate_obj [OF cur]]
  have p: "js_primitive x" using kvs kx by auto
  show "alreadyHolds ?n (k, x)"
  proof (cases "k = ''reasonCode''")
    case True
    with kx reason have "state_in to TERMINAL" by force
    moreover have "js_get (JObj kvs) k = x" using kx kvs by simp
    ultimately show ?thesis using p True by (simp add: alreadyHolds_def strict_eq_def get)
  next
    case False
    let ?fs = "filter (\<lambda>kv. fst kv \<noteq> ''reasonCode'') kvs"
    have "distinct (map fst ?fs)" using kvs(1) by (simp add: distinct_map_filter)
    moreover have "(k, x) \<in> set ?fs" using kx False by simp
    ultimately have "js_get (js_get ?n ''transfer'') k = x"
      using js_get_assign_distinct [OF validate_transfer_obj [OF cur]] by (simp add: get)
    with False p show ?thesis by (simp add: alreadyHolds_def strict_eq_def)
  qed
qed

lemma replay_decision:
  assumes cur: "validate cur" and dec: "checkpointDecision cur from to (JObj kvs) now = Inr (Some r)"
    and kvs: "distinct (map fst kvs)" "\<forall>kv \<in> set kvs. js_primitive (snd kv)" and ft: "from \<noteq> to"
  shows "checkpointDecision r from to (JObj kvs) now2 = Inr None"
proof -
  from dec have r: "r = nextRecord cur from to kvs now" by (rule checkpointDecision_Some) simp
  have s: "safeValue (JObj kvs)"
    using dec by (simp add: checkpointDecision_def split: if_splits del: safeValue.simps)
  have own: "fst ` set kvs \<subseteq> set (allowedFields cur)" if "\<not> state_in to TERMINAL"
    using dec by (rule checkpointDecision_Some) (use that in \<open>auto dest!: own_keys\<close>)
  have "list_all (alreadyHolds r) kvs"
    unfolding r by (rule next_holds_patch [OF cur kvs]) (use own in \<open>force simp: allowedFields_def split: if_splits\<close>)
  moreover have "js_get r ''state'' = to" using decision_step [OF cur dec] by simp
  ultimately show ?thesis using s ft by (simp add: checkpointDecision_def)
qed

text \<open>
  A response can be lost after the durable write. Repeating a checkpoint that succeeded,
  with the same arguments at any later time, acknowledges the record it wrote and leaves the storage
  as it is.
\<close>

theorem checkpoint_replay_is_read_only:
  assumes first: "checkpointCctpTransfer d st owner rid from to (JObj kvs) now = (st', Inr r)"
    and "from \<noteq> to" and "distinct (map fst kvs)" and "\<forall>kv \<in> set kvs. js_primitive (snd kv)"
  shows "checkpointCctpTransfer d st' owner rid from to (JObj kvs) now2 = (st', Inr r)"
proof -
  note rd = checkpoint_reads_back [OF first, of True]
  have "checkpointDecision r from to (JObj kvs) now2 = Inr None"
    using first
  proof (rule checkpoint_ok)
    fix cur
    assume v: "validate cur"
      and dec: "(r = cur \<and> st' = st
          \<and> checkpointDecision cur from to (if JObj kvs = JUndef then JObj [] else JObj kvs) now = Inr None)
       \<or> (checkpointDecision cur from to (if JObj kvs = JUndef then JObj [] else JObj kvs) now = Inr (Some r)
          \<and> journalWrite d st (keyFor owner rid) r = (st', Inr r))"
    have "checkpointDecision r from to (JObj kvs) now2 = Inr None"
      if "checkpointDecision r from to (JObj kvs) now = Inr None"
      using that assms(2)
      by (auto simp: checkpointDecision_def Let_def split: if_splits option.splits)
    with dec v assms show ?thesis by (auto intro: replay_decision)
  qed
  moreover have "usable d" using rd by (auto simp: rawRead_Some_iff)
  ultimately show ?thesis by (simp add: checkpointCctpTransfer_def rd)
qed

subsection \<open>Sequences of operations on one storage\<close>

text \<open>
  A storage that keeps what \<open>setItem\<close> wrote, or throws, as \<open>localStorage\<close> does. Callers pass the request
  id as a string (a create carries it in its record); the owner is any value. The operations are
  all the exported ones.
\<close>

definition honest :: "bool \<Rightarrow> device" where
  "honest full =
     \<lparr>usable = True, setItem = (\<lambda>st k v. if full then None else Some (AList.update k v st)),
      getThrows = (\<lambda>st k. False), removeThrows = (\<lambda>st k. full)\<rparr>"

datatype journal_op =
    JCreate bool string jsv
  | JRead bool jsv string
  | JCheckpoint bool jsv string jsv jsv jsv int
  | JList bool jsv jsv
  | JRemove bool jsv string

fun journal_apply :: "storage \<Rightarrow> journal_op \<Rightarrow> storage" where
  "journal_apply st (JCreate full rid r) = fst (createCctpTransfer (honest full) st (js_set r ''requestId'' (JStr rid)))"
| "journal_apply st (JRead full owner rid) = fst (readCctpTransfer (honest full) True st owner (JStr rid))"
| "journal_apply st (JCheckpoint full owner rid from to patch now) =
     fst (checkpointCctpTransfer (honest full) st owner (JStr rid) from to patch now)"
| "journal_apply st (JList full owner limit) = fst (listCctpTransfers (honest full) st owner limit)"
| "journal_apply st (JRemove full owner rid) = fst (removeCctpTransfer (honest full) st owner (JStr rid))"

text \<open>A call of \<open>removeCctpTransfer\<close> for this transfer.\<close>

definition removal :: "jsv \<Rightarrow> string \<Rightarrow> storage \<Rightarrow> journal_op \<Rightarrow> bool" where
  "removal owner rid st op =
     (case op of JRemove full owner' rid' \<Rightarrow> ownerKey owner' = ownerKey owner \<and> rid' = rid | _ \<Rightarrow> False)"

text \<open>The record a transfer has, and the states in which its row is absent or readable.\<close>

definition current :: "jsv \<Rightarrow> string \<Rightarrow> storage \<Rightarrow> jsv option" where
  "current owner rid st =
     (case map_of st (keyFor owner (JStr rid)) of None \<Rightarrow> None | Some raw1 \<Rightarrow> acceptable owner (JStr rid) raw1)"

definition row_ok :: "jsv \<Rightarrow> string \<Rightarrow> storage \<Rightarrow> bool" where
  "row_ok owner rid st \<longleftrightarrow>
     validOwner owner \<and> ID_RE (JStr rid)
   \<and> (map_of st (keyFor owner (JStr rid)) \<noteq> None \<longrightarrow> current owner rid st \<noteq> None)"

text \<open>One operation leaves the row alone, creates it, or moves it by one checkpoint.\<close>

definition row_moves :: "jsv \<Rightarrow> string \<Rightarrow> storage \<Rightarrow> storage \<Rightarrow> bool" where
  "row_moves owner rid st st' \<longleftrightarrow>
     map_of st' (keyFor owner (JStr rid)) = map_of st (keyFor owner (JStr rid))
   \<or> (\<exists>n. current owner rid st' = Some n \<and>
        (case current owner rid st of None \<Rightarrow> True | Some c \<Rightarrow> record_step c n \<and> evidence_kept c n))"

lemma validOwner_length: "validOwner owner \<Longrightarrow> length (ownerKey owner) = 56"
  by (cases owner) (auto simp: strkey_def split: list.splits)

lemma key_eq:
  assumes "validOwner owner" "validOwner owner'" "keyFor owner' i' = keyFor owner i"
  shows "ownerKey owner' = ownerKey owner \<and> js_to_key i' = js_to_key i"
  using assms validOwner_length by (auto simp: keyFor_def)

lemma row_ok_acceptable:
  "row_ok owner rid st \<Longrightarrow> map_of st (keyFor owner (JStr rid)) = Some raw1 \<Longrightarrow>
     \<exists>r. acceptable owner (JStr rid) raw1 = Some r \<and> current owner rid st = Some r"
  by (auto simp: row_ok_def current_def)

lemma acceptable_ownerKey: "ownerKey o1 = ownerKey o2 \<Longrightarrow> acceptable o1 i raw1 = acceptable o2 i raw1"
  by (simp add: acceptable_def cong: option.case_cong)

lemma same_row:
  assumes "row_ok owner rid st" "validOwner owner'" "keyFor owner' (JStr rid') = keyFor owner (JStr rid)"
  shows "rid' = rid" "acceptable owner' (JStr rid') = acceptable owner (JStr rid)"
proof -
  have "ownerKey owner' = ownerKey owner \<and> js_to_key (JStr rid') = js_to_key (JStr rid)"
    using assms by (intro key_eq) (auto simp: row_ok_def)
  then show "rid' = rid" "acceptable owner' (JStr rid') = acceptable owner (JStr rid)"
    by (auto intro!: ext acceptable_ownerKey)
qed

lemma rawRead_state:
  "fst (rawRead d q st owner i) = st \<or>
     (\<exists>raw1. validOwner owner \<and> map_of st (keyFor owner i) = Some raw1 \<and> acceptable owner i raw1 = None
        \<and> fst (rawRead d q st owner i) = AList.delete (keyFor owner i) st)"
  by (simp add: rawRead_def removeItem_def split: option.split)

lemma rawRead_keeps_row:
  assumes "row_ok owner rid st"
  shows "map_of (fst (rawRead d q st owner' (JStr rid'))) (keyFor owner (JStr rid)) = map_of st (keyFor owner (JStr rid))"
  using rawRead_state [of d q st owner' "JStr rid'"]
proof (elim disjE exE conjE)
  fix raw1
  assume o': "validOwner owner'" and raw1: "map_of st (keyFor owner' (JStr rid')) = Some raw1"
    and no: "acceptable owner' (JStr rid') raw1 = None"
    and st': "fst (rawRead d q st owner' (JStr rid')) = AList.delete (keyFor owner' (JStr rid')) st"
  have "keyFor owner' (JStr rid') \<noteq> keyFor owner (JStr rid)"
  proof
    assume k: "keyFor owner' (JStr rid') = keyFor owner (JStr rid)"
    with raw1 no same_row(2) [OF assms o' k] row_ok_acceptable [OF assms] show False by auto
  qed
  with st' show ?thesis by (simp add: delete_conv')
qed simp

lemma row_ok_cong:
  "map_of st' (keyFor owner (JStr rid)) = map_of st (keyFor owner (JStr rid)) \<Longrightarrow>
     row_ok owner rid st' = row_ok owner rid st \<and> current owner rid st' = current owner rid st"
  by (simp add: row_ok_def current_def)

lemma current_stored:
  "map_of st (keyFor owner (JStr rid)) = Some (Stringified n) \<Longrightarrow> validate n \<Longrightarrow>
     ownerKey (js_get n ''owner'') = ownerKey owner \<Longrightarrow> js_get n ''requestId'' = JStr rid \<Longrightarrow>
     current owner rid st = Some n"
  by (simp add: current_def acceptable_iff)

lemma write_honest:
  "fst (journalWrite (honest full) st k r) = st \<or> fst (journalWrite (honest full) st k r) = AList.update k (Stringified r) st"
  by (simp add: journalWrite_def honest_def)

lemma row_movesI_same: "map_of st' (keyFor owner (JStr rid)) = map_of st (keyFor owner (JStr rid)) \<Longrightarrow> row_moves owner rid st st'"
  by (simp add: row_moves_def)

text \<open>A write is a move of the row it goes to, when it is a first record or a step of the current one.\<close>

lemma write_row_moves:
  assumes ok: "row_ok owner rid st" and o': "validOwner owner'" and v: "validate n"
    and id: "ownerKey (js_get n ''owner'') = ownerKey owner'" "js_get n ''requestId'' = JStr rid'"
    and step: "case current owner' rid' st of None \<Rightarrow> True | Some c \<Rightarrow> record_step c n \<and> evidence_kept c n"
  shows "row_moves owner rid st (fst (journalWrite (honest full) st (keyFor owner' (JStr rid')) n))"
proof (cases "keyFor owner' (JStr rid') = keyFor owner (JStr rid)")
  case True
  have "ownerKey owner' = ownerKey owner \<and> js_to_key (JStr rid') = js_to_key (JStr rid)"
    using ok o' True by (intro key_eq) (auto simp: row_ok_def)
  then have ids: "ownerKey (js_get n ''owner'') = ownerKey owner" "rid' = rid" using id by auto
  have cur: "current owner' rid' st = current owner rid st"
    using same_row [OF ok o' True] True by (simp add: current_def split: option.split)
  show ?thesis
    using write_honest [of full st "keyFor owner' (JStr rid')" n]
  proof
    assume upd: "fst (journalWrite (honest full) st (keyFor owner' (JStr rid')) n)
      = AList.update (keyFor owner' (JStr rid')) (Stringified n) st"
    have "current owner rid (AList.update (keyFor owner' (JStr rid')) (Stringified n) st) = Some n"
      using True v ids id by (intro current_stored) auto
    with step cur show ?thesis unfolding upd row_moves_def by auto
  qed (simp add: row_moves_def)
next
  case False
  then show ?thesis
    using write_honest [of full st "keyFor owner' (JStr rid')" n]
    by (intro row_movesI_same) (auto simp: fun_upd_apply)
qed

lemma read_current:
  assumes "row_ok owner rid st" "rawRead d True st owner' (JStr rid') = (st', Inr x)"
    and "validOwner owner'" "ID_RE (JStr rid')"
  shows "row_ok owner rid st' \<and> current owner' rid' st' = x
    \<and> map_of st' (keyFor owner (JStr rid)) = map_of st (keyFor owner (JStr rid))"
proof -
  have m: "map_of st' (keyFor owner (JStr rid)) = map_of st (keyFor owner (JStr rid))"
    using rawRead_keeps_row [OF assms(1), of d True owner' rid'] assms(2) by simp
  have "current owner' rid' st' = x"
    using assms(2-4) by (auto simp: rawRead_def removeItem_def current_def delete_conv' split: option.splits if_splits)
  with m row_ok_cong [OF m] assms(1) show ?thesis by simp
qed

lemma row_moves_after:
  "map_of st1 (keyFor owner (JStr rid)) = map_of st (keyFor owner (JStr rid)) \<Longrightarrow>
     row_moves owner rid st1 st' \<Longrightarrow> row_moves owner rid st st'"
  by (simp add: row_moves_def current_def)

text \<open>
  An owner that is not a string has no key of its own (\<open>ownerKey\<close> is the empty text), so a record
  stored under it shares its key with no readable row.
\<close>

lemma lower_char_colon: "lower_char d = CHR '':'' \<Longrightarrow> d = CHR '':''"
proof -
  assume "lower_char d = CHR '':''"
  then have l: "of_char (lower_char d) = (58 :: nat)" by simp
  have "(of_char d :: nat) = 58"
  proof (cases "65 \<le> (of_char d :: nat) \<and> (of_char d :: nat) \<le> 90")
    case True
    then have "of_char (lower_char d) = (of_char d + 32 :: nat)" by (simp add: lower_char_def Let_def)
    with True l show ?thesis by simp
  qed (use l in \<open>auto simp: lower_char_def Let_def\<close>)
  then have "(of_char d :: nat) = of_char (CHR '':'')" by simp
  then show ?thesis by (simp only: of_char_eq_iff)
qed

lemma ownerKey_head:
  assumes "validOwner owner"
  obtains c cs where "ownerKey owner = c # cs" "c \<noteq> CHR '':''"
proof -
  obtain s where s: "owner = JStr s" "strkey (map upper_char s)" using assms by (cases owner) auto
  then obtain d ds where d: "s = d # ds" by (cases s) (auto simp: strkey_def)
  with s(2) have "upper_char d \<in> set ''CG''" by (auto simp: strkey_def)
  then have "d \<noteq> CHR '':''" by (auto simp: upper_char_def)
  then have "lower_char d \<noteq> CHR '':''" using lower_char_colon by blast
  with s(1) d show thesis by (intro that) (simp_all add: toLowerCase_def)
qed

lemma foreign_key:
  assumes "validOwner owner" "\<not> js_is_str owner'"
  shows "keyFor owner' i \<noteq> keyFor owner (JStr rid)"
proof -
  have e: "ownerKey owner' = []" using assms(2) by (cases owner') simp_all
  obtain c cs where "ownerKey owner = c # cs" "c \<noteq> CHR '':''" using ownerKey_head [OF assms(1)] .
  with e show ?thesis by (simp add: keyFor_def)
qed

lemma create_row_moves:
  assumes ok: "row_ok owner rid st" and id: "js_get r ''requestId'' = JStr i"
  shows "row_moves owner rid st (fst (createCctpTransfer (honest full) st r))"
proof (cases "validate r")
  case True
  have u: "usable (honest full)" by (simp add: honest_def)
  have ID: "ID_RE (JStr i)" using True by (simp add: validate_def id)
  show ?thesis
  proof (cases "js_is_str (js_get r ''owner'')")
    case False
    then have "\<not> validOwner (js_get r ''owner'')" by (cases "js_get r ''owner''") auto
    then have "fst (createCctpTransfer (honest full) st r)
        = fst (journalWrite (honest full) st (keyFor (js_get r ''owner'') (JStr i)) r)"
      using True u by (simp add: createCctpTransfer_def id rawRead_def)
    moreover have "keyFor (js_get r ''owner'') (JStr i) \<noteq> keyFor owner (JStr rid)"
      using ok False by (intro foreign_key) (simp_all add: row_ok_def)
    ultimately show ?thesis
      using write_honest [of full st "keyFor (js_get r ''owner'') (JStr i)" r]
      by (intro row_movesI_same) (auto simp: fun_upd_apply)
  next
    case str: True
    then obtain ow where oi: "js_get r ''owner'' = JStr ow" by (auto elim!: js_is_str.elims)
    have own: "validOwner (JStr ow)" using True by (simp add: validate_def oi STRKEY_RE_def)
    obtain st1 x where rd: "rawRead (honest full) True st (JStr ow) (JStr i) = (st1, x)" by force
    from rd obtain y where x: "x = Inr y"
      by (auto simp: rawRead_def honest_def split: if_splits option.splits)
    note rc = read_current [OF ok rd [unfolded x] own ID]
    show ?thesis
    proof (cases y)
      case None
      have "row_moves owner rid st1 (fst (journalWrite (honest full) st1 (keyFor (JStr ow) (JStr i)) r))"
        using rc None True oi own id by (intro write_row_moves) auto
      then have "row_moves owner rid st (fst (journalWrite (honest full) st1 (keyFor (JStr ow) (JStr i)) r))"
        using rc by (metis row_moves_after)
      with None True show ?thesis by (simp add: createCctpTransfer_def u oi id Let_def rd x)
    next
      case (Some e)
      with rc True show ?thesis by (simp add: createCctpTransfer_def u oi id Let_def rd x row_movesI_same)
    qed
  qed
qed (simp add: createCctpTransfer_def row_movesI_same)

lemma create_named_moves:
  assumes "row_ok owner rid st"
  shows "row_moves owner rid st (fst (createCctpTransfer (honest full) st (js_set r ''requestId'' (JStr i))))"
proof (cases r)
  case (JObj kvs)
  then have "js_get (js_set r ''requestId'' (JStr i)) ''requestId'' = JStr i" by (simp add: update_conv')
  then show ?thesis by (rule create_row_moves [OF assms])
qed (simp_all add: createCctpTransfer_def validate_def row_movesI_same own_def)

lemma remove_keeps_row:
  assumes "row_ok owner rid st" "\<not> removal owner rid st (JRemove full owner' rid')"
  shows "map_of (journal_apply st (JRemove full owner' rid')) (keyFor owner (JStr rid)) = map_of st (keyFor owner (JStr rid))"
proof (cases "validOwner owner'")
  case True
  have "keyFor owner' (JStr rid') \<noteq> keyFor owner (JStr rid)"
    using key_eq [of owner owner' "JStr rid'" "JStr rid"] True assms by (auto simp: row_ok_def removal_def)
  then show ?thesis by (simp add: removeCctpTransfer_def delete_conv')
qed (simp add: removeCctpTransfer_def)

lemma remove_ok: "row_ok owner rid st \<Longrightarrow> row_ok owner rid (journal_apply st (JRemove full owner' rid'))"
  by (auto simp: removeCctpTransfer_def row_ok_def current_def delete_conv')

lemma checkpoint_row_moves:
  assumes ok: "row_ok owner rid st"
  shows "row_moves owner rid st (fst (checkpointCctpTransfer (honest full) st owner' (JStr rid') from to patch now))"
proof -
  obtain st1 x where rd: "rawRead (honest full) True st owner' (JStr rid') = (st1, x)" by force
  have m: "map_of st1 (keyFor owner (JStr rid)) = map_of st (keyFor owner (JStr rid))"
    using rawRead_keeps_row [OF ok, of "honest full" True owner' rid'] rd by simp
  have u: "usable (honest full)" by (simp add: honest_def)
  show ?thesis
  proof (cases "\<exists>cur n. x = Inr (Some cur)
      \<and> checkpointDecision cur from to (if patch = JUndef then JObj [] else patch) now = Inr (Some n)")
    case True
    then obtain cur n where x: "x = Inr (Some cur)"
      and dec: "checkpointDecision cur from to (if patch = JUndef then JObj [] else patch) now = Inr (Some n)" by auto
    from rd x have acc: "validOwner owner'" "ID_RE (JStr rid')" "validate cur"
      "ownerKey (js_get cur ''owner'') = ownerKey owner'" "js_get cur ''requestId'' = JStr rid'"
      by (auto simp: rawRead_Some_iff acceptable_iff)
    note rc = read_current [OF ok rd [unfolded x] acc(1,2)]
    have "row_moves owner rid st1 (fst (journalWrite (honest full) st1 (keyFor owner' (JStr rid')) n))"
      using rc acc decision_step [OF acc(3) dec] decision_identity [OF acc(3) dec]
      by (intro write_row_moves) auto
    then have "row_moves owner rid st (fst (journalWrite (honest full) st1 (keyFor owner' (JStr rid')) n))"
      using rc by (metis row_moves_after)
    then show ?thesis by (simp add: checkpointCctpTransfer_def u rd x dec)
  next
    case False
    then have "fst (checkpointCctpTransfer (honest full) st owner' (JStr rid') from to patch now) = st1"
      by (auto simp: checkpointCctpTransfer_def u rd split: sum.splits option.splits)
    with m show ?thesis by (simp add: row_movesI_same)
  qed
qed

lemma readAll_keeps_row:
  "row_ok owner rid st \<Longrightarrow>
     map_of (fst (readAll d st owner' keys)) (keyFor owner (JStr rid)) = map_of st (keyFor owner (JStr rid))"
proof (induction keys arbitrary: st)
  case (Cons key keys)
  let ?i = "drop (length (PREFIX @ ownerKey owner' @ '':'')) key"
  obtain st1 x where rd: "rawRead d True st owner' (JStr ?i) = (st1, x)" by force
  have m: "map_of st1 (keyFor owner (JStr rid)) = map_of st (keyFor owner (JStr rid))"
    using rawRead_keeps_row [OF Cons.prems, of d True owner' ?i] rd by simp
  then have "row_ok owner rid st1" using row_ok_cong [OF m] Cons.prems by simp
  then have "map_of (fst (readAll d st1 owner' keys)) (keyFor owner (JStr rid)) = map_of st (keyFor owner (JStr rid))"
    using Cons.IH m by simp
  with Cons m rd show ?case
    by (auto simp: Let_def split: sum.splits prod.splits)
qed simp

lemma op_row_moves:
  assumes "row_ok owner rid st" "\<not> removal owner rid st op"
  shows "row_moves owner rid st (journal_apply st op)"
proof (cases op)
  case (JList full ow limit)
  have "map_of (fst (listCctpTransfers (honest full) st ow limit)) (keyFor owner (JStr rid))
      = map_of st (keyFor owner (JStr rid))"
    using readAll_keeps_row [OF assms(1), of "honest full" ow "map fst st"]
    by (auto simp: listCctpTransfers_def split: jsv.split prod.split sum.split)
  with JList show ?thesis by (simp add: row_movesI_same)
next
  case (JRemove full ow i)
  with assms show ?thesis using remove_keeps_row by (intro row_movesI_same) simp
qed (simp_all add: assms create_named_moves checkpoint_row_moves row_movesI_same readCctpTransfer_def rawRead_keeps_row)

lemma row_moves_ok: "row_ok owner rid st \<Longrightarrow> row_moves owner rid st st' \<Longrightarrow> row_ok owner rid st'"
  by (auto simp: row_moves_def row_ok_def current_def)

text \<open>How far a record has come: 0 when there is none, then its state's position, then terminal.\<close>

definition progress :: "jsv option \<Rightarrow> nat" where
  "progress x =
     (case x of
        None \<Rightarrow> 0
      | Some r \<Rightarrow> if state_in (js_get r ''state'') TERMINAL then 100
                  else nat (index_of (states_of r) (js_get r ''state'') + 1))"

lemma index_of_bound: "-1 \<le> index_of (states_of r) v \<and> index_of (states_of r) v < 7"
proof -
  have "length (takeWhile (\<lambda>x. JStr x \<noteq> v) (states_of r)) \<le> length (states_of r)"
    by (rule length_takeWhile_le)
  also have "\<dots> \<le> 6" by (simp add: states_of_def FORWARD_def REVERSE_def)
  finally show ?thesis by (simp add: index_of_def)
qed

lemma progress_step: "record_step c n \<Longrightarrow> progress (Some c) < progress (Some n)"
proof -
  assume s: "record_step c n"
  have dir: "states_of n = states_of c" using s by (simp add: record_step_def states_of_def)
  have live: "\<not> state_in (js_get c ''state'') TERMINAL"
    using s terminal_not_state by (auto simp: record_step_def)
  show ?thesis
    using s index_of_bound [of c "js_get c ''state''"] live
    by (auto simp: progress_def dir record_step_def split: if_splits)
qed

lemma progress_mono:
  assumes "row_ok owner rid st" and "row_moves owner rid st st'"
  shows "progress (current owner rid st) \<le> progress (current owner rid st')"
proof (cases "current owner rid st")
  case (Some c)
  with assms show ?thesis
    using progress_step by (auto simp: row_moves_def current_def intro: less_imp_le)
qed (simp add: progress_def)

text \<open>The record enters the state in which the burn may be submitted.\<close>

definition enters_burn :: "jsv \<Rightarrow> string \<Rightarrow> storage \<Rightarrow> journal_op \<Rightarrow> bool" where
  "enters_burn owner rid st op \<longleftrightarrow>
     (let burning = (\<lambda>x. case x of Some r \<Rightarrow> js_get r ''state'' = JStr ''burn_submitting'' | None \<Rightarrow> False) in
      \<not> burning (current owner rid st) \<and> burning (current owner rid (journal_apply st op)))"

lemma current_valid: "current owner rid st = Some r \<Longrightarrow> validate r"
  by (auto simp: current_def acceptable_iff split: option.splits)

lemma burning_progress:
  assumes "validate r" "js_get r ''state'' = JStr ''burn_submitting''"
  shows "progress (Some r) = 3"
proof -
  have "js_get r ''direction'' = JStr ''forward''"
    using validate_state [OF assms(1)] assms(2)
    by (auto simp: validState_def Let_def state_in_def states_of_def TERMINAL_def REVERSE_def split: if_splits)
  with assms(2) show ?thesis
    by (simp add: progress_def state_in_def TERMINAL_def index_of_def states_of_def FORWARD_def)
qed

lemma removal_no_burn:
  assumes "row_ok owner rid st" "removal owner rid st op"
  shows "\<not> enters_burn owner rid st op"
proof -
  obtain full owner' where op: "op = JRemove full owner' rid" and k: "ownerKey owner' = ownerKey owner"
    using assms(2) by (auto simp: removal_def split: journal_op.splits)
  have "journal_apply st op = st \<or> journal_apply st op = AList.delete (keyFor owner (JStr rid)) st"
    using k by (auto simp: op removeCctpTransfer_def keyFor_def)
  then have "current owner rid (journal_apply st op) = current owner rid st \<or> current owner rid (journal_apply st op) = None"
    by (auto simp: current_def delete_conv')
  then show ?thesis by (auto simp: enters_burn_def Let_def)
qed

lemma enters_burn_move:
  assumes ok: "row_ok owner rid st" and e: "enters_burn owner rid st op"
  shows "progress (current owner rid st) < 3 \<and> progress (current owner rid (journal_apply st op)) = 3"
proof -
  from e obtain n where n: "current owner rid (journal_apply st op) = Some n"
    "js_get n ''state'' = JStr ''burn_submitting''"
    and neq: "current owner rid st \<noteq> Some n"
    by (auto simp: enters_burn_def Let_def split: option.splits)
  have three: "progress (Some n) = 3" using burning_progress [OF current_valid [OF n(1)] n(2)] .
  have "progress (current owner rid st) < progress (Some n)"
  proof (cases "current owner rid st")
    case None
    with three show ?thesis by (simp add: progress_def [of None])
  next
    case (Some c)
    have "\<not> removal owner rid st op" using removal_no_burn [OF ok] e by blast
    with Some op_row_moves [OF ok, of op] n neq have "record_step c n" by (auto simp: row_moves_def current_def)
    with Some show ?thesis using progress_step by simp
  qed
  with three n show ?thesis by simp
qed

lemma journal_row_ok: "row_ok owner rid st \<Longrightarrow> row_ok owner rid (journal_apply st op)"
proof (cases "removal owner rid st op")
  case True
  assume "row_ok owner rid st"
  with True show ?thesis
    using remove_ok by (auto simp: removal_def split: journal_op.splits simp del: journal_apply.simps)
qed (use op_row_moves row_moves_ok in blast)

interpretation journal: reset_machine journal_apply "row_ok owner rid" "\<lambda>st. progress (current owner rid st)"
  "enters_burn owner rid" "removal owner rid" 3 for owner rid
proof unfold_locales
  fix s op assume "row_ok owner rid s"
  then show "row_ok owner rid (journal_apply s op)" by (rule journal_row_ok)
next
  fix s op assume "row_ok owner rid s" "\<not> removal owner rid s op"
  then show "progress (current owner rid s) \<le> progress (current owner rid (journal_apply s op))"
    using op_row_moves progress_mono by blast
qed (use enters_burn_move in \<open>fastforce+\<close>)

lemma terminal_row_kept:
  assumes "row_ok owner rid st" "current owner rid st = Some c" "state_in (js_get c ''state'') TERMINAL"
    "\<not> removal owner rid st op"
  shows "current owner rid (journal_apply st op) = current owner rid st"
  using op_row_moves [OF assms(1,4)] assms(2,3) terminal_not_state
  by (fastforce simp: row_moves_def record_step_def current_def)

definition terminal_row :: "jsv option \<Rightarrow> bool" where
  "terminal_row x = (case x of Some c \<Rightarrow> state_in (js_get c ''state'') TERMINAL | None \<Rightarrow> False)"

lemma terminal_run_kept:
  "row_ok owner rid st \<Longrightarrow> terminal_row (current owner rid st) \<Longrightarrow> count_in_run journal_apply (removal owner rid) st ops = 0 \<Longrightarrow>
     current owner rid (run_ops journal_apply st ops) = current owner rid st"
proof (induction ops arbitrary: st)
  case (Cons op ops)
  then have n: "\<not> removal owner rid st op" by (auto split: if_splits)
  have "current owner rid (journal_apply st op) = current owner rid st"
    using Cons.prems(1,2) n terminal_row_kept by (auto simp: terminal_row_def split: option.splits)
  with Cons n show ?case using journal_row_ok [OF Cons.prems(1)] by simp
qed simp

text \<open>
  C4. Over any sequence of creations, reads, listings, checkpoints and removals, by any number of tabs,
  on a storage that keeps what it stored (its writes may throw) and with request ids that are
  strings, the record of one transfer enters \<open>burn_submitting\<close> at most once more than the transfer
  is removed. As long as nobody removes it, its progress never goes backwards, and once it is
  terminal it never changes.
\<close>

theorem journal_burns_once:
  assumes "row_ok owner rid st"
  shows "count_in_run journal_apply (enters_burn owner rid) st ops \<le> 1 + count_in_run journal_apply (removal owner rid) st ops
       \<and> (count_in_run journal_apply (removal owner rid) st ops = 0 \<longrightarrow>
            progress (current owner rid st) \<le> progress (current owner rid (run_ops journal_apply st ops))
          \<and> (terminal_row (current owner rid st) \<longrightarrow>
               current owner rid (run_ops journal_apply st ops) = current owner rid st))"
  using journal.crossed_per_reset [OF assms, of ops] journal.rank_without_reset [OF assms, of ops]
    terminal_run_kept [OF assms, of ops] by simp

subsection \<open>Concrete transfers\<close>

definition j_owner :: string where "j_owner = CHR ''G'' # replicate 55 CHR ''A''"
definition j_id :: string where "j_id = replicate 32 CHR ''a''"
definition j_hash :: string where "j_hash = replicate 64 CHR ''b''"

definition j_allocation :: "string \<Rightarrow> string \<Rightarrow> jsv" where
  "j_allocation name units =
     JObj [(''allocationId'', JStr name), (''executionId'', JStr (''run1:exec:'' @ name)),
           (''poolAddress'', JStr (''0x'' @ replicate 40 CHR ''c'')),
           (''amount'', JObj [(''token'', JStr ''USDC''), (''units'', JStr units), (''decimals'', JNum 6)]),
           (''minShares'', JStr ''1'')]"

definition j_record :: "string \<Rightarrow> jsv \<Rightarrow> jsv list \<Rightarrow> jsv" where
  "j_record state jobId allocations =
     JObj [(''version'', JNum 1), (''direction'', JStr ''forward''), (''owner'', JStr j_owner), (''requestId'', JStr j_id),
           (''state'', JStr state), (''createdAtMs'', JNum 5), (''updatedAtMs'', JNum 5), (''reasonCode'', JNull),
           (''terminalFrom'', JNull),
           (''transfer'', JObj
             [(''mandateId'', JStr j_id), (''kernelAddress'', JStr (''0x'' @ replicate 40 CHR ''d'')),
              (''bindingId'', JStr ''bind''), (''bindingHash'', JStr j_hash), (''bridgeAgent'', JStr j_owner),
              (''runId'', JStr ''run1''), (''grantTxHash'', JStr j_hash), (''burnUnits7'', JStr ''50''),
              (''allocations'', JArr allocations), (''jobId'', jobId), (''burnTxHash'', JNull)])]"

definition j_first :: jsv where
  "j_first = j_record ''intent_creating'' JNull [j_allocation ''p'' ''2'', j_allocation ''q'' ''3'']"

lemma j_first_valid: "validate j_first"
  by code_simp

definition j_patch :: "(string \<times> jsv) list" where "j_patch = [(''jobId'', JStr j_id)]"

definition j_storage :: storage where
  "j_storage = [(keyFor (JStr j_owner) (JStr j_id), Stringified j_first)]"

definition j_next :: jsv where
  "j_next = nextRecord j_first (JStr ''intent_creating'') (JStr ''intent_acked'') j_patch 9"

definition j_storage2 :: storage where
  "j_storage2 = [(keyFor (JStr j_owner) (JStr j_id), Stringified j_next)]"

lemma j_ids [simp]: "strkey (map upper_char j_owner)" "ID_RE (JStr j_id)"
  by code_simp+

lemma j_gets [simp]:
  "js_get (j_record state jobId as) ''owner'' = JStr j_owner" "js_get (j_record state jobId as) ''requestId'' = JStr j_id"
  "js_get (j_record state jobId as) ''state'' = JStr state" "js_get (j_record state jobId as) ''direction'' = JStr ''forward''"
  by (simp_all add: j_record_def)

lemma create_on_empty:
  assumes "validate r" "js_get r ''owner'' = JStr j_owner" "js_get r ''requestId'' = JStr j_id"
  shows "createCctpTransfer (honest False) [] r = ([(keyFor (JStr j_owner) (JStr j_id), Stringified r)], Inr r)"
  using assms by (simp add: createCctpTransfer_def rawRead_def honest_def journalWrite_def Let_def)

lemma read_stored:
  assumes "validate r" "js_get r ''owner'' = JStr j_owner" "js_get r ''requestId'' = JStr j_id"
  shows "rawRead (honest full) q [(keyFor (JStr j_owner) (JStr j_id), Stringified r)] (JStr j_owner) (JStr j_id)
     = ([(keyFor (JStr j_owner) (JStr j_id), Stringified r)], Inr (Some r))"
  using assms by (simp add: rawRead_Some_iff acceptable_iff honest_def)

lemma j_create: "createCctpTransfer (honest False) [] j_first = (j_storage, Inr j_first)"
  using create_on_empty [OF j_first_valid] by (simp add: j_storage_def j_first_def)

lemma j_read: "readCctpTransfer (honest False) True j_storage (JStr j_owner) (JStr j_id) = (j_storage, Inr (Some j_first))"
  using read_stored [OF j_first_valid] by (simp add: j_storage_def j_first_def readCctpTransfer_def)

lemma j_next_valid: "validate j_next"
  by code_simp

lemma j_decision:
  "checkpointDecision j_first (JStr ''intent_creating'') (JStr ''intent_acked'') (JObj j_patch) 9 = Inr (Some j_next)"
proof -
  have "safeValue (JObj j_patch)" "js_get j_first ''state'' = JStr ''intent_creating''"
    "index_of (states_of j_first) (JStr ''intent_acked'') = index_of (states_of j_first) (JStr ''intent_creating'') + 1"
    "\<not> state_in (JStr ''intent_acked'') TERMINAL" "\<not> list_ex (overwrites j_first) j_patch"
    "own (JObj j_patch) (filter (js_has_own (JObj j_patch)) (allowedFields j_first))"
    by code_simp+
  then show ?thesis
    using j_next_valid by (simp add: checkpointDecision_def Let_def j_next_def)
qed

lemma j_checkpoint:
  "checkpointCctpTransfer (honest False) j_storage (JStr j_owner) (JStr j_id) (JStr ''intent_creating'')
     (JStr ''intent_acked'') (JObj j_patch) 9 = (j_storage2, Inr j_next)"
proof -
  have "usable (honest False)" by (simp add: honest_def)
  moreover have "journalWrite (honest False) j_storage (keyFor (JStr j_owner) (JStr j_id)) j_next = (j_storage2, Inr j_next)"
    using j_next_valid by (simp add: journalWrite_def honest_def j_storage_def j_storage2_def)
  ultimately show ?thesis
    using j_read by (simp add: checkpointCctpTransfer_def readCctpTransfer_def j_decision)
qed

theorem journal_success_is_durable_witness:
  "readCctpTransfer (honest False) True j_storage2 (JStr j_owner) (JStr j_id) = (j_storage2, Inr (Some j_next))
 \<and> readCctpTransfer (honest False) True j_storage (js_get j_first ''owner'') (js_get j_first ''requestId'')
     = (j_storage, Inr (Some j_first))"
proof -
  have str: "js_is_str (js_get j_first ''owner'')" "js_is_str (js_get j_first ''requestId'')"
    by (simp_all add: j_first_def)
  show ?thesis
    using journal_success_is_durable [THEN conjunct1, rule_format, OF j_checkpoint, of True]
      journal_success_is_durable [THEN conjunct2, rule_format, OF j_create str, of True] by blast
qed

theorem checkpoint_moves_one_step_witness:
  "record_step j_first j_next \<and> evidence_kept j_first j_next"
proof -
  have "j_next \<noteq> j_first" by code_simp
  with checkpoint_moves_one_step [OF j_read j_checkpoint] show ?thesis by blast
qed

theorem checkpoint_replay_is_read_only_witness:
  "checkpointCctpTransfer (honest False) j_storage2 (JStr j_owner) (JStr j_id) (JStr ''intent_creating'')
     (JStr ''intent_acked'') (JObj j_patch) 77 = (j_storage2, Inr j_next)"
  by (rule checkpoint_replay_is_read_only [OF j_checkpoint]) (simp_all add: j_patch_def)

definition j_run :: "journal_op list" where
  "j_run =
     [JCreate False j_id (js_set j_next ''state'' (JStr ''burn_submitting'')),
      JCheckpoint False (JStr j_owner) j_id (JStr ''intent_acked'') (JStr ''burn_submitting'') (JObj []) 12,
      JRead False (JStr j_owner) j_id]"

theorem journal_burns_once_witness:
  "count_in_run journal_apply (enters_burn (JStr j_owner) j_id) [] j_run = 1"
proof -
  let ?r = "js_set j_next ''state'' (JStr ''burn_submitting'')"
  have ok: "row_ok (JStr j_owner) j_id []" by (simp add: row_ok_def)
  have v: "validate ?r" by code_simp
  have g: "js_get ?r ''owner'' = JStr j_owner" "js_get ?r ''requestId'' = JStr j_id"
    "js_get ?r ''state'' = JStr ''burn_submitting''" "js_set ?r ''requestId'' (JStr j_id) = ?r" by code_simp+
  have "acceptable (JStr j_owner) (JStr j_id) (Stringified ?r) = Some ?r"
    using v g by (simp add: acceptable_iff)
  then have "enters_burn (JStr j_owner) j_id [] (JCreate False j_id ?r)"
    using v g by (simp add: enters_burn_def create_on_empty [OF v g(1,2)] current_def Let_def)
  then have "1 \<le> count_in_run journal_apply (enters_burn (JStr j_owner) j_id) [] j_run"
    by (simp add: j_run_def)
  moreover have "count_in_run journal_apply (removal (JStr j_owner) j_id) [] j_run = 0"
    by (simp add: j_run_def removal_def)
  ultimately show ?thesis using journal_burns_once [OF ok, of j_run] by linarith
qed

text \<open>
  \<open>STRKEY.test\<close> accepts an array of the owner's text, which \<open>validOwner\<close> refuses: the creation returns
  its record, and reading it back returns nothing.
\<close>

lemma array_owner_unreadable:
  "\<exists>r st. createCctpTransfer (honest False) [] r = (st, Inr r) \<and> js_get r ''owner'' = JArr [JStr j_owner]
     \<and> readCctpTransfer (honest False) True st (js_get r ''owner'') (js_get r ''requestId'') = (st, Inr None)"
proof (intro exI conjI)
  let ?r = "js_set j_first ''owner'' (JArr [JStr j_owner])"
  have v: "validate ?r" by code_simp
  show o: "js_get ?r ''owner'' = JArr [JStr j_owner]" by (simp add: j_first_def j_record_def)
  show "createCctpTransfer (honest False) [] ?r
      = ([(keyFor (js_get ?r ''owner'') (js_get ?r ''requestId''), Stringified ?r)], Inr ?r)"
    using v by (simp add: createCctpTransfer_def rawRead_def honest_def journalWrite_def Let_def o)
  show "readCctpTransfer (honest False) True [(keyFor (js_get ?r ''owner'') (js_get ?r ''requestId''), Stringified ?r)]
      (js_get ?r ''owner'') (js_get ?r ''requestId'')
      = ([(keyFor (js_get ?r ''owner'') (js_get ?r ''requestId''), Stringified ?r)], Inr None)"
    by (simp add: readCctpTransfer_def rawRead_def o)
qed

text \<open>
  The set of allocation ids does not reject a duplicate (\<open>Set.add\<close> returns the set, so its
  negation is never true): a forward transfer with the same allocation twice is created.
\<close>

theorem duplicate_allocations_accepted:
  "\<exists>r st. createCctpTransfer (honest False) [] r = (st, Inr r)
     \<and> \<not> distinct (map (\<lambda>a. js_get a ''allocationId'')
         (js_elems (js_get (js_get r ''transfer'') ''allocations'')))"
proof (intro exI conjI)
  let ?r = "j_record ''intent_creating'' JNull [j_allocation ''p'' ''2'', j_allocation ''p'' ''3'']"
  have "validate ?r" by code_simp
  then show "createCctpTransfer (honest False) [] ?r = ([(keyFor (JStr j_owner) (JStr j_id), Stringified ?r)], Inr ?r)"
    by (intro create_on_empty) simp_all
  show "\<not> distinct (map (\<lambda>a. js_get a ''allocationId'') (js_elems (js_get (js_get ?r ''transfer'') ''allocations'')))"
    by code_simp
qed

end
