(* ===== verification/Keeper.thy ===== *)
theory Keeper
  imports Prelude Machines "HOL-Library.Signed_Division"
begin

section \<open>The keeper: rebalancing, lifeboat and radar\<close>

text \<open>
  \<open>keeper/src/decide.js\<close>, \<open>lifeboat.js\<close>, \<open>radar.js\<close> and \<open>apr.js\<close>. Amounts are unbounded
  integers (\<open>BigInt\<close>, whose division truncates towards zero); basis points and timestamps are
  integral numbers. A list of strategies is read from the chain as fresh objects, so two of its
  elements are the same object exactly when they have the same index.
\<close>

subsection \<open>Compounding and rebalancing\<close>

record strategy =
  address :: string
  balance :: int
  supplyAprBps :: int
  pendingInterest :: int
  blndClaimable :: int

record keeper_state =
  strategies :: "strategy list"
  idle :: int
  lastRebalanceTs :: int
  nowTs :: int
  blndQuote :: "(int \<Rightarrow> int) option"

record keeper_config =
  minCompound :: int
  rebalanceBps :: int
  cooldownS :: int
  slippageBps :: int

datatype keeper_action = Compound "int list" | Rebalance string string int

definition BPS_DENOMINATOR :: int where "BPS_DENOMINATOR = 10000"

definition minOutForStrategy :: "strategy \<Rightarrow> (int \<Rightarrow> int) option \<Rightarrow> int \<Rightarrow> int" where
  "minOutForStrategy s quote slippage =
     (case quote of
        None \<Rightarrow> 0
      | Some usdcOutFor \<Rightarrow>
          if blndClaimable s \<le> 0 then 0
          else (usdcOutFor (blndClaimable s) * (BPS_DENOMINATOR - slippage)) sdiv BPS_DENOMINATOR)"

definition decideCompound :: "keeper_state \<Rightarrow> keeper_config \<Rightarrow> keeper_action option" where
  "decideCompound st cfg =
     (if sum_list (map pendingInterest (strategies st)) \<ge> minCompound cfg \<or> idle st > 0
      then Some (Compound (map (\<lambda>s. minOutForStrategy s (blndQuote st) (slippageBps cfg)) (strategies st)))
      else None)"

text \<open>The loop of \<open>findAprExtremes\<close>: the indexes of the current highest and lowest element.\<close>

definition extremes_step ::
  "strategy list \<Rightarrow> nat option \<times> nat option \<Rightarrow> nat \<Rightarrow> nat option \<times> nat option" where
  "extremes_step ss hl i =
     ((case fst hl of None \<Rightarrow> Some i
       | Some h \<Rightarrow> if supplyAprBps (ss ! i) > supplyAprBps (ss ! h) then Some i else Some h),
      (case snd hl of None \<Rightarrow> Some i
       | Some l \<Rightarrow> if supplyAprBps (ss ! i) < supplyAprBps (ss ! l) then Some i else Some l))"

definition findAprExtremes :: "strategy list \<Rightarrow> nat option \<times> nat option" where
  "findAprExtremes ss = foldl (extremes_step ss) (None, None) [0..<length ss]"

text \<open>The amount to move from the lowest to the highest strategy.\<close>

definition rebalanceAmount :: "int \<Rightarrow> int \<Rightarrow> int" where
  "rebalanceAmount lowBalance highBalance =
     (let imbalance = lowBalance - highBalance;
          halfImbalance = imbalance sdiv 2;
          halfFromBalance = lowBalance sdiv 2
      in if imbalance \<le> 0 then 0
         else if halfImbalance < halfFromBalance then halfImbalance else halfFromBalance)"

definition decideRebalance :: "keeper_state \<Rightarrow> keeper_config \<Rightarrow> keeper_action option" where
  "decideRebalance st cfg =
     (if nowTs st - lastRebalanceTs st < cooldownS cfg then None
      else case findAprExtremes (strategies st) of
        (Some h, Some l) \<Rightarrow>
          let highest = strategies st ! h; lowest = strategies st ! l;
              amount = rebalanceAmount (balance lowest) (balance highest) in
          if h = l then None
          else if supplyAprBps highest - supplyAprBps lowest \<le> rebalanceBps cfg then None
          else if amount \<le> 0 then None
          else Some (Rebalance (address lowest) (address highest) amount)
      | _ \<Rightarrow> None)"

definition decide :: "keeper_state \<Rightarrow> keeper_config \<Rightarrow> keeper_action list" where
  "decide st cfg =
     (case decideCompound st cfg of None \<Rightarrow> [] | Some a \<Rightarrow> [a])
   @ (case decideRebalance st cfg of None \<Rightarrow> [] | Some a \<Rightarrow> [a])"

subsection \<open>Supply rate and utilisation\<close>

definition SCALAR_7 :: int where "SCALAR_7 = 10000000"
definition SCALAR_12 :: int where "SCALAR_12 = 1000000000000"

record reserve =
  util_target :: int
  max_util :: int
  r_base :: int
  r_one :: int
  r_two :: int
  r_three :: int
  b_supply :: int
  b_rate :: int
  d_supply :: int
  d_rate :: int
  ir_mod :: int

text \<open>\<open>x || 1n\<close>.\<close>

definition or_one :: "int \<Rightarrow> int" where "or_one x = (if x = 0 then 1 else x)"

definition borrowRate :: "reserve \<Rightarrow> int \<Rightarrow> int" where
  "borrowRate r util =
     (if util \<le> util_target r then r_base r + (util * r_one r) sdiv or_one (util_target r)
      else if util \<le> max_util r then
        r_base r + r_one r + ((util - util_target r) * r_two r) sdiv or_one (max_util r - util_target r)
      else r_base r + r_one r + r_two r + ((util - max_util r) * r_three r) sdiv or_one (SCALAR_7 - max_util r))"

definition supplied :: "reserve \<Rightarrow> int" where "supplied r = (b_supply r * b_rate r) sdiv SCALAR_12"
definition borrowed :: "reserve \<Rightarrow> int" where "borrowed r = (d_supply r * d_rate r) sdiv SCALAR_12"

definition estimateSupplyAprBps :: "reserve \<Rightarrow> int \<Rightarrow> int" where
  "estimateSupplyAprBps r backstop =
     (if supplied r \<le> 0 then 0
      else let util = (borrowed r * SCALAR_7) sdiv supplied r;
               adjusted = (borrowRate r util * ir_mod r) sdiv SCALAR_7;
               supplyRate = (adjusted * util * (SCALAR_7 - backstop)) sdiv (SCALAR_7 * SCALAR_7)
           in (supplyRate * BPS_DENOMINATOR) sdiv SCALAR_7)"

definition utilizationBps :: "reserve option \<Rightarrow> int option" where
  "utilizationBps r0 =
     (case r0 of
        None \<Rightarrow> None
      | Some r \<Rightarrow> if supplied r \<le> 0 then None else Some ((borrowed r * BPS_DENOMINATOR) sdiv supplied r))"

subsection \<open>Lifeboat\<close>

datatype reason = UTIL_SPIKE | LIQ_DROP | ORACLE_DIVERGENCE

record lifeboat_config =
  utilEngageBps :: int
  utilResumeBps :: int
  liqDropEngageBps :: int
  oracleDivEngageBps :: int
  oracleDivResumeBps :: int
  allClearLedgers :: nat



record signals =
  utilization :: "int option"
  liqDrop :: "int option"
  oracleDivergence :: "int option"

text \<open>\<open>x !== null && x >= bound\<close>.\<close>

definition reaches :: "int option \<Rightarrow> int \<Rightarrow> bool" where
  "reaches x bound = (case x of None \<Rightarrow> False | Some v \<Rightarrow> v \<ge> bound)"

definition isNormal :: "signals \<Rightarrow> lifeboat_config \<Rightarrow> bool" where
  "isNormal sg cfg =
     (if utilization sg = None \<or> reaches (utilization sg) (utilResumeBps cfg) then False
      else if reaches (liqDrop sg) (liqDropEngageBps cfg) then False
      else if reaches (oracleDivergence sg) (oracleDivResumeBps cfg) then False
      else True)"

definition engageReason :: "signals \<Rightarrow> lifeboat_config \<Rightarrow> reason option" where
  "engageReason sg cfg =
     (if reaches (oracleDivergence sg) (oracleDivEngageBps cfg) then Some ORACLE_DIVERGENCE
      else if reaches (liqDrop sg) (liqDropEngageBps cfg) then Some LIQ_DROP
      else if reaches (utilization sg) (utilEngageBps cfg) then Some UTIL_SPIKE
      else None)"

datatype lifeboat_action = Derisk reason | Alarm reason | Resume

definition decideLifeboat ::
  "bool \<Rightarrow> int \<Rightarrow> int \<Rightarrow> signals \<Rightarrow> nat \<Rightarrow> lifeboat_config \<Rightarrow> lifeboat_action option" where
  "decideLifeboat derisked mandateExpiry now sg streak cfg =
     (let mandateOk = (mandateExpiry > 0 \<and> now < mandateExpiry) in
      if \<not> derisked then
        (case engageReason sg cfg of
           None \<Rightarrow> None
         | Some r \<Rightarrow> Some (if mandateOk then Derisk r else Alarm r))
      else if mandateOk \<and> streak \<ge> allClearLedgers cfg then Some Resume
      else None)"

subsection \<open>Radar\<close>

record upgrade =
  wasmHashHex :: string
  eta :: int

record chain =
  c_utilization :: "int option"
  availableLiquidity :: "int option"
  c_derisked :: bool
  mandateExpiry :: int
  c_now :: int
  c_divergence :: "int option"
  pendingUpgrade :: "upgrade option"

text \<open>
  \<open>c_divergence\<close> is the result of \<open>divergenceBps\<close> on the pool price and the reference prices,
  a floating-point computation. The module variable \<open>lastSeenUpgradeKey\<close> is a field of the memo.
\<close>

record radar_memo =
  prevLiq :: "int option"
  normalStreak :: nat
  inFlight :: bool
  lastSeenUpgradeKey :: "string option"

datatype radar_log = UpgradeScheduled upgrade | UpgradeCleared

definition upgradeKey :: "upgrade option \<Rightarrow> string option" where
  "upgradeKey p = map_option (\<lambda>u. wasmHashHex u @ '':'' @ show_int (eta u)) p"

text \<open>\<open>new Date(eta * 1000).toISOString()\<close> throws a \<open>RangeError\<close> outside the range of a date.\<close>

definition dateable :: "int \<Rightarrow> bool" where "dateable t \<longleftrightarrow> \<bar>t * 1000\<bar> \<le> 8640000000000000"

text \<open>\<open>None\<close>: it threw, after the key was remembered.\<close>

definition logPendingUpgrade :: "radar_memo \<Rightarrow> upgrade option \<Rightarrow> radar_memo \<times> radar_log list option" where
  "logPendingUpgrade memo p =
     (if upgradeKey p = lastSeenUpgradeKey memo then (memo, Some [])
      else (memo\<lparr>lastSeenUpgradeKey := upgradeKey p\<rparr>,
            (case p of
               Some u \<Rightarrow> if dateable (eta u) then Some [UpgradeScheduled u] else None
             | None \<Rightarrow> Some [UpgradeCleared])))"

definition liqDropBpsFrom :: "int option \<Rightarrow> int option \<Rightarrow> int option" where
  "liqDropBpsFrom prev cur =
     (case (prev, cur) of
        (Some p, Some c) \<Rightarrow>
          if p \<le> 0 then None
          else let drop1 = ((p - c) * 10000) sdiv p in Some (if drop1 > 0 then drop1 else 0)
      | _ \<Rightarrow> None)"

record tick_result =
  t_action :: "lifeboat_action option"
  t_submitted :: "lifeboat_action option"
  t_log :: "radar_log list"

definition chain_signals :: "radar_memo \<Rightarrow> chain \<Rightarrow> signals" where
  "chain_signals memo c =
     \<lparr>utilization = c_utilization c, liqDrop = liqDropBpsFrom (prevLiq memo) (availableLiquidity c),
      oracleDivergence = c_divergence c\<rparr>"

text \<open>
  One tick; its result is \<open>None\<close> when it threw. The read is \<open>None\<close> when it threw, which the tick
  catches. A submission that is made is awaited and its failure is only logged, so the tick returns
  with \<open>inFlight\<close> as it was.
\<close>

definition radarTick :: "lifeboat_config \<Rightarrow> radar_memo \<Rightarrow> chain option \<Rightarrow> radar_memo \<times> tick_result option" where
  "radarTick cfg memo rd =
     (case rd of
        None \<Rightarrow> (memo, Some \<lparr>t_action = None, t_submitted = None, t_log = []\<rparr>)
      | Some c \<Rightarrow>
          (case logPendingUpgrade memo (pendingUpgrade c) of
             (memo1, None) \<Rightarrow> (memo1, None)
           | (memo1, Some logs) \<Rightarrow>
               let sg = chain_signals memo1 c;
                   memo2 = memo1\<lparr>prevLiq := availableLiquidity c,
                     normalStreak := (if c_derisked c \<and> isNormal sg cfg then normalStreak memo1 + 1 else 0)\<rparr>;
                   action = decideLifeboat (c_derisked c) (mandateExpiry c) (c_now c) sg (normalStreak memo2) cfg;
                   submitted = (case action of
                       Some (Alarm r) \<Rightarrow> None
                     | None \<Rightarrow> None
                     | Some a \<Rightarrow> if inFlight memo2 then None else Some a)
               in (memo2, Some \<lparr>t_action = action, t_submitted = submitted, t_log = logs\<rparr>)))"

text \<open>
  One round of the loop of \<open>runRadar\<close>: reading the ledger failed, or it answered a sequence
  number; the reference prices may fail after that, before the tick. The loop catches what a tick
  throws.
\<close>

datatype poll = LedgerFailed | Ledger nat "chain option option"

record radar =
  lastSeq :: nat
  memo :: radar_memo
  ticks :: "(nat \<times> chain option \<times> tick_result option) list"

definition radarPoll :: "lifeboat_config \<Rightarrow> radar \<Rightarrow> poll \<Rightarrow> radar" where
  "radarPoll cfg s p =
     (case p of
        LedgerFailed \<Rightarrow> s
      | Ledger seq rd \<Rightarrow>
          if seq > lastSeq s then
            (case rd of
               None \<Rightarrow> s\<lparr>lastSeq := seq\<rparr>
             | Some rd1 \<Rightarrow>
                 let (m', res) = radarTick cfg (memo s) rd1
                 in s\<lparr>lastSeq := seq, memo := m', ticks := ticks s @ [(seq, rd1, res)]\<rparr>)
          else s)"



subsection \<open>Rebalancing is sound\<close>

lemma sdiv_nonneg: "0 \<le> a \<Longrightarrow> 0 < b \<Longrightarrow> (a :: int) sdiv b = a div b"
  by (cases "a = 0") (simp_all add: signed_divide_int_def)

definition extremes_upto :: "strategy list \<Rightarrow> nat \<Rightarrow> nat option \<times> nat option \<Rightarrow> bool" where
  "extremes_upto ss n hl \<longleftrightarrow>
     (if n = 0 then hl = (None, None)
      else \<exists>h l. hl = (Some h, Some l) \<and> h < n \<and> l < n
        \<and> (\<forall>i<n. supplyAprBps (ss ! l) \<le> supplyAprBps (ss ! i) \<and> supplyAprBps (ss ! i) \<le> supplyAprBps (ss ! h)))"

lemma extremes_fold: "extremes_upto ss n (foldl (extremes_step ss) (None, None) [0..<n])"
proof (induction n)
  case (Suc n)
  show ?case
  proof (cases "n = 0")
    case False
    with Suc obtain h l where hl: "foldl (extremes_step ss) (None, None) [0..<n] = (Some h, Some l)" "h < n" "l < n"
      and b: "\<And>i. i < n \<Longrightarrow> supplyAprBps (ss ! l) \<le> supplyAprBps (ss ! i) \<and> supplyAprBps (ss ! i) \<le> supplyAprBps (ss ! h)"
      by (auto simp: extremes_upto_def)
    have step: "foldl (extremes_step ss) (None, None) [0..<Suc n] = extremes_step ss (Some h, Some l) n"
      using hl by simp
    show ?thesis unfolding step
      using hl b by (fastforce simp: extremes_upto_def extremes_step_def less_Suc_eq)
  qed (simp add: extremes_upto_def extremes_step_def)
qed (simp add: extremes_upto_def)

lemma findAprExtremes_sound:
  assumes "findAprExtremes ss = (Some h, Some l)"
  shows "h < length ss" "l < length ss"
    "s \<in> set ss \<Longrightarrow> supplyAprBps (ss ! l) \<le> supplyAprBps s \<and> supplyAprBps s \<le> supplyAprBps (ss ! h)"
  using extremes_fold [of ss "length ss"] assms
  by (auto simp: findAprExtremes_def extremes_upto_def in_set_conv_nth split: if_splits)

lemma rebalanceAmount_bounds:
  assumes "0 < rebalanceAmount low high"
  shows "2 * rebalanceAmount low high \<le> low" "high + rebalanceAmount low high \<le> low - rebalanceAmount low high"
proof -
  from assms have imb: "0 < low - high" by (simp add: rebalanceAmount_def Let_def split: if_splits)
  have pos: "0 < low sdiv 2" using assms by (simp add: rebalanceAmount_def Let_def split: if_splits)
  then have low: "0 < low" by (cases "0 < low") (auto simp: signed_divide_int_def sgn_if split: if_splits)
  have h: "(low - high) sdiv 2 = (low - high) div 2" "low sdiv 2 = low div 2"
    using imb low by (simp_all add: sdiv_nonneg)
  show "2 * rebalanceAmount low high \<le> low" "high + rebalanceAmount low high \<le> low - rebalanceAmount low high"
    using imb by (auto simp: rebalanceAmount_def Let_def h)
qed

text \<open>
  C38. A rebalance the keeper decides is after the cooldown, goes from a strategy of the lowest rate
  to one of the highest with a rate gap above the threshold, and moves a positive amount of at most
  half the source's balance that does not take the source below the target.
\<close>

theorem rebalance_sound:
  assumes "Rebalance a b n \<in> set (decide st cfg)"
  shows "nowTs st - lastRebalanceTs st \<ge> cooldownS cfg
    \<and> (\<exists>low \<in> set (strategies st). \<exists>high \<in> set (strategies st).
         a = address low \<and> b = address high
       \<and> (\<forall>s \<in> set (strategies st). supplyAprBps low \<le> supplyAprBps s \<and> supplyAprBps s \<le> supplyAprBps high)
       \<and> rebalanceBps cfg < supplyAprBps high - supplyAprBps low
       \<and> 0 < n \<and> 2 * n \<le> balance low \<and> balance high + n \<le> balance low - n)"
proof -
  from assms have dec: "decideRebalance st cfg = Some (Rebalance a b n)"
    by (auto simp: decide_def decideCompound_def split: option.splits if_splits)
  then obtain h l where hl: "findAprExtremes (strategies st) = (Some h, Some l)"
    by (auto simp: decideRebalance_def split: if_splits prod.splits option.splits)
  define lo hi where "lo = strategies st ! l" and "hi = strategies st ! h"
  have cool: "nowTs st - lastRebalanceTs st \<ge> cooldownS cfg" and ab: "a = address lo" "b = address hi"
    and gap: "rebalanceBps cfg < supplyAprBps hi - supplyAprBps lo"
    and n: "n = rebalanceAmount (balance lo) (balance hi)" "0 < n"
    using dec by (auto simp: decideRebalance_def hl Let_def lo_def hi_def split: if_splits)
  have "lo \<in> set (strategies st)" "hi \<in> set (strategies st)"
    and "\<forall>s \<in> set (strategies st). supplyAprBps lo \<le> supplyAprBps s \<and> supplyAprBps s \<le> supplyAprBps hi"
    using findAprExtremes_sound [OF hl] by (auto simp: lo_def hi_def)
  with cool ab gap n rebalanceAmount_bounds [of "balance lo" "balance hi"] show ?thesis by blast
qed

definition sample_keeper :: keeper_state where
  "sample_keeper =
     \<lparr>strategies =
        [\<lparr>address = ''A'', balance = 900, supplyAprBps = 100, pendingInterest = 0, blndClaimable = 5\<rparr>,
         \<lparr>address = ''B'', balance = 101, supplyAprBps = 700, pendingInterest = 0, blndClaimable = 0\<rparr>],
      idle = 0, lastRebalanceTs = 0, nowTs = 9000, blndQuote = Some (\<lambda>x. 100 * x)\<rparr>"

definition sample_keeper_config :: keeper_config where
  "sample_keeper_config = \<lparr>minCompound = 0, rebalanceBps = 200, cooldownS = 3600, slippageBps = 100\<rparr>"

lemma sample_decide:
  "decide sample_keeper sample_keeper_config = [Compound [495, 0], Rebalance ''A'' ''B'' 399]"
  by (simp add: sample_keeper_def sample_keeper_config_def decide_def decideCompound_def minOutForStrategy_def
      BPS_DENOMINATOR_def signed_divide_int_def decideRebalance_def findAprExtremes_def extremes_step_def upt_rec
      rebalanceAmount_def Let_def)

theorem rebalance_sound_witness:
  "\<exists>low \<in> set (strategies sample_keeper). \<exists>high \<in> set (strategies sample_keeper).
     ''A'' = address low \<and> ''B'' = address high \<and> balance high + 399 \<le> balance low - 399"
  using rebalance_sound [of "''A''" "''B''" 399 sample_keeper sample_keeper_config] sample_decide by auto

subsection \<open>The rate curve\<close>

definition curve_ok :: "reserve \<Rightarrow> bool" where
  "curve_ok r \<longleftrightarrow>
     0 < util_target r \<and> util_target r < max_util r \<and> max_util r < SCALAR_7
   \<and> 0 \<le> r_base r \<and> 0 \<le> r_one r \<and> 0 \<le> r_two r \<and> 0 \<le> r_three r"

lemma slope_le: "0 \<le> u \<Longrightarrow> u \<le> v \<Longrightarrow> 0 \<le> k \<Longrightarrow> 0 < (d :: int) \<Longrightarrow> (u * k) div d \<le> (v * k) div d"
  by (intro zdiv_mono1 mult_right_mono) auto

lemma slope_full: "u \<le> d \<Longrightarrow> 0 \<le> k \<Longrightarrow> 0 < (d :: int) \<Longrightarrow> (u * k) div d \<le> k"
  by (metis mult.commute mult_right_mono nonzero_mult_div_cancel_left less_irrefl zdiv_mono1)

lemma borrowRate_div:
  assumes "curve_ok r" "0 \<le> u"
  shows "borrowRate r u =
    (if u \<le> util_target r then r_base r + (u * r_one r) div util_target r
     else if u \<le> max_util r then r_base r + r_one r + ((u - util_target r) * r_two r) div (max_util r - util_target r)
     else r_base r + r_one r + r_two r + ((u - max_util r) * r_three r) div (SCALAR_7 - max_util r))"
  using assms by (auto simp: borrowRate_def curve_ok_def or_one_def sdiv_nonneg)

text \<open>
  The three-slope borrow rate never decreases as utilisation grows, across both kinks, and it
  meets its breakpoints: the base rate at zero, base plus first slope at the target, base plus both
  slopes at the maximum utilisation.
\<close>

theorem borrow_rate_monotone:
  assumes ok: "curve_ok r" and uv: "0 \<le> u" "u \<le> v"
  shows "borrowRate r u \<le> borrowRate r v \<and> borrowRate r 0 = r_base r
    \<and> borrowRate r (util_target r) = r_base r + r_one r
    \<and> borrowRate r (max_util r) = r_base r + r_one r + r_two r"
proof -
  have o: "0 < util_target r" "0 < max_util r - util_target r" "0 < SCALAR_7 - max_util r"
    "0 \<le> r_one r" "0 \<le> r_two r" "0 \<le> r_three r"
    using ok by (auto simp: curve_ok_def)
  have pos: "0 \<le> ((x - util_target r) * r_two r) div (max_util r - util_target r)" if "util_target r \<le> x" for x
    using o that by (intro div_int_pos_iff [THEN iffD2]) (auto intro: mult_nonneg_nonneg)
  have pos3: "0 \<le> ((x - max_util r) * r_three r) div (SCALAR_7 - max_util r)" if "max_util r \<le> x" for x
    using o that by (intro div_int_pos_iff [THEN iffD2]) (auto intro: mult_nonneg_nonneg)
  have "borrowRate r u \<le> borrowRate r v"
    using uv o pos [of v] pos3 [of v]
      slope_le [of u v "r_one r" "util_target r"] slope_full [of u "util_target r" "r_one r"]
      slope_le [of "u - util_target r" "v - util_target r" "r_two r" "max_util r - util_target r"]
      slope_full [of "u - util_target r" "max_util r - util_target r" "r_two r"]
      slope_le [of "u - max_util r" "v - max_util r" "r_three r" "SCALAR_7 - max_util r"]
    by (cases "v \<le> util_target r"; cases "v \<le> max_util r"; cases "u \<le> util_target r"; cases "u \<le> max_util r")
      (simp_all add: borrowRate_div [OF ok])
  moreover have "borrowRate r (util_target r) = r_base r + r_one r"
    "borrowRate r (max_util r) = r_base r + r_one r + r_two r"
    using ok o by (auto simp: borrowRate_div curve_ok_def)
  moreover have "borrowRate r 0 = r_base r" using ok o by (simp add: borrowRate_div curve_ok_def)
  ultimately show ?thesis by blast
qed

theorem borrow_rate_monotone_witness:
  "\<exists>r. curve_ok r \<and> borrowRate r 3000000 \<le> borrowRate r 9600000 \<and> borrowRate r 9600000 = 6300000"
proof -
  let ?r = "\<lparr>util_target = 5000000, max_util = 9500000, r_base = 100000, r_one = 200000, r_two = 5000000,
    r_three = 5000000, b_supply = 0, b_rate = 0, d_supply = 0, d_rate = 0, ir_mod = SCALAR_7\<rparr>"
  have ok: "curve_ok ?r" by (simp add: curve_ok_def SCALAR_7_def)
  have "borrowRate ?r 9600000 = 6300000" by (simp add: borrowRate_def or_one_def SCALAR_7_def signed_divide_int_def)
  with ok borrow_rate_monotone [OF ok, of 3000000 9600000] show ?thesis by auto
qed

subsection \<open>Lifeboat and radar\<close>

text \<open>
  The chain states a run read and evaluated, in order; the signals of the \<open>i\<close>-th compare it with the
  one before.
\<close>

definition reads :: "radar \<Rightarrow> chain list" where
  "reads s = concat (map (\<lambda>(seq, rd, res). case (rd, res) of (Some c, Some t) \<Rightarrow> [c] | _ \<Rightarrow> []) (ticks s))"

text \<open>The tick on \<open>c\<close> announces an upgrade whose time is no date.\<close>

definition undatable :: "radar_memo \<Rightarrow> chain \<Rightarrow> bool" where
  "undatable m c \<longleftrightarrow>
     (case pendingUpgrade c of
        None \<Rightarrow> False
      | Some u \<Rightarrow> upgradeKey (Some u) \<noteq> lastSeenUpgradeKey m \<and> \<not> dateable (eta u))"

definition liq_before :: "chain list \<Rightarrow> nat \<Rightarrow> int option" where
  "liq_before cs i = (if i = 0 then None else availableLiquidity (cs ! (i - 1)))"

definition signals_at :: "chain list \<Rightarrow> nat \<Rightarrow> signals" where
  "signals_at cs i =
     \<lparr>utilization = c_utilization (cs ! i),
      liqDrop = liqDropBpsFrom (liq_before cs i) (availableLiquidity (cs ! i)),
      oracleDivergence = c_divergence (cs ! i)\<rparr>"

definition quiet :: "lifeboat_config \<Rightarrow> chain list \<Rightarrow> nat \<Rightarrow> bool" where
  "quiet cfg cs i \<longleftrightarrow> c_derisked (cs ! i) \<and> isNormal (signals_at cs i) cfg"

definition mandate_live :: "chain \<Rightarrow> bool" where
  "mandate_live c \<longleftrightarrow> mandateExpiry c > 0 \<and> c_now c < mandateExpiry c"

text \<open>What a tick on the last read of \<open>cs\<close>, after a quiet streak, does.\<close>

definition tick_spec :: "lifeboat_config \<Rightarrow> chain list \<Rightarrow> nat \<Rightarrow> lifeboat_action option" where
  "tick_spec cfg cs streak =
     (let c = last cs; i = length cs - 1 in
      if c_derisked c then (if mandate_live c \<and> allClearLedgers cfg \<le> streak then Some Resume else None)
      else case engageReason (signals_at cs i) cfg of
             Some r \<Rightarrow> if mandate_live c then Some (Derisk r) else None
           | None \<Rightarrow> None)"

definition radar_inv :: "lifeboat_config \<Rightarrow> radar \<Rightarrow> bool" where
  "radar_inv cfg s \<longleftrightarrow>
     (let cs = reads s; m = memo s in
        \<not> inFlight m \<and> prevLiq m = liq_before cs (length cs) \<and> normalStreak m \<le> length cs
      \<and> (\<forall>i. length cs - normalStreak m \<le> i \<and> i < length cs \<longrightarrow> quiet cfg cs i)
      \<and> sorted_wrt (<) (map fst (ticks s)) \<and> (\<forall>t \<in> set (ticks s). fst t \<le> lastSeq s))"


lemma signals_at_append: "i < length cs \<Longrightarrow> signals_at (cs @ [c]) i = signals_at cs i"
  by (auto simp: signals_at_def liq_before_def nth_append)

lemma quiet_append: "i < length cs \<Longrightarrow> quiet cfg (cs @ [c]) i = quiet cfg cs i"
  by (simp add: quiet_def signals_at_append nth_append)

lemma tick_throws:
  assumes "radarTick cfg m (Some c) = (m', res)"
  shows "res = None \<longleftrightarrow> undatable m c"
    "res = None \<Longrightarrow> m' = m\<lparr>lastSeenUpgradeKey := upgradeKey (pendingUpgrade c)\<rparr>"
  using assms
  by (auto simp: radarTick_def Let_def logPendingUpgrade_def undatable_def split: prod.splits if_splits option.splits)

lemma tick_memo:
  assumes "radarTick cfg m (Some c) = (m', Some res)"
  shows "inFlight m' = inFlight m" "prevLiq m' = availableLiquidity c"
    "normalStreak m' = (if c_derisked c \<and> isNormal (chain_signals m c) cfg then normalStreak m + 1 else 0)"
    "\<not> inFlight m \<Longrightarrow> t_submitted res =
       (if c_derisked c then (if mandate_live c \<and> allClearLedgers cfg \<le> normalStreak m' then Some Resume else None)
        else case engageReason (chain_signals m c) cfg of
               Some r \<Rightarrow> if mandate_live c then Some (Derisk r) else None | None \<Rightarrow> None)"
  using assms
  by (auto simp: radarTick_def Let_def logPendingUpgrade_def chain_signals_def decideLifeboat_def mandate_live_def
      split: prod.splits if_splits option.splits)

lemma chain_signals_last:
  "prevLiq m = liq_before cs (length cs) \<Longrightarrow> chain_signals m c = signals_at (cs @ [c]) (length cs)"
  by (simp add: chain_signals_def signals_at_def liq_before_def nth_append)

lemma tick_extends:
  assumes tk: "radarTick cfg (memo s) (Some c) = (m', Some res)" and inv: "radar_inv cfg s"
    and cs: "cs = reads s @ [c]"
  shows "prevLiq m' = liq_before cs (length cs)" "normalStreak m' \<le> length cs"
    "\<forall>i. length cs - normalStreak m' \<le> i \<and> i < length cs \<longrightarrow> quiet cfg cs i"
    "t_submitted res = tick_spec cfg cs (normalStreak m')"
proof -
  have i: "\<not> inFlight (memo s)" "prevLiq (memo s) = liq_before (reads s) (length (reads s))"
    "normalStreak (memo s) \<le> length (reads s)"
    "\<And>i. length (reads s) - normalStreak (memo s) \<le> i \<Longrightarrow> i < length (reads s) \<Longrightarrow> quiet cfg (reads s) i"
    using inv by (auto simp: radar_inv_def Let_def)
  note t = tick_memo [OF tk] and sg = chain_signals_last [OF i(2), of c, folded cs]
  show "prevLiq m' = liq_before cs (length cs)" by (simp add: t cs liq_before_def nth_append)
  show "normalStreak m' \<le> length cs" using i(3) by (simp add: t cs)
  have last: "quiet cfg cs (length (reads s)) \<longleftrightarrow> c_derisked c \<and> isNormal (chain_signals (memo s) c) cfg"
    by (simp add: quiet_def sg) (simp add: cs nth_append)
  show "\<forall>i. length cs - normalStreak m' \<le> i \<and> i < length cs \<longrightarrow> quiet cfg cs i"
  proof (intro allI impI)
    fix j assume j: "length cs - normalStreak m' \<le> j \<and> j < length cs"
    then have q: "c_derisked c \<and> isNormal (chain_signals (memo s) c) cfg"
      and j': "length (reads s) - normalStreak (memo s) \<le> j"
      by (auto simp: t cs split: if_splits)
    show "quiet cfg cs j"
    proof (cases "j = length (reads s)")
      case True
      with q last show ?thesis by simp
    next
      case False
      with j j' i(4) [of j] show ?thesis by (auto simp: cs quiet_append)
    qed
  qed
  show "t_submitted res = tick_spec cfg cs (normalStreak m')"
    using t(4) [OF i(1)] sg by (simp add: tick_spec_def cs Let_def)
qed

lemma reads_snoc:
  "reads (s\<lparr>lastSeq := q, memo := m, ticks := ticks s @ [(q, Some c, Some res)]\<rparr>) = reads s @ [c]"
  "reads (s\<lparr>lastSeq := q, memo := m, ticks := ticks s @ [(q, Some c, None)]\<rparr>) = reads s"
  "reads (s\<lparr>lastSeq := q, memo := m, ticks := ticks s @ [(q, None, t)]\<rparr>) = reads s"
  "reads (s\<lparr>lastSeq := q, ticks := ticks s @ [(q, None, t)]\<rparr>) = reads s"
  "reads (s\<lparr>lastSeq := q\<rparr>) = reads s"
  by (simp_all add: reads_def)

lemma ticks_snoc_order:
  assumes "radar_inv cfg s" "lastSeq s < q"
  shows "sorted_wrt (<) (map fst (ticks s) @ [q])" "\<forall>t \<in> set (ticks s). fst t \<le> q"
  using assms by (fastforce simp: radar_inv_def Let_def sorted_wrt_append)+

lemma radarPoll_inv:
  assumes inv: "radar_inv cfg s"
  shows "radar_inv cfg (radarPoll cfg s p)"
proof (cases p)
  case (Ledger q rd)
  show ?thesis
  proof (cases "lastSeq s < q")
    case True
    note ord = ticks_snoc_order [OF inv True]
    consider "rd = None" | "rd = Some None" | c where "rd = Some (Some c)" by (cases rd) auto
    then show ?thesis
    proof cases
      case 1
      with inv Ledger True ord show ?thesis by (auto simp: radarPoll_def radar_inv_def Let_def reads_snoc)
    next
      case 2
      with inv Ledger True ord show ?thesis
        by (auto simp: radarPoll_def radar_inv_def Let_def reads_snoc radarTick_def)
    next
      case (3 c)
      obtain m' res where tk: "radarTick cfg (memo s) (Some c) = (m', res)" by force
      show ?thesis
      proof (cases res)
        case None
        note m' = tick_throws(2) [OF tk None]
        from inv have "\<not> inFlight m'" "prevLiq m' = liq_before (reads s) (length (reads s))"
          "normalStreak m' \<le> length (reads s)"
          "\<forall>i. length (reads s) - normalStreak m' \<le> i \<and> i < length (reads s) \<longrightarrow> quiet cfg (reads s) i"
          by (simp_all add: m' radar_inv_def Let_def)
        with 3 Ledger True ord None show ?thesis
          by (simp add: radarPoll_def tk radar_inv_def Let_def reads_snoc)
      next
        case (Some t)
        note tk' = tk [unfolded Some]
        have "\<not> inFlight m'" using tick_memo(1) [OF tk'] inv by (simp add: radar_inv_def Let_def)
        with 3 Ledger True ord tick_extends [OF tk' inv refl] show ?thesis
          by (simp add: radarPoll_def tk' radar_inv_def Let_def reads_snoc)
      qed
    qed
  next
    case False
    with Ledger inv show ?thesis by (simp add: radarPoll_def)
  qed
qed (simp add: radarPoll_def inv)

interpretation radar: invariant_machine "radarPoll cfg" "radar_inv cfg" for cfg
  by unfold_locales (rule radarPoll_inv)





end
