(* ===== verification/CanonicalJson.thy ===== *)
theory CanonicalJson
  imports Prelude "HOL-Library.Sublist"
begin

section \<open>Canonical JSON texts\<close>

text \<open>
  \<open>canonicalJson\<close>, of which \<open>relayer/src/associationOutbox.mjs\<close> and \<open>relayer/src/baseEvidenceOutbox.mjs\<close>
  each have a copy, the folding of property names both use to find sensitive ones, and the
  allow-list check of their objects.
\<close>

definition is_lower_alnum :: "char \<Rightarrow> bool" where
  "is_lower_alnum c \<longleftrightarrow> c \<in> set ''abcdefghijklmnopqrstuvwxyz0123456789''"

text \<open>The elements in order when every one is there, \<open>None\<close> otherwise.\<close>

fun all_some :: "'a option list \<Rightarrow> 'a list option" where
  "all_some [] = Some []"
| "all_some (None # xs) = None"
| "all_some (Some x # xs) = map_option ((#) x) (all_some xs)"

text \<open>
  \<open>canonicalJson\<close>: keys in sorted order; \<open>None\<close> when a value has no JSON text.
\<close>

fun canonicalJson :: "jsv \<Rightarrow> string option" where
  "canonicalJson (JArr xs) =
     map_option (\<lambda>ts. ''['' @ join_comma ts @ '']'') (all_some (map canonicalJson xs))"
| "canonicalJson (JObj kvs) =
     map_option (\<lambda>ts. ''{'' @ join_comma ts @ ''}'')
       (all_some (map (\<lambda>kt. map_option (\<lambda>t. json_quote (fst kt) @ '':'' @ t) (snd kt))
          (sort_key fst (map (\<lambda>kv. (fst kv, canonicalJson (snd kv))) kvs))))"
| "canonicalJson v = json v"

text \<open>
  \<open>const unexpected = Object.keys(v).find((field) => !fields.has(field)); if (unexpected) throw\<close>: only the
  first field outside the list is looked at, and one whose name is the empty string is let through
  with every field behind it.
\<close>

definition unexpectedField :: "string list \<Rightarrow> jsv \<Rightarrow> bool" where
  "unexpectedField fields v = (case find (\<lambda>k. k \<notin> set fields) (js_keys v) of None \<Rightarrow> False | Some k \<Rightarrow> k \<noteq> [])"

end
