(* ===== verification/AssociationOutbox.thy ===== *)
theory AssociationOutbox
  imports CanonicalJson Machines
begin

section \<open>The durable association outbox of the relayer\<close>

text \<open>
  \<open>relayer/src/associationOutbox.mjs\<close>: lifecycle reports are enqueued immutably, one per identity
  and sequence number, leased one at a time, and marked delivered, retried or dead under the lease.
  A SQL statement is a function on the list of rows, in the order of their ids; a transaction that
  throws leaves the table as it was. The text \<open>report_json\<close> of a row is the canonical text of its
  report, so a row carries the report and texts are compared with \<open>canonicalJson\<close>. SHA-256, the
  random lease token and clock readings are arguments.
\<close>

datatype outbox_error =
    must_be_object | unexpected_field | text_required | sensitive_property | unsupported_value
  | bad_expected_sequence | bad_sequence | bad_lifecycle_status | bad_observed_at | bad_evidence
  | bad_max_attempts | migration_conflict | empty_enqueue | immutable_conflict | out_of_order
  | constraint_failed | bad_lease | stale_lease

datatype row_status = Pending | Leased | Delivered | Dead

record row =
  row_id :: nat
  idempotency_key :: string
  identity_key :: string
  child_id :: string
  sequence :: int
  report_digest :: string
  report :: jsv
  status :: row_status
  attempts :: nat
  available_at :: int
  lease_token :: "string option"
  lease_expires_at :: "int option"
  last_error :: "string option"
  created_at :: int
  updated_at :: int
  delivered_at :: "int option"

record outbox_db =
  rows :: "row list"
  next_id :: nat

subsection \<open>Validation of a report\<close>

definition LIFECYCLE_STATUSES :: "string list" where
  "LIFECYCLE_STATUSES = [''planned'', ''submitted'', ''confirmed'', ''failed'', ''unknown'']"

definition SAFE_FAILURE_CODES :: "string list" where
  "SAFE_FAILURE_CODES = [''delivery_failed'', ''reporter_delivery_failed'', ''reporter_unavailable'', ''lease_expired'']"

definition REQUEST_FIELDS :: "string list" where
  "REQUEST_FIELDS = [''identity'', ''expectedSequence'', ''lifecycle'']"

definition IDENTITY_FIELDS :: "string list" where
  "IDENTITY_FIELDS = [''networkId'', ''owner'', ''bindingId'', ''executionId'', ''allocationId'', ''childId'']"

definition RECOVERY_IDENTITY_FIELDS :: "string list" where
  "RECOVERY_IDENTITY_FIELDS = [''networkId'', ''bindingId'', ''executionId'', ''allocationId'', ''childId'']"

definition LIFECYCLE_FIELDS :: "string list" where
  "LIFECYCLE_FIELDS = [''sequence'', ''status'', ''evidence'', ''observedAt'']"

definition exactObject :: "jsv \<Rightarrow> string list \<Rightarrow> outbox_error + unit" where
  "exactObject v allowed =
     (if \<not> js_is_obj v then Inl must_be_object
      else if unexpectedField allowed v then Inl unexpected_field
      else Inr ())"

definition requireText :: "jsv \<Rightarrow> outbox_error + string" where
  "requireText v = (case v of JStr s \<Rightarrow> if s = [] then Inl text_required else Inr s | _ \<Rightarrow> Inl text_required)"

text \<open>
  The pattern \<open>^[a-z][a-z0-9]*(?:_[a-z0-9]+)*$\<close> holds of every element of \<open>SAFE_FAILURE_CODES\<close> and
  all of them are shorter than 64 characters, so membership decides.
\<close>

definition safeFailureCode :: "string \<Rightarrow> string" where
  "safeFailureCode e = (if e \<in> set SAFE_FAILURE_CODES then e else ''delivery_failed'')"

definition sensitive_key :: "string \<Rightarrow> bool" where
  "sensitive_key key =
     (let n = filter is_lower_alnum (toLowerCase key) in
      list_ex (\<lambda>w. sublist w n) [''secret'', ''private'', ''sessionkey'', ''serializedapproval''] \<or> n = ''mandate'')"

text \<open>\<open>rejectSensitive\<close>: true when it throws. The indexes of an array are never sensitive.\<close>

fun rejectSensitive :: "jsv \<Rightarrow> bool" where
  "rejectSensitive (JArr xs) = list_ex rejectSensitive xs"
| "rejectSensitive (JObj kvs) = list_ex (\<lambda>kv. sensitive_key (fst kv) \<or> rejectSensitive (snd kv)) kvs"
| "rejectSensitive v = False"

text \<open>A validation step per field, the first failure wins.\<close>

fun require_all :: "(outbox_error + 'a) list \<Rightarrow> outbox_error + 'a list" where
  "require_all [] = Inr []"
| "require_all (x # xs) = ebind x (\<lambda>a. ebind (require_all xs) (\<lambda>as. Inr (a # as)))"

definition recoveryIdentity :: "jsv \<Rightarrow> outbox_error + jsv" where
  "recoveryIdentity identity =
     ebind (require_all (map (\<lambda>f. requireText (js_get identity f)) RECOVERY_IDENTITY_FIELDS))
       (\<lambda>ts. Inr (JObj (zip RECOVERY_IDENTITY_FIELDS (map JStr ts))))"

definition validateReport :: "jsv \<Rightarrow> outbox_error + unit" where
  "validateReport r =
     (let identity = js_get r ''identity''; lifecycle = js_get r ''lifecycle'';
          expected = js_get r ''expectedSequence''; seq = js_get lifecycle ''sequence'' in
      ebind (exactObject r REQUEST_FIELDS) (\<lambda>_.
      ebind (exactObject identity IDENTITY_FIELDS) (\<lambda>_.
      ebind (exactObject lifecycle LIFECYCLE_FIELDS) (\<lambda>_.
      ebind (require (\<not> rejectSensitive r) sensitive_property) (\<lambda>_.
      ebind (require_all (map (\<lambda>f. requireText (js_get identity f)) IDENTITY_FIELDS)) (\<lambda>_.
      ebind (require (case expected of JNum n \<Rightarrow> safe_int n \<and> 0 \<le> n | _ \<Rightarrow> False) bad_expected_sequence) (\<lambda>_.
      ebind (require (case (expected, seq) of (JNum n, JNum m) \<Rightarrow> m = n + 1 \<and> 1 \<le> m | _ \<Rightarrow> False) bad_sequence) (\<lambda>_.
      ebind (require (js_get lifecycle ''status'' \<in> JStr ` set LIFECYCLE_STATUSES) bad_lifecycle_status) (\<lambda>_.
      ebind (require (js_safe_int (js_get lifecycle ''observedAt'')) bad_observed_at) (\<lambda>_.
      require (js_is_obj (js_get lifecycle ''evidence'')) bad_evidence))))))))))"

subsection \<open>Rows as records\<close>

record outbox_record =
  o_id :: nat
  o_idempotencyKey :: string
  o_digest :: string
  o_report :: jsv
  o_sequence :: int
  o_status :: row_status
  o_attempts :: nat
  o_leaseToken :: "string option"
  o_leaseExpiresAt :: "int option"

definition rowToRecord :: "row \<Rightarrow> outbox_record" where
  "rowToRecord r =
     \<lparr>o_id = row_id r, o_idempotencyKey = idempotency_key r, o_digest = report_digest r, o_report = report r,
      o_sequence = sequence r, o_status = status r, o_attempts = attempts r, o_leaseToken = lease_token r,
      o_leaseExpiresAt = lease_expires_at r\<rparr>"

subsection \<open>Opening\<close>

text \<open>The legacy migration: the identity key of a row is recomputed from its report.\<close>

definition identityKeyOf :: "jsv \<Rightarrow> outbox_error + string" where
  "identityKeyOf identity =
     ebind (recoveryIdentity identity) (\<lambda>v.
       case canonicalJson v of None \<Rightarrow> Inl unsupported_value | Some t \<Rightarrow> Inr t)"

fun migrateRows :: "row list \<Rightarrow> row list \<Rightarrow> outbox_error + row list" where
  "migrateRows done1 [] = Inr done1"
| "migrateRows done1 (r # rs) =
     ebind (identityKeyOf (js_get (report r) ''identity'')) (\<lambda>k.
       if k = identity_key r then migrateRows (done1 @ [r]) rs
       else if list_ex (\<lambda>x. identity_key x = k \<and> sequence x = sequence r) (done1 @ rs) then Inl constraint_failed
       else migrateRows (done1 @ [r\<lparr>identity_key := k\<rparr>]) rs)"

definition createAssociationOutbox :: "int \<Rightarrow> outbox_db \<Rightarrow> outbox_error + outbox_db" where
  "createAssociationOutbox maxAttempts db =
     (if \<not> safe_int maxAttempts \<or> maxAttempts \<le> 0 then Inl bad_max_attempts
      else case migrateRows [] (rows db) of
             Inl e \<Rightarrow> Inl migration_conflict
           | Inr rs \<Rightarrow> Inr (db\<lparr>rows := rs\<rparr>))"

subsection \<open>Enqueue\<close>

record prepared =
  p_report :: jsv
  p_json :: string
  p_digest :: string
  p_identityKey :: string
  p_idempotencyKey :: string
  p_childId :: string
  p_sequence :: int
  p_expected :: int

fun js_int :: "jsv \<Rightarrow> int" where
  "js_int (JNum n) = n"
| "js_int _ = 0"

definition canonical_or :: "jsv \<Rightarrow> outbox_error + string" where
  "canonical_or v = (case canonicalJson v of None \<Rightarrow> Inl unsupported_value | Some t \<Rightarrow> Inr t)"

definition prepare :: "(string \<Rightarrow> string) \<Rightarrow> jsv \<Rightarrow> outbox_error + prepared" where
  "prepare sha r =
     ebind (validateReport r) (\<lambda>_.
     ebind (canonical_or r) (\<lambda>text1.
     ebind (identityKeyOf (js_get r ''identity'')) (\<lambda>key.
     ebind (canonical_or (JArr (map (js_get (js_get r ''identity'')) RECOVERY_IDENTITY_FIELDS
              @ [js_get (js_get r ''lifecycle'') ''sequence'', JStr (sha text1)]))) (\<lambda>idem.
     Inr \<lparr>p_report = r, p_json = text1, p_digest = sha text1, p_identityKey = key, p_idempotencyKey = idem,
          p_childId = js_to_key (js_get (js_get r ''identity'') ''childId''),
          p_sequence = js_int (js_get (js_get r ''lifecycle'') ''sequence''),
          p_expected = js_int (js_get r ''expectedSequence'')\<rparr>))))"

definition find_row :: "outbox_db \<Rightarrow> string \<Rightarrow> int \<Rightarrow> row option" where
  "find_row db key n = find (\<lambda>r. identity_key r = key \<and> sequence r = n) (rows db)"

text \<open>\<open>SELECT MAX(sequence)\<close> of an identity, plus one; 1 when it has no row.\<close>

definition expected_next :: "outbox_db \<Rightarrow> string \<Rightarrow> int" where
  "expected_next db key =
     (case map sequence (filter (\<lambda>r. identity_key r = key) (rows db)) of
        [] \<Rightarrow> 1 | n # ns \<Rightarrow> fold max ns n + 1)"

definition new_row :: "outbox_db \<Rightarrow> prepared \<Rightarrow> int \<Rightarrow> row" where
  "new_row db p now =
     \<lparr>row_id = next_id db, idempotency_key = p_idempotencyKey p, identity_key = p_identityKey p,
      child_id = p_childId p, sequence = p_sequence p, report_digest = p_digest p, report = p_report p,
      status = Pending, attempts = 0, available_at = now, lease_token = None, lease_expires_at = None,
      last_error = None, created_at = now, updated_at = now, delivered_at = None\<rparr>"

definition enqueueOne ::
  "outbox_db \<Rightarrow> prepared \<Rightarrow> int \<Rightarrow> outbox_db \<times> (outbox_error + (outbox_record \<times> bool))" where
  "enqueueOne db p now =
     (case find_row db (p_identityKey p) (p_sequence p) of
        Some r \<Rightarrow>
          if report_digest r \<noteq> p_digest p \<or> canonicalJson (report r) \<noteq> Some (p_json p)
          then (db, Inl immutable_conflict)
          else (db, Inr (rowToRecord r, True))
      | None \<Rightarrow>
          let expected = expected_next db (p_identityKey p) in
          if p_sequence p \<noteq> expected \<or> p_expected p \<noteq> expected - 1 then (db, Inl out_of_order)
          else if list_ex (\<lambda>r. idempotency_key r = p_idempotencyKey p) (rows db) then (db, Inl constraint_failed)
          else (db\<lparr>rows := rows db @ [new_row db p now], next_id := next_id db + 1\<rparr>,
                Inr (rowToRecord (new_row db p now), False)))"

fun enqueueItems ::
  "outbox_db \<Rightarrow> prepared list \<Rightarrow> (nat \<Rightarrow> int) \<Rightarrow> outbox_db \<times> (outbox_error + (outbox_record \<times> bool) list)" where
  "enqueueItems db [] clk = (db, Inr [])"
| "enqueueItems db (p # ps) clk =
     (case enqueueOne db p (clk 0) of
        (db1, Inl e) \<Rightarrow> (db1, Inl e)
      | (db1, Inr out) \<Rightarrow>
          (case enqueueItems db1 ps (\<lambda>i. clk (i + 1)) of
             (db2, Inl e) \<Rightarrow> (db2, Inl e)
           | (db2, Inr outs) \<Rightarrow> (db2, Inr (out # outs))))"

definition enqueueInternal ::
  "(string \<Rightarrow> string) \<Rightarrow> bool \<Rightarrow> outbox_db \<Rightarrow> jsv list \<Rightarrow> (nat \<Rightarrow> int) \<Rightarrow>
     outbox_db \<times> (outbox_error + (outbox_record \<times> bool) list)" where
  "enqueueInternal sha transaction db reports clk =
     (if reports = [] then (db, Inl empty_enqueue)
      else case require_all (map (prepare sha) reports) of
        Inl e \<Rightarrow> (db, Inl e)
      | Inr ps \<Rightarrow>
          (case enqueueItems db ps clk of
             (db1, Inl e) \<Rightarrow> (if transaction then db else db1, Inl e)
           | (db1, Inr outs) \<Rightarrow> (db1, Inr outs)))"

definition enqueue_reports ::
  "(string \<Rightarrow> string) \<Rightarrow> outbox_db \<Rightarrow> jsv list \<Rightarrow> (nat \<Rightarrow> int) \<Rightarrow>
     outbox_db \<times> (outbox_error + (outbox_record \<times> bool) list)" where
  "enqueue_reports sha db reports clk = enqueueInternal sha True db reports clk"

subsection \<open>Leasing and settling\<close>

definition expired :: "row \<Rightarrow> int \<Rightarrow> bool" where
  "expired r now \<longleftrightarrow> status r = Leased \<and> (case lease_expires_at r of None \<Rightarrow> False | Some t \<Rightarrow> t \<le> now)"

text \<open>The first \<open>UPDATE\<close> of \<open>leaseNext\<close>: leases that expired at the attempt limit die.\<close>

definition bury :: "nat \<Rightarrow> int \<Rightarrow> row \<Rightarrow> row" where
  "bury maxAttempts now r =
     (if expired r now \<and> attempts r \<ge> maxAttempts
      then r\<lparr>status := Dead, lease_token := None, lease_expires_at := None,
             last_error := Some ''delivery lease expired at attempt limit'', updated_at := now\<rparr>
      else r)"

definition undelivered_prior :: "row list \<Rightarrow> row \<Rightarrow> bool" where
  "undelivered_prior rs c \<longleftrightarrow>
     list_ex (\<lambda>p. identity_key p = identity_key c \<and> sequence p < sequence c \<and> status p \<noteq> Delivered) rs"

definition candidate :: "nat \<Rightarrow> int \<Rightarrow> row list \<Rightarrow> row \<Rightarrow> bool" where
  "candidate maxAttempts now rs c \<longleftrightarrow>
     ((status c = Pending \<and> available_at c \<le> now) \<or> expired c now)
   \<and> attempts c < maxAttempts \<and> \<not> undelivered_prior rs c"

definition lease_row :: "string \<Rightarrow> int \<Rightarrow> int \<Rightarrow> row \<Rightarrow> row" where
  "lease_row token now leaseMs r =
     r\<lparr>status := Leased, attempts := attempts r + 1, lease_token := Some token,
       lease_expires_at := Some (now + leaseMs), updated_at := now\<rparr>"

definition on_row :: "nat \<Rightarrow> (row \<Rightarrow> row) \<Rightarrow> row list \<Rightarrow> row list" where
  "on_row i f rs = map (\<lambda>r. if row_id r = i then f r else r) rs"

definition leaseNext ::
  "nat \<Rightarrow> outbox_db \<Rightarrow> int \<Rightarrow> int \<Rightarrow> string \<Rightarrow> outbox_db \<times> (outbox_error + outbox_record option)" where
  "leaseNext maxAttempts db now leaseMs token =
     (if \<not> safe_int now \<or> \<not> safe_int leaseMs \<or> leaseMs \<le> 0 then (db, Inl bad_lease)
      else
        let rs = map (bury maxAttempts now) (rows db) in
        case sort_key (\<lambda>r. (created_at r, row_id r)) (filter (candidate maxAttempts now rs) rs) of
          [] \<Rightarrow> (db\<lparr>rows := rs\<rparr>, Inr None)
        | c # cs \<Rightarrow>
            (db\<lparr>rows := on_row (row_id c) (lease_row token now leaseMs) rs\<rparr>,
             Inr (Some (rowToRecord (lease_row token now leaseMs c)))))"

definition held :: "nat \<Rightarrow> string \<Rightarrow> row \<Rightarrow> bool" where
  "held i token r \<longleftrightarrow> row_id r = i \<and> status r = Leased \<and> lease_token r = Some token"

definition settle_row :: "row_status \<Rightarrow> int \<Rightarrow> int option \<Rightarrow> string option \<Rightarrow> row \<Rightarrow> row" where
  "settle_row st now retryAt err r =
     r\<lparr>status := st, available_at := (case retryAt of None \<Rightarrow> available_at r | Some t \<Rightarrow> t), lease_token := None,
       lease_expires_at := None, last_error := err, updated_at := now,
       delivered_at := (if st = Delivered then Some now else delivered_at r)\<rparr>"

definition guardedTransition ::
  "outbox_db \<Rightarrow> nat \<Rightarrow> string \<Rightarrow> row_status \<Rightarrow> int \<Rightarrow> int option \<Rightarrow> string option \<Rightarrow>
     outbox_db \<times> (outbox_error + outbox_record)" where
  "guardedTransition db i token st now retryAt err =
     (case filter (held i token) (rows db) of
        [r] \<Rightarrow> (db\<lparr>rows := map (\<lambda>x. if held i token x then settle_row st now retryAt err x else x) (rows db)\<rparr>,
                Inr (rowToRecord (settle_row st now retryAt err r)))
      | _ \<Rightarrow> (db, Inl stale_lease))"

definition markDelivered :: "outbox_db \<Rightarrow> nat \<Rightarrow> string \<Rightarrow> int \<Rightarrow> outbox_db \<times> (outbox_error + outbox_record)" where
  "markDelivered db i token now = guardedTransition db i token Delivered now None None"

definition markRetry ::
  "nat \<Rightarrow> outbox_db \<Rightarrow> nat \<Rightarrow> string \<Rightarrow> string \<Rightarrow> int \<Rightarrow> int \<Rightarrow> outbox_db \<times> (outbox_error + outbox_record)" where
  "markRetry maxAttempts db i token err now retryAt =
     (case find (held i token) (rows db) of
        None \<Rightarrow> (db, Inl stale_lease)
      | Some r \<Rightarrow>
          let dead = attempts r \<ge> maxAttempts in
          guardedTransition db i token (if dead then Dead else Pending) now (if dead then None else Some retryAt)
            (Some (safeFailureCode err)))"

definition markDead ::
  "outbox_db \<Rightarrow> nat \<Rightarrow> string \<Rightarrow> string \<Rightarrow> int \<Rightarrow> outbox_db \<times> (outbox_error + outbox_record)" where
  "markDead db i token err now = guardedTransition db i token Dead now None (Some (safeFailureCode err))"

record status_line =
  s_allocationId :: jsv
  s_executionId :: jsv
  s_sequence :: int
  s_status :: row_status
  s_attempts :: nat

definition outbox_status :: "outbox_db \<Rightarrow> jsv \<Rightarrow> outbox_error + status_line list" where
  "outbox_status db identity =
     ebind (exactObject identity RECOVERY_IDENTITY_FIELDS) (\<lambda>_.
     ebind (identityKeyOf identity) (\<lambda>key.
     Inr (map (\<lambda>r. \<lparr>s_allocationId = js_get (js_get (report r) ''identity'') ''allocationId'',
                    s_executionId = js_get (js_get (report r) ''identity'') ''executionId'',
                    s_sequence = sequence r, s_status = status r, s_attempts = attempts r\<rparr>)
            (sort_key (\<lambda>r. (sequence r, row_id r)) (filter (\<lambda>r. identity_key r = key) (rows db))))))"

subsection \<open>The delivery worker\<close>

text \<open>
  What one round of \<open>drain\<close> meets: the clock at the lease, the token, what other processes do to
  the table while the report is in flight, whether the reporter acknowledged, and the later readings.
\<close>

record drain_input =
  d_leaseNow :: int
  d_token :: string
  d_between :: "outbox_db \<Rightarrow> outbox_db"
  d_acked :: bool
  d_markNow :: int
  d_retryNow :: int

definition retry_delay :: "nat \<Rightarrow> int" where
  "retry_delay attempts1 = (let attempt = max 1 attempts1 in min 60000 (1000 * 2 ^ (attempt - 1)))"

definition drainRound :: "nat \<Rightarrow> outbox_db \<Rightarrow> outbox_record \<Rightarrow> drain_input \<Rightarrow> outbox_db" where
  "drainRound maxAttempts db leased inp =
     (let db1 = d_between inp db; token = (case o_leaseToken leased of Some t \<Rightarrow> t | None \<Rightarrow> []) in
      if d_acked inp then fst (markDelivered db1 (o_id leased) token (d_markNow inp))
      else fst (markRetry maxAttempts db1 (o_id leased) token ''reporter delivery failed'' (d_markNow inp)
                  (d_retryNow inp + retry_delay (o_attempts leased))))"

text \<open>The loop, with the rounds that are left and the number handled; the reports sent are recorded.\<close>

fun drainLoop ::
  "nat \<Rightarrow> int \<Rightarrow> nat \<Rightarrow> outbox_db \<Rightarrow> (nat \<Rightarrow> drain_input) \<Rightarrow> nat \<Rightarrow> jsv list \<Rightarrow>
     outbox_db \<times> (outbox_error + nat) \<times> jsv list" where
  "drainLoop maxAttempts leaseMs 0 db inp handled sent = (db, Inr handled, sent)"
| "drainLoop maxAttempts leaseMs (Suc left1) db inp handled sent =
     (case leaseNext maxAttempts db (d_leaseNow (inp handled)) leaseMs (d_token (inp handled)) of
        (db1, Inl e) \<Rightarrow> (db1, Inl e, sent)
      | (db1, Inr None) \<Rightarrow> (db1, Inr handled, sent)
      | (db1, Inr (Some leased)) \<Rightarrow>
          drainLoop maxAttempts leaseMs left1 (drainRound maxAttempts db1 leased (inp handled)) inp (handled + 1)
            (sent @ [o_report leased]))"

definition drainOutbox ::
  "nat \<Rightarrow> int \<Rightarrow> nat \<Rightarrow> bool \<Rightarrow> bool \<Rightarrow> outbox_db \<Rightarrow> (nat \<Rightarrow> drain_input) \<Rightarrow>
     outbox_db \<times> (outbox_error + nat) \<times> jsv list" where
  "drainOutbox maxAttempts leaseMs batchSize draining stopped db inp =
     (if draining \<or> stopped then (db, Inr 0, []) else drainLoop maxAttempts leaseMs batchSize db inp 0 [])"

end
