(* ===== verification/OutboxSafety.thy ===== *)
theory OutboxSafety
  imports AssociationOutbox
begin

section \<open>What the association outbox guarantees\<close>

text \<open>
  One invariant of the table, kept by every operation: sequences are dense and unique per identity,
  attempts are bounded, a lease is held exactly by leased rows, and a row is attempted only once
  every earlier report of its identity is delivered.
\<close>

subsection \<open>The invariant\<close>

definition row_fine :: "nat \<Rightarrow> row \<Rightarrow> bool" where
  "row_fine m r \<longleftrightarrow>
     attempts r \<le> m \<and> 1 \<le> sequence r \<and> (status r = Leased \<longleftrightarrow> lease_token r \<noteq> None)
   \<and> (lease_token r \<noteq> None \<longleftrightarrow> lease_expires_at r \<noteq> None) \<and> (status r \<noteq> Pending \<longrightarrow> 0 < attempts r)"

definition earlier :: "row \<Rightarrow> row \<Rightarrow> bool" where
  "earlier p r \<longleftrightarrow> identity_key p = identity_key r \<and> sequence p < sequence r"

definition in_order :: "row list \<Rightarrow> bool" where
  "in_order rs \<longleftrightarrow> (\<forall>r \<in> set rs. \<forall>p \<in> set rs. 0 < attempts r \<and> earlier p r \<longrightarrow> status p = Delivered)"

definition dense :: "row list \<Rightarrow> bool" where
  "dense rs \<longleftrightarrow>
     (\<forall>r \<in> set rs. \<forall>n. 1 \<le> n \<and> n < sequence r \<longrightarrow>
        (\<exists>p \<in> set rs. identity_key p = identity_key r \<and> sequence p = n))"

definition slot :: "row \<Rightarrow> string \<times> int" where "slot r = (identity_key r, sequence r)"

definition table_ok :: "nat \<Rightarrow> row list \<Rightarrow> bool" where
  "table_ok m rs \<longleftrightarrow>
     distinct (map row_id rs) \<and> distinct (map slot rs) \<and> (\<forall>r \<in> set rs. row_fine m r) \<and> dense rs \<and> in_order rs"

definition db_ok :: "nat \<Rightarrow> outbox_db \<Rightarrow> bool" where
  "db_ok m db \<longleftrightarrow> table_ok m (rows db) \<and> (\<forall>r \<in> set (rows db). row_id r < next_id db)"

text \<open>The columns no statement updates.\<close>

definition core :: "row \<Rightarrow> nat \<times> string \<times> string \<times> string \<times> int \<times> string \<times> jsv \<times> int" where
  "core r = (row_id r, idempotency_key r, identity_key r, child_id r, sequence r, report_digest r, report r, created_at r)"

lemma core_eqD:
  "core r = core r' \<Longrightarrow> row_id r = row_id r' \<and> identity_key r = identity_key r' \<and> sequence r = sequence r'
     \<and> report r = report r' \<and> report_digest r = report_digest r' \<and> slot r = slot r'"
  by (simp add: core_def slot_def)

lemma core_updates [simp]:
  "core (bury m now r) = core r" "core (lease_row t now ms r) = core r" "core (settle_row st now ra e r) = core r"
  by (simp_all add: core_def bury_def lease_row_def settle_row_def)

lemma undelivered_prior_iff:
  "undelivered_prior rs c \<longleftrightarrow> (\<exists>p \<in> set rs. earlier p c \<and> status p \<noteq> Delivered)"
  by (auto simp: undelivered_prior_def earlier_def list_ex_iff)

text \<open>A statement that updates rows one by one, as far as the invariant is concerned.\<close>

definition good_update :: "nat \<Rightarrow> row list \<Rightarrow> (row \<Rightarrow> row) \<Rightarrow> bool" where
  "good_update m rs f \<longleftrightarrow>
     (\<forall>r \<in> set rs. core (f r) = core r \<and> row_fine m (f r)
        \<and> (status r = Delivered \<longrightarrow> status (f r) = Delivered)
        \<and> (0 < attempts (f r) \<longrightarrow> 0 < attempts r \<or> \<not> undelivered_prior rs r))"

lemma good_update_table:
  assumes t: "table_ok m rs" and g: "good_update m rs f"
  shows "table_ok m (map f rs)"
proof -
  have c: "core (f r) = core r" if "r \<in> set rs" for r using g that by (simp add: good_update_def)
  have ids: "map row_id (map f rs) = map row_id rs" "map slot (map f rs) = map slot rs"
    using core_eqD [OF c] by simp_all
  have "distinct (map row_id (map f rs))" "distinct (map slot (map f rs))"
    unfolding ids using t by (simp_all add: table_ok_def)
  moreover have "dense (map f rs)"
  proof (clarsimp simp: dense_def)
    fix r n assume r: "r \<in> set rs" "1 \<le> n" "n < sequence (f r)"
    then have "n < sequence r" using core_eqD [OF c [OF r(1)]] by simp
    with r t obtain p where p: "p \<in> set rs" "identity_key p = identity_key r" "sequence p = n"
      unfolding table_ok_def dense_def by blast
    then show "\<exists>p \<in> set rs. identity_key (f p) = identity_key (f r) \<and> sequence (f p) = n"
      using core_eqD [OF c [OF p(1)]] core_eqD [OF c [OF r(1)]] by auto
  qed
  moreover have "in_order (map f rs)"
  proof (clarsimp simp: in_order_def)
    fix r p assume rp: "r \<in> set rs" "p \<in> set rs" "0 < attempts (f r)" "earlier (f p) (f r)"
    then have e: "earlier p r" using c [OF rp(1)] c [OF rp(2)] by (auto dest!: core_eqD simp: earlier_def)
    from rp g have "0 < attempts r \<or> \<not> undelivered_prior rs r" by (auto simp: good_update_def)
    then have "status p = Delivered"
      using e rp t by (auto simp: table_ok_def in_order_def undelivered_prior_iff)
    with rp g show "status (f p) = Delivered" by (simp add: good_update_def)
  qed
  moreover have "\<forall>r \<in> set (map f rs). row_fine m r" using g by (auto simp: good_update_def)
  ultimately show ?thesis unfolding table_ok_def by blast
qed

lemma bury_good: "table_ok m rs \<Longrightarrow> good_update m rs (bury k now)"
  by (auto simp: good_update_def table_ok_def row_fine_def bury_def expired_def core_def split: option.splits)

lemma bury_delivered [simp]: "status (bury k now r) = Delivered \<longleftrightarrow> status r = Delivered"
  by (auto simp: bury_def expired_def)

lemma id_unique: "distinct (map row_id rs) \<Longrightarrow> r \<in> set rs \<Longrightarrow> c \<in> set rs \<Longrightarrow> row_id r = row_id c \<Longrightarrow> r = c"
  by (simp add: distinct_map inj_on_def)

lemma lease_good:
  assumes t: "table_ok m rs" and c: "c \<in> set rs" "candidate m now rs c"
  shows "good_update m rs (\<lambda>r. if row_id r = row_id c then lease_row tok now ms r else r)"
proof -
  have "core (lease_row tok now ms c) = core c" "row_fine m (lease_row tok now ms c)" "status c \<noteq> Delivered"
    "\<not> undelivered_prior rs c"
    using c t by (auto simp: row_fine_def lease_row_def candidate_def table_ok_def expired_def core_def)
  moreover have "r = c" if "r \<in> set rs" "row_id r = row_id c" for r
    using that t c id_unique by (auto simp: table_ok_def)
  moreover have "row_fine m r" if "r \<in> set rs" for r using t that by (simp add: table_ok_def)
  ultimately show ?thesis by (auto simp: good_update_def)
qed

lemma settle_good:
  assumes "table_ok m rs" and "st \<noteq> Leased"
  shows "good_update m rs (\<lambda>x. if held i tok x then settle_row st now ra e x else x)"
  using assms by (auto simp: good_update_def table_ok_def row_fine_def settle_row_def held_def core_def)

subsection \<open>Enqueue keeps the invariant\<close>

lemma expected_next_iff:
  assumes "dense rs" "\<forall>r \<in> set rs. 1 \<le> sequence r" "rows db = rs"
  shows "1 \<le> expected_next db key"
    and "r \<in> set rs \<Longrightarrow> identity_key r = key \<Longrightarrow> sequence r < expected_next db key"
    and "1 \<le> n \<Longrightarrow> n < expected_next db key \<Longrightarrow> \<exists>p \<in> set rs. identity_key p = key \<and> sequence p = n"
proof -
  let ?ks = "map sequence (filter (\<lambda>r. identity_key r = key) rs)"
  have e: "expected_next db key = (if ?ks = [] then 1 else Max (set ?ks) + 1)"
    using assms(3) by (cases ?ks) (simp_all add: expected_next_def Max.set_eq_fold del: list.set)
  have lt: "sequence x < expected_next db key" if "x \<in> set rs" "identity_key x = key" for x
    using that unfolding e by (auto simp: filter_empty_conv intro: Max_ge le_imp_less_Suc)
  then show "r \<in> set rs \<Longrightarrow> identity_key r = key \<Longrightarrow> sequence r < expected_next db key" .
  show "1 \<le> expected_next db key"
  proof (cases "?ks = []")
    case False
    then have "hd (filter (\<lambda>r. identity_key r = key) rs) \<in> set (filter (\<lambda>r. identity_key r = key) rs)"
      by (intro hd_in_set) simp
    then have "hd (filter (\<lambda>r. identity_key r = key) rs) \<in> set rs
      \<and> identity_key (hd (filter (\<lambda>r. identity_key r = key) rs)) = key" by simp
    then obtain q where "q \<in> set rs" "identity_key q = key" by blast
    with lt [of q] assms(2) show ?thesis by fastforce
  qed (simp add: e)
  show "\<exists>p \<in> set rs. identity_key p = key \<and> sequence p = n" if n: "1 \<le> n" "n < expected_next db key"
  proof -
    from n e have ne: "?ks \<noteq> []" by (auto split: if_splits)
    have "set ?ks \<noteq> {}" unfolding set_empty by (rule ne)
    then have "Max (set ?ks) \<in> set ?ks" by (intro Max_in finite_set)
    then obtain q where q: "q \<in> set rs" "identity_key q = key" "sequence q = Max (set ?ks)" by auto
    with n e ne have "n \<le> sequence q" by simp
    then show ?thesis using q n assms(1) unfolding dense_def by (cases "n = sequence q") force+
  qed
qed

lemma append_row_ok:
  assumes ok: "db_ok m db" and new: "row_id r = next_id db" "sequence r = expected_next db (identity_key r)"
    "row_fine m r" "attempts r = 0"
  shows "db_ok m (db\<lparr>rows := rows db @ [r], next_id := next_id db + 1\<rparr>)"
proof -
  have t: "table_ok m (rows db)" and id: "\<forall>x \<in> set (rows db). row_id x < next_id db"
    using ok by (auto simp: db_ok_def)
  have seqs: "\<forall>x \<in> set (rows db). 1 \<le> sequence x" "dense (rows db)"
    using t by (auto simp: table_ok_def row_fine_def)
  note en = expected_next_iff [OF seqs(2,1) refl, where key = "identity_key r"]
  have "slot r \<notin> slot ` set (rows db)" using en(2) new(2) by (force simp: slot_def)
  moreover have "row_id r \<notin> row_id ` set (rows db)" using id new(1) by auto
  moreover have "dense (rows db @ [r])"
    unfolding dense_def
  proof (intro ballI allI impI)
    fix x n assume x: "x \<in> set (rows db @ [r])" "1 \<le> n \<and> n < sequence x"
    show "\<exists>p \<in> set (rows db @ [r]). identity_key p = identity_key x \<and> sequence p = n"
    proof (cases "x = r")
      case True
      with x new(2) en(3) [of n] show ?thesis by auto
    next
      case False
      with x have "x \<in> set (rows db)" by simp
      with x seqs(2) have "\<exists>p \<in> set (rows db). identity_key p = identity_key x \<and> sequence p = n"
        unfolding dense_def by blast
      then show ?thesis by auto
    qed
  qed
  moreover have "in_order (rows db @ [r])"
    unfolding in_order_def
  proof (intro ballI impI)
    fix x p assume x: "x \<in> set (rows db @ [r])" and p: "p \<in> set (rows db @ [r])"
      and a: "0 < attempts x \<and> earlier p x"
    from a new(4) x have x': "x \<in> set (rows db)" by auto
    with a en(2) [of x] new(2) have "p \<noteq> r" by (auto simp: earlier_def)
    with p x' a t show "status p = Delivered" by (auto simp: table_ok_def in_order_def)
  qed
  ultimately show ?thesis using t id new by (auto simp: db_ok_def table_ok_def)
qed

text \<open>What a change of the table keeps: the old rows in place, with their cores, delivered rows delivered.\<close>

definition extends :: "outbox_db \<Rightarrow> outbox_db \<Rightarrow> bool" where
  "extends db db' \<longleftrightarrow>
     length (rows db) \<le> length (rows db')
   \<and> (\<forall>i < length (rows db). core (rows db' ! i) = core (rows db ! i)
        \<and> (status (rows db ! i) = Delivered \<longrightarrow> status (rows db' ! i) = Delivered)
        \<and> (status (rows db ! i) = Dead \<longrightarrow> status (rows db' ! i) = Dead))"

lemma extends_refl [simp]: "extends db db"
  by (simp add: extends_def)

lemma extends_trans: "extends a b \<Longrightarrow> extends b c \<Longrightarrow> extends a c"
  by (force simp: extends_def)

lemma extends_append: "extends db (db\<lparr>rows := rows db @ rs, next_id := k\<rparr>)"
  by (simp add: extends_def nth_append)

lemma extends_map:
  assumes "\<And>r. r \<in> set (rows db) \<Longrightarrow> core (f r) = core r \<and> (status r = Delivered \<longrightarrow> status (f r) = Delivered)
      \<and> (status r = Dead \<longrightarrow> status (f r) = Dead)"
  shows "extends db (db\<lparr>rows := map f (rows db)\<rparr>)"
  using assms by (simp add: extends_def)

definition keeps :: "nat \<Rightarrow> outbox_db \<Rightarrow> outbox_db \<Rightarrow> bool" where
  "keeps m db db' \<longleftrightarrow> db_ok m db' \<and> extends db db'"

lemma db_ok_map:
  assumes "db_ok m db" "good_update m (rows db) f"
  shows "db_ok m (db\<lparr>rows := map f (rows db)\<rparr>)"
proof -
  have "row_id (f r) = row_id r" if "r \<in> set (rows db)" for r
    using assms(2) that core_eqD [of "f r" r] by (auto simp: good_update_def)
  with assms good_update_table [of m "rows db" f] show ?thesis by (auto simp: db_ok_def)
qed

lemma prepare_expected:
  assumes "prepare sha r = Inr p"
  shows "p_report p = r \<and> canonicalJson r = Some (p_json p) \<and> p_digest p = sha (p_json p)"
  using assms by (auto simp: prepare_def ebind_Inr_iff canonical_or_def split: option.splits)

lemma enqueueOne_keeps:
  assumes "db_ok m db"
  shows "keeps m db (fst (enqueueOne db p now))"
proof -
  have "db_ok m (db\<lparr>rows := rows db @ [new_row db p now], next_id := next_id db + 1\<rparr>)"
    if "p_sequence p = expected_next db (p_identityKey p)"
  proof (rule append_row_ok [OF assms])
    have "dense (rows db)" "\<forall>x \<in> set (rows db). 1 \<le> sequence x"
      using assms by (auto simp: db_ok_def table_ok_def row_fine_def)
    from expected_next_iff(1) [OF this refl, of "p_identityKey p"] that
    show "row_fine m (new_row db p now)" by (simp add: row_fine_def new_row_def)
  qed (use that in \<open>simp_all add: new_row_def\<close>)
  then show ?thesis
    using assms by (auto simp: enqueueOne_def Let_def keeps_def extends_append split: option.splits)
qed

lemma keeps_trans: "keeps m a b \<Longrightarrow> keeps m b c \<Longrightarrow> keeps m a c"
  by (auto simp: keeps_def intro: extends_trans)

lemma enqueueItems_keeps: "db_ok m db \<Longrightarrow> keeps m db (fst (enqueueItems db ps clk))"
proof (induction ps arbitrary: db clk)
  case (Cons p ps)
  obtain db1 x where one: "enqueueOne db p (clk 0) = (db1, x)" by force
  have k: "keeps m db db1" using enqueueOne_keeps [OF Cons.prems, of p "clk 0"] one by simp
  then have "keeps m db1 (fst (enqueueItems db1 ps (\<lambda>i. clk (i + 1))))"
    using Cons.IH by (simp add: keeps_def)
  with k one show ?case by (auto intro: keeps_trans split: sum.splits prod.splits)
qed (simp add: keeps_def)

lemma enqueue_keeps: "db_ok m db \<Longrightarrow> keeps m db (fst (enqueueInternal sha tr db reports clk))"
  using enqueueItems_keeps [of m db]
  by (auto simp: enqueueInternal_def keeps_def split: sum.splits prod.splits) (metis fst_conv)+

subsection \<open>Leases and settlements keep the invariant\<close>

lemma lease_candidate:
  assumes "leaseNext m db now ms tok = (db', Inr (Some rec))"
  obtains c where "c \<in> set (map (bury m now) (rows db))" "candidate m now (map (bury m now) (rows db)) c"
    "rec = rowToRecord (lease_row tok now ms c)"
    "db' = db\<lparr>rows := on_row (row_id c) (lease_row tok now ms) (map (bury m now) (rows db))\<rparr>"
proof -
  let ?rs = "map (bury m now) (rows db)"
  let ?cs = "sort_key (\<lambda>r. (created_at r, row_id r)) (filter (candidate m now ?rs) ?rs)"
  from assms obtain c cs where cs: "?cs = c # cs" and r: "rec = rowToRecord (lease_row tok now ms c)"
    "db' = db\<lparr>rows := on_row (row_id c) (lease_row tok now ms) ?rs\<rparr>"
    by (auto simp: leaseNext_def Let_def split: if_splits list.splits)
  have "c \<in> set ?cs" by (simp add: cs)
  then have "c \<in> set ?rs" "candidate m now ?rs c" by auto
  with r show ?thesis by (intro that)
qed

lemma leaseNext_keeps:
  assumes ok: "db_ok m db"
  shows "keeps m db (fst (leaseNext m db now ms tok))"
proof -
  let ?rs = "map (bury m now) (rows db)" and ?db1 = "db\<lparr>rows := map (bury m now) (rows db)\<rparr>"
  have t: "table_ok m (rows db)" using ok by (simp add: db_ok_def)
  have ok1: "db_ok m ?db1" by (rule db_ok_map [OF ok bury_good [OF t]])
  have ext1: "extends db ?db1" by (rule extends_map) (simp add: bury_def expired_def core_def)
  obtain db' x where l: "leaseNext m db now ms tok = (db', x)" by force
  show ?thesis
  proof (cases "\<exists>rec. x = Inr (Some rec)")
    case True
    with l obtain rec where l': "leaseNext m db now ms tok = (db', Inr (Some rec))" by auto
    from l' obtain c where c: "c \<in> set ?rs" "candidate m now ?rs c"
      "db' = ?db1\<lparr>rows := map (\<lambda>r. if row_id r = row_id c then lease_row tok now ms r else r) (rows ?db1)\<rparr>"
      by (rule lease_candidate) (auto simp: on_row_def)
    have t1: "table_ok m ?rs" using ok1 by (simp add: db_ok_def)
    have "db_ok m db'" unfolding c(3)
      using lease_good [OF t1 c(1,2), of tok ms] by (intro db_ok_map [OF ok1]) simp
    moreover have "extends ?db1 db'" unfolding c(3)
    proof (rule extends_map)
      fix r assume r: "r \<in> set (rows ?db1)"
      have "status c \<noteq> Delivered \<and> status c \<noteq> Dead" using c(2) by (auto simp: candidate_def expired_def)
      moreover have "r = c" if "row_id r = row_id c"
        using that r c(1) t1 id_unique [of ?rs r c] by (simp add: table_ok_def)
      ultimately show "core (if row_id r = row_id c then lease_row tok now ms r else r) = core r
          \<and> (status r = Delivered \<longrightarrow> status (if row_id r = row_id c then lease_row tok now ms r else r) = Delivered)
          \<and> (status r = Dead \<longrightarrow> status (if row_id r = row_id c then lease_row tok now ms r else r) = Dead)"
        by auto
    qed
    ultimately show ?thesis using l ext1 by (auto simp: keeps_def intro: extends_trans)
  next
    case False
    with l have "db' = db \<or> db' = ?db1"
      by (auto simp: leaseNext_def Let_def split: if_splits list.splits)
    with l ok ok1 ext1 show ?thesis by (auto simp: keeps_def)
  qed
qed

lemma guarded_keeps:
  assumes ok: "db_ok m db" and st: "st \<noteq> Leased"
  shows "keeps m db (fst (guardedTransition db i tok st now ra e))"
proof -
  let ?f = "\<lambda>x. if held i tok x then settle_row st now ra e x else x"
  have "db_ok m (db\<lparr>rows := map ?f (rows db)\<rparr>)"
    using ok settle_good [OF _ st] by (intro db_ok_map) (auto simp: db_ok_def)
  moreover have "extends db (db\<lparr>rows := map ?f (rows db)\<rparr>)"
    by (rule extends_map) (auto simp: held_def)
  ultimately show ?thesis
    using ok by (auto simp: guardedTransition_def keeps_def split: list.splits)
qed

lemma mark_keeps:
  assumes "db_ok m db"
  shows "keeps m db (fst (markDelivered db i tok now))" "keeps m db (fst (markDead db i tok e now))"
    "keeps m db (fst (markRetry k db i tok e now ra))"
  using assms by (auto simp: markDelivered_def markDead_def markRetry_def Let_def keeps_def [of m db db]
      intro!: guarded_keeps split: option.splits)

subsection \<open>Sequences of operations\<close>

datatype outbox_op =
    OEnqueue "jsv list" "nat \<Rightarrow> int"
  | OLease int int string
  | ODelivered nat string int
  | ORetry nat string string int int
  | ODead nat string string int

fun outbox_apply :: "(string \<Rightarrow> string) \<Rightarrow> nat \<Rightarrow> outbox_db \<Rightarrow> outbox_op \<Rightarrow> outbox_db" where
  "outbox_apply sha m db (OEnqueue reports clk) = fst (enqueue_reports sha db reports clk)"
| "outbox_apply sha m db (OLease now ms tok) = fst (leaseNext m db now ms tok)"
| "outbox_apply sha m db (ODelivered i tok now) = fst (markDelivered db i tok now)"
| "outbox_apply sha m db (ORetry i tok e now ra) = fst (markRetry m db i tok e now ra)"
| "outbox_apply sha m db (ODead i tok e now) = fst (markDead db i tok e now)"

lemma op_keeps: "db_ok m db \<Longrightarrow> keeps m db (outbox_apply sha m db op)"
  by (cases op) (auto simp: enqueue_reports_def enqueue_keeps leaseNext_keeps mark_keeps)

interpretation outbox: invariant_machine "outbox_apply sha m" "db_ok m" for sha m
  by unfold_locales (use op_keeps in \<open>auto simp: keeps_def\<close>)

lemma run_keeps: "db_ok m db \<Longrightarrow> keeps m db (run_ops (outbox_apply sha m) db ops)"
proof (induction ops arbitrary: db)
  case (Cons op ops)
  have k: "keeps m db (outbox_apply sha m db op)" by (rule op_keeps [OF Cons.prems])
  then have "keeps m (outbox_apply sha m db op) (run_ops (outbox_apply sha m) (outbox_apply sha m db op) ops)"
    by (intro Cons.IH) (simp add: keeps_def)
  with k show ?case by (auto intro: keeps_trans)
qed (simp add: keeps_def)

text \<open>The empty table, as the schema creates it.\<close>

definition empty_outbox :: outbox_db where "empty_outbox = \<lparr>rows = [], next_id = 1\<rparr>"

lemma empty_outbox_ok: "db_ok m empty_outbox"
  by (simp add: empty_outbox_def db_ok_def table_ok_def dense_def in_order_def)

lemma leased_record_in_order:
  assumes ok: "db_ok m db" and l: "leaseNext m db now ms tok = (db', Inr (Some rec))"
  shows "\<exists>r \<in> set (rows db). row_id r = o_id rec \<and> report r = o_report rec \<and> sequence r = o_sequence rec
      \<and> attempts r < m
      \<and> (\<forall>n. 1 \<le> n \<and> n < sequence r \<longrightarrow>
           (\<exists>p \<in> set (rows db). identity_key p = identity_key r \<and> sequence p = n \<and> status p = Delivered))"
proof -
  from lease_candidate [OF l] obtain c where c: "c \<in> set (map (bury m now) (rows db))"
    "candidate m now (map (bury m now) (rows db)) c" "rec = rowToRecord (lease_row tok now ms c)" by blast
  from c(1) obtain r where r: "r \<in> set (rows db)" "c = bury m now r" by auto
  with c(2) have cr: "c = r" by (auto simp: candidate_def bury_def expired_def split: if_splits)
  have prior: "status p = Delivered" if "p \<in> set (rows db)" "earlier p r" for p
  proof -
    have "earlier (bury m now p) c"
      using that(2) cr core_eqD [OF core_updates(1) [of m now p]] by (simp add: earlier_def)
    with that(1) c(2) have "status (bury m now p) = Delivered"
      by (auto simp: candidate_def undelivered_prior_iff)
    then show ?thesis by simp
  qed
  have "\<exists>p \<in> set (rows db). identity_key p = identity_key r \<and> sequence p = n \<and> status p = Delivered"
    if n: "1 \<le> n" "n < sequence r" for n
  proof -
    have "dense (rows db)" using ok by (simp add: db_ok_def table_ok_def)
    with n r(1) obtain p where "p \<in> set (rows db)" "identity_key p = identity_key r" "sequence p = n"
      unfolding dense_def by blast
    with n prior [of p] show ?thesis by (auto simp: earlier_def)
  qed
  moreover have "attempts r < m" using c(2) cr by (simp add: candidate_def)
  ultimately show ?thesis using r(1) c(3) cr by (intro bexI [of _ r]) (auto simp: rowToRecord_def lease_row_def)
qed

text \<open>
  C11. Over any sequence of enqueues, leases and settlements by any number of workers, a report is
  handed out for delivery only when every earlier report of its identity, back to sequence one, is
  stored and delivered, and only below the attempt limit; and every report that was ever attempted
  has all its predecessors delivered.
\<close>

theorem outbox_delivers_in_order:
  assumes "leaseNext m (run_ops (outbox_apply sha m) empty_outbox ops) now ms tok = (db', Inr (Some rec))"
  shows "(\<exists>r \<in> set (rows (run_ops (outbox_apply sha m) empty_outbox ops)).
            row_id r = o_id rec \<and> report r = o_report rec \<and> sequence r = o_sequence rec \<and> attempts r < m
          \<and> (\<forall>n. 1 \<le> n \<and> n < sequence r \<longrightarrow>
               (\<exists>p \<in> set (rows (run_ops (outbox_apply sha m) empty_outbox ops)).
                  identity_key p = identity_key r \<and> sequence p = n \<and> status p = Delivered)))
       \<and> in_order (rows db')"
proof -
  have ok: "db_ok m (run_ops (outbox_apply sha m) empty_outbox ops)"
    by (rule outbox.run_inv [OF empty_outbox_ok])
  have "in_order (rows db')"
    using leaseNext_keeps [OF ok, of now ms tok] assms by (simp add: keeps_def db_ok_def table_ok_def)
  with leased_record_in_order [OF ok assms] show ?thesis by blast
qed

text \<open>
  A stored report is immutable: whatever operations follow, its row stays with its identity,
  sequence, digest and content, a delivered or dead row stays delivered or dead, sequences stay
  unique and dense per identity, and no row is attempted more often than the limit.
\<close>

theorem outbox_rows_immutable:
  assumes "db = run_ops (outbox_apply sha m) empty_outbox ops" and "db' = run_ops (outbox_apply sha m) db ops'"
  shows "extends db db' \<and> dense (rows db') \<and> distinct (map slot (rows db'))
       \<and> (\<forall>r \<in> set (rows db'). attempts r \<le> m)"
proof -
  have "db_ok m db" using assms outbox.run_inv [OF empty_outbox_ok] by simp
  from run_keeps [OF this, of sha ops'] assms(2) show ?thesis
    by (auto simp: keeps_def db_ok_def table_ok_def row_fine_def)
qed

subsection \<open>Repeated enqueues\<close>

lemma find_slot:
  "distinct (map slot rs) \<Longrightarrow> r \<in> set rs \<Longrightarrow>
     find (\<lambda>x. identity_key x = identity_key r \<and> sequence x = sequence r) rs = Some r"
  by (induction rs) (auto simp: slot_def image_iff)

lemma enqueue_single:
  "prepare sha r = Inr p \<Longrightarrow>
     enqueue_reports sha db [r] clk =
       (case enqueueOne db p (clk 0) of (db1, Inl e) \<Rightarrow> (db, Inl e) | (db1, Inr x) \<Rightarrow> (db1, Inr [x]))"
  by (simp add: enqueue_reports_def enqueueInternal_def split: prod.splits sum.splits)

lemma enqueueOne_stored:
  assumes "enqueueOne db p now = (db1, Inr (rec, d))" and "prepare sha r = Inr p"
  shows "\<exists>x \<in> set (rows db1). identity_key x = p_identityKey p \<and> sequence x = p_sequence p
      \<and> report_digest x = p_digest p \<and> canonicalJson (report x) = Some (p_json p) \<and> rowToRecord x = rec"
proof (cases "find_row db (p_identityKey p) (p_sequence p)")
  case None
  with assms prepare_expected [OF assms(2)] show ?thesis
    by (auto simp: enqueueOne_def Let_def new_row_def split: if_splits)
next
  case (Some x)
  then have "x \<in> set (rows db)" "identity_key x = p_identityKey p" "sequence x = p_sequence p"
    by (auto simp: find_row_def find_Some_iff)
  with Some assms show ?thesis by (auto simp: enqueueOne_def split: if_splits)
qed

lemma extends_row:
  assumes "extends db db'" "x \<in> set (rows db)"
  shows "\<exists>y \<in> set (rows db'). core y = core x"
proof -
  from assms(2) obtain i where "i < length (rows db)" "rows db ! i = x" by (auto simp: in_set_conv_nth)
  with assms(1) show ?thesis by (intro bexI [of _ "rows db' ! i"]) (auto simp: extends_def)
qed

text \<open>
  Enqueueing is idempotent and conflict-detecting: once a report is stored, whatever happened
  since, enqueueing a report for the same identity and sequence changes nothing, returns the stored
  row as a duplicate when its canonical text is the same, and is refused as an immutable conflict
  otherwise.
\<close>

theorem enqueue_is_idempotent:
  assumes ok: "db = run_ops (outbox_apply sha m) empty_outbox ops"
    and first: "enqueue_reports sha db [r] clk = (db1, Inr [(rec, d)])"
    and later: "db2 = run_ops (outbox_apply sha m) db1 ops'"
    and p: "prepare sha r = Inr p" and p2: "prepare sha r2 = Inr p2"
    and same: "p_identityKey p2 = p_identityKey p" "p_sequence p2 = p_sequence p"
  shows "\<exists>y \<in> set (rows db2). row_id y = o_id rec \<and> report y = o_report rec
     \<and> enqueue_reports sha db2 [r2] clk2
         = (db2, if p_json p2 = p_json p then Inr [(rowToRecord y, True)] else Inl immutable_conflict)"
proof -
  have "db_ok m db" using ok outbox.run_inv [OF empty_outbox_ok] by simp
  then have "db_ok m db1"
    using enqueue_keeps [of m db sha True "[r]" clk] first by (simp add: enqueue_reports_def keeps_def)
  from run_keeps [OF this, of sha ops'] later have k: "db_ok m db2" "extends db1 db2" by (auto simp: keeps_def)
  from first p have "enqueueOne db p (clk 0) = (db1, Inr (rec, d))"
    by (auto simp: enqueue_single split: prod.splits sum.splits)
  from enqueueOne_stored [OF this p] obtain x where x: "x \<in> set (rows db1)" "identity_key x = p_identityKey p"
    "sequence x = p_sequence p" "report_digest x = p_digest p" "canonicalJson (report x) = Some (p_json p)"
    "rowToRecord x = rec" by blast
  from extends_row [OF k(2) x(1)] obtain y where y: "y \<in> set (rows db2)" "core y = core x" by blast
  note c = core_eqD [OF y(2)]
  have "find_row db2 (p_identityKey p2) (p_sequence p2) = Some y"
    using find_slot [of "rows db2" y] k(1) y(1) c x(2,3) same
    by (simp add: find_row_def db_ok_def table_ok_def)
  moreover have "p_digest p2 = p_digest p" if "p_json p2 = p_json p"
    using that prepare_expected [OF p] prepare_expected [OF p2] by simp
  ultimately have "enqueue_reports sha db2 [r2] clk2
      = (db2, if p_json p2 = p_json p then Inr [(rowToRecord y, True)] else Inl immutable_conflict)"
    using c x(4,5) by (auto simp: enqueue_single [OF p2] enqueueOne_def)
  moreover have "row_id y = o_id rec" "report y = o_report rec"
    using c x(6) by (auto simp: rowToRecord_def)
  ultimately show ?thesis using y(1) by blast
qed

subsection \<open>A concrete outbox\<close>

definition s_report :: "int \<Rightarrow> string \<Rightarrow> jsv" where
  "s_report n st =
     JObj [(''identity'', JObj (map (\<lambda>f. (f, JStr [CHR ''x''])) IDENTITY_FIELDS)),
           (''expectedSequence'', JNum (n - 1)),
           (''lifecycle'', JObj [(''sequence'', JNum n), (''status'', JStr st), (''evidence'', JObj []),
              (''observedAt'', JNum 7)])]"

definition s_ops :: "outbox_op list" where
  "s_ops = [OEnqueue [s_report 1 ''planned'', s_report 2 ''submitted''] (\<lambda>i. 10), OLease 20 1000 ''t1'',
     ODelivered 1 ''t1'' 30]"

definition s_sha :: "string \<Rightarrow> string" where "s_sha t = take 1 t"

definition s_db :: outbox_db where "s_db = run_ops (outbox_apply s_sha 3) empty_outbox s_ops"

definition leased_sequence :: "outbox_db \<times> (outbox_error + outbox_record option) \<Rightarrow> int option" where
  "leased_sequence res = (case snd res of Inr (Some rec) \<Rightarrow> Some (o_sequence rec) | _ \<Rightarrow> None)"

lemma leased_sequence_Some:
  "leased_sequence res = Some n \<longleftrightarrow> (\<exists>db rec. res = (db, Inr (Some rec)) \<and> o_sequence rec = n)"
  by (cases res) (auto simp: leased_sequence_def split: sum.splits option.splits)

lemma s_lease: "leased_sequence (leaseNext 3 s_db 40 1000 ''t2'') = Some 2"
  by code_simp

theorem outbox_delivers_in_order_witness:
  "\<exists>r \<in> set (rows s_db). sequence r = 2 \<and> (\<exists>p \<in> set (rows s_db).
     identity_key p = identity_key r \<and> sequence p = 1 \<and> status p = Delivered)"
proof -
  from s_lease obtain db' rec where l: "leaseNext 3 s_db 40 1000 ''t2'' = (db', Inr (Some rec))" "o_sequence rec = 2"
    by (auto simp: leased_sequence_Some)
  from outbox_delivers_in_order [OF l(1) [unfolded s_db_def]] l(2) show ?thesis
    unfolding s_db_def by fastforce
qed

theorem outbox_rows_immutable_witness:
  "extends (run_ops (outbox_apply s_sha 3) empty_outbox (take 1 s_ops))
     (run_ops (outbox_apply s_sha 3) (run_ops (outbox_apply s_sha 3) empty_outbox (take 1 s_ops)) (drop 1 s_ops))"
  using outbox_rows_immutable [OF refl refl] by blast

definition prepared_ok :: "(string \<Rightarrow> string) \<Rightarrow> jsv \<Rightarrow> bool" where
  "prepared_ok sha r = (case prepare sha r of Inr p \<Rightarrow> True | Inl e \<Rightarrow> False)"

theorem enqueue_is_idempotent_witness:
  "\<exists>y. enqueue_reports s_sha (run_ops (outbox_apply s_sha 3)
        (fst (enqueue_reports s_sha empty_outbox [s_report 1 ''planned''] (\<lambda>i. 10))) [OLease 20 1000 ''t1''])
      [s_report 1 ''planned''] (\<lambda>i. 99)
    = (run_ops (outbox_apply s_sha 3)
        (fst (enqueue_reports s_sha empty_outbox [s_report 1 ''planned''] (\<lambda>i. 10))) [OLease 20 1000 ''t1''],
       Inr [(rowToRecord y, True)])"
proof -
  let ?r = "s_report 1 ''planned''"
  have "prepared_ok s_sha ?r" by code_simp
  then obtain p where p: "prepare s_sha ?r = Inr p" by (auto simp: prepared_ok_def split: sum.splits)
  have "is_ok (snd (enqueue_reports s_sha empty_outbox [?r] (\<lambda>i. 10)))" by code_simp
  then obtain db1 rec d where first: "enqueue_reports s_sha empty_outbox [?r] (\<lambda>i. 10) = (db1, Inr [(rec, d)])"
    by (auto simp: enqueue_single [OF p] split: prod.splits sum.splits)
  have start: "empty_outbox = run_ops (outbox_apply s_sha 3) empty_outbox []" by simp
  from enqueue_is_idempotent [OF start first refl p p refl refl, of "[OLease 20 1000 ''t1'']" "\<lambda>i. 99"]
  show ?thesis unfolding first fst_conv by (simp only: simp_thms if_True) blast
qed

end
