(* ===== verification/FlowState.thy ===== *)
theory FlowState
  imports Prelude Machines
begin

section \<open>The three-moment strategy flow of the frontend\<close>

text \<open>
  \<open>frontend/src/strategy/flowState.js\<close>: the pure reducer that moves a run from Plan over Protect to
  Start, and the completeness test of its receipt. Plans, decisions, errors and attestations are
  untyped values the reducer stores by reference. An event the current moment does not allow returns
  the state it was given. An event type the switch does not name is \<open>OtherEvent\<close>.
\<close>

subsection \<open>State and events\<close>

datatype moment = Plan | Protect | Start

datatype plan_status = PIdle | PLoading | PReady | PFailed

datatype permission_status = Idle | PreflightDone | GrantAsked | Rejected | GrantGiven | ReuseGiven

record custody_row =
  cstatus :: string
  cerror :: "jsv option"
  cjobId :: "jsv option"

record flow_state =
  moment :: moment
  plan :: jsv
  planStatus :: plan_status
  planError :: jsv
  permission :: jsv
  permissionStatus :: permission_status
  permissionError :: jsv
  protectMessage :: "string option"
  retryable :: bool
  custody :: "(string \<times> custody_row) list"
  attestation :: jsv

definition initialStrategyFlowState :: flow_state where
  "initialStrategyFlowState =
     \<lparr>moment = Plan, plan = JNull, planStatus = PIdle, planError = JNull, permission = JNull,
      permissionStatus = Idle, permissionError = JNull, protectMessage = None, retryable = False,
      custody = [], attestation = JNull\<rparr>"

datatype flow_event =
    PLAN_REQUESTED
  | PLAN_READY jsv
  | PLAN_FAILED jsv
  | PROTECT_OPENED
  | PERMISSION_WINDOW_BOUND jsv
  | PREFLIGHT_READY jsv
  | PREFLIGHT_FAILED jsv
  | GRANT_REQUESTED
  | WALLET_REJECTED jsv jsv
  | WALLET_FAILED jsv jsv
  | GRANT_CONFIRMED
  | REUSE_CONFIRMED
  | WORKER_QUEUED jsv
  | WORKER_STARTED jsv
  | PULL_CONFIRMED jsv
  | PULL_FAILED jsv jsv
  | DEPOSIT_CONFIRMED jsv
  | DEPOSIT_FAILED jsv jsv
  | BASE_JOB_UPDATED jsv jsv jsv
  | ATTESTATION_RECEIVED jsv
  | OtherEvent

text \<open>\<open>v ?? null\<close> and \<open>a ?? b ?? null\<close>.\<close>

definition or_null :: "jsv \<Rightarrow> jsv" where
  "or_null v = (if v = JUndef then JNull else v)"

definition or_else :: "jsv \<Rightarrow> jsv \<Rightarrow> jsv" where
  "or_else a b = (if a = JUndef \<or> a = JNull then or_null b else a)"

subsection \<open>Custody lanes\<close>

definition KNOWN_BASE_JOB_STATUSES :: "string list" where
  "KNOWN_BASE_JOB_STATUSES = [''submitted'', ''bridged'', ''bridge-failed'']"

definition CUSTODY_TERMINAL :: "string list" where
  "CUSTODY_TERMINAL = [''deposited'', ''failed'', ''bridged'', ''bridge-failed'']"

fun arr_elems :: "jsv \<Rightarrow> jsv list" where
  "arr_elems (JArr xs) = xs"
| "arr_elems _ = []"

definition planHasEligibleAgent :: "jsv \<Rightarrow> bool" where
  "planHasEligibleAgent p \<longleftrightarrow> arr_elems (js_get p ''agents'') \<noteq> []"

text \<open>\<open>{ ...row, status }\<close>, where the row may be missing.\<close>

definition with_status :: "custody_row option \<Rightarrow> string \<Rightarrow> custody_row" where
  "with_status row st =
     (case row of None \<Rightarrow> \<lparr>cstatus = st, cerror = None, cjobId = None\<rparr> | Some r \<Rightarrow> r\<lparr>cstatus := st\<rparr>)"

text \<open>The row one event writes for its lane, given the row the lane has.\<close>

fun lane_write :: "custody_row option \<Rightarrow> flow_event \<Rightarrow> custody_row option" where
  "lane_write row (WORKER_QUEUED a) = Some (with_status row ''queued'')"
| "lane_write row (WORKER_STARTED a) = Some (with_status row ''started'')"
| "lane_write row (PULL_CONFIRMED a) = Some (with_status row ''pulled'')"
| "lane_write row (PULL_FAILED a e) = Some ((with_status row ''failed'')\<lparr>cerror := Some (or_null e)\<rparr>)"
| "lane_write row (DEPOSIT_CONFIRMED a) = Some (with_status row ''deposited'')"
| "lane_write row (DEPOSIT_FAILED a e) = Some ((with_status row ''failed'')\<lparr>cerror := Some (or_null e)\<rparr>)"
| "lane_write row (BASE_JOB_UPDATED a st job) =
     Some ((with_status row (if st \<in> JStr ` set KNOWN_BASE_JOB_STATUSES then js_to_key st else ''unknown''))
             \<lparr>cjobId := Some job\<rparr>)"
| "lane_write row _ = None"

fun event_lane :: "flow_event \<Rightarrow> jsv" where
  "event_lane (WORKER_QUEUED a) = a"
| "event_lane (WORKER_STARTED a) = a"
| "event_lane (PULL_CONFIRMED a) = a"
| "event_lane (PULL_FAILED a e) = a"
| "event_lane (DEPOSIT_CONFIRMED a) = a"
| "event_lane (DEPOSIT_FAILED a e) = a"
| "event_lane (BASE_JOB_UPDATED a st job) = a"
| "event_lane _ = JUndef"

definition applyCustodyEvent :: "(string \<times> custody_row) list \<Rightarrow> flow_event \<Rightarrow> (string \<times> custody_row) list" where
  "applyCustodyEvent cus ev =
     (if \<not> js_truthy (event_lane ev) then cus
      else case lane_write (map_of cus (js_to_key (event_lane ev))) ev of
             None \<Rightarrow> cus
           | Some row \<Rightarrow> AList.update (js_to_key (event_lane ev)) row cus)"

text \<open>\<open>state.custody[id]?.status\<close>.\<close>

definition lane_status :: "(string \<times> custody_row) list \<Rightarrow> jsv \<Rightarrow> string option" where
  "lane_status cus a = map_option cstatus (map_of cus (js_to_key a))"

definition terminal_status :: "string option \<Rightarrow> bool" where
  "terminal_status st \<longleftrightarrow> (case st of None \<Rightarrow> False | Some s \<Rightarrow> s \<in> set CUSTODY_TERMINAL)"

subsection \<open>The reducer\<close>

definition in_start :: "flow_state \<Rightarrow> flow_event \<Rightarrow> flow_state" where
  "in_start s ev = (if moment s \<noteq> Start then s else s\<lparr>custody := applyCustodyEvent (custody s) ev\<rparr>)"

definition wallet_refused :: "flow_state \<Rightarrow> jsv \<Rightarrow> flow_state" where
  "wallet_refused s err =
     (if moment s \<noteq> Protect \<or> permissionStatus s \<noteq> GrantAsked then s
      else s\<lparr>permissionStatus := Rejected, protectMessage := Some ''Nothing moved'', retryable := True,
             permissionError := err\<rparr>)"

fun strategyFlowReducer :: "flow_state \<Rightarrow> flow_event \<Rightarrow> flow_state" where
  "strategyFlowReducer s PLAN_REQUESTED =
     (if moment s \<noteq> Plan then s else s\<lparr>planStatus := PLoading, planError := JNull\<rparr>)"
| "strategyFlowReducer s (PLAN_READY p) =
     (if moment s \<noteq> Plan then s else s\<lparr>plan := p, planStatus := PReady, planError := JNull\<rparr>)"
| "strategyFlowReducer s (PLAN_FAILED e) =
     (if moment s \<noteq> Plan then s else s\<lparr>planStatus := PFailed, planError := or_null e\<rparr>)"
| "strategyFlowReducer s PROTECT_OPENED =
     (if moment s \<noteq> Plan then s
      else if \<not> planHasEligibleAgent (plan s) then s\<lparr>planStatus := PFailed, planError := JStr ''no-eligible-agents''\<rparr>
      else s\<lparr>moment := Protect, permissionStatus := Idle, protectMessage := None, retryable := False\<rparr>)"
| "strategyFlowReducer s (PERMISSION_WINDOW_BOUND p) =
     (if moment s \<noteq> Protect \<or> \<not> planHasEligibleAgent p then s
      else s\<lparr>plan := p, permission := JNull, permissionStatus := Idle, permissionError := JNull,
             protectMessage := None, retryable := False\<rparr>)"
| "strategyFlowReducer s (PREFLIGHT_READY d) =
     (if moment s \<noteq> Protect then s
      else s\<lparr>permission := d, permissionStatus := PreflightDone, protectMessage := None, retryable := False,
             permissionError := JNull\<rparr>)"
| "strategyFlowReducer s (PREFLIGHT_FAILED e) =
     (if moment s \<noteq> Protect then s
      else s\<lparr>permission := JNull, permissionStatus := Idle, protectMessage := Some ''Nothing moved'',
             retryable := True, permissionError := or_null e\<rparr>)"
| "strategyFlowReducer s GRANT_REQUESTED =
     (if moment s \<noteq> Protect then s
      else if permissionStatus s \<notin> {PreflightDone, Rejected} then s
      else s\<lparr>permissionStatus := GrantAsked, protectMessage := None, retryable := False\<rparr>)"
| "strategyFlowReducer s (WALLET_REJECTED reason1 e) = wallet_refused s (or_else reason1 e)"
| "strategyFlowReducer s (WALLET_FAILED reason1 e) = wallet_refused s (or_else reason1 e)"
| "strategyFlowReducer s GRANT_CONFIRMED =
     (if moment s \<noteq> Protect \<or> permissionStatus s \<noteq> GrantAsked then s
      else s\<lparr>moment := Start, permissionStatus := GrantGiven, protectMessage := None, permissionError := JNull\<rparr>)"
| "strategyFlowReducer s REUSE_CONFIRMED =
     (if moment s \<noteq> Protect \<or> permissionStatus s \<noteq> PreflightDone
         \<or> js_get (permission s) ''mode'' \<noteq> JStr ''reuse'' then s
      else s\<lparr>moment := Start, permissionStatus := ReuseGiven, protectMessage := None, permissionError := JNull\<rparr>)"
| "strategyFlowReducer s (WORKER_STARTED a) =
     (if moment s \<noteq> Start then s
      else if lane_status (custody s) a \<noteq> Some ''queued'' then s
      else s\<lparr>custody := applyCustodyEvent (custody s) (WORKER_STARTED a)\<rparr>)"
| "strategyFlowReducer s (WORKER_QUEUED a) =
     (if moment s \<noteq> Start then s
      else if terminal_status (lane_status (custody s) a) then s
      else s\<lparr>custody := applyCustodyEvent (custody s) (WORKER_QUEUED a)\<rparr>)"
| "strategyFlowReducer s (PULL_CONFIRMED a) = in_start s (PULL_CONFIRMED a)"
| "strategyFlowReducer s (PULL_FAILED a e) = in_start s (PULL_FAILED a e)"
| "strategyFlowReducer s (DEPOSIT_CONFIRMED a) = in_start s (DEPOSIT_CONFIRMED a)"
| "strategyFlowReducer s (DEPOSIT_FAILED a e) = in_start s (DEPOSIT_FAILED a e)"
| "strategyFlowReducer s (BASE_JOB_UPDATED a st job) = in_start s (BASE_JOB_UPDATED a st job)"
| "strategyFlowReducer s (ATTESTATION_RECEIVED a) = s\<lparr>attestation := or_null a\<rparr>"
| "strategyFlowReducer s OtherEvent = s"

text \<open>
  \<open>agents.every(...)\<close>: \<open>None\<close> when reading a property of \<open>null\<close> throws.
\<close>

fun every_terminal :: "(string \<times> custody_row) list \<Rightarrow> jsv list \<Rightarrow> bool option" where
  "every_terminal cus [] = Some True"
| "every_terminal cus (a # as) =
     (if a = JNull \<or> a = JUndef then None
      else if terminal_status (lane_status cus (js_get a ''allocationId'')) then every_terminal cus as
      else Some False)"

definition isReceiptComplete :: "flow_state \<Rightarrow> bool option" where
  "isReceiptComplete s =
     (let agents = arr_elems (js_get (plan s) ''agents'') in
      if agents = [] then Some False else every_terminal (custody s) agents)"

subsection \<open>Start needs a reviewed permission\<close>

definition run_flow :: "flow_event list \<Rightarrow> flow_state" where
  "run_flow evs = run_ops strategyFlowReducer initialStrategyFlowState evs"

lemma run_flow_snoc: "run_flow (evs @ [ev]) = strategyFlowReducer (run_flow evs) ev"
  by (simp add: run_flow_def run_ops_append)

text \<open>
  The events that replace what was reviewed: another preflight result, or a new plan bound to the
  permission window. And those that end a wallet request.
\<close>

fun replaces :: "flow_event \<Rightarrow> bool" where
  "replaces (PREFLIGHT_READY d) = True"
| "replaces (PREFLIGHT_FAILED e) = True"
| "replaces (PERMISSION_WINDOW_BOUND p) = planHasEligibleAgent p"
| "replaces _ = False"

fun refuses :: "flow_event \<Rightarrow> bool" where
  "refuses (WALLET_REJECTED reason1 e) = True"
| "refuses (WALLET_FAILED reason1 e) = True"
| "refuses _ = False"

text \<open>A grant was requested and the wallet has not refused it since.\<close>

definition open_request :: "flow_event list \<Rightarrow> bool" where
  "open_request evs \<longleftrightarrow> (\<exists>pre post. evs = pre @ GRANT_REQUESTED # post \<and> list_all (\<lambda>ev. \<not> refuses ev) post)"

text \<open>
  The decision \<open>d\<close> was reviewed for the plan \<open>p\<close>: a preflight in Protect delivered it while \<open>p\<close> was
  the plan, and nothing replaced the plan or the decision since.
\<close>

definition reviewed :: "flow_event list \<Rightarrow> jsv \<Rightarrow> jsv \<Rightarrow> bool \<Rightarrow> bool" where
  "reviewed evs p d asked \<longleftrightarrow>
     (\<exists>pre mid. evs = pre @ PREFLIGHT_READY d # mid
        \<and> moment (run_flow pre) = Protect \<and> plan (run_flow pre) = p
        \<and> list_all (\<lambda>ev. \<not> replaces ev) mid \<and> (asked \<longrightarrow> open_request mid))"

lemma reviewed_now:
  "moment (run_flow evs) = Protect \<Longrightarrow> reviewed (evs @ [PREFLIGHT_READY d]) (plan (run_flow evs)) d False"
  unfolding reviewed_def by (intro exI [of _ evs] exI [of _ "[]"]) simp

lemma open_request_snoc:
  "open_request (mid @ [GRANT_REQUESTED])"
  "open_request mid \<Longrightarrow> \<not> refuses ev \<Longrightarrow> open_request (mid @ [ev])"
proof -
  show "open_request (mid @ [GRANT_REQUESTED])"
    unfolding open_request_def by (intro exI [of _ mid] exI [of _ "[]"]) simp
  assume "open_request mid" "\<not> refuses ev"
  then obtain pre post where "mid = pre @ GRANT_REQUESTED # post" "list_all (\<lambda>ev. \<not> refuses ev) post"
    by (auto simp: open_request_def)
  with \<open>\<not> refuses ev\<close> show "open_request (mid @ [ev])"
    unfolding open_request_def by (intro exI [of _ pre] exI [of _ "post @ [ev]"]) simp
qed

lemma reviewed_snoc:
  assumes "reviewed evs p d asked" "\<not> replaces ev"
    and "asked' \<longrightarrow> asked \<and> \<not> refuses ev \<or> ev = GRANT_REQUESTED"
  shows "reviewed (evs @ [ev]) p d asked'"
proof -
  from assms(1) obtain pre mid where m: "evs = pre @ PREFLIGHT_READY d # mid" "moment (run_flow pre) = Protect"
    "plan (run_flow pre) = p" "list_all (\<lambda>e. \<not> replaces e) mid" "asked \<longrightarrow> open_request mid"
    by (auto simp: reviewed_def)
  have "asked' \<longrightarrow> open_request (mid @ [ev])" using m(5) assms(3) open_request_snoc by blast
  with m assms(2) show ?thesis
    unfolding reviewed_def by (intro exI [of _ pre] exI [of _ "mid @ [ev]"]) auto
qed

text \<open>The prefix at which a run entered Start.\<close>

definition entered_start :: "flow_event list \<Rightarrow> flow_state \<Rightarrow> bool" where
  "entered_start evs s \<longleftrightarrow>
     (\<exists>pre post. (evs = pre @ GRANT_CONFIRMED # post \<and> permissionStatus s = GrantGiven \<and> reviewed pre (plan s) (permission s) True)
        \<or> (evs = pre @ REUSE_CONFIRMED # post \<and> permissionStatus s = ReuseGiven \<and> reviewed pre (plan s) (permission s) False
           \<and> js_get (permission s) ''mode'' = JStr ''reuse''))"

definition flow_inv :: "flow_event list \<Rightarrow> flow_state \<Rightarrow> bool" where
  "flow_inv evs s \<longleftrightarrow>
     (moment s \<noteq> Plan \<longrightarrow> planHasEligibleAgent (plan s))
   \<and> (custody s \<noteq> [] \<longrightarrow> moment s = Start)
   \<and> (moment s = Protect \<longrightarrow>
        (permissionStatus s \<in> {PreflightDone, Rejected} \<longrightarrow> reviewed evs (plan s) (permission s) False)
      \<and> (permissionStatus s = GrantAsked \<longrightarrow> reviewed evs (plan s) (permission s) True))
   \<and> (moment s = Start \<longrightarrow> entered_start evs s)"

text \<open>What one event does to the fields the invariant speaks of, when the flow has started.\<close>

lemma started_kept:
  assumes "moment s = Start"
  shows "moment (strategyFlowReducer s ev) = Start" "plan (strategyFlowReducer s ev) = plan s"
    "permission (strategyFlowReducer s ev) = permission s"
    "permissionStatus (strategyFlowReducer s ev) = permissionStatus s"
  using assms by (cases ev; simp add: in_start_def wallet_refused_def)+

lemma entered_start_snoc:
  assumes "entered_start evs s" "plan s' = plan s" "permission s' = permission s" "permissionStatus s' = permissionStatus s"
  shows "entered_start (evs @ [ev]) s'"
proof -
  from assms(1) obtain pre post where "(evs = pre @ GRANT_CONFIRMED # post \<and> permissionStatus s = GrantGiven
        \<and> reviewed pre (plan s) (permission s) True)
      \<or> (evs = pre @ REUSE_CONFIRMED # post \<and> permissionStatus s = ReuseGiven \<and> reviewed pre (plan s) (permission s) False
        \<and> js_get (permission s) ''mode'' = JStr ''reuse'')" by (auto simp: entered_start_def)
  with assms(2-4) show ?thesis
    unfolding entered_start_def by (intro exI [of _ pre] exI [of _ "post @ [ev]"]) auto
qed

lemma custody_before_start:
  assumes "moment s \<noteq> Start"
  shows "custody (strategyFlowReducer s ev) = custody s"
  using assms by (cases ev) (simp_all add: in_start_def wallet_refused_def)

lemma entered_now:
  "reviewed evs (plan s) (permission s) True \<Longrightarrow> permissionStatus s = GrantGiven \<Longrightarrow> entered_start (evs @ [GRANT_CONFIRMED]) s"
  "reviewed evs (plan s) (permission s) False \<Longrightarrow> permissionStatus s = ReuseGiven \<Longrightarrow> js_get (permission s) ''mode'' = JStr ''reuse''
     \<Longrightarrow> entered_start (evs @ [REUSE_CONFIRMED]) s"
  unfolding entered_start_def by (intro exI [of _ evs] exI [of _ "[]"]; simp)+

lemma flow_inv_step_early:
  assumes inv: "flow_inv evs s" and m: "moment s \<noteq> Start" and s: "s = run_flow evs"
  shows "flow_inv (evs @ [ev]) (strategyFlowReducer s ev)"
proof -
  have cus: "custody (strategyFlowReducer s ev) = []"
    using inv m custody_before_start [OF m, of ev] by (auto simp: flow_inv_def)
  note k = reviewed_snoc [where asked = False and asked' = False] reviewed_snoc [where asked = True and asked' = True]
    reviewed_snoc [where asked = True and asked' = False] reviewed_snoc [where asked = False and asked' = True]
  have now: "moment s = Protect \<Longrightarrow> reviewed (evs @ [PREFLIGHT_READY d]) (plan s) d False" for d
    unfolding s by (rule reviewed_now)
  show ?thesis
    using inv m cus unfolding flow_inv_def
    by (cases ev) (auto simp: in_start_def wallet_refused_def intro: k now entered_now split: if_splits)
qed

lemma run_flow_inv: "flow_inv evs (run_flow evs)"
proof (induction evs rule: rev_induct)
  case Nil
  show ?case by (simp add: run_flow_def initialStrategyFlowState_def flow_inv_def)
next
  case (snoc ev evs)
  show ?case
  proof (cases "moment (run_flow evs) = Start")
    case True
    note k = started_kept [OF True, of ev]
    have "entered_start (evs @ [ev]) (strategyFlowReducer (run_flow evs) ev)"
      using snoc True k by (intro entered_start_snoc [of evs "run_flow evs"]) (auto simp: flow_inv_def)
    with snoc True k show ?thesis by (simp add: run_flow_snoc flow_inv_def)
  next
    case False
    with snoc show ?thesis unfolding run_flow_snoc by (intro flow_inv_step_early) simp_all
  qed
qed

text \<open>
  C17. A run reaches Start, the only moment in which custody lanes change, only over a plan with an
  eligible agent and by a confirmation of a permission decision that a preflight delivered in
  Protect for that very plan: since that preflight neither another preflight result nor a plan
  newly bound to the permission window came in. A fresh grant was requested after the preflight
  and not refused by the wallet since; otherwise the decision is in reuse mode. After that neither
  the plan nor the permission changes.
\<close>

theorem start_needs_reviewed_permission:
  "(moment (run_flow evs) = Start \<longrightarrow>
      planHasEligibleAgent (plan (run_flow evs)) \<and> entered_start evs (run_flow evs)
    \<and> (\<forall>ev. plan (run_flow (evs @ [ev])) = plan (run_flow evs)
          \<and> permission (run_flow (evs @ [ev])) = permission (run_flow evs)
          \<and> moment (run_flow (evs @ [ev])) = Start))
 \<and> (moment (run_flow evs) \<noteq> Start \<longrightarrow> custody (run_flow evs) = [])"
  using run_flow_inv [of evs] started_kept [of "run_flow evs"]
  by (auto simp: flow_inv_def run_flow_snoc)

definition sample_flow :: "flow_event list" where
  "sample_flow =
     [PLAN_REQUESTED, PLAN_READY (JObj [(''agents'', JArr [JObj [(''allocationId'', JStr ''a1'')]])]), PROTECT_OPENED,
      GRANT_CONFIRMED, PREFLIGHT_READY (JObj [(''mode'', JStr ''fresh'')]), REUSE_CONFIRMED, GRANT_REQUESTED,
      WALLET_REJECTED JUndef JUndef, GRANT_REQUESTED, GRANT_CONFIRMED]"

theorem start_needs_reviewed_permission_witness:
  "moment (run_flow sample_flow) = Start \<and> entered_start sample_flow (run_flow sample_flow)
 \<and> moment (run_flow (take 8 sample_flow)) = Protect \<and> custody (run_flow (take 8 sample_flow)) = []"
proof -
  have "moment (run_flow sample_flow) = Start" "moment (run_flow (take 8 sample_flow)) = Protect"
    by (simp_all add: run_flow_def sample_flow_def initialStrategyFlowState_def planHasEligibleAgent_def wallet_refused_def)
  with start_needs_reviewed_permission [of sample_flow] start_needs_reviewed_permission [of "take 8 sample_flow"]
  show ?thesis by simp
qed

subsection \<open>Custody lanes are independent\<close>

text \<open>The reference definition of one lane: what its own events make of its row.\<close>

fun lane_step :: "custody_row option \<Rightarrow> flow_event \<Rightarrow> custody_row option" where
  "lane_step row (WORKER_STARTED a) =
     (if map_option cstatus row = Some ''queued'' then lane_write row (WORKER_STARTED a) else row)"
| "lane_step row (WORKER_QUEUED a) =
     (if terminal_status (map_option cstatus row) then row else lane_write row (WORKER_QUEUED a))"
| "lane_step row ev = (case lane_write row ev of None \<Rightarrow> row | Some r \<Rightarrow> Some r)"

definition for_lane :: "string \<Rightarrow> flow_event \<Rightarrow> bool" where
  "for_lane k ev \<longleftrightarrow> js_truthy (event_lane ev) \<and> js_to_key (event_lane ev) = k"

lemma reducer_lane:
  assumes "moment s = Start"
  shows "map_of (custody (strategyFlowReducer s ev)) k
    = (if for_lane k ev then lane_step (map_of (custody s) k) ev else map_of (custody s) k)"
  using assms
  by (cases ev) (auto simp: in_start_def wallet_refused_def for_lane_def applyCustodyEvent_def lane_status_def
      split: option.splits)

text \<open>
  C28. Once a run has started, the row of a custody lane is what the lane's own events make of it, in
  their order, whatever events of other lanes are interleaved; attestations and flow events never
  touch it. When the planned agents are objects, the receipt is complete exactly when every agent's
  own lane ended in a terminal status.
\<close>

theorem lanes_are_independent:
  assumes "moment s = Start"
  shows "map_of (custody (run_ops strategyFlowReducer s evs)) k
       = fold (\<lambda>ev row. lane_step row ev) (filter (for_lane k) evs) (map_of (custody s) k)
    \<and> (list_all js_is_obj (arr_elems (js_get (plan s) ''agents'')) \<longrightarrow>
         isReceiptComplete (run_ops strategyFlowReducer s evs)
       = Some (arr_elems (js_get (plan s) ''agents'') \<noteq> []
           \<and> (\<forall>a \<in> set (arr_elems (js_get (plan s) ''agents'')).
                let key = js_to_key (js_get a ''allocationId'') in
                terminal_status (map_option cstatus
                  (fold (\<lambda>ev row. lane_step row ev) (filter (for_lane key) evs) (map_of (custody s) key))))))"
proof -
  have lane: "moment (run_ops strategyFlowReducer s evs) = Start \<and> plan (run_ops strategyFlowReducer s evs) = plan s
      \<and> (\<forall>k. map_of (custody (run_ops strategyFlowReducer s evs)) k
        = fold (\<lambda>ev row. lane_step row ev) (filter (for_lane k) evs) (map_of (custody s) k))"
    using assms
  proof (induction evs arbitrary: s)
    case (Cons ev evs)
    then show ?case
      using started_kept [OF Cons.prems, of ev] reducer_lane [OF Cons.prems, of ev] by simp
  qed simp
  have "every_terminal cus as = Some (\<forall>a \<in> set as. terminal_status (lane_status cus (js_get a ''allocationId'')))"
    if "list_all js_is_obj as" for cus as
    using that by (induction as) auto
  then show ?thesis using lane by (simp add: isReceiptComplete_def lane_status_def Let_def)
qed

definition sample_lanes :: "flow_event list" where
  "sample_lanes =
     [WORKER_QUEUED (JStr ''a1''), PULL_CONFIRMED (JStr ''a2''), WORKER_STARTED (JStr ''a1''),
      DEPOSIT_CONFIRMED (JStr ''a1''), WORKER_QUEUED (JStr ''a1''), ATTESTATION_RECEIVED JNull]"

theorem lanes_are_independent_witness:
  "isReceiptComplete (run_ops strategyFlowReducer (run_flow sample_flow) sample_lanes) = Some True"
proof -
  have s: "moment (run_flow sample_flow) = Start" "custody (run_flow sample_flow) = []"
    "plan (run_flow sample_flow) = JObj [(''agents'', JArr [JObj [(''allocationId'', JStr ''a1'')]])]"
    by (simp_all add: run_flow_def sample_flow_def initialStrategyFlowState_def planHasEligibleAgent_def wallet_refused_def)
  have "terminal_status (map_option cstatus (fold (\<lambda>ev row. lane_step row ev)
      (filter (for_lane ''a1'') sample_lanes) None))"
    by (simp add: sample_lanes_def for_lane_def terminal_status_def with_status_def CUSTODY_TERMINAL_def)
  with lanes_are_independent [OF s(1), of sample_lanes] s show ?thesis by simp
qed

end
