(* ===== verification/AssetUnits.thy ===== *)
theory AssetUnits
  imports Prelude
begin

section \<open>Exact asset units\<close>

text \<open>
  \<open>frontend/src/money/assetUnits.js\<close> and the parser of \<open>strategy/amountValidation.js\<close>: decimal
  strings to integer base units and back, with no floating-point step. An optional bound is absent,
  not convertible by \<open>BigInt\<close>, or an integer.
\<close>

subsection \<open>Decimal strings\<close>

lemma digit_val_char: "n < 10 \<Longrightarrow> digit_val (digit_char n) = n"
proof -
  have "list_all (\<lambda>n. digit_val (digit_char n) = n) [0..<10]" by code_simp
  then show "n < 10 \<Longrightarrow> ?thesis" by (simp add: list_all_iff)
qed

lemma digit_char_digit: "n < 10 \<Longrightarrow> is_digit (digit_char n)"
proof -
  have "list_all (\<lambda>n. is_digit (digit_char n)) [0..<10]" by code_simp
  then show "n < 10 \<Longrightarrow> ?thesis" by (simp add: list_all_iff)
qed

lemma digit_list_all: "is_digit c \<Longrightarrow> list_all P ''0123456789'' \<Longrightarrow> P c"
  unfolding is_digit_def list_all_iff by blast

lemma digit_not_dot: "is_digit c \<Longrightarrow> c \<noteq> CHR ''.''"
  by (auto simp: is_digit_def)

lemma digit_val_less: "is_digit c \<Longrightarrow> digit_val c < 10"
  by (erule digit_list_all [where P = "\<lambda>c. digit_val c < 10"]) code_simp

lemma foldl_dec: "foldl (\<lambda>acc c. 10 * acc + digit_val c) n s = n * 10 ^ length s + dec_val s"
proof (induction s rule: rev_induct)
  case (snoc c s)
  have "dec_val (s @ [c]) = 10 * dec_val s + digit_val c" by (simp add: dec_val_def)
  with snoc show ?case by simp
qed (simp add: dec_val_def)

lemma dec_val_append: "dec_val (s @ t) = dec_val s * 10 ^ length t + dec_val t"
  using foldl_dec [of "dec_val s" t] by (simp add: dec_val_def [of "s @ t"] dec_val_def [of s])

lemma dec_val_Nil [simp]: "dec_val [] = 0"
  by (simp add: dec_val_def)

lemma digit_val_0 [simp]: "digit_val CHR ''0'' = 0"
  by code_simp

lemma dec_val_zeros [simp]: "dec_val (replicate k CHR ''0'') = 0"
proof (induction k)
  case (Suc k)
  have "dec_val (CHR ''0'' # replicate k CHR ''0'') = dec_val ([CHR ''0''] @ replicate k CHR ''0'')" by simp
  also have "\<dots> = 0" using Suc by (simp only: dec_val_append) (simp add: dec_val_def)
  finally show ?case by simp
qed simp

lemma dec_val_single [simp]: "dec_val [c] = digit_val c"
  by (simp add: dec_val_def)

lemma dec_val_show [simp]: "dec_val (show_nat n) = n"
proof (induction n rule: show_nat.induct)
  case (1 n)
  then show ?case
    by (subst show_nat.simps) (auto simp: dec_val_append digit_val_char)
qed

lemma show_nat_digits [simp]: "list_all is_digit (show_nat n)"
proof (induction n rule: show_nat.induct)
  case (1 n)
  then show ?case by (subst show_nat.simps) (auto simp: digit_char_digit)
qed

lemma show_nat_nonempty [simp]: "show_nat n \<noteq> []"
  by (subst show_nat.simps) simp

lemma length_show_nat: "0 < d \<Longrightarrow> n < 10 ^ d \<Longrightarrow> length (show_nat n) \<le> d"
proof (induction n arbitrary: d rule: show_nat.induct)
  case (1 n)
  show ?case
  proof (cases "n < 10")
    case False
    then have "1 < d" using "1.prems" by (cases "d = 1") auto
    moreover have "n div 10 < 10 ^ (d - 1)"
      using "1.prems" by (cases d) (auto simp: less_mult_imp_div_less)
    ultimately have "length (show_nat (n div 10)) \<le> d - 1" using "1.IH" [OF False, of "d - 1"] by simp
    with False \<open>1 < d\<close> show ?thesis by (subst show_nat.simps) simp
  qed (use "1.prems" in \<open>subst show_nat.simps, simp\<close>)
qed

lemma dec_val_bound: "list_all is_digit s \<Longrightarrow> dec_val s < 10 ^ length s"
proof (induction s rule: rev_induct)
  case (snoc c s)
  then have "dec_val s + 1 \<le> 10 ^ length s" "digit_val c < 10" by (auto simp: digit_val_less)
  then show ?case by (simp add: dec_val_append)
qed simp

subsection \<open>Formatting\<close>

definition I128_MAX :: int where "I128_MAX = 2 ^ 127 - 1"

fun decimalPlaces :: "jsv \<Rightarrow> nat option" where
  "decimalPlaces (JNum n) = (if n < 0 then None else Some (nat n))"
| "decimalPlaces _ = None"

definition padStart :: "nat \<Rightarrow> string \<Rightarrow> string" where
  "padStart n s = replicate (n - length s) CHR ''0'' @ s"

definition padEnd :: "nat \<Rightarrow> string \<Rightarrow> string" where
  "padEnd n s = s @ replicate (n - length s) CHR ''0''"

text \<open>\<open>replace(/0+$/, '')\<close>.\<close>

definition strip_zeros :: "string \<Rightarrow> string" where
  "strip_zeros s = rev (dropWhile (\<lambda>c. c = CHR ''0'') (rev s))"

text \<open>\<open>None\<close> is the thrown \<open>RangeError\<close>.\<close>

definition formatUnits :: "int \<Rightarrow> nat \<Rightarrow> string" where
  "formatUnits value decimals =
     (let absolute = nat \<bar>value\<bar>; scale = 10 ^ decimals;
          whole = show_nat (absolute div scale);
          fraction = (if decimals = 0 then [] else strip_zeros (padStart decimals (show_nat (absolute mod scale))));
          canonical = (if fraction \<noteq> [] then whole @ ''.'' @ fraction else whole)
      in if value < 0 then ''-'' @ canonical else canonical)"

definition formatAssetUnits :: "int \<Rightarrow> jsv \<Rightarrow> string option" where
  "formatAssetUnits units decimals = map_option (formatUnits units) (decimalPlaces decimals)"

subsection \<open>Parsing\<close>

datatype bigint_arg = Absent | Invalid | Units int

datatype parse_code = EMPTY | INVALID_FORMAT | TOO_PRECISE | ZERO | OVERFLOW | EXCEEDS_AVAILABLE

definition UNSIGNED_DECIMAL :: "string \<Rightarrow> bool" where
  "UNSIGNED_DECIMAL s \<longleftrightarrow>
     (let w = takeWhile (\<lambda>c. c \<noteq> CHR ''.'') s; r = dropWhile (\<lambda>c. c \<noteq> CHR ''.'') s in
      w \<noteq> [] \<and> list_all is_digit w \<and> (r = [] \<or> (tl r \<noteq> [] \<and> list_all is_digit (tl r))))"

text \<open>\<open>const [whole, fraction = ''] = raw.split('.')\<close> on a string with at most one point.\<close>

definition whole_part :: "string \<Rightarrow> string" where "whole_part s = takeWhile (\<lambda>c. c \<noteq> CHR ''.'') s"
definition fraction_part :: "string \<Rightarrow> string" where "fraction_part s = tl (dropWhile (\<lambda>c. c \<noteq> CHR ''.'') s)"

text \<open>\<open>BigInt(whole) * scale + BigInt(fraction.padEnd(decimals, '0') || '0')\<close>.\<close>

definition units_of :: "nat \<Rightarrow> string \<Rightarrow> nat" where
  "units_of d s =
     (let padded = padEnd d (fraction_part s) in
      dec_val (whole_part s) * 10 ^ d + dec_val (if padded = [] then ''0'' else padded))"

definition withinMax :: "int \<Rightarrow> bigint_arg \<Rightarrow> bool" where
  "withinMax units maxUnits =
     (case maxUnits of
        Absent \<Rightarrow> units \<le> I128_MAX
      | Invalid \<Rightarrow> False
      | Units requested \<Rightarrow> units \<le> (if requested < I128_MAX then requested else I128_MAX))"

definition withinAvailable :: "int \<Rightarrow> bigint_arg \<Rightarrow> bool" where
  "withinAvailable units available =
     (case available of Absent \<Rightarrow> True | Invalid \<Rightarrow> False | Units a \<Rightarrow> units \<le> a)"

definition parseAssetUnits :: "jsv \<Rightarrow> jsv \<Rightarrow> bigint_arg \<Rightarrow> bigint_arg \<Rightarrow> parse_code + int \<times> string" where
  "parseAssetUnits raw1 decimals maxUnits available =
     (if raw1 = JStr [] then Inl EMPTY
      else case raw1 of
        JStr s \<Rightarrow>
          if \<not> UNSIGNED_DECIMAL s then Inl INVALID_FORMAT
          else (case decimalPlaces decimals of
            None \<Rightarrow> Inl INVALID_FORMAT
          | Some places \<Rightarrow>
              if length (fraction_part s) > places then Inl TOO_PRECISE
              else
                let units = int (units_of places s) in
                if units = 0 then Inl ZERO
                else if \<not> withinMax units maxUnits then Inl OVERFLOW
                else if \<not> withinAvailable units available then Inl EXCEEDS_AVAILABLE
                else Inr (units, formatUnits units places))
      | _ \<Rightarrow> Inl INVALID_FORMAT)"

datatype usdc_code = Parse parse_code | NEGATIVE

definition negative_decimal :: "string \<Rightarrow> bool" where
  "negative_decimal s \<longleftrightarrow> (case s of [] \<Rightarrow> False | c # r \<Rightarrow> c = CHR ''-'' \<and> UNSIGNED_DECIMAL r)"

definition parseUsdcInput :: "jsv \<Rightarrow> jsv \<Rightarrow> usdc_code + int" where
  "parseUsdcInput value1 decimals =
     (case parseAssetUnits value1 decimals Absent Absent of
        Inl code \<Rightarrow>
          Inl (if code = INVALID_FORMAT \<and> (case value1 of JStr s \<Rightarrow> negative_decimal s | _ \<Rightarrow> False)
               then NEGATIVE else Parse code)
      | Inr (units, canonical) \<Rightarrow> Inr units)"

subsection \<open>Format and parse are inverse\<close>

lemma strip_zeros_decomp: "\<exists>k. s = strip_zeros s @ replicate k CHR ''0''"
proof -
  let ?p = "\<lambda>c. c = CHR ''0''"
  have "rev s = takeWhile ?p (rev s) @ dropWhile ?p (rev s)" by simp
  then have "s = strip_zeros s @ rev (takeWhile ?p (rev s))"
    unfolding strip_zeros_def by (metis rev_append rev_rev_ident)
  moreover have "rev (takeWhile ?p (rev s)) = replicate (length (takeWhile ?p (rev s))) CHR ''0''"
    by (intro replicate_eqI) (auto dest: set_takeWhileD)
  ultimately show ?thesis by metis
qed

lemma padEnd_strip: "length s = d \<Longrightarrow> padEnd d (strip_zeros s) = s"
proof -
  assume d: "length s = d"
  obtain k where k: "s = strip_zeros s @ replicate k CHR ''0''" using strip_zeros_decomp by blast
  then have "d - length (strip_zeros s) = k" using d by (metis add_diff_cancel_left' length_append length_replicate)
  with k show ?thesis by (simp add: padEnd_def)
qed

lemma length_strip: "length (strip_zeros s) \<le> length s"
  using length_dropWhile_le [of _ "rev s"] by (simp add: strip_zeros_def)

lemma strip_digits: "list_all is_digit s \<Longrightarrow> list_all is_digit (strip_zeros s)"
  by (auto simp: strip_zeros_def list_all_iff dest: set_dropWhileD)

lemma padStart_digits: "list_all is_digit s \<Longrightarrow> list_all is_digit (padStart d s)"
proof -
  have "is_digit CHR ''0''" by (simp add: is_digit_def)
  then show "list_all is_digit s \<Longrightarrow> ?thesis" by (auto simp: padStart_def list_all_iff)
qed

lemma dec_val_padStart [simp]: "dec_val (padStart d s) = dec_val s"
  by (simp add: padStart_def dec_val_append)

lemma length_padStart: "length s \<le> d \<Longrightarrow> length (padStart d s) = d"
  by (simp add: padStart_def)

lemma takeWhile_digits: "list_all is_digit w \<Longrightarrow> takeWhile (\<lambda>c. c \<noteq> CHR ''.'') (w @ CHR ''.'' # r) = w"
  and dropWhile_digits: "list_all is_digit w \<Longrightarrow> dropWhile (\<lambda>c. c \<noteq> CHR ''.'') (w @ CHR ''.'' # r) = CHR ''.'' # r"
  by (induction w) (auto simp: digit_not_dot)

lemma digits_no_dot:
  "list_all is_digit w \<Longrightarrow> takeWhile (\<lambda>c. c \<noteq> CHR ''.'') w = w"
  "list_all is_digit w \<Longrightarrow> dropWhile (\<lambda>c. c \<noteq> CHR ''.'') w = []"
  by (induction w) (auto simp: digit_not_dot)

lemma digits_without_dot: "list_all is_digit w \<Longrightarrow> CHR ''.'' \<notin> set w"
  using digit_not_dot by (auto simp: list_all_iff)

text \<open>The two parts of a decimal text.\<close>

definition joined :: "string \<Rightarrow> string \<Rightarrow> string" where
  "joined w f = (if f \<noteq> [] then w @ ''.'' @ f else w)"

lemma joined_parts:
  assumes "list_all is_digit w" "list_all is_digit f" "w \<noteq> []"
  shows "whole_part (joined w f) = w" "fraction_part (joined w f) = f" "UNSIGNED_DECIMAL (joined w f)" "joined w f \<noteq> []"
  using assms
  by (auto simp: joined_def whole_part_def fraction_part_def UNSIGNED_DECIMAL_def Let_def takeWhile_digits
      dropWhile_digits digits_no_dot dest: digits_without_dot)

lemma format_joined:
  assumes "0 \<le> u"
  defines "n \<equiv> nat u"
  shows "formatUnits u d = joined (show_nat (n div 10 ^ d))
    (if d = 0 then [] else strip_zeros (padStart d (show_nat (n mod 10 ^ d))))"
  using assms by (simp add: formatUnits_def Let_def joined_def)

lemma units_of_value: "units_of d s = dec_val (whole_part s) * 10 ^ d + dec_val (padEnd d (fraction_part s))"
  by (simp add: units_of_def Let_def)

lemma parse_units:
  "parseAssetUnits (JStr s) (JNum (int d)) mx av =
     (if s = [] then Inl EMPTY else if \<not> UNSIGNED_DECIMAL s then Inl INVALID_FORMAT
      else if length (fraction_part s) > d then Inl TOO_PRECISE
      else if units_of d s = 0 then Inl ZERO
      else if \<not> withinMax (int (units_of d s)) mx then Inl OVERFLOW
      else if \<not> withinAvailable (int (units_of d s)) av then Inl EXCEEDS_AVAILABLE
      else Inr (int (units_of d s), formatUnits (int (units_of d s)) d))"
  by (simp add: parseAssetUnits_def Let_def)

lemma units_of_format:
  assumes "0 \<le> u"
  shows "units_of d (formatUnits u d) = nat u" "UNSIGNED_DECIMAL (formatUnits u d)" "formatUnits u d \<noteq> []"
    "length (fraction_part (formatUnits u d)) \<le> d"
proof -
  let ?n = "nat u" and ?p = "padStart d (show_nat (nat u mod 10 ^ d))"
  let ?f = "if d = 0 then [] else strip_zeros ?p"
  have f: "list_all is_digit ?f" by (auto intro!: strip_digits padStart_digits)
  note parts = joined_parts [OF show_nat_digits f show_nat_nonempty, of "?n div 10 ^ d", folded format_joined [OF assms]]
  have len: "length ?p = d" if "0 < d" using that by (intro length_padStart length_show_nat) auto
  have "dec_val (padEnd d ?f) = ?n mod 10 ^ d"
    using len padEnd_strip [of ?p d] by (cases "d = 0") (simp_all add: padEnd_def [of 0])
  then show "units_of d (formatUnits u d) = nat u" by (simp add: units_of_value parts div_mult_mod_eq)
  show "UNSIGNED_DECIMAL (formatUnits u d)" "formatUnits u d \<noteq> []" by (rule parts)+
  show "length (fraction_part (formatUnits u d)) \<le> d"
    using len length_strip [of ?p] by (auto simp: parts)
qed

text \<open>
  C39. Formatting and parsing are inverse on every positive amount of at most \<open>2^127 - 1\<close> units and
  any number of decimals. A text that parses gives exactly its decimal value (no rounding: the text's
  digits scaled to the asset's decimals), a positive amount within every bound that was given, and
  the canonical text returned with it parses to the same amount.
\<close>

theorem parse_format_roundtrip:
  "(0 < u \<and> u \<le> I128_MAX \<longrightarrow>
      parseAssetUnits (JStr (formatUnits u d)) (JNum (int d)) Absent Absent = Inr (u, formatUnits u d))
 \<and> (parseAssetUnits (JStr s) (JNum (int d)) mx av = Inr (v, c) \<longrightarrow>
      v * 10 ^ length (fraction_part s) = int (dec_val (whole_part s @ fraction_part s)) * 10 ^ d
    \<and> 0 < v \<and> v \<le> I128_MAX \<and> withinMax v mx \<and> withinAvailable v av
    \<and> parseAssetUnits (JStr c) (JNum (int d)) Absent Absent = Inr (v, c))"
proof -
  have rt: "parseAssetUnits (JStr (formatUnits w d)) (JNum (int d)) Absent Absent = Inr (w, formatUnits w d)"
    if "0 < w" "w \<le> I128_MAX" for w
    using that units_of_format [of w d] by (simp add: parse_units withinMax_def withinAvailable_def)
  show ?thesis
  proof (intro conjI impI)
    assume p: "parseAssetUnits (JStr s) (JNum (int d)) mx av = Inr (v, c)"
    then have len: "length (fraction_part s) \<le> d" and v: "v = int (units_of d s)" "units_of d s \<noteq> 0"
      and b: "withinMax v mx" "withinAvailable v av" and c: "c = formatUnits v d"
      by (auto simp: parse_units split: if_splits)
    have "units_of d s * 10 ^ length (fraction_part s) = dec_val (whole_part s @ fraction_part s) * 10 ^ d"
      using len by (simp add: units_of_value padEnd_def dec_val_append algebra_simps flip: power_add)
    then show "v * 10 ^ length (fraction_part s) = int (dec_val (whole_part s @ fraction_part s)) * 10 ^ d"
      unfolding v(1) by (metis of_nat_mult of_nat_numeral of_nat_power)
    show pos: "0 < v" using v by simp
    show max: "v \<le> I128_MAX" using b(1) by (auto simp: withinMax_def split: bigint_arg.splits if_splits)
    show "withinMax v mx" "withinAvailable v av" by (rule b)+
    show "parseAssetUnits (JStr c) (JNum (int d)) Absent Absent = Inr (v, c)" unfolding c by (rule rt [OF pos max])
  qed (use rt in blast)
qed

theorem parse_format_roundtrip_witness:
  "parseAssetUnits (JStr (formatUnits 125 2)) (JNum (int 2)) Absent Absent = Inr (125, formatUnits 125 2)
 \<and> formatUnits 125 2 = ''1.25''"
proof -
  have "formatUnits 125 2 = ''1.25''" by code_simp
  with parse_format_roundtrip [of 125 2] show ?thesis by (simp add: I128_MAX_def)
qed

end
