(* ===== verification/VenueTruth.thy ===== *)
theory VenueTruth
  imports Prelude
begin

section \<open>Truthful venue records\<close>

text \<open>
  \<open>frontend/src/strategy/venueTruth.js\<close>: raw venue records, of any shape, are normalised to one of
  two kinds. A number is \<open>JNum\<close> or \<open>JFloat\<close> (both finite); the clock is a whole number of
  milliseconds.
\<close>

datatype venue_kind = StellarLive | BaseCustodyProxy

datatype yield_state = YNone | YUnavailable | YLive jsv

record venue =
  v_name :: jsv
  v_protocol :: jsv
  v_factSlug :: jsv
  v_address :: "string option"
  v_networkId :: string
  v_kind :: venue_kind
  v_chain :: string
  v_destination :: "string option"
  v_proxyTarget :: jsv
  v_yield :: yield_state
  v_disclosure :: string

definition STELLAR_DESTINATION :: string where
  "STELLAR_DESTINATION = ''Autofarm Vault to Blend Capital v2''"

definition STELLAR_LIVE_DISCLOSURE :: string where
  "STELLAR_LIVE_DISCLOSURE = ''Vibing Farmer Autofarm supplies to Blend Capital v2 on Stellar testnet.''"

definition BASE_PROXY_DISCLOSURE :: string where
  "BASE_PROXY_DISCLOSURE = ''Base Sepolia proxy. Custody only. No protocol yield.''"

definition MAX_LIVE_YIELD_AGE_MS :: int where "MAX_LIVE_YIELD_AGE_MS = 6 * 60 * 60 * 1000"

fun kind_name :: "venue_kind \<Rightarrow> string" where
  "kind_name StellarLive = ''stellar-live''"
| "kind_name BaseCustodyProxy = ''base-custody-proxy''"

definition isProxyKind :: "venue_kind \<Rightarrow> bool" where "isProxyKind k \<longleftrightarrow> k = BaseCustodyProxy"

definition ZERO_X_ADDRESS_RE :: "string \<Rightarrow> bool" where
  "ZERO_X_ADDRESS_RE s \<longleftrightarrow> startsWith0x s \<and> length s = 42 \<and> list_all is_hex (drop 2 s)"

definition STELLAR_ADDRESS_RE :: "string \<Rightarrow> bool" where
  "STELLAR_ADDRESS_RE s \<longleftrightarrow>
     length s = 56 \<and> hd s \<in> set ''CG'' \<and> list_all (\<lambda>c. c \<in> set ''ABCDEFGHIJKLMNOPQRSTUVWXYZ234567'') (tl s)"

definition addressOf :: "jsv \<Rightarrow> string option" where
  "addressOf r =
     (case js_get r ''address'' of
        JStr s \<Rightarrow> Some s
      | _ \<Rightarrow> (case js_get r ''addr'' of JStr s \<Rightarrow> Some s | _ \<Rightarrow> None))"

definition ends_with :: "string \<Rightarrow> string \<Rightarrow> bool" where
  "ends_with s t \<longleftrightarrow> length t \<le> length s \<and> drop (length s - length t) s = t"

definition baseSignal :: "jsv \<Rightarrow> bool" where
  "baseSignal r \<longleftrightarrow>
     js_get r ''chain'' = JStr ''base''
   \<or> (case js_get r ''factSlug'' of JStr s \<Rightarrow> ends_with s ''-base'' | _ \<Rightarrow> False)
   \<or> (case addressOf r of Some a \<Rightarrow> ZERO_X_ADDRESS_RE a | None \<Rightarrow> False)"

definition stellarSignal :: "jsv \<Rightarrow> bool" where
  "stellarSignal r \<longleftrightarrow>
     js_get r ''chain'' = JStr ''stellar'' \<or> (case addressOf r of Some a \<Rightarrow> STELLAR_ADDRESS_RE a | None \<Rightarrow> False)"

text \<open>\<open>None\<close> is the thrown refusal to guess.\<close>

definition resolveVenueKind :: "jsv \<Rightarrow> venue_kind option" where
  "resolveVenueKind r =
     (if js_get r ''venueKind'' = JStr (kind_name BaseCustodyProxy) then Some BaseCustodyProxy
      else if js_get r ''venueKind'' = JStr (kind_name StellarLive) then Some StellarLive
      else if baseSignal r \<and> stellarSignal r then None
      else if baseSignal r then Some BaseCustodyProxy
      else Some StellarLive)"

fun js_is_num :: "jsv \<Rightarrow> bool" where
  "js_is_num (JNum n) = True"
| "js_is_num (JFloat t) = True"
| "js_is_num _ = False"

text \<open>
  The floor of a number that is not integral, from its decimal rendering: an exponent occurs in it
  only for a magnitude below one.
\<close>

definition float_floor :: "string \<Rightarrow> int" where
  "float_floor t =
     (let neg = (take 1 t = ''-''); u = (if neg then drop 1 t else t);
          n = (if CHR ''e'' \<in> set u then 0 else int (dec_val (takeWhile is_digit u))) in
      if neg then - n - 1 else n)"

text \<open>
  \<open>typeof asOf === 'number' && now - asOf > MAX_LIVE_YIELD_AGE_MS\<close>; a time that is not integral lies
  below a whole bound exactly when its floor does.
\<close>

definition stale :: "jsv \<Rightarrow> int \<Rightarrow> bool" where
  "stale asOf now =
     (case asOf of
        JNum t \<Rightarrow> now - t > MAX_LIVE_YIELD_AGE_MS
      | JFloat t \<Rightarrow> float_floor t < now - MAX_LIVE_YIELD_AGE_MS
      | _ \<Rightarrow> False)"

definition normalizeYield :: "jsv \<Rightarrow> venue_kind \<Rightarrow> int \<Rightarrow> yield_state" where
  "normalizeYield r k now =
     (let y = js_get r ''yield'' in
      if isProxyKind k then YNone
      else if \<not> js_truthy y \<or> js_get y ''state'' \<noteq> JStr ''live'' \<or> \<not> js_is_num (js_get y ''apy'') then YUnavailable
      else if stale (js_get y ''asOf'') now then YUnavailable
      else YLive (js_get y ''apy''))"

definition or_default :: "jsv \<Rightarrow> jsv \<Rightarrow> jsv" where
  "or_default v d = (if js_truthy v then v else d)"

definition normalizeVenue :: "jsv \<Rightarrow> int \<Rightarrow> venue option" where
  "normalizeVenue r now =
     (case resolveVenueKind r of
        None \<Rightarrow> None
      | Some k \<Rightarrow>
          let isProxy = isProxyKind k in
          Some \<lparr>v_name = or_default (js_get r ''name'') (if isProxy then JUndef else JStr ''Vibing Farmer Autofarm''),
                v_protocol = (if isProxy then JStr ''vf-erc4626-proxy''
                              else or_default (js_get r ''protocol'') (JStr ''blend-usdc'')),
                v_factSlug = js_get r ''factSlug'',
                v_address = addressOf r,
                v_networkId = (if isProxy then ''base-sepolia'' else ''stellar-testnet''),
                v_kind = k,
                v_chain = (if isProxy then ''base'' else ''stellar''),
                v_destination = (if isProxy then None else Some STELLAR_DESTINATION),
                v_proxyTarget = (if isProxy then js_get r ''proxyTarget'' else JUndef),
                v_yield = normalizeYield r k now,
                v_disclosure = (if isProxy then BASE_PROXY_DISCLOSURE else STELLAR_LIVE_DISCLOSURE)\<rparr>)"

definition venueYield :: "jsv \<Rightarrow> int \<Rightarrow> yield_state option" where
  "venueYield r now = map_option v_yield (normalizeVenue r now)"

definition venueDisclosure :: "jsv \<Rightarrow> int \<Rightarrow> string option" where
  "venueDisclosure r now = map_option v_disclosure (normalizeVenue r now)"

definition isLiveYieldVenue :: "jsv \<Rightarrow> int \<Rightarrow> bool option" where
  "isLiveYieldVenue r now =
     map_option (\<lambda>y. case y of YLive a \<Rightarrow> True | _ \<Rightarrow> False) (venueYield r now)"

definition assertExecutableVenue :: "jsv \<Rightarrow> int \<Rightarrow> venue option" where
  "assertExecutableVenue r now =
     (case normalizeVenue r now of
        None \<Rightarrow> None
      | Some v \<Rightarrow> (case v_address v of None \<Rightarrow> None | Some a \<Rightarrow> if a = [] then None else Some v))"

subsection \<open>Truth of the normal form\<close>

text \<open>The object \<open>normalizeVenue\<close> returns, as the value a later call may be given.\<close>

definition opt_str :: "string option \<Rightarrow> jsv" where
  "opt_str x = (case x of None \<Rightarrow> JUndef | Some s \<Rightarrow> JStr s)"

fun yield_value :: "yield_state \<Rightarrow> jsv" where
  "yield_value YNone = JObj [(''state'', JStr ''none''), (''apy'', JNull)]"
| "yield_value YUnavailable = JObj [(''state'', JStr ''unavailable''), (''apy'', JNull)]"
| "yield_value (YLive a) = JObj [(''state'', JStr ''live''), (''apy'', a)]"

definition venue_value :: "venue \<Rightarrow> jsv" where
  "venue_value v =
     JObj [(''name'', v_name v), (''protocol'', v_protocol v), (''factSlug'', v_factSlug v),
           (''address'', opt_str (v_address v)), (''networkId'', JStr (v_networkId v)),
           (''venueKind'', JStr (kind_name (v_kind v))), (''chain'', JStr (v_chain v)),
           (''destination'', opt_str (v_destination v)), (''proxyTarget'', v_proxyTarget v),
           (''yield'', yield_value (v_yield v)), (''disclosure'', JStr (v_disclosure v))]"


lemma venue_value_kind: "resolveVenueKind (venue_value v) = Some (v_kind v)"
  by (cases "v_kind v") (simp_all add: resolveVenueKind_def venue_value_def)


lemma normalizeYield_live: "normalizeYield r k now = YLive a \<Longrightarrow> js_is_num a"
  by (auto simp: normalizeYield_def Let_def split: if_splits)




definition sample_venue :: jsv where
  "sample_venue = JObj [(''yield'', JObj [(''state'', JStr ''live''), (''apy'', JNum 5), (''asOf'', JNum 0)])]"

definition sample_normal :: venue where
  "sample_normal = the (normalizeVenue sample_venue 1000)"

lemma sample_normalised: "normalizeVenue sample_venue 1000 = Some sample_normal" "v_yield sample_normal = YLive (JNum 5)"
  "v_kind sample_normal = StellarLive"
  by (simp_all add: sample_normal_def normalizeVenue_def sample_venue_def resolveVenueKind_def baseSignal_def
      stellarSignal_def addressOf_def Let_def normalizeYield_def isProxyKind_def stale_def MAX_LIVE_YIELD_AGE_MS_def)


text \<open>
  The normal form drops the time of a live yield, so what was stale as a raw record stays live once it
  was normalised: the freshness bound is never applied to a normalised record.
\<close>

theorem normalised_yield_never_stale:
  "venueYield sample_venue 99999999999 = Some YUnavailable
 \<and> isLiveYieldVenue (venue_value sample_normal) 99999999999 = Some True"
proof -
  have "venueYield sample_venue 99999999999 = Some YUnavailable"
    by (simp add: venueYield_def normalizeVenue_def sample_venue_def resolveVenueKind_def baseSignal_def
        stellarSignal_def addressOf_def Let_def normalizeYield_def isProxyKind_def stale_def MAX_LIVE_YIELD_AGE_MS_def)
  moreover have "normalizeYield (venue_value sample_normal) StellarLive 99999999999 = YLive (JNum 5)"
    using sample_normalised(2) by (simp add: normalizeYield_def Let_def isProxyKind_def venue_value_def stale_def)
  ultimately show ?thesis
    using sample_normalised(3) by (simp add: isLiveYieldVenue_def venueYield_def normalizeVenue_def venue_value_kind Let_def)
qed

end
