(* ===== verification/PlanModel.thy ===== *)
theory PlanModel
  imports AssetUnits VenueTruth "HOL-Library.Signed_Division"
begin

section \<open>From a destination allocation to a crew of agents\<close>

text \<open>
  \<open>frontend/src/strategy/planModel.js\<close> and the plan checks of \<open>amountValidation.js\<close>. Units travel as
  decimal texts of integers the module computed itself, so they are integers here; a missing option
  of the input object is \<open>None\<close>, and a risk is not the name of a property every object inherits.
  The projection to display numbers (\<open>buildStrategyViewModel\<close>) is
  floating-point and is not modelled; the exact display map is.
\<close>

subsection \<open>Data\<close>

record amount =
  token :: string
  units :: int
  decimals :: int

datatype agent_kind = Deposit | Bridge

record child =
  ch_allocationId :: string
  ch_address :: "string option"
  ch_proxyTarget :: jsv
  ch_destination :: jsv
  ch_venueKind :: venue_kind
  ch_disclosure :: string
  ch_yield :: yield_state
  ch_allocation :: amount

record agent =
  allocationId :: string
  kind :: agent_kind
  hostNetworkId :: string
  allocation :: amount
  cap :: amount
  periodSeconds :: int
  expiry :: int
  destination :: string
  children :: "child list"

text \<open>A Base allocation: the raw venue record with its amount and its decimals, when given.\<close>

record base_alloc =
  b_raw :: jsv
  b_units :: int
  b_decimals :: "int option"

record plan_input =
  i_runId :: "string option"
  i_risk :: string
  i_token :: "string option"
  i_bridgeToken :: "string option"
  i_stellarUnits :: "int option"
  i_stellarDecimals :: "int option"
  i_destination :: "string option"
  i_baseAllocations :: "base_alloc list"
  i_periodSeconds :: "int option"
  i_expiry :: "int option"

definition default :: "'a option \<Rightarrow> 'a \<Rightarrow> 'a" where
  "default x d = (case x of None \<Rightarrow> d | Some v \<Rightarrow> v)"

definition STELLAR_NETWORK_ID :: string where "STELLAR_NETWORK_ID = ''stellar-testnet''"

definition RISK_PROFILES :: "(string \<times> nat) list" where
  "RISK_PROFILES = [(''low'', 1), (''med'', 2), (''high'', 3)]"

definition targetSlots :: "string \<Rightarrow> nat" where
  "targetSlots risk = default (map_of RISK_PROFILES risk) 1"

subsection \<open>Expansion\<close>

definition splitEven :: "int \<Rightarrow> nat \<Rightarrow> int list" where
  "splitEven tot k =
     map (\<lambda>i. tot sdiv int k + (if int i < tot smod int k then 1 else 0)) [0..<k]"

text \<open>The string \<open>allocationId\<close> builds; an empty run id counts as missing.\<close>

definition allocation_id :: "string option \<Rightarrow> string \<Rightarrow> string \<Rightarrow> string" where
  "allocation_id runId kind1 key =
     (case runId of Some r \<Rightarrow> if r = [] then ''unrun'' else r | None \<Rightarrow> ''unrun'') @ '':'' @ kind1 @ '':'' @ key"

definition kStellarOf :: "nat \<Rightarrow> nat \<Rightarrow> int \<Rightarrow> nat" where
  "kStellarOf slots bridgeSlots tot =
     (let k = (if tot > 0 then max 1 (slots - bridgeSlots) else 0) in
      if k > 0 \<and> tot < int k then nat tot else k)"

definition depositAgent :: "plan_input \<Rightarrow> int \<Rightarrow> nat \<Rightarrow> int \<Rightarrow> agent" where
  "depositAgent inp nowS i u =
     (let amt = \<lparr>token = default (i_token inp) ''USDC'', units = u, decimals = default (i_stellarDecimals inp) 7\<rparr> in
      \<lparr>allocationId = allocation_id (i_runId inp) ''deposit'' (show_nat i), kind = Deposit,
       hostNetworkId = STELLAR_NETWORK_ID, allocation = amt, cap = amt,
       periodSeconds = default (i_periodSeconds inp) 3600, expiry = default (i_expiry inp) (nowS + 3600),
       destination = default (i_destination inp) ''Stellar deposit'', children = []\<rparr>)"

definition child_key :: "jsv \<Rightarrow> string" where
  "child_key r =
     js_to_key (or_default (js_get r ''proxyTarget'') (or_default (js_get r ''factSlug'') (js_get r ''address'')))"

definition bridgeChild :: "plan_input \<Rightarrow> int \<Rightarrow> base_alloc \<Rightarrow> child option" where
  "bridgeChild inp nowMs b =
     (case normalizeVenue (b_raw b) nowMs of
        None \<Rightarrow> None
      | Some v \<Rightarrow> Some
          \<lparr>ch_allocationId = allocation_id (i_runId inp) ''bridge'' (child_key (b_raw b)),
           ch_address = v_address v, ch_proxyTarget = v_proxyTarget v,
           ch_destination = or_default (v_proxyTarget v) (or_default (v_name v) (JStr ''Base custody proxy'')),
           ch_venueKind = v_kind v, ch_disclosure = v_disclosure v, ch_yield = v_yield v,
           ch_allocation = \<lparr>token = default (i_token inp) ''USDC'', units = b_units b, decimals = default (b_decimals b) 6\<rparr>\<rparr>)"

fun all_children :: "child option list \<Rightarrow> child list option" where
  "all_children [] = Some []"
| "all_children (None # xs) = None"
| "all_children (Some c # xs) = map_option ((#) c) (all_children xs)"

definition positiveBase :: "plan_input \<Rightarrow> base_alloc list" where
  "positiveBase inp = filter (\<lambda>b. b_units b > 0) (i_baseAllocations inp)"

definition bridgeAgent :: "plan_input \<Rightarrow> int \<Rightarrow> child list \<Rightarrow> agent" where
  "bridgeAgent inp nowS cs =
     (let amt = \<lparr>token = default (i_bridgeToken inp) (default (i_token inp) ''USDC''),
                 units = sum_list (map b_units (positiveBase inp)) * 10,
                 decimals = default (i_stellarDecimals inp) 7\<rparr> in
      \<lparr>allocationId = allocation_id (i_runId inp) ''bridge'' ''base'', kind = Bridge,
       hostNetworkId = STELLAR_NETWORK_ID, allocation = amt, cap = amt,
       periodSeconds = default (i_periodSeconds inp) 3600, expiry = default (i_expiry inp) (nowS + 3600),
       destination = ''Base Sepolia bridge'', children = cs\<rparr>)"

definition stellarTotal :: "plan_input \<Rightarrow> int" where
  "stellarTotal inp = default (i_stellarUnits inp) 0"

definition stellarShares :: "plan_input \<Rightarrow> int list" where
  "stellarShares inp =
     (let k = kStellarOf (targetSlots (i_risk inp)) (if positiveBase inp \<noteq> [] then 1 else 0) (stellarTotal inp) in
      if k > 0 then splitEven (stellarTotal inp) k else [])"

text \<open>\<open>None\<close> when \<open>normalizeVenue\<close> throws on a Base record.\<close>

definition expandAgentSlots :: "plan_input \<Rightarrow> int \<Rightarrow> agent list option" where
  "expandAgentSlots inp nowMs =
     (let deposits = map (\<lambda>(i, u). depositAgent inp (nowMs div 1000) i u) (enumerate 0 (stellarShares inp)) in
      if positiveBase inp = [] then Some deposits
      else case all_children (map (bridgeChild inp nowMs) (positiveBase inp)) of
             None \<Rightarrow> None
           | Some cs \<Rightarrow> Some (deposits @ [bridgeAgent inp (nowMs div 1000) cs]))"

record truth =
  agentIsolationCount :: nat
  stellarVenueCount :: nat
  baseUsesProxyVaults :: bool

definition computeTruth :: "agent list \<Rightarrow> truth" where
  "computeTruth as =
     \<lparr>agentIsolationCount = length as,
      stellarVenueCount = (if list_ex (\<lambda>a. kind a = Deposit) as then 1 else 0),
      baseUsesProxyVaults = list_ex (\<lambda>a. kind a = Bridge) as\<rparr>"

record strategy_plan =
  p_runId :: "string option"
  p_source :: string
  p_sourceState :: string
  p_amount :: amount
  p_agents :: "agent list"
  p_truth :: truth
  p_review :: jsv

definition normalizeStrategyPlan ::
  "plan_input \<Rightarrow> string option \<Rightarrow> string option \<Rightarrow> jsv \<Rightarrow> int \<Rightarrow> strategy_plan option" where
  "normalizeStrategyPlan inp source sourceState review nowMs =
     (case expandAgentSlots inp nowMs of
        None \<Rightarrow> None
      | Some as \<Rightarrow> Some
          \<lparr>p_runId = i_runId inp, p_source = default source ''fallback'',
           p_sourceState = default sourceState ''deterministic'',
           p_amount = \<lparr>token = default (i_token inp) ''USDC'', units = sum_list (map (units \<circ> allocation) as),
                       decimals = default (i_stellarDecimals inp) 7\<rparr>,
           p_agents = as, p_truth = computeTruth as,
           p_review = (if review = JUndef then JNull else review)\<rparr>)"

subsection \<open>Exact display amounts\<close>

definition roundCentsBigInt :: "int \<Rightarrow> int \<Rightarrow> int" where
  "roundCentsBigInt u d =
     (if d < 2 then u * 10 ^ nat (2 - d)
      else let denom = 10 ^ nat (d - 2) in (u + denom sdiv 2) sdiv denom)"

definition formatCents :: "int \<Rightarrow> string" where
  "formatCents cents =
     (let a = nat \<bar>cents\<bar> in
      (if cents < 0 then ''-'' else []) @ show_nat (a div 100) @ ''.'' @ padStart 2 (show_nat (a mod 100)))"

text \<open>The cents of one group: each rounded, the rounding remainder of the total on the last.\<close>

definition groupCents :: "amount list \<Rightarrow> int list" where
  "groupCents amts =
     (let cents = map (\<lambda>a. roundCentsBigInt (units a) (decimals a)) amts;
          exact = roundCentsBigInt (sum_list (map units amts)) (decimals (hd amts));
          diff = exact - sum_list cents
      in if cents = [] then [] else butlast cents @ [last cents + diff])"

text \<open>The groups in the order in which their kinds first occur.\<close>

definition byKind :: "agent list \<Rightarrow> agent list list" where
  "byKind as = map (\<lambda>k. filter (\<lambda>a. kind a = k) as) (rev (remdups (rev (map kind as))))"

definition buildAmountDisplayMap :: "(agent \<Rightarrow> amount) \<Rightarrow> agent list \<Rightarrow> (string \<times> string) list" where
  "buildAmountDisplayMap amountKey as =
     foldl (\<lambda>m kv. AList.update (fst kv) (snd kv) m) []
       (concat (map (\<lambda>g. zip (map allocationId g) (map formatCents (groupCents (map amountKey g)))) (byKind as)))"

subsection \<open>Dispatch\<close>

datatype eligibility = NoEligibility | ByFunction "agent \<Rightarrow> jsv" | ByMap "(string \<times> jsv) list"

fun verdictFor :: "eligibility \<Rightarrow> agent \<Rightarrow> jsv" where
  "verdictFor (ByFunction f) a = f a"
| "verdictFor NoEligibility a = JObj [(''eligible'', JBool True)]"
| "verdictFor (ByMap m) a =
     or_default (case map_of m (allocationId a) of None \<Rightarrow> JUndef | Some v \<Rightarrow> v) (JObj [(''eligible'', JBool True)])"

definition toDispatchStrategy :: "strategy_plan \<Rightarrow> eligibility \<Rightarrow> strategy_plan" where
  "toDispatchStrategy p el =
     (let as = filter (\<lambda>a. js_get (verdictFor el a) ''eligible'' \<noteq> JBool False) (p_agents p) in
      p\<lparr>p_agents := as, p_truth := computeTruth as\<rparr>)"

subsection \<open>Validation before generation and before execution\<close>

definition FIRST_DEPOSIT_MIN_UNITS :: int where "FIRST_DEPOSIT_MIN_UNITS = 10000000"

datatype amount_code =
    OK
  | AmountParse usdc_code
  | INVALID_RISK
  | VAULT_STATE_UNKNOWN
  | BELOW_FIRST_DEPOSIT_MINIMUM
  | NON_POSITIVE_AGENT_UNITS
  | NON_POSITIVE_BASE_UNITS

record amount_result =
  code :: amount_code
  field :: "string option"
  r_units :: "int option"
  r_retryable :: bool

definition validateAmountInput :: "jsv \<Rightarrow> string \<Rightarrow> int option \<Rightarrow> amount_result" where
  "validateAmountInput value1 risk shares =
     (case parseUsdcInput value1 (JNum 7) of
        Inl c \<Rightarrow> \<lparr>code = AmountParse c, field = Some ''amount'', r_units = None, r_retryable = False\<rparr>
      | Inr u \<Rightarrow>
          if map_of RISK_PROFILES risk = None
          then \<lparr>code = INVALID_RISK, field = Some ''risk'', r_units = Some u, r_retryable = False\<rparr>
          else case shares of
            None \<Rightarrow> \<lparr>code = VAULT_STATE_UNKNOWN, field = Some ''amount'', r_units = Some u, r_retryable = True\<rparr>
          | Some s \<Rightarrow>
              if s = 0 \<and> u < FIRST_DEPOSIT_MIN_UNITS
              then \<lparr>code = BELOW_FIRST_DEPOSIT_MINIMUM, field = Some ''amount'', r_units = Some u, r_retryable = False\<rparr>
              else \<lparr>code = OK, field = None, r_units = Some u, r_retryable = False\<rparr>)"

definition or_name :: "string \<Rightarrow> string \<Rightarrow> string" where "or_name s d = (if s = [] then d else s)"

fun firstBadChild :: "string \<Rightarrow> child list \<Rightarrow> amount_result option" where
  "firstBadChild ag [] = None"
| "firstBadChild ag (c # cs) =
     (if units (ch_allocation c) \<le> 0
      then Some \<lparr>code = NON_POSITIVE_BASE_UNITS, field = Some (or_name (ch_allocationId c) ag),
                 r_units = Some (units (ch_allocation c)), r_retryable = False\<rparr>
      else firstBadChild ag cs)"

fun firstBadAgent :: "agent list \<Rightarrow> amount_result option" where
  "firstBadAgent [] = None"
| "firstBadAgent (a # as) =
     (if units (allocation a) \<le> 0
      then Some \<lparr>code = NON_POSITIVE_AGENT_UNITS, field = Some (or_name (allocationId a) ''agents''),
                 r_units = Some (units (allocation a)), r_retryable = False\<rparr>
      else case (if kind a = Bridge then firstBadChild (allocationId a) (children a) else None) of
             Some r \<Rightarrow> Some r
           | None \<Rightarrow> firstBadAgent as)"

definition validateExecutionAllocations :: "agent list \<Rightarrow> int option \<Rightarrow> amount_result" where
  "validateExecutionAllocations as shares =
     (case shares of
        None \<Rightarrow> \<lparr>code = VAULT_STATE_UNKNOWN, field = Some ''vaultTotalShares'', r_units = None, r_retryable = True\<rparr>
      | Some s \<Rightarrow>
          (case firstBadAgent as of
             Some r \<Rightarrow> r
           | None \<Rightarrow>
               (case (if s = 0
                      then find (\<lambda>a. kind a = Deposit \<and> units (allocation a) < FIRST_DEPOSIT_MIN_UNITS) as
                      else None) of
                  Some a \<Rightarrow> \<lparr>code = BELOW_FIRST_DEPOSIT_MINIMUM, field = Some (allocationId a),
                             r_units = Some (units (allocation a)), r_retryable = False\<rparr>
                | None \<Rightarrow>
                    \<lparr>code = OK, field = None,
                     r_units = Some (sum_list (map (units \<circ> allocation) (filter (\<lambda>a. kind a = Deposit) as))),
                     r_retryable = False\<rparr>)))"

subsection \<open>Allocations are conserved\<close>

lemma sum_first: "0 \<le> r \<Longrightarrow> r \<le> int k \<Longrightarrow> sum_list (map (\<lambda>i. if int i < r then 1 else 0) [0..<k]) = r"
proof (induction k arbitrary: r)
  case (Suc k)
  show ?case
  proof (cases "r = int (Suc k)")
    case True
    have "map (\<lambda>i. if int i < r then 1 else 0) [0..<Suc k] = map (\<lambda>i. 1 :: int) [0..<Suc k]"
      using True by (intro map_cong) auto
    then have "sum_list (map (\<lambda>i. if int i < r then 1 else 0) [0..<Suc k]) = sum_list (map (\<lambda>i. 1 :: int) [0..<Suc k])"
      by (simp only:)
    also have "\<dots> = r" unfolding sum_list_triv using True by simp
    finally show ?thesis .
  next
    case False
    with Suc show ?thesis by simp
  qed
qed simp

lemma splitEven_props:
  assumes "0 < k" "int k \<le> tot"
  shows "sum_list (splitEven tot k) = tot" "length (splitEven tot k) = k"
    "u \<in> set (splitEven tot k) \<Longrightarrow> tot div int k \<le> u \<and> u \<le> tot div int k + 1 \<and> 0 < u"
proof -
  have d: "tot sdiv int k = tot div int k" "tot smod int k = tot mod int k"
    using assms by (simp_all add: signed_divide_int_def signed_modulo_int_def sgn_if minus_div_mult_eq_mod)
  have "sum_list (splitEven tot k)
      = int k * (tot div int k) + sum_list (map (\<lambda>i. if int i < tot mod int k then 1 else 0) [0..<k])"
    unfolding splitEven_def d by (simp add: sum_list_addf sum_list_triv)
  also have "\<dots> = tot" using assms sum_first [of "tot mod int k" k] by (simp add: pos_mod_bound less_imp_le)
  finally show "sum_list (splitEven tot k) = tot" .
  show "length (splitEven tot k) = k" by (simp add: splitEven_def)
  have "0 < tot div int k" using assms by (simp add: pos_imp_zdiv_pos_iff)
  then show "u \<in> set (splitEven tot k) \<Longrightarrow> tot div int k \<le> u \<and> u \<le> tot div int k + 1 \<and> 0 < u"
    by (auto simp: splitEven_def d)
qed

lemma kStellarOf_bounds:
  "0 < tot \<Longrightarrow> 0 < kStellarOf s b tot \<and> int (kStellarOf s b tot) \<le> tot \<and> kStellarOf s b tot \<le> max 1 (s - b)"
  "tot \<le> 0 \<Longrightarrow> kStellarOf s b tot = 0"
  by (auto simp: kStellarOf_def Let_def)

lemma stellarShares_props:
  defines "b \<equiv> \<lambda>inp. if positiveBase inp \<noteq> [] then 1 else (0 :: nat)"
  shows "sum_list (stellarShares inp) = max 0 (stellarTotal inp)"
    "\<forall>u \<in> set (stellarShares inp). 0 < u"
    "\<forall>u \<in> set (stellarShares inp). \<forall>w \<in> set (stellarShares inp). u \<le> w + 1"
    "length (stellarShares inp) \<le> max 1 (targetSlots (i_risk inp) - b inp)"
    "stellarShares inp = [] \<longleftrightarrow> stellarTotal inp \<le> 0"
proof -
  let ?t = "stellarTotal inp" and ?k = "kStellarOf (targetSlots (i_risk inp)) (b inp) (stellarTotal inp)"
  have s: "stellarShares inp = (if ?k > 0 then splitEven ?t ?k else [])"
    by (simp add: stellarShares_def b_def Let_def)
  note k = kStellarOf_bounds [of ?t "targetSlots (i_risk inp)" "b inp"]
  show "sum_list (stellarShares inp) = max 0 ?t" using k splitEven_props(1) [of ?k ?t] by (cases "0 < ?t") (auto simp: s)
  show "\<forall>u \<in> set (stellarShares inp). 0 < u"
    using k splitEven_props(3) [of ?k ?t] by (cases "0 < ?t") (auto simp: s)
  show "\<forall>u \<in> set (stellarShares inp). \<forall>w \<in> set (stellarShares inp). u \<le> w + 1"
  proof (intro ballI)
    fix u w assume "u \<in> set (stellarShares inp)" "w \<in> set (stellarShares inp)"
    moreover from this have "0 < ?t" using k by (cases "0 < ?t") (auto simp: s)
    ultimately have "u \<le> ?t div int ?k + 1" "?t div int ?k \<le> w"
      using k(1) splitEven_props(3) [of ?k ?t u] splitEven_props(3) [of ?k ?t w] by (simp_all add: s)
    then show "u \<le> w + 1" by linarith
  qed
  show "length (stellarShares inp) \<le> max 1 (targetSlots (i_risk inp) - b inp)"
    using k splitEven_props(2) [of ?k ?t] by (cases "0 < ?t") (auto simp: s)
  show "stellarShares inp = [] \<longleftrightarrow> ?t \<le> 0"
    using k splitEven_props(2) [of ?k ?t] by (cases "0 < ?t") (auto simp: s)
qed

lemma depositAgent_fields [simp]:
  "kind (depositAgent inp n i u) = Deposit" "units (allocation (depositAgent inp n i u)) = u"
  "cap (depositAgent inp n i u) = allocation (depositAgent inp n i u)" "children (depositAgent inp n i u) = []"
  by (simp_all add: depositAgent_def Let_def)

lemma bridgeAgent_fields [simp]:
  "kind (bridgeAgent inp n cs) = Bridge" "units (allocation (bridgeAgent inp n cs)) = sum_list (map b_units (positiveBase inp)) * 10"
  "cap (bridgeAgent inp n cs) = allocation (bridgeAgent inp n cs)" "children (bridgeAgent inp n cs) = cs"
  by (simp_all add: bridgeAgent_def Let_def)

definition deposits :: "plan_input \<Rightarrow> int \<Rightarrow> agent list" where
  "deposits inp nowMs = map (\<lambda>(i, u). depositAgent inp (nowMs div 1000) i u) (enumerate 0 (stellarShares inp))"

lemma deposits_props:
  "map (units \<circ> allocation) (deposits inp nowMs) = stellarShares inp" "\<forall>a \<in> set (deposits inp nowMs). kind a = Deposit \<and> cap a = allocation a"
  "filter (\<lambda>a. kind a = Deposit) (deposits inp nowMs) = deposits inp nowMs"
  "filter (\<lambda>a. kind a = Bridge) (deposits inp nowMs) = []"
proof -
  have "(units \<circ> allocation) \<circ> (\<lambda>(i, u). depositAgent inp (nowMs div 1000) i u) = snd" by auto
  then show "map (units \<circ> allocation) (deposits inp nowMs) = stellarShares inp"
    by (simp add: deposits_def del: map_map) (simp add: map_map flip: o_assoc)
  show d: "\<forall>a \<in> set (deposits inp nowMs). kind a = Deposit \<and> cap a = allocation a" by (auto simp: deposits_def)
  show "filter (\<lambda>a. kind a = Deposit) (deposits inp nowMs) = deposits inp nowMs"
    "filter (\<lambda>a. kind a = Bridge) (deposits inp nowMs) = []"
    using d by (auto simp: filter_id_conv filter_empty_conv)
qed

lemma all_children_units:
  "all_children (map (bridgeChild inp nowMs) bs) = Some cs \<Longrightarrow> map (units \<circ> ch_allocation) cs = map b_units bs"
  by (induction bs arbitrary: cs) (auto simp: bridgeChild_def split: option.splits)

lemma expand_cases:
  assumes "expandAgentSlots inp nowMs = Some as"
  obtains "positiveBase inp = []" "as = deposits inp nowMs"
  | cs where "positiveBase inp \<noteq> []" "as = deposits inp nowMs @ [bridgeAgent inp (nowMs div 1000) cs]"
      "map (units \<circ> ch_allocation) cs = map b_units (positiveBase inp)"
  using assms by (auto simp: expandAgentSlots_def deposits_def Let_def dest: all_children_units split: if_splits option.splits)

lemma positive_sum: "bs \<noteq> [] \<Longrightarrow> \<forall>b \<in> set bs. 0 < b_units b \<Longrightarrow> 0 < sum_list (map b_units bs)"
  by (induction bs) (auto intro!: add_pos_nonneg sum_list_nonneg simp: less_imp_le)

text \<open>
  C18. Expanding an allocation conserves it exactly: the deposit agents' units sum to the Stellar
  amount (none when it is not positive), they are all positive and differ by at most one unit, and
  there are at most as many as the risk profile's slots leave, but at least one. All positive Base
  amounts collapse into exactly one bridge agent whose cap is ten times their exact sum (6 to 7
  decimals), each kept as a child with its own amount. The plan's amount is the sum over its agents.
\<close>

theorem plan_conserves_units:
  assumes "normalizeStrategyPlan inp source sourceState review nowMs = Some p"
  shows "sum_list (map (units \<circ> allocation) (filter (\<lambda>a. kind a = Deposit) (p_agents p))) = max 0 (stellarTotal inp)
    \<and> sum_list (map (units \<circ> allocation) (filter (\<lambda>a. kind a = Bridge) (p_agents p)))
        = 10 * sum_list (map b_units (positiveBase inp))
    \<and> units (p_amount p) = max 0 (stellarTotal inp) + 10 * sum_list (map b_units (positiveBase inp))
    \<and> (\<forall>a \<in> set (p_agents p). 0 < units (allocation a) \<and> cap a = allocation a
         \<and> (kind a = Bridge \<longrightarrow> map (units \<circ> ch_allocation) (children a) = map b_units (positiveBase inp)))
    \<and> (\<forall>a \<in> set (p_agents p). \<forall>b \<in> set (p_agents p). kind a = Deposit \<and> kind b = Deposit \<longrightarrow>
         units (allocation a) \<le> units (allocation b) + 1)
    \<and> length (filter (\<lambda>a. kind a = Bridge) (p_agents p)) = (if positiveBase inp = [] then 0 else 1)
    \<and> length (filter (\<lambda>a. kind a = Deposit) (p_agents p))
        \<le> max 1 (targetSlots (i_risk inp) - (if positiveBase inp \<noteq> [] then 1 else 0))
    \<and> (0 < stellarTotal inp \<longrightarrow> filter (\<lambda>a. kind a = Deposit) (p_agents p) \<noteq> [])"
proof -
  from assms have e: "expandAgentSlots inp nowMs = Some (p_agents p)"
    and am: "units (p_amount p) = sum_list (map (units \<circ> allocation) (p_agents p))"
    by (auto simp: normalizeStrategyPlan_def split: option.splits)
  let ?d = "deposits inp nowMs"
  note d = deposits_props [of inp nowMs] and sh = stellarShares_props [of inp]
  have len: "length ?d = length (stellarShares inp)" by (simp add: deposits_def)
  have u: "units (allocation a) \<in> set (stellarShares inp)" if "a \<in> set ?d" for a
    using that d(1) by (metis comp_apply image_eqI set_map)
  have pos: "\<forall>b \<in> set (positiveBase inp). 0 < b_units b" by (simp add: positiveBase_def)
  show ?thesis
    using e
  proof (cases rule: expand_cases)
    case 1
    with d sh len u am show ?thesis by (auto simp: deposits_def)
  next
    case (2 cs)
    have "0 < sum_list (map b_units (positiveBase inp))" by (rule positive_sum [OF 2(1) pos])
    with 2 d sh len u am show ?thesis by (auto simp: deposits_def)
  qed
qed

text \<open>
  A plan the model expands is executable as far as amounts go: against a seeded vault it
  validates, with the Stellar amount as its deposit total; against an empty vault the only refusal is
  a deposit slot below the first-deposit minimum; with an unknown vault state it is always refused as
  retryable.
\<close>

theorem expanded_plan_validates:
  assumes "normalizeStrategyPlan inp source sourceState review nowMs = Some p"
  shows "validateExecutionAllocations (p_agents p) (Some s) =
      (case (if s = 0 then find (\<lambda>a. kind a = Deposit \<and> units (allocation a) < FIRST_DEPOSIT_MIN_UNITS) (p_agents p)
             else None) of
         None \<Rightarrow> \<lparr>code = OK, field = None, r_units = Some (max 0 (stellarTotal inp)), r_retryable = False\<rparr>
       | Some a \<Rightarrow> \<lparr>code = BELOW_FIRST_DEPOSIT_MINIMUM, field = Some (allocationId a),
                    r_units = Some (units (allocation a)), r_retryable = False\<rparr>)
    \<and> code (validateExecutionAllocations (p_agents p) None) = VAULT_STATE_UNKNOWN
    \<and> r_retryable (validateExecutionAllocations (p_agents p) None)"
proof -
  from assms have e: "expandAgentSlots inp nowMs = Some (p_agents p)"
    by (auto simp: normalizeStrategyPlan_def split: option.splits)
  let ?d = "deposits inp nowMs"
  note d = deposits_props [of inp nowMs] and sh = stellarShares_props [of inp]
  have u: "units (allocation a) \<in> set (stellarShares inp)" if "a \<in> set ?d" for a
    using that d(1) by (metis comp_apply image_eqI set_map)
  have bad_append: "firstBadAgent (xs @ ys) = (case firstBadAgent xs of None \<Rightarrow> firstBadAgent ys | Some r \<Rightarrow> Some r)" for xs ys
    by (induction xs) (auto split: option.splits)
  have "firstBadAgent as = None" if "\<forall>a \<in> set as. kind a = Deposit \<and> 0 < units (allocation a)" for as
    using that by (induction as) auto
  then have bad_d: "firstBadAgent ?d = None" using d(2) u sh(2) by blast
  have bad_c: "firstBadChild x cs = None" if "\<forall>c \<in> set (map (units \<circ> ch_allocation) cs). 0 < c" for x cs
    using that by (induction cs) auto
  have pos: "\<forall>b \<in> set (positiveBase inp). 0 < b_units b" by (simp add: positiveBase_def)
  have ok: "firstBadAgent (p_agents p) = None
      \<and> sum_list (map (units \<circ> allocation) (filter (\<lambda>a. kind a = Deposit) (p_agents p))) = max 0 (stellarTotal inp)"
    using e
  proof (cases rule: expand_cases)
    case 1
    with bad_d d sh show ?thesis by simp
  next
    case (2 cs)
    have "0 < sum_list (map b_units (positiveBase inp))" by (rule positive_sum [OF 2(1) pos])
    moreover have "firstBadChild x cs = None" for x using bad_c [of cs x] 2(3) pos by auto
    ultimately show ?thesis using 2 bad_d d sh by (simp add: bad_append)
  qed
  show ?thesis by (simp add: validateExecutionAllocations_def ok split: option.split)
qed

definition sample_input :: plan_input where
  "sample_input =
     \<lparr>i_runId = Some ''r'', i_risk = ''high'', i_token = None, i_bridgeToken = None, i_stellarUnits = Some 5,
      i_stellarDecimals = None, i_destination = None,
      i_baseAllocations =
        [\<lparr>b_raw = JObj [(''chain'', JStr ''base''), (''proxyTarget'', JStr ''aave'')], b_units = 3, b_decimals = None\<rparr>,
         \<lparr>b_raw = JNull, b_units = 0, b_decimals = None\<rparr>],
      i_periodSeconds = None, i_expiry = Some 9\<rparr>"

lemma sample_plan: "\<exists>p. normalizeStrategyPlan sample_input None None JNull 0 = Some p"
  by (simp add: normalizeStrategyPlan_def expandAgentSlots_def sample_input_def positiveBase_def bridgeChild_def
      normalizeVenue_def resolveVenueKind_def baseSignal_def stellarSignal_def addressOf_def Let_def
      split: option.split)

theorem plan_conserves_units_witness:
  "\<exists>p. normalizeStrategyPlan sample_input None None JNull 0 = Some p \<and> units (p_amount p) = 35"
proof -
  from sample_plan obtain p where p: "normalizeStrategyPlan sample_input None None JNull 0 = Some p" by blast
  have "stellarTotal sample_input = 5" "positiveBase sample_input = [hd (i_baseAllocations sample_input)]"
    "b_units (hd (i_baseAllocations sample_input)) = 3"
    by (simp_all add: sample_input_def stellarTotal_def default_def positiveBase_def)
  with plan_conserves_units [OF p] p show ?thesis by auto
qed

theorem expanded_plan_validates_witness:
  "\<exists>p. normalizeStrategyPlan sample_input None None JNull 0 = Some p
     \<and> code (validateExecutionAllocations (p_agents p) (Some 4)) = OK"
proof -
  from sample_plan obtain p where p: "normalizeStrategyPlan sample_input None None JNull 0 = Some p" by blast
  with expanded_plan_validates [OF p, of 4] show ?thesis by auto
qed

text \<open>The cents displayed for a group add up to the rounded total of the group.\<close>

lemma groupCents_sum:
  "amts \<noteq> [] \<Longrightarrow> sum_list (groupCents amts) = roundCentsBigInt (sum_list (map units amts)) (decimals (hd amts))"
proof -
  assume ne: "amts \<noteq> []"
  let ?c = "map (\<lambda>a. roundCentsBigInt (units a) (decimals a)) amts"
  have "?c = butlast ?c @ [last ?c]" using ne by (intro append_butlast_last_id [symmetric]) simp
  then have "sum_list ?c = sum_list (butlast ?c @ [last ?c])" by (rule arg_cong)
  then have "sum_list ?c = sum_list (butlast ?c) + last ?c" by (simp only: sum_list_append sum_list.Cons sum_list.Nil add_0_right)
  with ne show ?thesis by (simp add: groupCents_def Let_def)
qed

end
