(* ===== verification/RateLimit.thy ===== *)
theory RateLimit
  imports Prelude Machines
begin

section \<open>The durable rate limiter of the edge functions\<close>

text \<open>
  \<open>frontend/api/durableRateLimit.js\<close>: the policy tables, the atomic counter row per route bucket and
  client address, and the limiter. The SQL upsert is a function on the table. A numeric option is the
  integer \<open>Number(...)\<close> gives, \<open>None\<close> when it gives none; the client address is what \<open>clientIp\<close>
  answered. A database call may throw; the answer of the in-memory limiter is an argument.
\<close>

subsection \<open>Policies\<close>

record policy =
  max_requests :: int
  windowMs :: int
  bucket :: string

record tier =
  t_max :: int
  t_windowMs :: int

definition WINDOW_MS :: int where "WINDOW_MS = 60000"

definition strictWrite :: tier where "strictWrite = \<lparr>t_max = 30, t_windowMs = WINDOW_MS\<rparr>"
definition authenticatedStatus :: tier where "authenticatedStatus = \<lparr>t_max = 120, t_windowMs = WINDOW_MS\<rparr>"
definition publicRead :: tier where "publicRead = \<lparr>t_max = 240, t_windowMs = WINDOW_MS\<rparr>"

definition VF_CROSS_TIERS :: "(string \<times> tier) list" where
  "VF_CROSS_TIERS =
     [(''GET /'', publicRead), (''GET /config'', publicRead), (''POST /mandate'', strictWrite),
      (''POST /mandate/status'', authenticatedStatus), (''POST /mandate/revoke'', strictWrite),
      (''POST /farm'', strictWrite), (''POST /farm/attach'', strictWrite), (''POST /farm/recover'', strictWrite),
      (''POST /status'', authenticatedStatus), (''POST /unwind'', strictWrite), (''POST /unwind/attach'', strictWrite)]"

definition AGENT_INDEX_CROSS_TIERS :: "(string \<times> tier) list" where
  "AGENT_INDEX_CROSS_TIERS =
     [(''POST base-child-intent-batch'', strictWrite), (''POST base-child-evidence'', strictWrite),
      (''GET base-child-evidence'', publicRead), (''GET receipt'', publicRead), (''GET read'', publicRead),
      (''POST base-recovery-request'', strictWrite), (''POST base-recovery-claim'', strictWrite),
      (''POST base-recovery-renew'', strictWrite), (''POST base-recovery-release'', strictWrite),
      (''POST lease-acquire'', strictWrite), (''POST lease-release'', strictWrite), (''POST associate'', strictWrite),
      (''POST base-child-ready'', publicRead)]"

definition policyFor :: "tier \<Rightarrow> string \<Rightarrow> policy" where
  "policyFor t b = \<lparr>max_requests = t_max t, windowMs = t_windowMs t, bucket = b\<rparr>"

definition resolveVfCrossLimit :: "string \<Rightarrow> string \<Rightarrow> policy option" where
  "resolveVfCrossLimit method1 path =
     (let key = method1 @ '' '' @ path in
      map_option (\<lambda>t. policyFor t (''vf-cross:'' @ key)) (map_of VF_CROSS_TIERS key))"

definition resolveAgentIndexCrossLimit :: "string \<Rightarrow> string \<Rightarrow> policy option" where
  "resolveAgentIndexCrossLimit method1 action =
     (let key = method1 @ '' '' @ action in
      map_option (\<lambda>t. policyFor t (''agent-index:'' @ key)) (map_of AGENT_INDEX_CROSS_TIERS key))"

subsection \<open>The runtime\<close>

text \<open>\<open>req.env\<close>, when it is an object, and the process environment.\<close>

record runtime =
  pages_env :: "(string \<times> jsv) list option"
  process_env :: "(string \<times> string) list"

definition hasPagesEnv :: "runtime \<Rightarrow> bool" where "hasPagesEnv rt \<longleftrightarrow> pages_env rt \<noteq> None"

definition runtimeValue :: "runtime \<Rightarrow> string \<Rightarrow> string \<Rightarrow> string" where
  "runtimeValue rt key fallback =
     (case pages_env rt of
        Some env \<Rightarrow> (case map_of env key of Some v \<Rightarrow> js_to_key v | None \<Rightarrow> fallback)
      | None \<Rightarrow> (case map_of (process_env rt) key of Some v \<Rightarrow> v | None \<Rightarrow> fallback))"

definition productionRuntime :: "runtime \<Rightarrow> bool" where
  "productionRuntime rt =
     (let nodeEnv = toLowerCase (runtimeValue rt ''NODE_ENV'' []);
          vercelEnv = toLowerCase (runtimeValue rt ''VERCEL_ENV'' [])
      in nodeEnv = ''production'' \<or> nodeEnv = ''staging'' \<or> vercelEnv = ''production'')"

subsection \<open>The counter row\<close>

record counter =
  window_start_ms :: int
  request_count :: int
  updated_at_ms :: int

type_synonym counters = "((string \<times> string) \<times> counter) list"

text \<open>The one statement \<open>RATE_LIMIT_UPSERT_SQL\<close> on one row.\<close>

definition bump :: "counter option \<Rightarrow> int \<Rightarrow> int \<Rightarrow> counter" where
  "bump old windowStart now =
     (case old of
        None \<Rightarrow> \<lparr>window_start_ms = windowStart, request_count = 1, updated_at_ms = now\<rparr>
      | Some r \<Rightarrow>
          \<lparr>window_start_ms = (if windowStart > window_start_ms r then windowStart else window_start_ms r),
           request_count = (if windowStart > window_start_ms r then 1 else request_count r + 1),
           updated_at_ms = max (updated_at_ms r) now\<rparr>)"

definition upsert :: "counters \<Rightarrow> string \<Rightarrow> string \<Rightarrow> int \<Rightarrow> int \<Rightarrow> counters \<times> counter" where
  "upsert tb b ip windowStart now =
     (let r = bump (map_of tb (b, ip)) windowStart now in (AList.update (b, ip) r tb, r))"

definition requestOptions :: "int option \<Rightarrow> int option \<Rightarrow> string option \<Rightarrow> policy option" where
  "requestOptions mx win b =
     (case (mx, win) of
        (Some m, Some w) \<Rightarrow>
          let b1 = (case b of Some s \<Rightarrow> if s = [] then ''default'' else s | None \<Rightarrow> ''default'') in
          if \<not> safe_int m \<or> m < 1 then None
          else if \<not> safe_int w \<or> w < 1 then None
          else if length b1 > 256 then None
          else Some \<lparr>max_requests = m, windowMs = w, bucket = b1\<rparr>
      | _ \<Rightarrow> None)"

text \<open>\<open>validCounterRow\<close>; the key columns are those the statement was given.\<close>

definition validCounterRow :: "counter \<Rightarrow> int \<Rightarrow> int \<Rightarrow> int \<Rightarrow> bool" where
  "validCounterRow r windowStart now win \<longleftrightarrow>
     safe_int (window_start_ms r) \<and> 0 \<le> window_start_ms r
   \<and> safe_int (request_count r) \<and> 1 \<le> request_count r
   \<and> safe_int (updated_at_ms r) \<and> 0 \<le> updated_at_ms r
   \<and> (updated_at_ms r = now \<or> (updated_at_ms r > now \<and> request_count r \<ge> 2))
   \<and> (window_start_ms r = windowStart \<or> (window_start_ms r > windowStart \<and> request_count r \<ge> 2))
   \<and> window_start_ms r mod win = 0"

subsection \<open>The limiter\<close>

datatype verdict = Allowed | Unavailable | TooMany int | Memory bool

definition windowOf :: "int \<Rightarrow> int \<Rightarrow> int" where "windowOf win now = now div win * win"

text \<open>\<open>Math.max(1, Math.ceil((resetAtMs - nowMs) / 1000))\<close>.\<close>

definition retryAfter :: "counter \<Rightarrow> int \<Rightarrow> int \<Rightarrow> int" where
  "retryAfter r win now = max 1 (- ((- (window_start_ms r + win - now)) div 1000))"

definition decideRow :: "policy \<Rightarrow> counter \<Rightarrow> int \<Rightarrow> verdict" where
  "decideRow p r now =
     (if \<not> validCounterRow r (windowOf (windowMs p) now) now (windowMs p) then Unavailable
      else if request_count r > max_requests p then TooMany (retryAfter r (windowMs p) now)
      else Allowed)"

record limiter_request =
  q_options :: "policy option"
  q_ip :: "string option"
  q_runtime :: runtime
  q_db :: bool
  q_dbThrows :: bool
  q_now :: "int option"
  q_memory :: bool

definition durableRateLimit :: "counters \<Rightarrow> limiter_request \<Rightarrow> counters \<times> verdict" where
  "durableRateLimit tb q =
     (case (q_options q, q_ip q) of
        (Some p, Some ip) \<Rightarrow>
          if \<not> q_db q then
            (tb, if hasPagesEnv (q_runtime q) \<or> productionRuntime (q_runtime q) then Unavailable else Memory (q_memory q))
          else (case q_now q of
            None \<Rightarrow> (tb, Unavailable)
          | Some now \<Rightarrow>
              if \<not> safe_int now \<or> now < 0 then (tb, Unavailable)
              else if q_dbThrows q then (tb, Unavailable)
              else let (tb', r) = upsert tb (bucket p) ip (windowOf (windowMs p) now) now in (tb', decideRow p r now))
      | _ \<Rightarrow> (tb, Unavailable))"

subsection \<open>At most \<open>max\<close> requests per window\<close>

text \<open>
  The requests of one client to one bucket, all under one policy: what the counter row of that client
  does with the clock readings of its requests.
\<close>

fun client_run :: "policy \<Rightarrow> counter option \<Rightarrow> int list \<Rightarrow> (int \<times> counter \<times> verdict) list" where
  "client_run p old [] = []"
| "client_run p old (now # ns) =
     (let r = bump old (windowOf (windowMs p) now) now in (now, r, decideRow p r now) # client_run p (Some r) ns)"

text \<open>The rows the limiter itself writes: the window of the latest clock reading.\<close>

definition counter_ok :: "policy \<Rightarrow> counter \<Rightarrow> bool" where
  "counter_ok p r \<longleftrightarrow>
     1 \<le> request_count r \<and> 0 \<le> updated_at_ms r \<and> safe_int (updated_at_ms r)
   \<and> window_start_ms r = windowOf (windowMs p) (updated_at_ms r)"

definition policy_ok :: "policy \<Rightarrow> bool" where
  "policy_ok p \<longleftrightarrow> 1 \<le> max_requests p \<and> safe_int (max_requests p) \<and> 1 \<le> windowMs p"

definition clock_ok :: "int \<Rightarrow> bool" where "clock_ok now \<longleftrightarrow> 0 \<le> now \<and> safe_int now"

lemma windowOf_mono: "1 \<le> w \<Longrightarrow> a \<le> b \<Longrightarrow> windowOf w a \<le> windowOf w b"
  by (simp add: windowOf_def zdiv_mono1 mult_right_mono)

lemma windowOf_bounds:
  assumes "1 \<le> w" "0 \<le> a"
  shows "0 \<le> windowOf w a" "windowOf w a \<le> a" "a < windowOf w a + w" "windowOf w a mod w = 0"
proof -
  have e: "windowOf w a = a - a mod w" by (simp add: windowOf_def minus_mod_eq_div_mult)
  have m: "0 \<le> a mod w" "a mod w < w" using assms by auto
  show "windowOf w a \<le> a" "a < windowOf w a + w" using m by (simp_all add: e)
  show "0 \<le> windowOf w a" "windowOf w a mod w = 0"
    using assms by (simp_all add: windowOf_def pos_imp_zdiv_nonneg_iff)
qed

lemma bump_ok:
  assumes p: "policy_ok p" and now: "clock_ok now" and old: "\<And>r. old = Some r \<Longrightarrow> counter_ok p r"
  shows "counter_ok p (bump old (windowOf (windowMs p) now) now)"
proof (cases old)
  case None
  with now show ?thesis by (simp add: bump_def counter_ok_def clock_ok_def)
next
  case (Some r)
  have w: "1 \<le> windowMs p" using p by (simp add: policy_ok_def)
  have "window_start_ms r = windowOf (windowMs p) (updated_at_ms r)" using old [OF Some] by (simp add: counter_ok_def)
  then show ?thesis
    using Some old [OF Some] now windowOf_mono [OF w, of now "updated_at_ms r"] windowOf_mono [OF w, of "updated_at_ms r" now]
    by (auto simp: bump_def counter_ok_def clock_ok_def max_def)
qed

lemma bump_valid:
  assumes p: "policy_ok p" and now: "clock_ok now" and old: "\<And>r. old = Some r \<Longrightarrow> counter_ok p r"
    and small: "safe_int (request_count (bump old (windowOf (windowMs p) now) now))"
  shows "validCounterRow (bump old (windowOf (windowMs p) now) now) (windowOf (windowMs p) now) now (windowMs p)"
proof -
  let ?w = "windowMs p" and ?r = "bump old (windowOf (windowMs p) now) now"
  have w: "1 \<le> ?w" using p by (simp add: policy_ok_def)
  have ok: "counter_ok p ?r" by (rule bump_ok [OF p now old])
  have b: "0 \<le> window_start_ms ?r" "window_start_ms ?r \<le> updated_at_ms ?r" "window_start_ms ?r mod ?w = 0"
    using ok windowOf_bounds [OF w, of "updated_at_ms ?r"] by (auto simp: counter_ok_def)
  then have "safe_int (window_start_ms ?r)" using ok by (auto simp: counter_ok_def safe_int_def)
  moreover have "(updated_at_ms ?r = now \<or> (updated_at_ms ?r > now \<and> request_count ?r \<ge> 2))
      \<and> (window_start_ms ?r = windowOf ?w now \<or> (window_start_ms ?r > windowOf ?w now \<and> request_count ?r \<ge> 2))"
  proof (cases old)
    case (Some r)
    have r: "counter_ok p r" by (rule old [OF Some])
    then show ?thesis
      using Some windowOf_mono [OF w, of now "updated_at_ms r"] windowOf_mono [OF w, of "updated_at_ms r" now]
      by (auto simp: bump_def counter_ok_def max_def)
  qed (simp add: bump_def)
  ultimately show ?thesis using ok b small by (auto simp: validCounterRow_def counter_ok_def)
qed

text \<open>How many more requests of window \<open>W\<close> a counter row lets through.\<close>

definition quota :: "policy \<Rightarrow> int \<Rightarrow> counter option \<Rightarrow> nat" where
  "quota p W old =
     (case old of
        None \<Rightarrow> nat (max_requests p)
      | Some r \<Rightarrow>
          if window_start_ms r < W then nat (max_requests p)
          else if window_start_ms r = W then nat (max_requests p - request_count r)
          else 0)"

definition admitted_in :: "int \<Rightarrow> int \<times> counter \<times> verdict \<Rightarrow> bool" where
  "admitted_in W x \<longleftrightarrow> snd (snd x) = Allowed \<and> window_start_ms (fst (snd x)) = W"

lemma quota_step:
  assumes "policy_ok p"
  defines "r \<equiv> \<lambda>old now. bump old (windowOf (windowMs p) now) now"
  shows "(if admitted_in W (now, r old now, decideRow p (r old now) now) then 1 else 0) + quota p W (Some (r old now))
      \<le> quota p W old"
  using assms(1)
  by (cases old) (auto simp: admitted_in_def quota_def r_def bump_def decideRow_def policy_ok_def split: if_splits)

lemma client_run_quota:
  "policy_ok p \<Longrightarrow> length (filter (admitted_in W) (client_run p old ns)) \<le> quota p W old"
proof (induction ns arbitrary: old)
  case (Cons now ns)
  let ?r = "bump old (windowOf (windowMs p) now) now"
  have "length (filter (admitted_in W) (client_run p (Some ?r) ns)) \<le> quota p W (Some ?r)"
    using Cons by blast
  with quota_step [OF Cons.prems, of W now old] show ?case by (auto simp: Let_def split: if_splits)
qed simp

definition count_below :: "counter option \<Rightarrow> int" where
  "count_below old = (case old of None \<Rightarrow> 0 | Some r \<Rightarrow> request_count r)"

lemma client_run_available:
  assumes "policy_ok p" "\<forall>n \<in> set ns. clock_ok n" "\<And>r. old = Some r \<Longrightarrow> counter_ok p r"
    and "count_below old + int (length ns) \<le> 9007199254740991" "0 \<le> count_below old"
  shows "\<forall>x \<in> set (client_run p old ns). snd (snd x) \<noteq> Unavailable"
  using assms
proof (induction ns arbitrary: old)
  case (Cons now ns)
  let ?r = "bump old (windowOf (windowMs p) now) now"
  have c: "1 \<le> request_count ?r \<and> request_count ?r \<le> count_below old + 1"
    using Cons.prems(5) by (cases old) (auto simp: bump_def count_below_def)
  have ok: "counter_ok p ?r" by (rule bump_ok) (use Cons.prems in auto)
  have "validCounterRow ?r (windowOf (windowMs p) now) now (windowMs p)"
    by (rule bump_valid) (use Cons.prems c in \<open>auto simp: safe_int_def\<close>)
  then have "decideRow p ?r now \<noteq> Unavailable" by (simp add: decideRow_def)
  moreover have "\<forall>x \<in> set (client_run p (Some ?r) ns). snd (snd x) \<noteq> Unavailable"
    using Cons.prems ok c by (intro Cons.IH) (auto simp: count_below_def)
  ultimately show ?case by (simp add: Let_def)
qed simp

subsection \<open>Interleaved clients on one table\<close>

text \<open>A request that reached the database: its policy, client address and clock reading.\<close>

definition db_request :: "policy \<Rightarrow> string \<Rightarrow> int \<Rightarrow> limiter_request" where
  "db_request p ip now =
     \<lparr>q_options = Some p, q_ip = Some ip, q_runtime = \<lparr>pages_env = Some [], process_env = []\<rparr>, q_db = True,
      q_dbThrows = False, q_now = Some now, q_memory = False\<rparr>"

fun table_run :: "counters \<Rightarrow> (policy \<times> string \<times> int) list \<Rightarrow> ((policy \<times> string \<times> int) \<times> counter \<times> verdict) list" where
  "table_run tb [] = []"
| "table_run tb ((p, ip, now) # qs) =
     (let (tb', v) = durableRateLimit tb (db_request p ip now)
      in ((p, ip, now), the (map_of tb' (bucket p, ip)), v) # table_run tb' qs)"

definition of_client :: "string \<Rightarrow> string \<Rightarrow> policy \<times> string \<times> int \<Rightarrow> bool" where
  "of_client b ip q \<longleftrightarrow> bucket (fst q) = b \<and> fst (snd q) = ip"

lemma durable_step:
  assumes "clock_ok now"
  shows "durableRateLimit tb (db_request p ip now) =
    (let r = bump (map_of tb (bucket p, ip)) (windowOf (windowMs p) now) now in
     (AList.update (bucket p, ip) r tb, decideRow p r now))"
  using assms by (simp add: durableRateLimit_def db_request_def upsert_def Let_def clock_ok_def)

lemma table_run_client:
  assumes "\<forall>q \<in> set qs. clock_ok (snd (snd q)) \<and> (bucket (fst q) = bucket p \<longrightarrow> fst q = p)"
  shows "map (\<lambda>x. (snd (snd (fst x)), snd x)) (filter (\<lambda>x. of_client (bucket p) ip (fst x)) (table_run tb qs))
    = client_run p (map_of tb (bucket p, ip)) (map (snd \<circ> snd) (filter (of_client (bucket p) ip) qs))"
  using assms
proof (induction qs arbitrary: tb)
  case (Cons q qs)
  obtain p' ip' now where q: "q = (p', ip', now)" by (cases q)
  have c: "clock_ok now" and pp: "bucket p' = bucket p \<Longrightarrow> p' = p" using Cons.prems by (auto simp: q)
  let ?r = "bump (map_of tb (bucket p', ip')) (windowOf (windowMs p') now) now"
  let ?tb = "AList.update (bucket p', ip') ?r tb"
  note IH = Cons.IH [of ?tb]
  show ?case
  proof (cases "of_client (bucket p) ip q")
    case True
    then have "p' = p" "ip' = ip" using pp by (auto simp: of_client_def q)
    then show ?thesis using IH Cons.prems True by (simp add: q durable_step [OF c] Let_def)
  next
    case False
    then have "map_of ?tb (bucket p, ip) = map_of tb (bucket p, ip)" by (auto simp: of_client_def q)
    then show ?thesis using IH Cons.prems False by (simp add: q durable_step [OF c] Let_def)
  qed
qed simp

text \<open>
  C20. Whatever requests of other clients and routes are interleaved, and even when clocks go back,
  at most \<open>max\<close> requests of one client to one route are admitted in any window, and no counter row the
  limiter wrote itself is ever taken for malformed: a request that reached the database is admitted
  or told when to retry.
\<close>

theorem window_admits_at_most_max:
  assumes p: "policy_ok p" and qs: "\<forall>q \<in> set qs. clock_ok (snd (snd q)) \<and> (bucket (fst q) = bucket p \<longrightarrow> fst q = p)"
    and len: "int (length qs) \<le> 9007199254740991"
  shows "int (length (filter (\<lambda>x. of_client (bucket p) ip (fst x) \<and> admitted_in W (snd (snd (fst x)), snd x)) (table_run [] qs)))
          \<le> max_requests p
       \<and> (\<forall>x \<in> set (table_run [] qs). of_client (bucket p) ip (fst x) \<longrightarrow> snd (snd x) \<noteq> Unavailable)"
proof -
  let ?ns = "map (snd \<circ> snd) (filter (of_client (bucket p) ip) qs)"
  let ?f = "\<lambda>x. (snd (snd (fst x)), snd x)" and ?of = "\<lambda>x. of_client (bucket p) ip (fst x)"
  note run = table_run_client [OF qs, of ip "[]"]
  have "length (filter (\<lambda>x. ?of x \<and> admitted_in W (?f x)) (table_run [] qs))
      = length (filter (admitted_in W) (map ?f (filter ?of (table_run [] qs))))"
    by (simp add: filter_map comp_def conj_commute)
  also have "\<dots> \<le> quota p W None" using client_run_quota [OF p] by (simp add: run)
  finally have n: "int (length (filter (\<lambda>x. ?of x \<and> admitted_in W (?f x)) (table_run [] qs))) \<le> max_requests p"
    using p by (simp add: quota_def policy_ok_def le_nat_iff)
  have "length ?ns \<le> length qs" by simp
  then have small: "int (length ?ns) \<le> 9007199254740991" using len by linarith
  have "\<forall>y \<in> set (client_run p None ?ns). snd (snd y) \<noteq> Unavailable"
    by (rule client_run_available [OF p]) (use qs small in \<open>auto simp: count_below_def\<close>)
  then have "snd (snd (?f x)) \<noteq> Unavailable" if "x \<in> set (table_run [] qs)" "?of x" for x
    using that run by (metis (no_types, lifting) filter_set image_eqI map_of.simps(1) mem_Collect_eq set_filter set_map)
  with n show ?thesis by auto
qed

definition sample_policy :: policy where "sample_policy = policyFor \<lparr>t_max = 2, t_windowMs = 1000\<rparr> ''b''"

theorem window_admits_at_most_max_witness:
  "int (length (filter (\<lambda>x. of_client ''b'' ''ip'' (fst x) \<and> admitted_in 1000 (snd (snd (fst x)), snd x))
      (table_run [] (map (\<lambda>n. (sample_policy, ''ip'', n)) [1100, 1200, 900, 1300, 2100])))) \<le> 2"
proof -
  have p: "policy_ok sample_policy" "bucket sample_policy = ''b''" "max_requests sample_policy = 2"
    by (simp_all add: sample_policy_def policyFor_def policy_ok_def safe_int_def)
  show ?thesis
    using window_admits_at_most_max [OF p(1), of "map (\<lambda>n. (sample_policy, ''ip'', n)) [1100, 1200, 900, 1300, 2100]" "''ip''" 1000]
      p(2,3) by (simp add: clock_ok_def safe_int_def)
qed

subsection \<open>Retry-After is long enough\<close>

text \<open>
  A client that was told to retry after \<open>s\<close> seconds, and sends its next request at least \<open>s\<close>
  seconds later, is admitted.
\<close>

theorem retry_after_suffices:
  assumes p: "policy_ok p" and r: "counter_ok p r" and refused: "decideRow p r now = TooMany s"
    and later: "now + 1000 * s \<le> now'" "clock_ok now'"
  shows "1 \<le> s \<and> decideRow p (bump (Some r) (windowOf (windowMs p) now') now') now' = Allowed"
proof -
  let ?w = "windowMs p"
  have w: "1 \<le> ?w" using p by (simp add: policy_ok_def)
  have s: "s = retryAfter r ?w now" using refused by (simp add: decideRow_def split: if_splits)
  have "window_start_ms r + ?w - now \<le> 1000 * (- ((- (window_start_ms r + ?w - now)) div 1000))" by linarith
  also have "\<dots> \<le> 1000 * s" by (simp add: s retryAfter_def)
  finally have reset: "window_start_ms r + ?w \<le> now'" using later(1) by linarith
  have ws: "window_start_ms r = windowOf ?w (updated_at_ms r)" using r by (simp add: counter_ok_def)
  have "window_start_ms r + ?w = (updated_at_ms r div ?w + 1) * ?w" by (simp add: ws windowOf_def algebra_simps)
  then have "windowOf ?w (window_start_ms r + ?w) = window_start_ms r + ?w" using w by (simp add: windowOf_def)
  then have new: "window_start_ms r < windowOf ?w now'" using windowOf_mono [OF w reset] w by linarith
  have one: "request_count (bump (Some r) (windowOf ?w now') now') = 1" using new by (simp add: bump_def)
  have "validCounterRow (bump (Some r) (windowOf ?w now') now') (windowOf ?w now') now' ?w"
    using one r later(2) by (intro bump_valid [OF p]) (auto simp: safe_int_def)
  then have "decideRow p (bump (Some r) (windowOf ?w now') now') now' = Allowed"
    using one p by (simp add: decideRow_def policy_ok_def)
  moreover have "1 \<le> s" by (simp add: s retryAfter_def)
  ultimately show ?thesis by blast
qed

theorem retry_after_suffices_witness:
  "decideRow sample_policy (bump (Some \<lparr>window_start_ms = 1000, request_count = 3, updated_at_ms = 1300\<rparr>) 2000 2300) 2300 = Allowed"
proof -
  let ?r = "\<lparr>window_start_ms = 1000, request_count = 3, updated_at_ms = 1300\<rparr>"
  have p: "policy_ok sample_policy" "windowMs sample_policy = 1000"
    by (simp_all add: sample_policy_def policyFor_def policy_ok_def safe_int_def)
  have r: "counter_ok sample_policy ?r" by (simp add: counter_ok_def p windowOf_def safe_int_def)
  have t: "decideRow sample_policy ?r 1300 = TooMany 1"
    by (simp add: decideRow_def validCounterRow_def retryAfter_def sample_policy_def policyFor_def windowOf_def safe_int_def)
  show ?thesis
    using retry_after_suffices [OF p(1) r t, of 2300] by (simp add: p windowOf_def clock_ok_def safe_int_def)
qed

text \<open>The route tables give every listed route a usable policy.\<close>

lemma resolved_policy_ok:
  "resolveVfCrossLimit m path = Some p \<Longrightarrow> policy_ok p" "resolveAgentIndexCrossLimit m action = Some p \<Longrightarrow> policy_ok p"
proof -
  have t: "policy_ok (policyFor t b)" if "t \<in> {strictWrite, authenticatedStatus, publicRead}" for t b
    using that by (auto simp: policyFor_def policy_ok_def safe_int_def strictWrite_def authenticatedStatus_def publicRead_def WINDOW_MS_def)
  have tiers: "snd ` set VF_CROSS_TIERS \<subseteq> {strictWrite, authenticatedStatus, publicRead}"
    "snd ` set AGENT_INDEX_CROSS_TIERS \<subseteq> {strictWrite, authenticatedStatus, publicRead}"
    unfolding VF_CROSS_TIERS_def AGENT_INDEX_CROSS_TIERS_def by simp_all
  have ok: "policy_ok p" if "map_option (\<lambda>t. policyFor t b) (map_of ts k) = Some p"
    "snd ` set ts \<subseteq> {strictWrite, authenticatedStatus, publicRead}" for ts k b
  proof -
    from that(1) obtain tr where "map_of ts k = Some tr" "p = policyFor tr b" by auto
    moreover from this have "tr \<in> snd ` set ts" by (force dest: map_of_SomeD)
    ultimately show ?thesis using that(2) t by blast
  qed
  show "policy_ok p" if "resolveVfCrossLimit m path = Some p"
    using that unfolding resolveVfCrossLimit_def Let_def by (rule ok [OF _ tiers(1)])
  show "policy_ok p" if "resolveAgentIndexCrossLimit m action = Some p"
    using that unfolding resolveAgentIndexCrossLimit_def Let_def by (rule ok [OF _ tiers(2)])
qed

end
