(* ===== verification/UnwindRow.thy ===== *)
theory UnwindRow
  imports RelayCanonical
begin

section \<open>Rows of the unwind store\<close>

text \<open>
  \<open>relayer/src/unwindStore.mjs\<close>, first half: the table \<open>unwind_jobs\<close>, its CHECK constraints and
  triggers, the canonicalisation of a burn proof, and the validation every read goes through.
  A reverse transfer (Base to Stellar) is reserved, its burn is proved and attached, and from
  then on the job follows the CCTP relay record \<open>unwind:<jobId>\<close>.

  Columns the table constrains to be NULL together are one optional value: the receipt
  candidate, the lease, and the 27 columns of the proof. The text columns holding JSON are
  values of \<open>raw\<close>. SHA-256, Keccak-256 and the StrKey tests are third-party functions and are
  arguments, collected in a record. A row of \<open>cctp_relay_work\<close> is a relay record; its text column
  \<open>expectation_json\<close> is the text of the record's expectation.
\<close>

record crypto =
  sha256 :: "string \<Rightarrow> string"
  keccak256 :: "string \<Rightarrow> string"
  isValidEd25519PublicKey :: "string \<Rightarrow> bool"
  isValidContract :: "string \<Rightarrow> bool"

datatype integrity =
    recipient_integrity
  | reservation_binding
  | proof_encoding
  | proof_binding
  | proof_persistence
  | source_digest
  | relay_authority
  | terminal_projection
  | projection_regressed

datatype unwind_error =
    UNWIND_VALIDATION
  | UNWIND_CONFLICT
  | UNWIND_UNAUTHORIZED
  | UNWIND_CAS_CONFLICT
  | Integrity integrity
  | SQLITE_CONSTRAINT
  | SQLITE_ABORT
  | RelayError relay_error
  | AttachFault

datatype unwind_state =
    awaiting_burn
  | relay_pending
  | relay_running
  | unwind_done
  | unwind_blocked
  | unwind_uncertain
  | unwind_expired

definition UNWIND_PUBLIC_REASON_CODES :: "string list" where
  "UNWIND_PUBLIC_REASON_CODES =
     [''attested_evidence_changed'', ''destination_reverted'', ''legacy_record_unrecoverable'',
      ''message_ambiguous'', ''message_mismatch'', ''submission_lease_expired'', ''submission_unknown'',
      ''submitted_checkpoint_failed'']"

definition PROOF_DIGEST_DOMAIN :: string where "PROOF_DIGEST_DOMAIN = ''vf-unwind-proof-v1''"

definition UNWIND_JOB_DOMAIN :: string where "UNWIND_JOB_DOMAIN = ''0x76662d756e77696e642d6a6f622d7631''"

definition LOG_NAMES :: "string list" where
  "LOG_NAMES = [''messageSent'', ''depositForBurn'', ''swept'', ''userOperationEvent'']"

definition PROOF_KEYS :: "string list" where
  "PROOF_KEYS =
     [''version'', ''chainId'', ''userOpHash'', ''jobCommitment'', ''unwindTxHash'', ''entryPointAddress'',
      ''kernelAddress'', ''blockNumber'', ''blockHash'', ''userOpNonce'', ''burned'', ''exited'',
      ''skipped'', ''maxFee'', ''hookData'', ''sourceMessageHex'', ''sourceMessageDigest'',
      ''logIndices'', ''logDigests'']"

subsection \<open>Canonical values\<close>

definition lower_hex :: "nat \<Rightarrow> string \<Rightarrow> bool" where
  "lower_hex n s \<longleftrightarrow> length s = n \<and> list_all is_lhex s"

definition hex0x :: "nat \<Rightarrow> string \<Rightarrow> bool" where
  "hex0x n s \<longleftrightarrow> startsWith0x s \<and> length (drop 2 s) = n \<and> list_all is_hex (drop 2 s)"

definition lower_hex0x :: "nat \<Rightarrow> string \<Rightarrow> bool" where
  "lower_hex0x n s \<longleftrightarrow> startsWith0x s \<and> lower_hex n (drop 2 s)"

definition ZERO_ADDRESS :: string where
  "ZERO_ADDRESS = ''0x0000000000000000000000000000000000000000''"

fun canonicalJobId :: "jsv \<Rightarrow> unwind_error + string" where
  "canonicalJobId (JStr s) = (if lower_hex 32 s then Inr s else Inl UNWIND_VALIDATION)"
| "canonicalJobId _ = Inl UNWIND_VALIDATION"

fun canonicalDigest :: "jsv \<Rightarrow> unwind_error + string" where
  "canonicalDigest (JStr s) = (if lower_hex 64 s then Inr s else Inl UNWIND_VALIDATION)"
| "canonicalDigest _ = Inl UNWIND_VALIDATION"

fun canonicalAddress :: "jsv \<Rightarrow> unwind_error + string" where
  "canonicalAddress (JStr s) =
     (if hex0x 40 s \<and> toLowerCase s \<noteq> ZERO_ADDRESS then Inr (toLowerCase s) else Inl UNWIND_VALIDATION)"
| "canonicalAddress _ = Inl UNWIND_VALIDATION"

fun canonicalRecipient :: "crypto \<Rightarrow> jsv \<Rightarrow> unwind_error + string" where
  "canonicalRecipient c (JStr s) =
     (if isValidEd25519PublicKey c s \<or> isValidContract c s then Inr s else Inl UNWIND_VALIDATION)"
| "canonicalRecipient c _ = Inl UNWIND_VALIDATION"

definition requireTime :: "int \<Rightarrow> unwind_error + int" where
  "requireTime n = (if safe_int n \<and> 0 \<le> n then Inr n else Inl UNWIND_VALIDATION)"

definition exactKeys :: "jsv \<Rightarrow> string list \<Rightarrow> bool" where
  "exactKeys v keys \<longleftrightarrow> js_is_obj v \<and> length (js_keys v) = length keys \<and> list_all (js_has_own v) keys"

fun canonicalHash :: "jsv \<Rightarrow> unwind_error + string" where
  "canonicalHash (JStr s) = (if hex0x 64 s then Inr (toLowerCase s) else Inl UNWIND_VALIDATION)"
| "canonicalHash _ = Inl UNWIND_VALIDATION"

fun canonicalDecimal :: "jsv \<Rightarrow> unwind_error + string" where
  "canonicalDecimal (JStr s) = (if DECIMAL_RE s then Inr s else Inl UNWIND_VALIDATION)"
| "canonicalDecimal _ = Inl UNWIND_VALIDATION"

fun canonicalEvenHex :: "jsv \<Rightarrow> unwind_error + string" where
  "canonicalEvenHex (JStr s) = (if HOOK_DATA_RE s then Inr s else Inl UNWIND_VALIDATION)"
| "canonicalEvenHex _ = Inl UNWIND_VALIDATION"

fun canonicalIndex :: "jsv \<Rightarrow> unwind_error + int" where
  "canonicalIndex (JNum n) = (if safe_int n \<and> 0 \<le> n then Inr n else Inl UNWIND_VALIDATION)"
| "canonicalIndex _ = Inl UNWIND_VALIDATION"

subsection \<open>Burn proofs\<close>

text \<open>The four indices or digests of the logs a proof names.\<close>

record 'a logs =
  messageSent :: 'a
  depositForBurn :: 'a
  swept :: 'a
  userOperationEvent :: 'a

definition read_logs :: "(jsv \<Rightarrow> unwind_error + 'a) \<Rightarrow> jsv \<Rightarrow> unwind_error + 'a logs" where
  "read_logs f v =
     ebind (f (js_get v ''messageSent'')) (\<lambda>a. ebind (f (js_get v ''depositForBurn'')) (\<lambda>b.
       ebind (f (js_get v ''swept'')) (\<lambda>d. ebind (f (js_get v ''userOperationEvent'')) (\<lambda>e.
         Inr \<lparr>messageSent = a, depositForBurn = b, swept = d, userOperationEvent = e\<rparr>))))"

definition logs_js :: "('a \<Rightarrow> jsv) \<Rightarrow> 'a logs \<Rightarrow> jsv" where
  "logs_js f l = JObj
     [(''messageSent'', f (messageSent l)), (''depositForBurn'', f (depositForBurn l)),
      (''swept'', f (swept l)), (''userOperationEvent'', f (userOperationEvent l))]"

record canonical_proof =
  pf_userOpHash :: string
  pf_jobCommitment :: string
  pf_unwindTxHash :: string
  pf_entryPointAddress :: string
  pf_kernelAddress :: string
  pf_blockNumber :: string
  pf_blockHash :: string
  pf_userOpNonce :: string
  pf_burned :: string
  pf_exited :: string
  pf_skipped :: string
  pf_maxFee :: string
  pf_hookData :: string
  pf_sourceMessageHex :: string
  pf_sourceMessageDigest :: string
  pf_logIndices :: "int logs"
  pf_logDigests :: "string logs"

definition proof_js :: "canonical_proof \<Rightarrow> jsv" where
  "proof_js p = JObj
     [(''version'', JNum 1), (''chainId'', JNum 84532), (''userOpHash'', JStr (pf_userOpHash p)),
      (''jobCommitment'', JStr (pf_jobCommitment p)), (''unwindTxHash'', JStr (pf_unwindTxHash p)),
      (''entryPointAddress'', JStr (pf_entryPointAddress p)), (''kernelAddress'', JStr (pf_kernelAddress p)),
      (''blockNumber'', JStr (pf_blockNumber p)), (''blockHash'', JStr (pf_blockHash p)),
      (''userOpNonce'', JStr (pf_userOpNonce p)), (''burned'', JStr (pf_burned p)),
      (''exited'', JStr (pf_exited p)), (''skipped'', JStr (pf_skipped p)), (''maxFee'', JStr (pf_maxFee p)),
      (''hookData'', JStr (pf_hookData p)), (''sourceMessageHex'', JStr (pf_sourceMessageHex p)),
      (''sourceMessageDigest'', JStr (pf_sourceMessageDigest p)),
      (''logIndices'', logs_js JNum (pf_logIndices p)), (''logDigests'', logs_js JStr (pf_logDigests p))]"

text \<open>The fields of \<open>canonicalProof\<close>, each through its canonicalisation.\<close>

definition proofFields :: "jsv \<Rightarrow> unwind_error + canonical_proof" where
  "proofFields v =
     ebind (read_logs canonicalIndex (js_get v ''logIndices'')) (\<lambda>ix.
     ebind (read_logs canonicalDigest (js_get v ''logDigests'')) (\<lambda>dg.
     ebind (canonicalHash (js_get v ''userOpHash'')) (\<lambda>op.
     ebind (canonicalHash (js_get v ''jobCommitment'')) (\<lambda>jc.
     ebind (canonicalHash (js_get v ''unwindTxHash'')) (\<lambda>tx.
     ebind (canonicalAddress (js_get v ''entryPointAddress'')) (\<lambda>ep.
     ebind (canonicalAddress (js_get v ''kernelAddress'')) (\<lambda>ka.
     ebind (canonicalDecimal (js_get v ''blockNumber'')) (\<lambda>bn.
     ebind (canonicalHash (js_get v ''blockHash'')) (\<lambda>bh.
     ebind (canonicalDecimal (js_get v ''userOpNonce'')) (\<lambda>nonce.
     ebind (canonicalDecimal (js_get v ''burned'')) (\<lambda>burned.
     ebind (canonicalDecimal (js_get v ''exited'')) (\<lambda>exited.
     ebind (canonicalDecimal (js_get v ''skipped'')) (\<lambda>skipped.
     ebind (canonicalDecimal (js_get v ''maxFee'')) (\<lambda>maxFee.
     ebind (canonicalEvenHex (js_get v ''hookData'')) (\<lambda>hook.
     ebind (canonicalEvenHex (js_get v ''sourceMessageHex'')) (\<lambda>msg.
     ebind (canonicalDigest (js_get v ''sourceMessageDigest'')) (\<lambda>md.
       Inr \<lparr>pf_userOpHash = op, pf_jobCommitment = jc, pf_unwindTxHash = tx, pf_entryPointAddress = ep,
            pf_kernelAddress = ka, pf_blockNumber = bn, pf_blockHash = bh, pf_userOpNonce = nonce,
            pf_burned = burned, pf_exited = exited, pf_skipped = skipped, pf_maxFee = maxFee,
            pf_hookData = hook, pf_sourceMessageHex = msg, pf_sourceMessageDigest = md,
            pf_logIndices = ix, pf_logDigests = dg\<rparr>)))))))))))))))))"

definition jobCommitment :: "crypto \<Rightarrow> string \<Rightarrow> string" where
  "jobCommitment c jobId = keccak256 c (UNWIND_JOB_DOMAIN @ jobId)"

definition canonicalProof ::
  "crypto \<Rightarrow> jsv \<Rightarrow> expectation \<Rightarrow> string \<Rightarrow> string \<Rightarrow> unwind_error + canonical_proof" where
  "canonicalProof c v e jobId kernelAddress =
     (if \<not> exactKeys v PROOF_KEYS \<or> js_get v ''version'' \<noteq> JNum 1 \<or> js_get v ''chainId'' \<noteq> JNum 84532
      then Inl UNWIND_VALIDATION
      else if \<not> exactKeys (js_get v ''logIndices'') LOG_NAMES \<or> \<not> exactKeys (js_get v ''logDigests'') LOG_NAMES
      then Inl UNWIND_VALIDATION
      else ebind (proofFields v) (\<lambda>p. ebind (canonicalJobId (JStr jobId)) (\<lambda>j.
        if pf_kernelAddress p \<noteq> kernelAddress \<or> pf_jobCommitment p \<noteq> jobCommitment c j
          \<or> pf_burned p = ''0'' \<or> pf_burned p \<noteq> e_amount e \<or> pf_maxFee p \<noteq> e_maxFee e
          \<or> pf_hookData p \<noteq> e_hookData e
        then Inl UNWIND_CONFLICT else Inr p)))"

definition proofDigest :: "crypto \<Rightarrow> canonical_proof \<Rightarrow> string" where
  "proofDigest c p = sha256 c (PROOF_DIGEST_DOMAIN @ [CHR 0x00] @ json_text (proof_js p))"

subsection \<open>The table\<close>

record proof_columns =
  p_user_op_hash :: string
  p_unwind_tx_hash :: string
  p_chain_id :: int
  p_entry_point :: string
  p_sweeper_address :: string
  p_block_number :: string
  p_block_hash :: string
  p_log_indices :: "int logs"
  p_log_digests :: "string logs"
  p_burned :: string
  p_exited :: string
  p_skipped :: string
  p_max_fee :: string
  p_hook_data :: string
  p_source_message_hex :: string
  p_source_message_digest :: string
  p_proof_json :: raw
  p_proof_digest :: string
  p_expectation_json :: raw
  p_expectation_digest :: string
  p_relay_exec_id :: string

record receipt_candidate =
  candidate_user_op_hash :: string
  candidate_unwind_tx_hash :: string
  evidence_retry_until :: int

record unwind_row =
  job_id :: string
  capability_hash :: string
  kernel_address :: string
  recipient_hint :: string
  request_digest :: string
  reserve_json :: raw
  expires_at :: int
  capability_expires_at :: int
  ustate :: unwind_state
  ucandidate :: "receipt_candidate option"
  uproof :: "proof_columns option"
  mint_tx_hash :: "string option"
  reason_code :: "string option"
  uattempts :: int
  ulease :: "(string \<times> int) option"
  created_at :: int
  updated_at :: int

definition is_strkey_char :: "char \<Rightarrow> bool" where
  "is_strkey_char ch \<longleftrightarrow> ch \<in> set ''ABCDEFGHIJKLMNOPQRSTUVWXYZ234567''"

definition address_column :: "string \<Rightarrow> bool" where
  "address_column s \<longleftrightarrow> lower_hex0x 40 s \<and> s \<noteq> ZERO_ADDRESS"

definition execIdOf :: "string \<Rightarrow> string" where "execIdOf jobId = ''unwind:'' @ jobId"

text \<open>The CHECKs on the columns of the proof; \<open>DECIMAL_RE\<close> is the digits test of the schema.\<close>

definition proof_check :: "string \<Rightarrow> proof_columns \<Rightarrow> bool" where
  "proof_check jobId p \<longleftrightarrow>
     lower_hex0x 64 (p_user_op_hash p) \<and> lower_hex0x 64 (p_unwind_tx_hash p) \<and> p_chain_id p = 84532
   \<and> address_column (p_entry_point p) \<and> address_column (p_sweeper_address p)
   \<and> DECIMAL_RE (p_block_number p) \<and> lower_hex0x 64 (p_block_hash p)
   \<and> 0 \<le> userOperationEvent (p_log_indices p) \<and> 0 \<le> swept (p_log_indices p)
   \<and> 0 \<le> depositForBurn (p_log_indices p) \<and> 0 \<le> messageSent (p_log_indices p)
   \<and> lower_hex 64 (userOperationEvent (p_log_digests p)) \<and> lower_hex 64 (swept (p_log_digests p))
   \<and> lower_hex 64 (depositForBurn (p_log_digests p)) \<and> lower_hex 64 (messageSent (p_log_digests p))
   \<and> DECIMAL_RE (p_burned p) \<and> DECIMAL_RE (p_exited p) \<and> DECIMAL_RE (p_skipped p) \<and> DECIMAL_RE (p_max_fee p)
   \<and> HOOK_DATA_RE (p_hook_data p)
   \<and> HOOK_DATA_RE (p_source_message_hex p) \<and> 2 < length (p_source_message_hex p)
   \<and> lower_hex 64 (p_source_message_digest p) \<and> lower_hex 64 (p_proof_digest p)
   \<and> lower_hex 64 (p_expectation_digest p) \<and> p_relay_exec_id p = execIdOf jobId"

definition candidate_check :: "unwind_row \<Rightarrow> receipt_candidate \<Rightarrow> bool" where
  "candidate_check u k \<longleftrightarrow>
     lower_hex0x 64 (candidate_user_op_hash k) \<and> lower_hex0x 64 (candidate_unwind_tx_hash k)
   \<and> expires_at u < evidence_retry_until k \<and> evidence_retry_until k \<le> capability_expires_at u
   \<and> ustate u \<noteq> unwind_expired"

definition reserve_check :: "unwind_row \<Rightarrow> bool" where
  "reserve_check u \<longleftrightarrow>
     lower_hex 32 (job_id u) \<and> lower_hex 64 (capability_hash u) \<and> address_column (kernel_address u)
   \<and> length (recipient_hint u) = 56 \<and> hd (recipient_hint u) \<in> {CHR ''G'', CHR ''C''}
   \<and> list_all is_strkey_char (recipient_hint u) \<and> lower_hex 64 (request_digest u)
   \<and> 0 \<le> expires_at u \<and> expires_at u < capability_expires_at u
   \<and> 0 \<le> created_at u"

text \<open>
  The CHECKs between columns of different groups. A CHECK whose value is NULL is met, so the one
  that compares the candidate with the proof says nothing of a row without a candidate.
\<close>

definition state_check :: "unwind_row \<Rightarrow> bool" where
  "state_check u \<longleftrightarrow>
     (case ulease u of None \<Rightarrow> True
      | Some (tok, t) \<Rightarrow> tok \<noteq> [] \<and> 0 \<le> t \<and> ustate u = awaiting_burn \<and> uproof u = None)
   \<and> (uproof u = None \<longrightarrow> mint_tx_hash u = None)
   \<and> (case uproof u of None \<Rightarrow> True
      | Some p \<Rightarrow> (case ucandidate u of None \<Rightarrow> True
          | Some k \<Rightarrow> candidate_user_op_hash k = p_user_op_hash p
              \<and> candidate_unwind_tx_hash k = p_unwind_tx_hash p))
   \<and> (ustate u \<in> {relay_pending, relay_running, unwind_done} \<longrightarrow> uproof u \<noteq> None)
   \<and> (ustate u \<in> {awaiting_burn, unwind_expired} \<longrightarrow> uproof u = None)
   \<and> (ustate u = unwind_expired \<longrightarrow> ucandidate u = None)
   \<and> (ustate u \<in> {unwind_blocked, unwind_uncertain}) = (reason_code u \<noteq> None)
   \<and> (ustate u = unwind_done \<longrightarrow> mint_tx_hash u \<noteq> None)"

definition check_ok :: "unwind_row \<Rightarrow> bool" where
  "check_ok u \<longleftrightarrow>
     reserve_check u
   \<and> (case ucandidate u of None \<Rightarrow> True | Some k \<Rightarrow> candidate_check u k)
   \<and> (case uproof u of None \<Rightarrow> True | Some p \<Rightarrow> proof_check (job_id u) p)
   \<and> (case mint_tx_hash u of None \<Rightarrow> True | Some h \<Rightarrow> lower_hex 64 h)
   \<and> (case reason_code u of None \<Rightarrow> True | Some r \<Rightarrow> r \<in> set UNWIND_PUBLIC_REASON_CODES)
   \<and> 0 \<le> uattempts u \<and> created_at u \<le> updated_at u
   \<and> state_check u"

end
