(* ===== verification/UnwindStore.thy ===== *)
theory UnwindStore
  imports UnwindRow
begin

section \<open>The unwind store\<close>

text \<open>
  \<open>relayer/src/unwindStore.mjs\<close>, second half. The database is the table \<open>unwind_jobs\<close>, keyed by
  job id, and the table \<open>cctp_relay_work\<close>, keyed by execution id. Every operation but
  \<open>renewEvidence\<close> runs inside \<open>BEGIN IMMEDIATE ... COMMIT\<close> and rolls back when anything throws:
  an operation is a function from the database to an error, or to the new database and a result.
  \<open>renewEvidence\<close> is one statement. An \<open>UPDATE\<close> names the column groups it assigns, because the
  triggers fire on the columns named and not on the values that change; it then has to pass the
  CHECKs and the unique index on \<open>user_op_hash\<close>. The clock readings and lease tokens are
  arguments.
\<close>

record unwind_db =
  jobs :: "(string \<times> unwind_row) list"
  relay :: rows

subsection \<open>Projections\<close>

record public_reserve =
  pr_jobId :: string
  pr_status :: unwind_state
  pr_createdAt :: int
  pr_updatedAt :: int
  pr_expiresAt :: int
  pr_capabilityExpiresAt :: int

definition publicReserve :: "unwind_row \<Rightarrow> public_reserve" where
  "publicReserve u =
     \<lparr>pr_jobId = job_id u, pr_status = ustate u, pr_createdAt = created_at u, pr_updatedAt = updated_at u,
      pr_expiresAt = expires_at u, pr_capabilityExpiresAt = capability_expires_at u\<rparr>"

record public_status =
  ps_jobId :: string
  ps_status :: unwind_state
  ps_unwindTxHash :: "string option"
  ps_mintTxHash :: "string option"
  ps_reasonCode :: "string option"

definition publicStatus :: "unwind_row \<Rightarrow> public_status" where
  "publicStatus u =
     \<lparr>ps_jobId = job_id u, ps_status = ustate u,
      ps_unwindTxHash =
        (if ustate u \<in> {relay_pending, relay_running, unwind_done, unwind_blocked, unwind_uncertain}
         then map_option p_unwind_tx_hash (uproof u) else None),
      ps_mintTxHash = (if ustate u \<in> {relay_running, unwind_done, unwind_uncertain} then mint_tx_hash u else None),
      ps_reasonCode = (if ustate u \<in> {unwind_blocked, unwind_uncertain} then reason_code u else None)\<rparr>"

text \<open>State, mint hash and reason the job takes over from its relay record.\<close>

fun relayProjection :: "relay_record \<Rightarrow> unwind_state \<times> string option \<times> string option" where
  "relayProjection r =
     (case rstate r of
        attestation_pending \<Rightarrow> (relay_pending, None, None)
      | attested \<Rightarrow> (relay_running, None, None)
      | mint_submitting \<Rightarrow> (relay_running, None, None)
      | mint_submitted \<Rightarrow> (relay_running, mintTxHash r, None)
      | minted \<Rightarrow> (unwind_done, mintTxHash r, None)
      | blocked \<Rightarrow> (unwind_blocked, mintTxHash r, reasonCode r)
      | uncertain \<Rightarrow> (unwind_uncertain, mintTxHash r, reasonCode r))"

declare relayProjection.simps [simp del]

subsection \<open>Validation of a row\<close>

definition relay_json :: "relay_record \<Rightarrow> raw" where
  "relay_json r = Stringified (case r_expectation r of None \<Rightarrow> JNull | Some e \<Rightarrow> expectation_js e)"

definition validatedCctpRow :: "crypto \<Rightarrow> relay_record \<Rightarrow> bool" where
  "validatedCctpRow c r = isCurrentRelayRecord (sha256 c) (record_js r)"

definition reserveValue :: "string \<Rightarrow> string \<Rightarrow> string \<Rightarrow> jsv" where
  "reserveValue jobId kern recipient =
     JObj [(''jobId'', JStr jobId), (''kernelAddress'', JStr kern), (''recipientHint'', JStr recipient)]"

definition reserveDigest :: "crypto \<Rightarrow> jsv \<Rightarrow> string" where
  "reserveDigest c v = sha256 c (''vf-unwind-reserve-v1'' @ [CHR 0x00] @ json_text v)"

definition sweeperAddress :: "expectation \<Rightarrow> string" where
  "sweeperAddress e = ''0x'' @ drop (length (e_messageSender e) - 40) (e_messageSender e)"

text \<open>The proof columns of a canonical proof and expectation.\<close>

definition proofColumns :: "crypto \<Rightarrow> expectation \<Rightarrow> canonical_proof \<Rightarrow> string \<Rightarrow> proof_columns" where
  "proofColumns c e p eid =
     \<lparr>p_user_op_hash = pf_userOpHash p, p_unwind_tx_hash = pf_unwindTxHash p, p_chain_id = 84532,
      p_entry_point = pf_entryPointAddress p, p_sweeper_address = sweeperAddress e,
      p_block_number = pf_blockNumber p, p_block_hash = pf_blockHash p,
      p_log_indices = pf_logIndices p, p_log_digests = pf_logDigests p,
      p_burned = pf_burned p, p_exited = pf_exited p, p_skipped = pf_skipped p, p_max_fee = pf_maxFee p,
      p_hook_data = pf_hookData p, p_source_message_hex = pf_sourceMessageHex p,
      p_source_message_digest = pf_sourceMessageDigest p,
      p_proof_json = Stringified (proof_js p), p_proof_digest = proofDigest c p,
      p_expectation_json = Stringified (expectation_js e),
      p_expectation_digest = expectationDigest (sha256 c) e, p_relay_exec_id = eid\<rparr>"

definition is_terminal :: "unwind_state \<Rightarrow> bool" where
  "is_terminal s \<longleftrightarrow> s \<in> {unwind_done, unwind_blocked, unwind_uncertain}"

text \<open>The relay part of the validation: the bound authority and the projected state.\<close>

definition validateRelay :: "crypto \<Rightarrow> unwind_row \<Rightarrow> proof_columns \<Rightarrow> relay_record option \<Rightarrow> unwind_error + unit" where
  "validateRelay c u p ro =
     (case ro of
        None \<Rightarrow> Inl (Integrity relay_authority)
      | Some r \<Rightarrow>
          if \<not> validatedCctpRow c r \<or> sourceDomain r \<noteq> Some 6 \<or> burnTxHash r \<noteq> Some (p_unwind_tx_hash p)
            \<or> r_expectationDigest r \<noteq> Some (p_expectation_digest p) \<or> relay_json r \<noteq> p_expectation_json p
          then Inl (Integrity relay_authority)
          else if is_terminal (ustate u) \<and> relayProjection r \<noteq> (ustate u, mint_tx_hash u, reason_code u)
          then Inl (Integrity terminal_projection)
          else if ustate u = relay_running \<and> fst (relayProjection r) = relay_pending
          then Inl (Integrity projection_regressed)
          else Inr ())"

text \<open>The stored proof: parsed, canonicalised and compared column by column.\<close>

definition validateProof :: "crypto \<Rightarrow> unwind_row \<Rightarrow> proof_columns \<Rightarrow> unwind_error + unit" where
  "validateProof c u p =
     (case (json_parse (p_expectation_json p), json_parse (p_proof_json p)) of
        (Some ev, Some pv) \<Rightarrow>
          (case canonicalizeExpectation ev of
             Inl _ \<Rightarrow> Inl (Integrity proof_encoding)
           | Inr e \<Rightarrow>
               (case canonicalProof c pv e (job_id u) (kernel_address u) of
                  Inl _ \<Rightarrow> Inl (Integrity proof_binding)
                | Inr k \<Rightarrow>
                    if p \<noteq> proofColumns c e k (p_relay_exec_id p) then Inl (Integrity proof_persistence)
                    else if pf_sourceMessageDigest k \<noteq> sha256Bytes (sha256 c) (drop 2 (pf_sourceMessageHex k))
                    then Inl (Integrity source_digest)
                    else Inr ()))
      | _ \<Rightarrow> Inl (Integrity proof_encoding))"

definition validateUnwindRow :: "crypto \<Rightarrow> unwind_row \<Rightarrow> (string \<Rightarrow> relay_record option) \<Rightarrow> unwind_error + unit" where
  "validateUnwindRow c u relays =
     (let v = reserveValue (job_id u) (kernel_address u) (recipient_hint u) in
      if \<not> is_ok (canonicalRecipient c (JStr (recipient_hint u))) then Inl (Integrity recipient_integrity)
      else if reserve_json u \<noteq> Stringified v \<or> request_digest u \<noteq> reserveDigest c v
      then Inl (Integrity reservation_binding)
      else case uproof u of
        None \<Rightarrow> Inr ()
      | Some p \<Rightarrow> ebind (validateProof c u p) (\<lambda>_. validateRelay c u p (relays (p_relay_exec_id p))))"

subsection \<open>Statements\<close>

text \<open>\<open>select().get(jobId)\<close>: the row, validated.\<close>

definition select_job :: "crypto \<Rightarrow> unwind_db \<Rightarrow> string \<Rightarrow> unwind_error + unwind_row option" where
  "select_job c db jobId =
     (case map_of (jobs db) jobId of
        None \<Rightarrow> Inr None
      | Some u \<Rightarrow> ebind (validateUnwindRow c u (map_of (relay db))) (\<lambda>_. Inr (Some u)))"

datatype column_group = ReserveColumns | CandidateColumns | ProofColumns | OtherColumns

text \<open>The immutability triggers.\<close>

definition trigger_aborts :: "column_group list \<Rightarrow> unwind_row \<Rightarrow> bool" where
  "trigger_aborts gs u \<longleftrightarrow>
     ReserveColumns \<in> set gs \<or> (CandidateColumns \<in> set gs \<and> ucandidate u \<noteq> None)
   \<or> (ProofColumns \<in> set gs \<and> uproof u \<noteq> None)"

text \<open>The unique index on \<open>user_op_hash\<close>; NULLs never collide.\<close>

definition user_op_taken :: "unwind_db \<Rightarrow> string \<Rightarrow> string \<Rightarrow> bool" where
  "user_op_taken db jobId h \<longleftrightarrow>
     list_ex (\<lambda>(k, u). k \<noteq> jobId \<and> (case uproof u of None \<Rightarrow> False | Some p \<Rightarrow> p_user_op_hash p = h)) (jobs db)"

definition unique_ok :: "unwind_db \<Rightarrow> unwind_row \<Rightarrow> bool" where
  "unique_ok db u \<longleftrightarrow>
     (case uproof u of None \<Rightarrow> True | Some p \<Rightarrow> \<not> user_op_taken db (job_id u) (p_user_op_hash p))"

text \<open>
  \<open>UPDATE unwind_jobs SET ... WHERE job_id=? AND ...\<close>: the groups assigned, the rest of the
  condition, the assignment. The number is \<open>changes\<close>.
\<close>

definition sql_update ::
  "column_group list \<Rightarrow> unwind_db \<Rightarrow> string \<Rightarrow> (unwind_row \<Rightarrow> bool) \<Rightarrow> (unwind_row \<Rightarrow> unwind_row)
    \<Rightarrow> unwind_error + (unwind_db \<times> nat)" where
  "sql_update gs db jobId wh f =
     (case map_of (jobs db) jobId of
        None \<Rightarrow> Inr (db, 0)
      | Some u \<Rightarrow>
          if \<not> wh u then Inr (db, 0)
          else if trigger_aborts gs u then Inl SQLITE_ABORT
          else if \<not> check_ok (f u) \<or> \<not> unique_ok db (f u) then Inl SQLITE_CONSTRAINT
          else Inr (db\<lparr>jobs := AList.update jobId (f u) (jobs db)\<rparr>, 1))"

definition sql_insert :: "unwind_db \<Rightarrow> unwind_row \<Rightarrow> unwind_error + unwind_db" where
  "sql_insert db u =
     (if map_of (jobs db) (job_id u) \<noteq> None \<or> \<not> check_ok u \<or> \<not> unique_ok db u then Inl SQLITE_CONSTRAINT
      else Inr (db\<lparr>jobs := AList.update (job_id u) u (jobs db)\<rparr>))"

text \<open>The status read back after a write; the row is there because it was just written.\<close>

definition read_status :: "crypto \<Rightarrow> unwind_db \<Rightarrow> string \<Rightarrow> unwind_error + (unwind_db \<times> public_status option)" where
  "read_status c db jobId = ebind (select_job c db jobId) (\<lambda>u. Inr (db, map_option publicStatus u))"

subsection \<open>Reservation\<close>

definition open_reservation :: "unwind_row \<Rightarrow> int \<Rightarrow> bool" where
  "open_reservation u now \<longleftrightarrow>
     ustate u = awaiting_burn \<and> uproof u = None \<and> now < expires_at u \<and> ucandidate u = None \<and> ulease u = None"

definition newReservation ::
  "string \<Rightarrow> string \<Rightarrow> string \<Rightarrow> string \<Rightarrow> string \<Rightarrow> int \<Rightarrow> int \<Rightarrow> int \<Rightarrow> unwind_row" where
  "newReservation jobId cap kern recipient digest expiresAt capExpiresAt now =
     \<lparr>job_id = jobId, capability_hash = cap, kernel_address = kern, recipient_hint = recipient,
      request_digest = digest, reserve_json = Stringified (reserveValue jobId kern recipient),
      expires_at = expiresAt, capability_expires_at = capExpiresAt, ustate = awaiting_burn,
      ucandidate = None, uproof = None, mint_tx_hash = None, reason_code = None, uattempts = 0,
      ulease = None, created_at = now, updated_at = now\<rparr>"

definition reserveTransaction ::
  "crypto \<Rightarrow> unwind_db \<Rightarrow> unwind_row \<Rightarrow> int \<Rightarrow> unwind_error + (unwind_db \<times> public_reserve option)" where
  "reserveTransaction c db new now =
     ebind (select_job c db (job_id new)) (\<lambda>existing.
       case existing of
         Some u \<Rightarrow>
           if capability_hash u \<noteq> capability_hash new then Inl UNWIND_UNAUTHORIZED
           else if kernel_address u \<noteq> kernel_address new \<or> recipient_hint u \<noteq> recipient_hint new
             \<or> request_digest u \<noteq> request_digest new \<or> reserve_json u \<noteq> reserve_json new
           then Inl UNWIND_CONFLICT
           else if \<not> open_reservation u now then Inl UNWIND_CONFLICT
           else Inr (db, Some (publicReserve u))
       | None \<Rightarrow>
           ebind (sql_insert db new) (\<lambda>db'.
             ebind (select_job c db' (job_id new)) (\<lambda>row. Inr (db', map_option publicReserve row))))"

definition unwind_reserve ::
  "crypto \<Rightarrow> unwind_db \<Rightarrow> jsv \<Rightarrow> jsv \<Rightarrow> jsv \<Rightarrow> jsv \<Rightarrow> jsv \<Rightarrow> int \<Rightarrow> int \<Rightarrow> int
    \<Rightarrow> unwind_error + (unwind_db \<times> public_reserve option)" where
  "unwind_reserve c db jobId capabilityHash kernelAddress recipientHint requestDigest expiresAt capabilityExpiresAt now =
     ebind (canonicalJobId jobId) (\<lambda>j. ebind (canonicalDigest capabilityHash) (\<lambda>cap.
     ebind (canonicalAddress kernelAddress) (\<lambda>kern. ebind (canonicalRecipient c recipientHint) (\<lambda>rcp.
     ebind (canonicalDigest requestDigest) (\<lambda>digest. ebind (requireTime expiresAt) (\<lambda>ex.
     ebind (requireTime capabilityExpiresAt) (\<lambda>capEx. ebind (requireTime now) (\<lambda>at.
       if ex \<le> at \<or> capEx \<le> ex then Inl UNWIND_VALIDATION
       else if digest \<noteq> reserveDigest c (reserveValue j kern rcp) then Inl UNWIND_VALIDATION
       else reserveTransaction c db (newReservation j cap kern rcp digest ex capEx at) at))))))))"

subsection \<open>Reading\<close>

record authority =
  au_jobId :: string
  au_kernelAddress :: string
  au_recipientHint :: string
  au_expiresAt :: int
  au_capabilityExpiresAt :: int
  au_state :: unwind_state
  au_capabilityHash :: string
  au_userOpHash :: "string option"
  au_unwindTxHash :: "string option"
  au_relayExecId :: "string option"
  au_candidate :: "receipt_candidate option"

definition authorityFromRow :: "unwind_row \<Rightarrow> authority" where
  "authorityFromRow u =
     \<lparr>au_jobId = job_id u, au_kernelAddress = kernel_address u, au_recipientHint = recipient_hint u,
      au_expiresAt = expires_at u, au_capabilityExpiresAt = capability_expires_at u, au_state = ustate u,
      au_capabilityHash = capability_hash u, au_userOpHash = map_option p_user_op_hash (uproof u),
      au_unwindTxHash = map_option p_unwind_tx_hash (uproof u),
      au_relayExecId = map_option p_relay_exec_id (uproof u), au_candidate = ucandidate u\<rparr>"

definition getAuthority :: "crypto \<Rightarrow> unwind_db \<Rightarrow> jsv \<Rightarrow> unwind_error + authority option" where
  "getAuthority c db jobId =
     ebind (canonicalJobId jobId) (\<lambda>j. ebind (select_job c db j) (\<lambda>u. Inr (map_option authorityFromRow u)))"

definition unwind_status :: "crypto \<Rightarrow> unwind_db \<Rightarrow> jsv \<Rightarrow> unwind_error + public_status option" where
  "unwind_status c db jobId =
     ebind (canonicalJobId jobId) (\<lambda>j. ebind (select_job c db j) (\<lambda>u. Inr (map_option publicStatus u)))"

subsection \<open>Attaching the proved burn\<close>

text \<open>The candidate the proof names is bound first, or has to be the one already bound.\<close>

definition bind_candidate ::
  "string \<Rightarrow> string \<Rightarrow> int \<Rightarrow> unwind_row \<Rightarrow> unwind_row" where
  "bind_candidate userOp tx retryUntil u =
     u\<lparr>ucandidate := Some \<lparr>candidate_user_op_hash = userOp, candidate_unwind_tx_hash = tx,
                          evidence_retry_until = retryUntil\<rparr>\<rparr>"

definition attachCandidate ::
  "crypto \<Rightarrow> unwind_db \<Rightarrow> unwind_row \<Rightarrow> canonical_proof \<Rightarrow> jsv \<Rightarrow> int
    \<Rightarrow> unwind_error + (unwind_db \<times> unwind_row)" where
  "attachCandidate c db u p leaseTok now =
     (case ucandidate u of
        None \<Rightarrow>
          if ulease u \<noteq> None \<or> leaseTok \<noteq> JNull \<or> expires_at u \<le> now then Inl UNWIND_CONFLICT
          else
            let retryUntil = min (capability_expires_at u) (max (expires_at u + 1) (now + 1)) in
            ebind (sql_update [CandidateColumns, OtherColumns] db (job_id u)
                (\<lambda>w. ustate w = awaiting_burn \<and> uproof w = None \<and> ucandidate w = None \<and> now < expires_at w)
                (\<lambda>w. (bind_candidate (pf_userOpHash p) (pf_unwindTxHash p) retryUntil w)\<lparr>updated_at := now\<rparr>)) (\<lambda>(db', n).
              if n \<noteq> 1 then Inl UNWIND_CONFLICT
              else ebind (select_job c db' (job_id u)) (\<lambda>w.
                case w of None \<Rightarrow> Inl UNWIND_CONFLICT | Some w' \<Rightarrow> Inr (db', w')))
      | Some k \<Rightarrow>
          if candidate_user_op_hash k \<noteq> pf_userOpHash p \<or> candidate_unwind_tx_hash k \<noteq> pf_unwindTxHash p
          then Inl UNWIND_CONFLICT else Inr (db, u))"

definition attachLease :: "unwind_row \<Rightarrow> jsv \<Rightarrow> int \<Rightarrow> unwind_error + unit" where
  "attachLease u leaseTok now =
     (if ulease u \<noteq> None \<or> leaseTok \<noteq> JNull then
        (case (ulease u, leaseTok) of
           (Some (tok, t), JStr s) \<Rightarrow> if tok = s \<and> now < t then Inr () else Inl UNWIND_CAS_CONFLICT
         | _ \<Rightarrow> Inl UNWIND_CAS_CONFLICT)
      else if expires_at u \<le> now then Inl UNWIND_CONFLICT else Inr ())"

text \<open>
  The relay work of the burn. \<open>cctpRecord\<close> refuses a row that is not canonical with a conflict,
  in the lookup of the execution as in the search for a rival identity.
\<close>

definition relayRival :: "crypto \<Rightarrow> rows \<Rightarrow> string \<Rightarrow> int \<Rightarrow> string \<Rightarrow> string \<Rightarrow> bool" where
  "relayRival c rs eid d burn digest \<longleftrightarrow>
     list_ex (\<lambda>(k, r). sourceDomain r = Some d \<and> burnTxHash r = Some burn \<and> k \<noteq> eid
       \<and> (\<not> validatedCctpRow c r \<or> relayIdentityConflicts r d burn digest)) rs"

definition attachRelay ::
  "crypto \<Rightarrow> rows \<Rightarrow> string \<Rightarrow> string \<Rightarrow> expectation \<Rightarrow> int \<Rightarrow> unwind_error + rows" where
  "attachRelay c rs eid burn e now =
     (if (case map_of rs eid of None \<Rightarrow> False | Some r \<Rightarrow> \<not> validatedCctpRow c r) then Inl UNWIND_CONFLICT
      else case relayEnqueueDecision (sha256 c) (map_of rs eid) (relayRival c rs eid) eid (JNum 6) (JStr burn)
                  (expectation_js e) now of
             Inl err \<Rightarrow> if err = RELAY_ENQUEUE_CONFLICT then Inl UNWIND_CONFLICT else Inl (RelayError err)
           | Inr (r, changed) \<Rightarrow> if \<not> changed then Inl UNWIND_CONFLICT else Inr (AList.update eid r rs))"

definition attach_row :: "proof_columns \<Rightarrow> int \<Rightarrow> unwind_row \<Rightarrow> unwind_row" where
  "attach_row p now u = u\<lparr>ustate := relay_pending, uproof := Some p, ulease := None, updated_at := now\<rparr>"

definition same_proof :: "proof_columns \<Rightarrow> proof_columns \<Rightarrow> bool" where
  "same_proof p q \<longleftrightarrow>
     p_user_op_hash p = p_user_op_hash q \<and> p_unwind_tx_hash p = p_unwind_tx_hash q
   \<and> p_proof_digest p = p_proof_digest q \<and> p_expectation_digest p = p_expectation_digest q
   \<and> p_relay_exec_id p = p_relay_exec_id q"

definition names_candidate :: "canonical_proof \<Rightarrow> unwind_row \<Rightarrow> bool" where
  "names_candidate p u \<longleftrightarrow>
     (case ucandidate u of None \<Rightarrow> False
      | Some k \<Rightarrow> candidate_user_op_hash k = pf_userOpHash p \<and> candidate_unwind_tx_hash k = pf_unwindTxHash p)"

definition attachTransaction ::
  "crypto \<Rightarrow> (string \<Rightarrow> bool) \<Rightarrow> unwind_db \<Rightarrow> string \<Rightarrow> jsv \<Rightarrow> expectation \<Rightarrow> jsv \<Rightarrow> int
    \<Rightarrow> unwind_error + (unwind_db \<times> bool \<times> public_status option)" where
  "attachTransaction c fault db j pv e leaseTok now =
     ebind (select_job c db j) (\<lambda>row. case row of None \<Rightarrow> Inl UNWIND_UNAUTHORIZED | Some u \<Rightarrow>
     ebind (canonicalProof c pv e (job_id u) (kernel_address u)) (\<lambda>p.
       let cols = proofColumns c e p (execIdOf j) in
       case uproof u of
         Some q \<Rightarrow> if same_proof q cols then Inr (db, True, Some (publicStatus u)) else Inl UNWIND_CONFLICT
       | None \<Rightarrow>
           if ustate u \<noteq> awaiting_burn then Inl UNWIND_CONFLICT
           else ebind (attachCandidate c db u p leaseTok now) (\<lambda>(db1, u1).
             ebind (attachLease u1 leaseTok now) (\<lambda>_.
             if user_op_taken db1 j (pf_userOpHash p) then Inl UNWIND_CONFLICT
             else ebind (attachRelay c (relay db1) (execIdOf j) (pf_unwindTxHash p) e now) (\<lambda>rs.
             if fault ''relay_insert'' then Inl AttachFault
             else ebind (sql_update [ProofColumns, OtherColumns] (db1\<lparr>relay := rs\<rparr>) j
                 (\<lambda>w. ustate w = awaiting_burn \<and> uproof w = None \<and> names_candidate p w) (attach_row cols now)) (\<lambda>(db2, n).
             if n \<noteq> 1 then Inl UNWIND_CAS_CONFLICT
             else if fault ''unwind_update'' then Inl AttachFault
             else ebind (read_status c db2 j) (\<lambda>(db3, st). Inr (db3, False, st))))))))"

fun null_default :: "jsv \<Rightarrow> jsv" where
  "null_default JUndef = JNull"
| "null_default v = v"

definition attachAndEnqueue ::
  "crypto \<Rightarrow> (string \<Rightarrow> bool) \<Rightarrow> unwind_db \<Rightarrow> jsv \<Rightarrow> jsv \<Rightarrow> jsv \<Rightarrow> jsv \<Rightarrow> jsv \<Rightarrow> int
    \<Rightarrow> unwind_error + (unwind_db \<times> bool \<times> public_status option)" where
  "attachAndEnqueue c fault db jobId pv ev relayExecId leaseTok now =
     ebind (canonicalJobId jobId) (\<lambda>j. ebind (requireTime now) (\<lambda>at.
       if relayExecId \<noteq> JStr (execIdOf j) then Inl UNWIND_VALIDATION
       else case canonicalizeExpectation ev of
         Inl err \<Rightarrow> Inl (RelayError err)
       | Inr e \<Rightarrow>
           if e_direction e \<noteq> JStr ''base-to-stellar'' \<or> e_sourceDomain e \<noteq> JNum 6 then Inl UNWIND_VALIDATION
           else attachTransaction c fault db j pv e (null_default leaseTok) at))"

subsection \<open>The evidence lease\<close>

record evidence_claim =
  ec_jobId :: string
  ec_kernelAddress :: string
  ec_recipientHint :: string
  ec_lease :: "(string \<times> int) option"

definition evidenceClaim :: "unwind_row \<Rightarrow> evidence_claim" where
  "evidenceClaim u =
     \<lparr>ec_jobId = job_id u, ec_kernelAddress = kernel_address u, ec_recipientHint = recipient_hint u,
      ec_lease = ulease u\<rparr>"

fun leaseTokenValue :: "jsv \<Rightarrow> unwind_error + string" where
  "leaseTokenValue (JStr s) = (if s = [] then Inl UNWIND_CAS_CONFLICT else Inr s)"
| "leaseTokenValue _ = Inl UNWIND_CAS_CONFLICT"

definition lease_evidence :: "string \<Rightarrow> int \<Rightarrow> int \<Rightarrow> unwind_row \<Rightarrow> unwind_row" where
  "lease_evidence tok leaseEnd now u =
     u\<lparr>uattempts := uattempts u + 1, ulease := Some (tok, leaseEnd), updated_at := now\<rparr>"

text \<open>The statement that takes the lease, with or without binding the candidate.\<close>

definition claimUpdate ::
  "unwind_db \<Rightarrow> unwind_row \<Rightarrow> string \<Rightarrow> string \<Rightarrow> int \<Rightarrow> string \<Rightarrow> int \<Rightarrow> int \<Rightarrow> unwind_error + (unwind_db \<times> nat)" where
  "claimUpdate db u userOp tx retryUntil tok leaseEnd now =
     (if ucandidate u = None then
        sql_update [CandidateColumns, OtherColumns] db (job_id u)
          (\<lambda>w. ustate w = awaiting_burn \<and> uproof w = None \<and> ucandidate w = None \<and> now < expires_at w \<and> ulease w = None)
          (\<lambda>w. lease_evidence tok leaseEnd now (bind_candidate userOp tx retryUntil w))
      else
        sql_update [OtherColumns] db (job_id u)
          (\<lambda>w. ustate w = awaiting_burn \<and> uproof w = None \<and> ulease w = None
             \<and> (case ucandidate w of None \<Rightarrow> False
                | Some k \<Rightarrow> candidate_user_op_hash k = userOp \<and> candidate_unwind_tx_hash k = tx
                    \<and> now < evidence_retry_until k))
          (lease_evidence tok leaseEnd now))"

definition retryDeadline :: "unwind_row \<Rightarrow> int \<Rightarrow> int" where
  "retryDeadline u retryMs =
     (case ucandidate u of
        None \<Rightarrow> min (capability_expires_at u) (expires_at u + retryMs) | Some k \<Rightarrow> evidence_retry_until k)"

definition other_candidate :: "unwind_row \<Rightarrow> string \<Rightarrow> string \<Rightarrow> bool" where
  "other_candidate u userOp tx \<longleftrightarrow>
     (case ucandidate u of None \<Rightarrow> False
      | Some k \<Rightarrow> candidate_user_op_hash k \<noteq> userOp \<or> candidate_unwind_tx_hash k \<noteq> tx)"

definition claimTransaction ::
  "crypto \<Rightarrow> unwind_db \<Rightarrow> string \<Rightarrow> string \<Rightarrow> string \<Rightarrow> int \<Rightarrow> int \<Rightarrow> int \<Rightarrow> string
    \<Rightarrow> unwind_error + (unwind_db \<times> evidence_claim option)" where
  "claimTransaction c db j userOp tx now leaseMs retryMs tok =
     ebind (select_job c db j) (\<lambda>row. case row of None \<Rightarrow> Inr (db, None) | Some u \<Rightarrow>
       if ustate u \<noteq> awaiting_burn \<or> uproof u \<noteq> None \<or> ulease u \<noteq> None then Inr (db, None)
       else if other_candidate u userOp tx then Inl UNWIND_CONFLICT
       else if ucandidate u = None \<and> expires_at u \<le> now then Inr (db, None)
       else
         let retryUntil = retryDeadline u retryMs; leaseEnd = min (now + leaseMs) retryUntil in
         if \<not> safe_int retryUntil \<or> retryUntil \<le> now then Inr (db, None)
         else if \<not> safe_int leaseEnd \<or> leaseEnd \<le> now then Inr (db, None)
         else ebind (claimUpdate db u userOp tx retryUntil tok leaseEnd now) (\<lambda>(db', n).
           if n \<noteq> 1 then Inl UNWIND_CAS_CONFLICT
           else ebind (select_job c db' j) (\<lambda>w. Inr (db', map_option evidenceClaim w))))"

definition claimEvidence ::
  "crypto \<Rightarrow> unwind_db \<Rightarrow> jsv \<Rightarrow> jsv \<Rightarrow> jsv \<Rightarrow> int \<Rightarrow> int \<Rightarrow> int \<Rightarrow> jsv
    \<Rightarrow> unwind_error + (unwind_db \<times> evidence_claim option)" where
  "claimEvidence c db jobId userOpHash unwindTxHash now leaseMs retryMs newToken =
     ebind (canonicalJobId jobId) (\<lambda>j. ebind (canonicalHash userOpHash) (\<lambda>userOp.
     ebind (canonicalHash unwindTxHash) (\<lambda>tx. ebind (requireTime now) (\<lambda>at.
       if \<not> safe_int leaseMs \<or> leaseMs \<le> 0 \<or> \<not> safe_int retryMs \<or> retryMs \<le> 0 then Inl UNWIND_VALIDATION
       else ebind (leaseTokenValue newToken) (\<lambda>tok. claimTransaction c db j userOp tx at leaseMs retryMs tok)))))"

text \<open>A non-empty token string, as \<open>renewEvidence\<close> and \<open>releaseEvidence\<close> require.\<close>

fun heldToken :: "jsv \<Rightarrow> unwind_error + string" where
  "heldToken (JStr s) = (if s = [] then Inl UNWIND_VALIDATION else Inr s)"
| "heldToken _ = Inl UNWIND_VALIDATION"

definition holds_lease :: "unwind_row \<Rightarrow> string \<Rightarrow> int \<Rightarrow> bool" where
  "holds_lease u tok now \<longleftrightarrow> (case ulease u of None \<Rightarrow> False | Some (s, t) \<Rightarrow> s = tok \<and> now < t)"

definition renewEvidence ::
  "unwind_db \<Rightarrow> jsv \<Rightarrow> jsv \<Rightarrow> int \<Rightarrow> int \<Rightarrow> unwind_error + (unwind_db \<times> (string \<times> int) option)" where
  "renewEvidence db jobId leaseTok now leaseMs =
     ebind (canonicalJobId jobId) (\<lambda>j. ebind (requireTime now) (\<lambda>at. ebind (heldToken leaseTok) (\<lambda>tok.
       if \<not> safe_int leaseMs \<or> leaseMs \<le> 0 then Inl UNWIND_VALIDATION
       else ebind (sql_update [OtherColumns] db j
           (\<lambda>w. ustate w = awaiting_burn \<and> uproof w = None \<and> holds_lease w tok at
              \<and> (case ucandidate w of None \<Rightarrow> False | Some k \<Rightarrow> at < evidence_retry_until k))
           (\<lambda>w. w\<lparr>ulease := Some (tok, case ucandidate w of None \<Rightarrow> at + leaseMs
                                     | Some k \<Rightarrow> min (at + leaseMs) (evidence_retry_until k)), updated_at := at\<rparr>)) (\<lambda>(db', n).
         if n \<noteq> 1 then Inl UNWIND_CAS_CONFLICT
         else Inr (db', case map_of (jobs db') j of None \<Rightarrow> None | Some w \<Rightarrow> ulease w)))))"

definition releaseEvidence ::
  "crypto \<Rightarrow> unwind_db \<Rightarrow> jsv \<Rightarrow> jsv \<Rightarrow> int \<Rightarrow> unwind_error + (unwind_db \<times> public_status option)" where
  "releaseEvidence c db jobId leaseTok now =
     ebind (canonicalJobId jobId) (\<lambda>j. ebind (requireTime now) (\<lambda>at. ebind (heldToken leaseTok) (\<lambda>tok.
       ebind (sql_update [OtherColumns] db j
           (\<lambda>w. ustate w = awaiting_burn \<and> uproof w = None \<and> holds_lease w tok at)
           (\<lambda>w. w\<lparr>ulease := None, updated_at := at\<rparr>)) (\<lambda>(db', n).
         if n \<noteq> 1 then Inl UNWIND_CAS_CONFLICT else read_status c db' j))))"

subsection \<open>Terminal outcomes before a proof\<close>

fun optional_token :: "jsv \<Rightarrow> unwind_error + string option" where
  "optional_token (JStr s) = Inr (Some s)"
| "optional_token JNull = Inr None"
| "optional_token _ = Inl UNWIND_VALIDATION"

definition finishable :: "string option \<Rightarrow> int \<Rightarrow> unwind_row \<Rightarrow> bool" where
  "finishable tok now w \<longleftrightarrow>
     ustate w = awaiting_burn \<and> uproof w = None
   \<and> ((ulease w = None \<and> tok = None \<and> now < expires_at w)
    \<or> (case tok of None \<Rightarrow> False | Some t \<Rightarrow> holds_lease w t now))"

definition finish_row :: "unwind_state \<Rightarrow> string \<Rightarrow> int \<Rightarrow> unwind_row \<Rightarrow> unwind_row" where
  "finish_row s why now w = w\<lparr>ustate := s, reason_code := Some why, ulease := None, updated_at := now\<rparr>"

definition finishTransaction ::
  "crypto \<Rightarrow> unwind_db \<Rightarrow> string \<Rightarrow> string option \<Rightarrow> string \<Rightarrow> int \<Rightarrow> unwind_state
    \<Rightarrow> unwind_error + (unwind_db \<times> public_status option)" where
  "finishTransaction c db j tok why now s =
     ebind (select_job c db j) (\<lambda>row. case row of None \<Rightarrow> Inl UNWIND_UNAUTHORIZED | Some u \<Rightarrow>
       if ustate u = s \<and> reason_code u = Some why then Inr (db, Some (publicStatus u))
       else if ustate u \<noteq> awaiting_burn \<or> uproof u \<noteq> None then Inl UNWIND_CONFLICT
       else ebind (sql_update [OtherColumns] db j (finishable tok now) (finish_row s why now)) (\<lambda>(db', n).
         if n \<noteq> 1 then Inl UNWIND_CAS_CONFLICT else read_status c db' j))"

definition finishTerminal ::
  "crypto \<Rightarrow> unwind_db \<Rightarrow> jsv \<Rightarrow> jsv \<Rightarrow> string \<Rightarrow> int \<Rightarrow> unwind_state \<Rightarrow> string list
    \<Rightarrow> unwind_error + (unwind_db \<times> public_status option)" where
  "finishTerminal c db jobId leaseTok why now s reasons =
     ebind (canonicalJobId jobId) (\<lambda>j. ebind (requireTime now) (\<lambda>at. ebind (optional_token (null_default leaseTok)) (\<lambda>tok.
       if why \<notin> set reasons then Inl UNWIND_VALIDATION
       else finishTransaction c db j tok why at s)))"

definition unwind_finishBlocked ::
  "crypto \<Rightarrow> unwind_db \<Rightarrow> jsv \<Rightarrow> jsv \<Rightarrow> string \<Rightarrow> int \<Rightarrow> unwind_error + (unwind_db \<times> public_status option)" where
  "unwind_finishBlocked c db jobId leaseTok why now =
     finishTerminal c db jobId leaseTok why now unwind_blocked
       [''attested_evidence_changed'', ''destination_reverted'', ''legacy_record_unrecoverable'',
        ''message_ambiguous'', ''message_mismatch'']"

definition unwind_finishUncertain ::
  "crypto \<Rightarrow> unwind_db \<Rightarrow> jsv \<Rightarrow> jsv \<Rightarrow> string \<Rightarrow> int \<Rightarrow> unwind_error + (unwind_db \<times> public_status option)" where
  "unwind_finishUncertain c db jobId leaseTok why now =
     finishTerminal c db jobId leaseTok why now unwind_uncertain
       [''submission_lease_expired'', ''submission_unknown'', ''submitted_checkpoint_failed'']"

subsection \<open>Expiry\<close>

text \<open>Awaiting its burn past the deadline that applies to it.\<close>

definition overdue :: "unwind_row \<Rightarrow> int \<Rightarrow> bool" where
  "overdue u now \<longleftrightarrow>
     ustate u = awaiting_burn
   \<and> (case ucandidate u of None \<Rightarrow> expires_at u \<le> now | Some k \<Rightarrow> evidence_retry_until k \<le> now)"

definition lease_over :: "unwind_row \<Rightarrow> int \<Rightarrow> bool" where
  "lease_over u now \<longleftrightarrow> (case ulease u of None \<Rightarrow> False | Some (tok, t) \<Rightarrow> t \<le> now)"

definition needs_reconcile :: "int \<Rightarrow> unwind_row \<Rightarrow> bool" where
  "needs_reconcile now u \<longleftrightarrow>
     (ustate u = awaiting_burn \<or> ulease u \<noteq> None)
   \<and> ((overdue u now \<and> (ulease u = None \<or> lease_over u now)) \<or> lease_over u now)"

definition expire_row :: "int \<Rightarrow> unwind_row \<Rightarrow> unwind_row" where
  "expire_row now u =
     u\<lparr>ustate := (if overdue u now then (if ucandidate u = None then unwind_expired else unwind_uncertain) else ustate u),
       reason_code := (if overdue u now \<and> ucandidate u \<noteq> None then Some ''submission_unknown'' else reason_code u),
       ulease := None, updated_at := now\<rparr>"

fun expireAll :: "unwind_db \<Rightarrow> int \<Rightarrow> string list \<Rightarrow> unwind_error + unwind_db" where
  "expireAll db now [] = Inr db"
| "expireAll db now (j # js) =
     ebind (sql_update [OtherColumns] db j (\<lambda>w. True) (expire_row now)) (\<lambda>(db', n). expireAll db' now js)"

fun readAllStatus :: "crypto \<Rightarrow> unwind_db \<Rightarrow> string list \<Rightarrow> unwind_error + public_status option list" where
  "readAllStatus c db [] = Inr []"
| "readAllStatus c db (j # js) =
     ebind (select_job c db j) (\<lambda>u. ebind (readAllStatus c db js) (\<lambda>sts. Inr (map_option publicStatus u # sts)))"

definition expiryBatch :: "unwind_db \<Rightarrow> int \<Rightarrow> int \<Rightarrow> string list" where
  "expiryBatch db now limit =
     take (nat limit) (map job_id (sort_key (\<lambda>u. (created_at u, job_id u))
       (filter (needs_reconcile now) (map snd (jobs db)))))"

definition unwind_reconcileExpired ::
  "crypto \<Rightarrow> unwind_db \<Rightarrow> int \<Rightarrow> int \<Rightarrow> unwind_error + (unwind_db \<times> public_status option list)" where
  "unwind_reconcileExpired c db now limit =
     ebind (requireTime now) (\<lambda>at.
       if \<not> safe_int limit \<or> limit \<le> 0 then Inl UNWIND_VALIDATION
       else let ids = expiryBatch db at limit in
         ebind (expireAll db at ids) (\<lambda>db'. ebind (readAllStatus c db' ids) (\<lambda>sts. Inr (db', sts))))"

subsection \<open>Following the relay\<close>

definition resumable :: "unwind_db \<Rightarrow> int \<Rightarrow> unwind_row \<Rightarrow> bool" where
  "resumable db now u \<longleftrightarrow>
     ustate u \<in> {relay_pending, relay_running}
   \<and> (case uproof u of None \<Rightarrow> False | Some p \<Rightarrow>
        (case map_of (relay db) (p_relay_exec_id p) of None \<Rightarrow> False | Some r \<Rightarrow>
           burnTxHash r = Some (p_unwind_tx_hash p) \<and> r_expectationDigest r = Some (p_expectation_digest p)
         \<and> relay_json r = p_expectation_json p \<and> sourceDomain r = Some 6
         \<and> (leaseToken r = None \<or> (case leaseExpiresAt r of None \<Rightarrow> False | Some t \<Rightarrow> t \<le> now))))"

fun resumeRows :: "crypto \<Rightarrow> unwind_db \<Rightarrow> unwind_row list \<Rightarrow> unwind_error + (string \<times> string option \<times> unwind_state) list" where
  "resumeRows c db [] = Inr []"
| "resumeRows c db (u # us) =
     ebind (validateUnwindRow c u (map_of (relay db))) (\<lambda>_. ebind (resumeRows c db us) (\<lambda>out.
       Inr ((job_id u, map_option p_relay_exec_id (uproof u), ustate u) # out)))"

definition listForResume ::
  "crypto \<Rightarrow> unwind_db \<Rightarrow> int \<Rightarrow> int \<Rightarrow> unwind_error + (string \<times> string option \<times> unwind_state) list" where
  "listForResume c db now limit =
     ebind (requireTime now) (\<lambda>at.
       if \<not> safe_int limit \<or> limit \<le> 0 then Inl UNWIND_VALIDATION
       else resumeRows c db (take (nat limit) (sort_key (\<lambda>u. (updated_at u, created_at u, job_id u))
         (filter (resumable db at) (map snd (jobs db))))))"

definition may_expire :: "int \<Rightarrow> unwind_row \<Rightarrow> bool" where
  "may_expire now u \<longleftrightarrow> overdue u now \<and> (ulease u = None \<or> lease_over u now)"

definition expire_unproved :: "int \<Rightarrow> unwind_row \<Rightarrow> unwind_row" where
  "expire_unproved now u =
     u\<lparr>ustate := (if ucandidate u = None then unwind_expired else unwind_uncertain),
       reason_code := (if ucandidate u = None then None else Some ''submission_unknown''),
       ulease := None, updated_at := now\<rparr>"

text \<open>The update of a job that follows its relay record.\<close>

definition follow_row :: "unwind_state \<times> string option \<times> string option \<Rightarrow> int \<Rightarrow> unwind_row \<Rightarrow> unwind_row" where
  "follow_row pr at w =
     w\<lparr>ustate := fst pr, mint_tx_hash := fst (snd pr), reason_code := snd (snd pr), updated_at := at\<rparr>"

text \<open>\<open>reconcileFromCctp\<close> after the expiry of an unproved job.\<close>

definition followRelay ::
  "crypto \<Rightarrow> unwind_db \<Rightarrow> string \<Rightarrow> unwind_row \<Rightarrow> int \<Rightarrow> unwind_error + (unwind_db \<times> public_status option)" where
  "followRelay c db j u now =
     (case uproof u of
        None \<Rightarrow> Inr (db, Some (publicStatus u))
      | Some p \<Rightarrow>
          (case map_of (relay db) (p_relay_exec_id p) of
             None \<Rightarrow> Inl UNWIND_CONFLICT
           | Some r \<Rightarrow>
               if \<not> validatedCctpRow c r \<or> burnTxHash r \<noteq> Some (p_unwind_tx_hash p)
                 \<or> r_expectationDigest r \<noteq> Some (p_expectation_digest p) then Inl UNWIND_CONFLICT
               else if is_terminal (ustate u) then
                 (if relayProjection r \<noteq> (ustate u, mint_tx_hash u, reason_code u) then Inl UNWIND_CONFLICT
                  else Inr (db, Some (publicStatus u)))
               else if ustate u = relay_running \<and> fst (relayProjection r) = relay_pending then Inl UNWIND_CONFLICT
               else ebind (sql_update [OtherColumns] db j (\<lambda>w. ustate w \<in> {relay_pending, relay_running})
                     (follow_row (relayProjection r) (max now (updated_at u)))) (\<lambda>(db', n). read_status c db' j)))"

definition reconcileFromCctp ::
  "crypto \<Rightarrow> unwind_db \<Rightarrow> jsv \<Rightarrow> int \<Rightarrow> unwind_error + (unwind_db \<times> public_status option)" where
  "reconcileFromCctp c db jobId now =
     ebind (canonicalJobId jobId) (\<lambda>j. ebind (requireTime now) (\<lambda>at.
       case select_job c db j of
         Inl _ \<Rightarrow> Inl UNWIND_CONFLICT
       | Inr None \<Rightarrow> Inr (db, None)
       | Inr (Some u) \<Rightarrow>
           if may_expire at u then
             ebind (sql_update [OtherColumns] db j (may_expire at) (expire_unproved at)) (\<lambda>(db', n).
               ebind (select_job c db' j) (\<lambda>w. case w of
                 None \<Rightarrow> Inr (db', None)
               | Some u' \<Rightarrow> followRelay c db' j u' at))
           else followRelay c db j u at))"

end
