(* ===== verification/UnwindSafety.thy ===== *)
theory UnwindSafety
  imports UnwindStore
begin

section \<open>Safety of the unwind store\<close>

text \<open>
  What the unwind store guarantees under any sequence of its operations, interleaved with the
  operations of the relay store on the rows it enqueued: every row it wrote still passes its own
  validation, reservations, candidates and proofs are written once, terminal jobs never change,
  and the outcome of an attached job is the outcome of its relay record.
\<close>

subsection \<open>Operations\<close>

text \<open>The operations that write; the stages at which the injected attach fault throws are a list.\<close>

datatype unwind_op =
    ReserveJob jsv jsv jsv jsv jsv int int int
  | AttachProof "string list" jsv jsv jsv jsv jsv int
  | ClaimEvidence jsv jsv jsv int int int jsv
  | RenewEvidence jsv jsv int int
  | ReleaseEvidence jsv jsv int
  | BlockJob jsv jsv string int
  | MarkUncertain jsv jsv string int
  | ExpireJobs int int
  | FollowRelay jsv int
  | RelayOp store_op

definition db_of :: "unwind_error + (unwind_db \<times> 'a) \<Rightarrow> unwind_error + unwind_db" where
  "db_of m = ebind m (\<lambda>(db, _). Inr db)"

fun unwind_exec :: "crypto \<Rightarrow> unwind_db \<Rightarrow> unwind_op \<Rightarrow> unwind_error + unwind_db" where
  "unwind_exec c db (ReserveJob j cap k r d ex capEx now) = db_of (unwind_reserve c db j cap k r d ex capEx now)"
| "unwind_exec c db (AttachProof fs j pv ev eid tok now) =
     db_of (attachAndEnqueue c (\<lambda>s. s \<in> set fs) db j pv ev eid tok now)"
| "unwind_exec c db (ClaimEvidence j op1 tx now ms rms tok) = db_of (claimEvidence c db j op1 tx now ms rms tok)"
| "unwind_exec c db (RenewEvidence j tok now ms) = db_of (renewEvidence db j tok now ms)"
| "unwind_exec c db (ReleaseEvidence j tok now) = db_of (releaseEvidence c db j tok now)"
| "unwind_exec c db (BlockJob j tok why now) = db_of (unwind_finishBlocked c db j tok why now)"
| "unwind_exec c db (MarkUncertain j tok why now) = db_of (unwind_finishUncertain c db j tok why now)"
| "unwind_exec c db (ExpireJobs now limit) = db_of (unwind_reconcileExpired c db now limit)"
| "unwind_exec c db (FollowRelay j now) = db_of (reconcileFromCctp c db j now)"
| "unwind_exec c db (RelayOp op) = Inr (db\<lparr>relay := store_apply (sha256 c) (relay db) op\<rparr>)"

definition unwind_apply :: "crypto \<Rightarrow> unwind_db \<Rightarrow> unwind_op \<Rightarrow> unwind_db" where
  "unwind_apply c db op = (case unwind_exec c db op of Inl _ \<Rightarrow> db | Inr db' \<Rightarrow> db')"

text \<open>Only the relay operations owe a discipline, the one of the relay store's callers.\<close>

fun op_disciplined :: "unwind_db \<Rightarrow> unwind_op \<Rightarrow> bool" where
  "op_disciplined db (RelayOp op) = disciplined (relay db) op"
| "op_disciplined db _ = True"

fun run_disciplined :: "crypto \<Rightarrow> unwind_db \<Rightarrow> unwind_op list \<Rightarrow> bool" where
  "run_disciplined c db [] = True"
| "run_disciplined c db (op # ops) = (op_disciplined db op \<and> run_disciplined c (unwind_apply c db op) ops)"

lemma db_of_Inr: "db_of m = Inr db' \<longleftrightarrow> (\<exists>a. m = Inr (db', a))"
  by (auto simp: db_of_def ebind_Inr_iff)

subsection \<open>The invariant\<close>

definition row_valid :: "crypto \<Rightarrow> rows \<Rightarrow> unwind_row \<Rightarrow> bool" where
  "row_valid c rs u \<longleftrightarrow> check_ok u \<and> validateUnwindRow c u (map_of rs) = Inr ()"

definition users_distinct :: "unwind_db \<Rightarrow> bool" where
  "users_distinct db \<longleftrightarrow>
     (\<forall>i j u v p q. map_of (jobs db) i = Some u \<and> map_of (jobs db) j = Some v \<and> uproof u = Some p
        \<and> uproof v = Some q \<and> p_user_op_hash p = p_user_op_hash q \<longrightarrow> i = j)"

definition db_ok :: "crypto \<Rightarrow> unwind_db \<Rightarrow> bool" where
  "db_ok c db \<longleftrightarrow>
     canonical_rows (sha256 c) (relay db) \<and> distinct (map fst (jobs db))
   \<and> (\<forall>i u. map_of (jobs db) i = Some u \<longrightarrow> job_id u = i \<and> row_valid c (relay db) u)
   \<and> users_distinct db"

lemma db_okD:
  assumes "db_ok c db"
  shows "canonical_rows (sha256 c) (relay db)" "rows_ok (relay db)" "distinct (map fst (jobs db))" "users_distinct db"
    "map_of (jobs db) i = Some u \<Longrightarrow> job_id u = i"
    "map_of (jobs db) i = Some u \<Longrightarrow> row_valid c (relay db) u"
  using assms by (auto simp: db_ok_def canonical_rows_def)

text \<open>Rows read their relay record under their own execution id.\<close>

lemma valid_relay_id: "row_valid c rs u \<Longrightarrow> uproof u = Some p \<Longrightarrow> p_relay_exec_id p = execIdOf (job_id u)"
  by (simp add: row_valid_def check_ok_def proof_check_def)

lemma execIdOf_inj [simp]: "execIdOf i = execIdOf j \<longleftrightarrow> i = j"
  by (simp add: execIdOf_def)

lemma relay_move_not_pending: "relay_move s s' \<Longrightarrow> s \<noteq> attestation_pending \<Longrightarrow> s' \<noteq> attestation_pending"
  by (induction rule: relay_move.induct) auto

lemma projection_pending: "fst (relayProjection r) = relay_pending \<longleftrightarrow> rstate r = attestation_pending"
  by (cases "rstate r") (simp_all add: relayProjection.simps)

lemma projection_terminal: "is_terminal (fst (relayProjection r)) \<longleftrightarrow> rstate r \<in> set RELAY_TERMINAL_STATES"
  by (cases "rstate r") (simp_all add: relayProjection.simps is_terminal_def RELAY_TERMINAL_STATES_def)

lemma validateRelay_Inr:
  "validateRelay c u p ro = Inr () \<longleftrightarrow>
     (\<exists>r. ro = Some r \<and> validatedCctpRow c r \<and> sourceDomain r = Some 6 \<and> burnTxHash r = Some (p_unwind_tx_hash p)
        \<and> r_expectationDigest r = Some (p_expectation_digest p) \<and> relay_json r = p_expectation_json p
        \<and> (is_terminal (ustate u) \<longrightarrow> relayProjection r = (ustate u, mint_tx_hash u, reason_code u))
        \<and> \<not> (ustate u = relay_running \<and> fst (relayProjection r) = relay_pending))"
  by (auto simp: validateRelay_def split: option.splits)

text \<open>A bound relay record may move on under a job without invalidating it.\<close>

lemma validateRelay_evolves:
  assumes "validateRelay c u p (Some r) = Inr ()" "row_evolves r r'" "validatedCctpRow c r'"
  shows "validateRelay c u p (Some r') = Inr ()"
proof -
  have mv: "relay_move (rstate r) (rstate r')" and id: "same_identity r r'"
    using assms(2) by (simp_all add: row_evolves_def)
  have nt: "rstate r \<notin> set RELAY_TERMINAL_STATES" using mv terminal_no_move by blast
  then have "\<not> is_terminal (ustate u)"
    using assms(1) projection_terminal [of r] by (auto simp: validateRelay_Inr)
  moreover have "\<not> (ustate u = relay_running \<and> fst (relayProjection r') = relay_pending)"
    using assms(1) relay_move_not_pending [OF mv] by (auto simp: validateRelay_Inr projection_pending)
  ultimately show ?thesis
    using assms(1,3) id by (auto simp: validateRelay_Inr relay_json_def same_identity_def)
qed

lemma canonical_validated: "canonical_rows (sha256 c) rs \<Longrightarrow> map_of rs eid = Some r \<Longrightarrow> validatedCctpRow c r"
  by (simp add: validatedCctpRow_def canonical_iff canonical_rowsD)

lemma validate_proof_split:
  "validateUnwindRow c u relays = Inr () \<longleftrightarrow>
     is_ok (canonicalRecipient c (JStr (recipient_hint u)))
   \<and> reserve_json u = Stringified (reserveValue (job_id u) (kernel_address u) (recipient_hint u))
   \<and> request_digest u = reserveDigest c (reserveValue (job_id u) (kernel_address u) (recipient_hint u))
   \<and> (case uproof u of None \<Rightarrow> True | Some p \<Rightarrow>
        validateProof c u p = Inr () \<and> validateRelay c u p (relays (p_relay_exec_id p)) = Inr ())"
  by (auto simp: validateUnwindRow_def Let_def ebind_Inr_iff split: option.splits)

lemma row_valid_evolves:
  assumes "row_valid c rs u" "rows_evolve rs rs'" "canonical_rows (sha256 c) rs'"
  shows "row_valid c rs' u"
proof (cases "uproof u")
  case None
  with assms(1) show ?thesis by (simp add: row_valid_def validate_proof_split)
next
  case (Some p)
  then have v: "validateRelay c u p (map_of rs (p_relay_exec_id p)) = Inr ()"
    using assms(1) by (simp add: row_valid_def validate_proof_split)
  then obtain r where r: "map_of rs (p_relay_exec_id p) = Some r" by (auto simp: validateRelay_Inr)
  then obtain r' where r': "map_of rs' (p_relay_exec_id p) = Some r'" "r' = r \<or> row_evolves r r'"
    using assms(2) by (fastforce simp: rows_evolve_def split: option.splits)
  have "validateRelay c u p (Some r') = Inr ()"
    using r' v r validateRelay_evolves canonical_validated [OF assms(3) r'(1)] by auto
  with Some r' assms(1) show ?thesis by (simp add: row_valid_def validate_proof_split)
qed

subsection \<open>The job machine\<close>

text \<open>The moves of a job; a terminal job has none.\<close>

inductive unwind_move :: "unwind_state \<Rightarrow> unwind_state \<Rightarrow> bool" where
  wait: "unwind_move awaiting_burn awaiting_burn"
| attach: "unwind_move awaiting_burn relay_pending"
| give_up: "s \<in> {unwind_blocked, unwind_uncertain, unwind_expired} \<Longrightarrow> unwind_move awaiting_burn s"
| pending: "s \<in> {relay_pending, relay_running, unwind_done, unwind_blocked, unwind_uncertain}
    \<Longrightarrow> unwind_move relay_pending s"
| running: "s \<in> {relay_running, unwind_done, unwind_blocked, unwind_uncertain} \<Longrightarrow> unwind_move relay_running s"

inductive_simps unwind_move_from [simp]:
  "unwind_move awaiting_burn s" "unwind_move relay_pending s" "unwind_move relay_running s"
  "unwind_move unwind_done s" "unwind_move unwind_blocked s" "unwind_move unwind_uncertain s"
  "unwind_move unwind_expired s"

definition same_reserve :: "unwind_row \<Rightarrow> unwind_row \<Rightarrow> bool" where
  "same_reserve u v \<longleftrightarrow>
     job_id v = job_id u \<and> capability_hash v = capability_hash u \<and> kernel_address v = kernel_address u
   \<and> recipient_hint v = recipient_hint u \<and> request_digest v = request_digest u
   \<and> reserve_json v = reserve_json u \<and> expires_at v = expires_at u
   \<and> capability_expires_at v = capability_expires_at u \<and> created_at v = created_at u"

definition written_once :: "unwind_row \<Rightarrow> unwind_row \<Rightarrow> bool" where
  "written_once u v \<longleftrightarrow>
     same_reserve u v \<and> (ucandidate u \<noteq> None \<longrightarrow> ucandidate v = ucandidate u)
   \<and> (uproof u \<noteq> None \<longrightarrow> uproof v = uproof u)"

definition job_step :: "unwind_row \<Rightarrow> unwind_row \<Rightarrow> bool" where
  "job_step u v \<longleftrightarrow> written_once u v \<and> unwind_move (ustate u) (ustate v)"

lemmas job_step_defs = job_step_def written_once_def same_reserve_def

definition fresh_job :: "unwind_row \<Rightarrow> bool" where
  "fresh_job u \<longleftrightarrow> ustate u = awaiting_burn \<and> ucandidate u = None \<and> uproof u = None \<and> ulease u = None"

text \<open>One write: at most one job is written, and the relay rows evolve.\<close>

definition db_step :: "crypto \<Rightarrow> unwind_db \<Rightarrow> unwind_db \<Rightarrow> bool" where
  "db_step c db db' \<longleftrightarrow>
     rows_evolve (relay db) (relay db') \<and> canonical_rows (sha256 c) (relay db')
   \<and> (jobs db' = jobs db
      \<or> (\<exists>j v. jobs db' = AList.update j v (jobs db) \<and> job_id v = j \<and> row_valid c (relay db') v \<and> unique_ok db v
           \<and> (case map_of (jobs db) j of None \<Rightarrow> fresh_job v | Some u \<Rightarrow> job_step u v)))"

lemma user_op_taken_iff:
  assumes "distinct (map fst (jobs db))"
  shows "user_op_taken db j h \<longleftrightarrow>
    (\<exists>i u p. i \<noteq> j \<and> map_of (jobs db) i = Some u \<and> uproof u = Some p \<and> p_user_op_hash p = h)"
  using assms by (fastforce simp: user_op_taken_def list_ex_iff split: option.splits)

lemma db_step_ok:
  assumes ok: "db_ok c db" and st: "db_step c db db'"
  shows "db_ok c db'"
proof -
  note d = db_okD [OF ok]
  have ev: "rows_evolve (relay db) (relay db')" and can: "canonical_rows (sha256 c) (relay db')"
    using st by (simp_all add: db_step_def)
  have old: "row_valid c (relay db') u" if "map_of (jobs db) i = Some u" for i u
    using row_valid_evolves [OF d(6) [OF that] ev can] .
  consider "jobs db' = jobs db"
    | j v where "jobs db' = AList.update j v (jobs db)" "job_id v = j" "row_valid c (relay db') v" "unique_ok db v"
    using st by (auto simp: db_step_def)
  then show ?thesis
  proof cases
    case 1
    then show ?thesis using d can old by (auto simp: db_ok_def users_distinct_def)
  next
    case 2
    have "users_distinct db'"
      using d(4) 2(4) 2(2) unfolding users_distinct_def 2(1) unique_ok_def user_op_taken_iff [OF d(3)]
      by (simp add: update_conv split: option.splits) metis
    then show ?thesis
      using d can old 2 by (auto simp: db_ok_def update_conv distinct_update split: if_splits)
  qed
qed

lemma db_steps_ok: "(db_step c)\<^sup>*\<^sup>* db db' \<Longrightarrow> db_ok c db \<Longrightarrow> db_ok c db'"
  by (induction rule: rtranclp_induct) (auto intro: db_step_ok)

lemma db_step_job:
  assumes "db_step c db db'" "map_of (jobs db) i = Some u"
  shows "\<exists>v. map_of (jobs db') i = Some v \<and> (v = u \<or> job_step u v)"
  using assms by (auto simp: db_step_def update_conv split: option.splits)

lemma job_step_trans:
  "written_once u v \<Longrightarrow> written_once v w \<Longrightarrow> written_once u w"
  by (auto simp: written_once_def same_reserve_def)

lemma written_once_refl [simp]: "written_once u u"
  by (simp add: written_once_def same_reserve_def)

lemma terminal_no_step:
  "ustate u \<in> {unwind_done, unwind_blocked, unwind_uncertain, unwind_expired} \<Longrightarrow> \<not> job_step u v"
  by (auto simp: job_step_def)

lemma db_steps_job:
  assumes "(db_step c)\<^sup>*\<^sup>* db db'" "map_of (jobs db) i = Some u"
  shows "\<exists>v. map_of (jobs db') i = Some v \<and> written_once u v \<and> unwind_move\<^sup>*\<^sup>* (ustate u) (ustate v)
    \<and> (ustate u \<in> {unwind_done, unwind_blocked, unwind_uncertain, unwind_expired} \<longrightarrow> v = u)"
  using assms
proof (induction rule: rtranclp_induct)
  case (step y z)
  then obtain v where v: "map_of (jobs y) i = Some v" "written_once u v" "unwind_move\<^sup>*\<^sup>* (ustate u) (ustate v)"
      "ustate u \<in> {unwind_done, unwind_blocked, unwind_uncertain, unwind_expired} \<longrightarrow> v = u" by blast
  obtain w where w: "map_of (jobs z) i = Some w" "w = v \<or> job_step v w"
    using db_step_job [OF step.hyps(2) v(1)] by blast
  show ?case
  proof (cases "w = v")
    case False
    then have jw: "job_step v w" using w(2) by simp
    then have "unwind_move\<^sup>*\<^sup>* (ustate u) (ustate w)"
      using v(3) by (simp add: job_step_def rtranclp.rtrancl_into_rtrancl)
    moreover have "written_once u w" using job_step_trans v(2) jw by (auto simp: job_step_def)
    moreover have "ustate u \<notin> {unwind_done, unwind_blocked, unwind_uncertain, unwind_expired}"
      using jw terminal_no_step v(4) by blast
    ultimately show ?thesis using w(1) by blast
  qed (use v w in blast)
qed auto

subsection \<open>Every operation is a sequence of such writes\<close>

lemma sql_update_InrE:
  assumes "sql_update gs db j wh f = Inr (db', n)"
  obtains (none) "n = 0" "db' = db"
    | (one) u where "map_of (jobs db) j = Some u" "wh u" "\<not> trigger_aborts gs u" "check_ok (f u)"
        "unique_ok db (f u)" "db' = db\<lparr>jobs := AList.update j (f u) (jobs db)\<rparr>" "n = 1"
  using assms by (auto simp: sql_update_def split: option.splits if_splits)

lemma db_step_refl: "db_ok c db \<Longrightarrow> db_step c db db"
  using db_okD by (auto simp: db_step_def intro: rows_evolve_refl)

lemma update_step:
  assumes ok: "db_ok c db" and up: "sql_update gs db j wh f = Inr (db', n)"
    and "\<And>u. map_of (jobs db) j = Some u \<Longrightarrow> wh u \<Longrightarrow> row_valid c (relay db) u \<Longrightarrow> check_ok (f u)
      \<Longrightarrow> job_step u (f u) \<and> validateUnwindRow c (f u) (map_of (relay db)) = Inr ()"
  shows "db_step c db db'"
  using up
proof (cases rule: sql_update_InrE)
  case none
  then show ?thesis using db_step_refl [OF ok] by simp
next
  case (one u)
  note d = db_okD [OF ok]
  have v: "job_step u (f u)" "validateUnwindRow c (f u) (map_of (relay db)) = Inr ()"
    using assms(3) [OF one(1,2) d(6) [OF one(1)] one(4)] by simp_all
  have "job_id (f u) = j" using v(1) d(5) [OF one(1)] by (simp add: job_step_defs)
  with one v d show ?thesis
    by (auto simp: db_step_def row_valid_def intro: rows_evolve_refl)
qed

lemma validate_unproved:
  "same_reserve u v \<Longrightarrow> uproof u = None \<Longrightarrow> uproof v = None
    \<Longrightarrow> validateUnwindRow c v rs = validateUnwindRow c u rs"
  by (simp add: validateUnwindRow_def same_reserve_def Let_def)

text \<open>Writes to a job whose burn is not proved yet.\<close>

lemma unproved_step:
  assumes "db_ok c db" "sql_update gs db j wh f = Inr (db', n)"
    and "\<And>u. map_of (jobs db) j = Some u \<Longrightarrow> wh u \<Longrightarrow> check_ok u \<Longrightarrow> check_ok (f u)
      \<Longrightarrow> uproof u = None \<and> uproof (f u) = None \<and> job_step u (f u)"
  shows "db_step c db db'"
  using assms(1,2)
proof (rule update_step)
  fix u assume u: "map_of (jobs db) j = Some u" "wh u" "row_valid c (relay db) u" "check_ok (f u)"
  then have a: "uproof u = None" "uproof (f u) = None" "job_step u (f u)"
    using assms(3) by (auto simp: row_valid_def)
  then have "validateUnwindRow c (f u) (map_of (relay db)) = validateUnwindRow c u (map_of (relay db))"
    using validate_unproved [of u "f u"] by (simp add: job_step_def written_once_def)
  then show "job_step u (f u) \<and> validateUnwindRow c (f u) (map_of (relay db)) = Inr ()"
    using a u(3) by (simp add: row_valid_def)
qed

lemma select_job_Inr:
  "select_job c db j = Inr ro \<longleftrightarrow>
     map_of (jobs db) j = ro \<and> (\<forall>u. ro = Some u \<longrightarrow> validateUnwindRow c u (map_of (relay db)) = Inr ())"
  by (auto simp: select_job_def ebind_Inr_iff split: option.splits)

lemma read_status_Inr: "read_status c db j = Inr (db', st) \<longleftrightarrow>
    db' = db \<and> (\<exists>ro. select_job c db j = Inr ro \<and> st = map_option publicStatus ro)"
  by (auto simp: read_status_def ebind_Inr_iff)

lemma releaseEvidence_step:
  assumes "db_ok c db" "releaseEvidence c db j tok now = Inr (db', st)"
  shows "db_step c db db'"
proof -
  from assms(2) obtain j' tok' n where
    "sql_update [OtherColumns] db j' (\<lambda>w. ustate w = awaiting_burn \<and> uproof w = None \<and> holds_lease w tok' now)
       (\<lambda>w. w\<lparr>ulease := None, updated_at := now\<rparr>) = Inr (db', n)"
    by (auto simp: releaseEvidence_def ebind_Inr_iff read_status_Inr requireTime_def split: if_splits)
  with assms(1) show ?thesis by (rule unproved_step) (simp add: job_step_defs)
qed

lemma renewEvidence_step:
  assumes "db_ok c db" "renewEvidence db j tok now ms = Inr (db', out)"
  shows "db_step c db db'"
proof -
  from assms(2) obtain j' tok' n where
    "sql_update [OtherColumns] db j'
       (\<lambda>w. ustate w = awaiting_burn \<and> uproof w = None \<and> holds_lease w tok' now
          \<and> (case ucandidate w of None \<Rightarrow> False | Some k \<Rightarrow> now < evidence_retry_until k))
       (\<lambda>w. w\<lparr>ulease := Some (tok', case ucandidate w of None \<Rightarrow> now + ms
                                 | Some k \<Rightarrow> min (now + ms) (evidence_retry_until k)), updated_at := now\<rparr>) = Inr (db', n)"
    by (auto simp: renewEvidence_def ebind_Inr_iff requireTime_def split: if_splits)
  with assms(1) show ?thesis by (rule unproved_step) (simp add: job_step_defs)
qed

lemma finishTransaction_cases:
  "finishTransaction c db j tok why now s = Inr (db', st) \<Longrightarrow>
     db' = db \<or> (\<exists>n. sql_update [OtherColumns] db j (finishable tok now) (finish_row s why now) = Inr (db', n))"
  unfolding finishTransaction_def ebind_Inr_iff
  by (elim exE conjE) (auto simp: ebind_Inr_iff read_status_Inr split: option.split_asm if_split_asm)

lemma finishTerminal_step:
  assumes "db_ok c db" "finishTerminal c db j tok why now s reasons = Inr (db', st)"
    and "s \<in> {unwind_blocked, unwind_uncertain}"
  shows "db_step c db db'"
proof -
  obtain j' tok' n where "db' = db \<or>
      sql_update [OtherColumns] db j' (finishable tok' now) (finish_row s why now) = Inr (db', n)"
    using assms(2) finishTransaction_cases
    by (fastforce simp: finishTerminal_def ebind_Inr_iff requireTime_def split: if_split_asm)
  then show ?thesis
  proof (elim disjE)
    assume "sql_update [OtherColumns] db j' (finishable tok' now) (finish_row s why now) = Inr (db', n)"
    with assms(1) show ?thesis
      by (rule unproved_step) (use assms(3) in \<open>auto simp: job_step_defs finishable_def finish_row_def\<close>)
  qed (use db_step_refl [OF assms(1)] in simp)
qed

lemma claimUpdate_step:
  assumes "db_ok c db" "claimUpdate db u op1 tx ru tok le now = Inr (db', n)"
  shows "db_step c db db'"
proof (cases "ucandidate u = None")
  case True
  have "sql_update [CandidateColumns, OtherColumns] db (job_id u)
          (\<lambda>w. ustate w = awaiting_burn \<and> uproof w = None \<and> ucandidate w = None \<and> now < expires_at w \<and> ulease w = None)
          (\<lambda>w. lease_evidence tok le now (bind_candidate op1 tx ru w)) = Inr (db', n)"
    using assms(2) True by (simp add: claimUpdate_def)
  with assms(1) show ?thesis
    by (rule unproved_step) (simp add: job_step_defs lease_evidence_def bind_candidate_def)
next
  case False
  then have "sql_update [OtherColumns] db (job_id u)
          (\<lambda>w. ustate w = awaiting_burn \<and> uproof w = None \<and> ulease w = None
             \<and> (case ucandidate w of None \<Rightarrow> False
                | Some k \<Rightarrow> candidate_user_op_hash k = op1 \<and> candidate_unwind_tx_hash k = tx
                    \<and> now < evidence_retry_until k))
          (lease_evidence tok le now) = Inr (db', n)"
    using assms(2) unfolding claimUpdate_def by (simp only: if_False)
  with assms(1) show ?thesis
    by (rule unproved_step) (simp add: job_step_defs lease_evidence_def)
qed

lemma claimTransaction_cases:
  "claimTransaction c db j op1 tx now ms rms tok = Inr (db', out) \<Longrightarrow>
     db' = db \<or> (\<exists>u ru le n. claimUpdate db u op1 tx ru tok le now = Inr (db', n))"
  unfolding claimTransaction_def Let_def ebind_Inr_iff
  by (elim exE conjE)
    (auto simp: ebind_Inr_iff simp del: min_less_iff_disj min_le_iff_disj split: option.split_asm if_split_asm)

lemma claimEvidence_step:
  assumes "db_ok c db" "claimEvidence c db j op1 tx now ms rms tok = Inr (db', out)"
  shows "db_step c db db'"
proof -
  obtain j' op2 tx2 tok' where "claimTransaction c db j' op2 tx2 now ms rms tok' = Inr (db', out)"
    using assms(2) by (auto simp: claimEvidence_def ebind_Inr_iff requireTime_def split: if_split_asm)
  then show ?thesis
    using claimTransaction_cases claimUpdate_step [OF assms(1)] db_step_refl [OF assms(1)] by blast
qed

lemma leased_awaiting: "check_ok u \<Longrightarrow> ulease u \<noteq> None \<Longrightarrow> ustate u = awaiting_burn"
  by (cases "ulease u") (simp_all add: check_ok_def state_check_def split: prod.splits)

lemma awaiting_unproved: "check_ok u \<Longrightarrow> ustate u = awaiting_burn \<Longrightarrow> uproof u = None \<and> reason_code u = None"
  by (simp add: check_ok_def state_check_def)

lemma expire_row_step: "ustate u = awaiting_burn \<Longrightarrow> job_step u (expire_row now u)"
  by (simp add: expire_row_def job_step_defs)

lemma expire_unproved_step: "ustate u = awaiting_burn \<Longrightarrow> job_step u (expire_unproved now u)"
  by (simp add: expire_unproved_def job_step_defs)

lemma expireAll_steps:
  assumes "db_ok c db" "expireAll db now ids = Inr db'" "distinct ids"
    and "\<And>j u. j \<in> set ids \<Longrightarrow> map_of (jobs db) j = Some u \<Longrightarrow> ustate u = awaiting_burn"
  shows "(db_step c)\<^sup>*\<^sup>* db db'"
  using assms
proof (induction ids arbitrary: db)
  case (Cons j ids)
  obtain db1 n where up: "sql_update [OtherColumns] db j (\<lambda>w. True) (expire_row now) = Inr (db1, n)"
    and rest: "expireAll db1 now ids = Inr db'"
    using Cons.prems(2) by (auto simp: ebind_Inr_iff)
  have s1: "db_step c db db1"
    using Cons.prems(1) up
  proof (rule unproved_step)
    fix u assume "map_of (jobs db) j = Some u" "check_ok u"
    then have "ustate u = awaiting_burn" "uproof u = None"
      using Cons.prems(4) [of j u] awaiting_unproved by auto
    then show "uproof u = None \<and> uproof (expire_row now u) = None \<and> job_step u (expire_row now u)"
      using expire_row_step by (simp add: expire_row_def)
  qed
  have "map_of (jobs db1) i = map_of (jobs db) i" if "i \<noteq> j" for i
    using up that by (cases rule: sql_update_InrE) (auto simp: update_conv)
  then have "ustate u = awaiting_burn" if "i \<in> set ids" "map_of (jobs db1) i = Some u" for i u
    using that Cons.prems(3,4) by (metis distinct.simps(2) list.set_intros(2))
  then have "(db_step c)\<^sup>*\<^sup>* db1 db'"
    using Cons.prems(3) by (intro Cons.IH [OF db_step_ok [OF Cons.prems(1) s1] rest]) auto
  with s1 show ?case by (rule converse_rtranclp_into_rtranclp)
qed simp

lemma expiryBatch_ids:
  assumes "db_ok c db"
  shows "distinct (expiryBatch db now limit)"
    and "j \<in> set (expiryBatch db now limit) \<Longrightarrow> \<exists>u. map_of (jobs db) j = Some u \<and> needs_reconcile now u"
proof -
  note d = db_okD [OF assms]
  have key: "job_id u = i" if "(i, u) \<in> set (jobs db)" for i u
    using that d(3,5) by auto
  have ids: "map job_id (map snd (jobs db)) = map fst (jobs db)"
    using key by (auto intro!: map_cong)
  then have "inj_on job_id (set (map snd (jobs db)))" "distinct (map snd (jobs db))"
    using d(3) by (metis distinct_map)+
  then have "distinct (map job_id (sort_key (\<lambda>u. (created_at u, job_id u)) (filter (needs_reconcile now) (map snd (jobs db)))))"
    by (auto simp: distinct_map intro: inj_on_subset)
  then show "distinct (expiryBatch db now limit)" by (simp add: expiryBatch_def)
  show "\<exists>u. map_of (jobs db) j = Some u \<and> needs_reconcile now u" if "j \<in> set (expiryBatch db now limit)"
    using that key d(3) unfolding expiryBatch_def by (fastforce dest: in_set_takeD)
qed

lemma needs_reconcile_awaiting: "check_ok u \<Longrightarrow> needs_reconcile now u \<Longrightarrow> ustate u = awaiting_burn"
  using leased_awaiting by (auto simp: needs_reconcile_def)

lemma expireBatch_steps:
  assumes ok: "db_ok c db" and e: "expireAll db now (expiryBatch db now limit) = Inr db'"
  shows "(db_step c)\<^sup>*\<^sup>* db db'"
proof (rule expireAll_steps [OF ok e expiryBatch_ids(1) [OF ok]])
  fix j u assume j: "j \<in> set (expiryBatch db now limit)" "map_of (jobs db) j = Some u"
  then have "needs_reconcile now u" using expiryBatch_ids(2) [OF ok] by fastforce
  then show "ustate u = awaiting_burn"
    using needs_reconcile_awaiting db_okD(6) [OF ok j(2)] by (auto simp: row_valid_def)
qed

lemma reconcileExpired_steps:
  assumes "db_ok c db" "unwind_reconcileExpired c db now limit = Inr (db', sts)"
  shows "(db_step c)\<^sup>*\<^sup>* db db'"
  using assms(2) expireBatch_steps [OF assms(1)]
  by (auto simp: unwind_reconcileExpired_def ebind_Inr_iff Let_def requireTime_def split: if_split_asm)

text \<open>Taking over the projection of the relay record leaves a valid row.\<close>

lemma validateProof_cong:
  "job_id v = job_id u \<Longrightarrow> kernel_address v = kernel_address u \<Longrightarrow> validateProof c v p = validateProof c u p"
  by (simp only: validateProof_def)

lemma projection_move:
  assumes "ustate u \<in> {relay_pending, relay_running}" "\<not> (ustate u = relay_running \<and> fst (relayProjection r) = relay_pending)"
  shows "unwind_move (ustate u) (fst (relayProjection r))"
  using assms by (cases "rstate r") (auto simp: relayProjection.simps)

lemma followRelay_cases:
  "followRelay c db j u now = Inr (db', st) \<Longrightarrow> db' = db
   \<or> (\<exists>p r n. uproof u = Some p \<and> map_of (relay db) (p_relay_exec_id p) = Some r
        \<and> \<not> (ustate u = relay_running \<and> fst (relayProjection r) = relay_pending)
        \<and> sql_update [OtherColumns] db j (\<lambda>w. ustate w \<in> {relay_pending, relay_running})
            (follow_row (relayProjection r) (max now (updated_at u))) = Inr (db', n))"
  unfolding followRelay_def
  by (auto simp: ebind_Inr_iff read_status_Inr split: option.split_asm if_split_asm)

lemma followRelay_write_step:
  assumes ok: "db_ok c db" and u: "map_of (jobs db) j = Some u" and r: "uproof u = Some p"
      "map_of (relay db) (p_relay_exec_id p) = Some r"
      "\<not> (ustate u = relay_running \<and> fst (relayProjection r) = relay_pending)"
    and up: "sql_update [OtherColumns] db j (\<lambda>w. ustate w \<in> {relay_pending, relay_running})
       (follow_row (relayProjection r) (max now (updated_at u))) = Inr (db', n)"
  shows "db_step c db db'"
  using ok up
proof (rule update_step)
  fix w assume w: "map_of (jobs db) j = Some w" "ustate w \<in> {relay_pending, relay_running}" "row_valid c (relay db) w"
  let ?v = "follow_row (relayProjection r) (max now (updated_at u)) w"
  have wu: "w = u" using w(1) u by simp
  have val: "validateProof c u p = Inr ()" "validateRelay c u p (Some r) = Inr ()"
    using w(3) r(1,2) wu by (simp_all add: row_valid_def validate_proof_split)
  then have "validateRelay c ?v p (Some r) = Inr ()"
    by (simp add: validateRelay_Inr follow_row_def)
  moreover have "validateProof c ?v p = Inr ()"
    using val(1) wu validateProof_cong [of ?v u c p] by (simp add: follow_row_def)
  moreover have "job_step w ?v"
    using projection_move [of u r] w(2) r(3) wu by (simp add: job_step_defs follow_row_def)
  ultimately show "job_step w ?v \<and> validateUnwindRow c ?v (map_of (relay db)) = Inr ()"
    using w(3) r(1,2) wu by (simp add: row_valid_def validate_proof_split follow_row_def)
qed

lemma followRelay_step:
  assumes ok: "db_ok c db" and u: "map_of (jobs db) j = Some u" and ex: "followRelay c db j u now = Inr (db', st)"
  shows "db_step c db db'"
  using followRelay_cases [OF ex] followRelay_write_step [OF ok u] db_step_refl [OF ok] by blast

lemma expire_unproved_write:
  assumes "db_ok c db" "sql_update [OtherColumns] db j (may_expire now) (expire_unproved now) = Inr (db', n)"
  shows "db_step c db db'"
  using assms
proof (rule unproved_step)
  fix v assume "may_expire now v" "check_ok v"
  then show "uproof v = None \<and> uproof (expire_unproved now v) = None \<and> job_step v (expire_unproved now v)"
    using awaiting_unproved expire_unproved_step
    by (simp add: may_expire_def overdue_def expire_unproved_def)
qed

lemma reconcileFromCctp_steps:
  assumes ok: "db_ok c db" and ex: "reconcileFromCctp c db j now = Inr (db', st)"
  shows "(db_step c)\<^sup>*\<^sup>* db db'"
proof -
  obtain j' where "canonicalJobId j = Inr j'" and ex':
    "(case select_job c db j' of
         Inl _ \<Rightarrow> Inl UNWIND_CONFLICT
       | Inr None \<Rightarrow> Inr (db, None)
       | Inr (Some u) \<Rightarrow>
           if may_expire now u then
             ebind (sql_update [OtherColumns] db j' (may_expire now) (expire_unproved now)) (\<lambda>(db', n).
               ebind (select_job c db' j') (\<lambda>w. case w of
                 None \<Rightarrow> Inr (db', None)
               | Some u' \<Rightarrow> followRelay c db' j' u' now))
           else followRelay c db j' u now) = Inr (db', st)"
    using ex by (auto simp: reconcileFromCctp_def ebind_Inr_iff requireTime_def split: if_split_asm)
  show ?thesis
  proof (cases "select_job c db j'")
    case (Inr ro)
    show ?thesis
    proof (cases ro)
      case (Some u)
      then have u: "map_of (jobs db) j' = Some u" using Inr by (simp add: select_job_Inr)
      show ?thesis
      proof (cases "may_expire now u")
        case True
        then obtain db1 n w where up: "sql_update [OtherColumns] db j' (may_expire now) (expire_unproved now) = Inr (db1, n)"
          and w: "map_of (jobs db1) j' = w"
          and rest: "(case w of None \<Rightarrow> Inr (db1, None) | Some u' \<Rightarrow> followRelay c db1 j' u' now) = Inr (db', st)"
          using ex' Inr Some by (auto simp: ebind_Inr_iff select_job_Inr)
        have s1: "db_step c db db1" using ok up by (rule expire_unproved_write)
        have "(db_step c)\<^sup>*\<^sup>* db1 db'"
          using rest followRelay_step [OF db_step_ok [OF ok s1], of j'] w by (cases w) auto
        with s1 show ?thesis by (rule converse_rtranclp_into_rtranclp)
      next
        case False
        with ex' Inr Some have "followRelay c db j' u now = Inr (db', st)" by simp
        then show ?thesis using followRelay_step [OF ok u] by blast
      qed
    qed (use ex' Inr in simp)
  qed (use ex' in simp)
qed

lemma sql_insert_Inr:
  "sql_insert db u = Inr db' \<longleftrightarrow>
     map_of (jobs db) (job_id u) = None \<and> check_ok u \<and> unique_ok db u
   \<and> db' = db\<lparr>jobs := AList.update (job_id u) u (jobs db)\<rparr>"
  by (auto simp: sql_insert_def)

lemma reserveTransaction_step:
  assumes ok: "db_ok c db" and ex: "reserveTransaction c db new now = Inr (db', st)" and fr: "fresh_job new"
  shows "db_step c db db'"
proof (cases "db' = db")
  case False
  then have "sql_insert db new = Inr db'" "\<exists>row. select_job c db' (job_id new) = Inr row"
    using ex unfolding reserveTransaction_def ebind_Inr_iff
    by - ((elim exE conjE), auto simp: ebind_Inr_iff split: option.split_asm if_split_asm)+
  then show ?thesis
    using db_okD [OF ok] fr
    by (auto simp: db_step_def sql_insert_Inr select_job_Inr row_valid_def update_conv intro: rows_evolve_refl)
qed (use db_step_refl [OF ok] in simp)

lemma reserve_step:
  assumes "db_ok c db" "unwind_reserve c db j cap k r d ex capEx now = Inr (db', st)"
  shows "db_step c db db'"
proof -
  obtain j' cap' k' r' d' where
    "reserveTransaction c db (newReservation j' cap' k' r' d' ex capEx now) now = Inr (db', st)"
    using assms(2) by (auto simp: unwind_reserve_def ebind_Inr_iff requireTime_def split: if_split_asm)
  with assms(1) show ?thesis
    by (rule reserveTransaction_step) (simp add: fresh_job_def newReservation_def)
qed

subsection \<open>Attaching enqueues the relay work of the burn\<close>

text \<open>
  The query for a rival identity finds a rival exactly when the relay store's own check over all
  its rows does, as long as the execution id is new and the rows are canonical.
\<close>

lemma relayIdentityConflicts_binds:
  "relayIdentityConflicts r d burn digest \<Longrightarrow> sourceDomain r = Some d \<and> burnTxHash r = Some burn"
  by (simp add: relayIdentityConflicts_def split: if_split_asm)

lemma relayRival_iff:
  assumes "canonical_rows (sha256 c) rs" "map_of rs eid = None"
  shows "relayRival c rs eid d burn digest \<longleftrightarrow> list_ex (\<lambda>r. relayIdentityConflicts r d burn digest) (js_values rs)"
proof -
  have v: "validatedCctpRow c r" "k \<noteq> eid" if "(k, r) \<in> set rs" for k r
    using that assms canonical_validated [OF assms(1), of k r] rows_ok_distinct [of rs]
    by (auto simp: canonical_rows_def map_of_eq_None_iff image_iff)
  show ?thesis
  proof
    assume "relayRival c rs eid d burn digest"
    then show "list_ex (\<lambda>r. relayIdentityConflicts r d burn digest) (js_values rs)"
      using v(1) by (force simp: relayRival_def list_ex_iff)
  next
    assume "list_ex (\<lambda>r. relayIdentityConflicts r d burn digest) (js_values rs)"
    then obtain k r where r: "(k, r) \<in> set rs" "relayIdentityConflicts r d burn digest"
      by (auto simp: list_ex_iff)
    then show "relayRival c rs eid d burn digest"
      using v(2) [OF r(1)] relayIdentityConflicts_binds [OF r(2)]
      unfolding relayRival_def list_ex_iff by (intro bexI [of _ "(k, r)"]) simp_all
  qed
qed

lemma attachRelay_enqueue:
  assumes "canonical_rows (sha256 c) rs" "attachRelay c rs eid burn e now = Inr rs'"
  shows "map_of rs eid = None
    \<and> (\<exists>r. enqueue (sha256 c) rs eid (JNum 6) (JStr burn) (expectation_js e) now = Inr (rs', r))"
proof -
  obtain r where d: "relayEnqueueDecision (sha256 c) (map_of rs eid) (relayRival c rs eid) eid (JNum 6) (JStr burn)
      (expectation_js e) now = Inr (r, True)" and rs': "rs' = AList.update eid r rs"
    using assms(2) by (auto simp: attachRelay_def split: if_split_asm sum.split_asm option.split_asm)
  have none: "map_of rs eid = None"
    using d by (cases "map_of rs eid") (auto simp: relayEnqueueDecision_def ebind_Inr_iff Let_def split: if_split_asm)
  have "relayRival c rs eid = (\<lambda>d burn digest. list_ex (\<lambda>r. relayIdentityConflicts r d burn digest) (js_values rs))"
    by (intro ext) (rule relayRival_iff [OF assms(1) none])
  then show ?thesis using d none rs' by (simp add: enqueue_def)
qed

lemma attachRelay_evolves:
  assumes "canonical_rows (sha256 c) rs" "attachRelay c rs eid burn e now = Inr rs'" "0 \<le> now"
  shows "rows_evolve rs rs'" "canonical_rows (sha256 c) rs'"
proof -
  obtain r where "enqueue (sha256 c) rs eid (JNum 6) (JStr burn) (expectation_js e) now = Inr (rs', r)"
    using attachRelay_enqueue [OF assms(1,2)] by blast
  note en = this
  have "rows_ok rs" using assms(1) by (simp add: canonical_rows_def)
  then show "rows_evolve rs rs'" using en by (rule enqueue_evolves)
  show "canonical_rows (sha256 c) rs'" using assms(1) en assms(3) by (rule enqueue_canonical)
qed

text \<open>Binding the candidate is a write of its own.\<close>

lemma attachCandidate_step:
  assumes ok: "db_ok c db" and u: "map_of (jobs db) j = Some u" and ex: "attachCandidate c db u p tok now = Inr (db', u')"
  shows "db_step c db db' \<and> map_of (jobs db') j = Some u' \<and> relay db' = relay db"
proof (cases "ucandidate u")
  case (Some k)
  then show ?thesis
    using ex u db_step_refl [OF ok] by (auto simp: attachCandidate_def split: if_split_asm)
next
  case None
  have j: "job_id u = j" using db_okD(5) [OF ok u] .
  obtain ru n where up: "sql_update [CandidateColumns, OtherColumns] db j
        (\<lambda>w. ustate w = awaiting_burn \<and> uproof w = None \<and> ucandidate w = None \<and> now < expires_at w)
        (\<lambda>w. (bind_candidate (pf_userOpHash p) (pf_unwindTxHash p) ru w)\<lparr>updated_at := now\<rparr>) = Inr (db', n)"
    and sel: "select_job c db' j = Inr (Some u')"
    using ex None unfolding attachCandidate_def Let_def ebind_Inr_iff j
    by (auto simp: ebind_Inr_iff split: if_split_asm option.split_asm)
  have "db_step c db db'"
    using ok up by (rule unproved_step) (simp add: job_step_defs bind_candidate_def)
  moreover have "relay db' = relay db" using up by (cases rule: sql_update_InrE) auto
  ultimately show ?thesis using sel by (simp add: select_job_Inr)
qed

lemma unique_ok_relay [simp]: "unique_ok (db\<lparr>relay := rs\<rparr>) u = unique_ok db u"
proof -
  have "user_op_taken (db\<lparr>relay := rs\<rparr>) = user_op_taken db" by (intro ext) (simp add: user_op_taken_def)
  then show ?thesis by (simp only: unique_ok_def)
qed

text \<open>The last write of an attach: the relay row, and the job with its proof.\<close>

lemma attach_final_step:
  assumes ok: "db_ok c db" and rel: "attachRelay c (relay db) eid burn e now = Inr rs" "0 \<le> now"
    and up: "sql_update gs (db\<lparr>relay := rs\<rparr>) j (\<lambda>w. ustate w = awaiting_burn \<and> uproof w = None \<and> names_candidate p w)
       (attach_row cols now) = Inr (db', n)" and n: "n = 1"
    and sel: "select_job c db' j = Inr ro"
  shows "db_step c db db'"
  using up
proof (cases rule: sql_update_InrE)
  case none
  with n show ?thesis by simp
next
  case (one u)
  have u: "map_of (jobs db) j = Some u" using one(1) by simp
  have j: "job_id u = j" using db_okD(5) [OF ok u] .
  have val: "validateUnwindRow c (attach_row cols now u) (map_of rs) = Inr ()"
    using sel one(6) by (auto simp: select_job_Inr update_conv)
  have "unique_ok db (attach_row cols now u)"
    using one(5) by simp
  moreover have "job_step u (attach_row cols now u)"
    using one(2) by (simp add: job_step_defs attach_row_def)
  moreover have "job_id (attach_row cols now u) = j" using j by (simp add: attach_row_def)
  ultimately show ?thesis
    using attachRelay_evolves [OF db_okD(1) [OF ok] rel] one(4) val u
    unfolding db_step_def one(6)
    by (intro conjI disjI2 exI [of _ j] exI [of _ "attach_row cols now u"]) (simp_all add: row_valid_def)
qed

text \<open>How an attach succeeds: as a duplicate that writes nothing, or by its two writes.\<close>

lemma attachTransaction_InrE:
  assumes "attachTransaction c fault db j pv e tok now = Inr (db', dup, st)"
  obtains (duplicate) u p q where "map_of (jobs db) j = Some u" "canonicalProof c pv e (job_id u) (kernel_address u) = Inr p"
      "uproof u = Some q" "same_proof q (proofColumns c e p (execIdOf j))" "db' = db" "dup"
    | (attached) u p db1 u1 rs n ro where "map_of (jobs db) j = Some u"
      "canonicalProof c pv e (job_id u) (kernel_address u) = Inr p" "uproof u = None" "ustate u = awaiting_burn"
      "attachCandidate c db u p tok now = Inr (db1, u1)" "attachLease u1 tok now = Inr ()"
      "attachRelay c (relay db1) (execIdOf j) (pf_unwindTxHash p) e now = Inr rs"
      "sql_update [ProofColumns, OtherColumns] (db1\<lparr>relay := rs\<rparr>) j
         (\<lambda>w. ustate w = awaiting_burn \<and> uproof w = None \<and> names_candidate p w)
         (attach_row (proofColumns c e p (execIdOf j)) now) = Inr (db', n)" "n = 1"
      "select_job c db' j = Inr ro" "\<not> dup" "st = map_option publicStatus ro"
proof -
  obtain row where row: "select_job c db j = Inr row"
    and r1: "(case row of None \<Rightarrow> Inl UNWIND_UNAUTHORIZED | Some u \<Rightarrow>
     ebind (canonicalProof c pv e (job_id u) (kernel_address u)) (\<lambda>p.
       let cols = proofColumns c e p (execIdOf j) in
       case uproof u of
         Some q \<Rightarrow> if same_proof q cols then Inr (db, True, Some (publicStatus u)) else Inl UNWIND_CONFLICT
       | None \<Rightarrow>
           if ustate u \<noteq> awaiting_burn then Inl UNWIND_CONFLICT
           else ebind (attachCandidate c db u p tok now) (\<lambda>(db1, u1).
             ebind (attachLease u1 tok now) (\<lambda>_.
             if user_op_taken db1 j (pf_userOpHash p) then Inl UNWIND_CONFLICT
             else ebind (attachRelay c (relay db1) (execIdOf j) (pf_unwindTxHash p) e now) (\<lambda>rs.
             if fault ''relay_insert'' then Inl AttachFault
             else ebind (sql_update [ProofColumns, OtherColumns] (db1\<lparr>relay := rs\<rparr>) j
                 (\<lambda>w. ustate w = awaiting_burn \<and> uproof w = None \<and> names_candidate p w) (attach_row cols now)) (\<lambda>(db2, n).
             if n \<noteq> 1 then Inl UNWIND_CAS_CONFLICT
             else if fault ''unwind_update'' then Inl AttachFault
             else ebind (read_status c db2 j) (\<lambda>(db3, st). Inr (db3, False, st)))))))) = Inr (db', dup, st)"
    using assms unfolding attachTransaction_def ebind_Inr_iff by blast
  then obtain u where u: "row = Some u" by (cases row) auto
  then obtain p where p: "canonicalProof c pv e (job_id u) (kernel_address u) = Inr p"
    using r1 by (auto simp: ebind_Inr_iff)
  show thesis
  proof (cases "uproof u")
    case (Some q)
    then show thesis
      using duplicate [of u p q] r1 u p row by (auto simp: select_job_Inr split: if_split_asm)
  next
    case None
    then show thesis
      using r1 u p row attached [OF _ p]
      by (auto simp: select_job_Inr ebind_Inr_iff read_status_Inr split: if_split_asm)
  qed
qed

lemma attach_steps:
  assumes ok: "db_ok c db" and ex: "attachAndEnqueue c fault db jv pv ev eid tok now = Inr (db', dup, st)"
  shows "(db_step c)\<^sup>*\<^sup>* db db'"
proof -
  obtain j e where at: "attachTransaction c fault db j pv e (null_default tok) now = Inr (db', dup, st)" and t: "0 \<le> now"
    using ex by (auto simp: attachAndEnqueue_def ebind_Inr_iff requireTime_def split: if_split_asm sum.split_asm)
  from at show ?thesis
  proof (cases rule: attachTransaction_InrE)
    case duplicate
    then show ?thesis by simp
  next
    case (attached u p db1 u1 rs n ro)
    have s1: "db_step c db db1" using attachCandidate_step [OF ok attached(1,5)] by simp
    have "db_step c db1 db'"
      using attach_final_step [OF db_step_ok [OF ok s1] attached(7) t attached(8,9,10)] .
    with s1 show ?thesis by auto
  qed
qed

subsection \<open>The invariant holds under every run\<close>

lemma relay_op_step:
  assumes ok: "db_ok c db" and "disciplined (relay db) op"
  shows "db_step c db (db\<lparr>relay := store_apply (sha256 c) (relay db) op\<rparr>)"
proof -
  have "rows_evolve (relay db) (store_apply (sha256 c) (relay db) op)"
    using db_okD(2) [OF ok] by (rule store_apply_evolves)
  moreover have "canonical_rows (sha256 c) (store_apply (sha256 c) (relay db) op)"
    using db_okD(1) [OF ok] assms(2) by (rule store_apply_canonical)
  ultimately show ?thesis by (simp add: db_step_def)
qed

lemma unwind_apply_steps:
  assumes ok: "db_ok c db" and d: "op_disciplined db op"
  shows "(db_step c)\<^sup>*\<^sup>* db (unwind_apply c db op)"
proof (cases "unwind_exec c db op")
  case (Inr db')
  have "(db_step c)\<^sup>*\<^sup>* db db'"
  proof (cases op)
    case (RelayOp op')
    then show ?thesis using Inr d relay_op_step [OF ok] by auto
  next
    case (AttachProof fs j pv ev eid tok now)
    then show ?thesis using Inr attach_steps [OF ok] by (auto simp: db_of_Inr)
  qed (use Inr in \<open>auto simp: db_of_Inr unwind_finishBlocked_def unwind_finishUncertain_def
      dest: reserve_step [OF ok] claimEvidence_step [OF ok] renewEvidence_step [OF ok]
        releaseEvidence_step [OF ok] finishTerminal_step [OF ok]
      intro: reconcileExpired_steps [OF ok] reconcileFromCctp_steps [OF ok]\<close>)
  with Inr show ?thesis by (simp add: unwind_apply_def)
qed (simp add: unwind_apply_def)

lemma unwind_run_steps:
  assumes "db_ok c db" "run_disciplined c db ops"
  shows "(db_step c)\<^sup>*\<^sup>* db (run_ops (unwind_apply c) db ops)"
  using assms
proof (induction ops arbitrary: db)
  case (Cons op ops)
  have s: "(db_step c)\<^sup>*\<^sup>* db (unwind_apply c db op)"
    using unwind_apply_steps [OF Cons.prems(1)] Cons.prems(2) by simp
  then have "(db_step c)\<^sup>*\<^sup>* (unwind_apply c db op) (run_ops (unwind_apply c) (unwind_apply c db op) ops)"
    using Cons.prems by (intro Cons.IH db_steps_ok [OF s]) auto
  with s show ?case by simp
qed simp

lemma unwind_run_ok:
  "db_ok c db \<Longrightarrow> run_disciplined c db ops \<Longrightarrow> db_ok c (run_ops (unwind_apply c) db ops)"
  using db_steps_ok unwind_run_steps by blast

end
