(* ===== verification/UnwindOutcome.thy ===== *)
theory UnwindOutcome
  imports UnwindSafety
begin

section \<open>What an unwind job ends with\<close>

text \<open>
  The properties of the unwind store over whole runs (their witnesses are in \<open>UnwindDemo\<close>): reads never
  fail, authority is written once, the outcome of an attached job is the outcome of the relay
  record it enqueued, and the errors a write can and cannot raise.
\<close>

subsection \<open>Canonical values are fixed points\<close>

lemma hex0x_lower:
  assumes "hex0x n s"
  shows "lower_hex0x n (toLowerCase s)" "hex0x n (toLowerCase s)"
proof -
  obtain t where t: "s = CHR ''0'' # CHR ''x'' # t" "length t = n" "list_all is_hex t"
    using assms by (auto simp: hex0x_def startsWith0x_conv)
  then have l: "list_all is_lhex (toLowerCase t)" by (simp add: list_all_lhex_lower)
  then have "list_all is_hex (toLowerCase t)" by (rule list.pred_mono_strong) (rule lhex_is_hex)
  with t l show "lower_hex0x n (toLowerCase s)" "hex0x n (toLowerCase s)"
    by (simp_all add: hex0x_def lower_hex0x_def lower_hex_def startsWith0x_conv)
qed

lemma canonicalHash_Inr: "canonicalHash v = Inr h \<Longrightarrow> canonicalHash (JStr h) = Inr h \<and> lower_hex0x 64 h"
  by (cases v) (auto simp: hex0x_lower split: if_split_asm)

lemma canonicalAddress_Inr: "canonicalAddress v = Inr h \<Longrightarrow> canonicalAddress (JStr h) = Inr h \<and> address_column h"
  by (cases v) (auto simp: hex0x_lower address_column_def split: if_split_asm)

lemma canonicalDigest_Inr: "canonicalDigest v = Inr h \<Longrightarrow> canonicalDigest (JStr h) = Inr h \<and> lower_hex 64 h"
  by (cases v) (auto split: if_split_asm)

lemma canonicalDecimal_Inr: "canonicalDecimal v = Inr h \<Longrightarrow> canonicalDecimal (JStr h) = Inr h \<and> DECIMAL_RE h"
  by (cases v) (auto split: if_split_asm)

lemma canonicalEvenHex_Inr: "canonicalEvenHex v = Inr h \<Longrightarrow> canonicalEvenHex (JStr h) = Inr h \<and> HOOK_DATA_RE h"
  by (cases v) (auto split: if_split_asm)

lemma canonicalIndex_Inr: "canonicalIndex v = Inr n \<Longrightarrow> canonicalIndex (JNum n) = Inr n \<and> 0 \<le> n"
  by (cases v) (auto split: if_split_asm)

lemma read_logs_fix:
  assumes "read_logs f v = Inr l" and "\<And>w x. f w = Inr x \<Longrightarrow> f (mk x) = Inr x \<and> P x"
  shows "read_logs f (logs_js mk l) = Inr l"
    and "P (messageSent l) \<and> P (depositForBurn l) \<and> P (swept l) \<and> P (userOperationEvent l)"
proof -
  obtain a b d e where l: "f (js_get v ''messageSent'') = Inr a" "f (js_get v ''depositForBurn'') = Inr b"
      "f (js_get v ''swept'') = Inr d" "f (js_get v ''userOperationEvent'') = Inr e"
      "l = \<lparr>messageSent = a, depositForBurn = b, swept = d, userOperationEvent = e\<rparr>"
    using assms(1) by (auto simp: read_logs_def ebind_Inr_iff)
  then show "read_logs f (logs_js mk l) = Inr l"
    "P (messageSent l) \<and> P (depositForBurn l) \<and> P (swept l) \<and> P (userOperationEvent l)"
    using assms(2) by (auto simp: read_logs_def logs_js_def)
qed

lemma js_get_proof [simp]:
  "js_get (proof_js p) ''version'' = JNum 1"
  "js_get (proof_js p) ''chainId'' = JNum 84532"
  "js_get (proof_js p) ''userOpHash'' = JStr (pf_userOpHash p)"
  "js_get (proof_js p) ''jobCommitment'' = JStr (pf_jobCommitment p)"
  "js_get (proof_js p) ''unwindTxHash'' = JStr (pf_unwindTxHash p)"
  "js_get (proof_js p) ''entryPointAddress'' = JStr (pf_entryPointAddress p)"
  "js_get (proof_js p) ''kernelAddress'' = JStr (pf_kernelAddress p)"
  "js_get (proof_js p) ''blockNumber'' = JStr (pf_blockNumber p)"
  "js_get (proof_js p) ''blockHash'' = JStr (pf_blockHash p)"
  "js_get (proof_js p) ''userOpNonce'' = JStr (pf_userOpNonce p)"
  "js_get (proof_js p) ''burned'' = JStr (pf_burned p)"
  "js_get (proof_js p) ''exited'' = JStr (pf_exited p)"
  "js_get (proof_js p) ''skipped'' = JStr (pf_skipped p)"
  "js_get (proof_js p) ''maxFee'' = JStr (pf_maxFee p)"
  "js_get (proof_js p) ''hookData'' = JStr (pf_hookData p)"
  "js_get (proof_js p) ''sourceMessageHex'' = JStr (pf_sourceMessageHex p)"
  "js_get (proof_js p) ''sourceMessageDigest'' = JStr (pf_sourceMessageDigest p)"
  "js_get (proof_js p) ''logIndices'' = logs_js JNum (pf_logIndices p)"
  "js_get (proof_js p) ''logDigests'' = logs_js JStr (pf_logDigests p)"
  by (simp_all add: proof_js_def)

lemma proof_js_keys [simp]:
  "exactKeys (proof_js p) PROOF_KEYS" "exactKeys (logs_js mk l) LOG_NAMES"
  by (simp_all add: exactKeys_def proof_js_def PROOF_KEYS_def logs_js_def LOG_NAMES_def)

text \<open>The canonical form of a proof is its own canonical form, column by column as the table wants it.\<close>

definition proof_fields_ok :: "canonical_proof \<Rightarrow> bool" where
  "proof_fields_ok p \<longleftrightarrow>
     lower_hex0x 64 (pf_userOpHash p) \<and> lower_hex0x 64 (pf_unwindTxHash p) \<and> address_column (pf_entryPointAddress p)
   \<and> DECIMAL_RE (pf_blockNumber p) \<and> lower_hex0x 64 (pf_blockHash p)
   \<and> DECIMAL_RE (pf_burned p) \<and> DECIMAL_RE (pf_exited p) \<and> DECIMAL_RE (pf_skipped p) \<and> DECIMAL_RE (pf_maxFee p)
   \<and> HOOK_DATA_RE (pf_hookData p) \<and> HOOK_DATA_RE (pf_sourceMessageHex p) \<and> lower_hex 64 (pf_sourceMessageDigest p)"

lemma proofFields_fix:
  assumes "proofFields v = Inr p"
  shows "proofFields (proof_js p) = Inr p" and "proof_fields_ok p"
proof -
  obtain ix dg op1 jc tx ep ka bn bh nonce burned exited skipped maxFee hook msg md where
    logs: "read_logs canonicalIndex (js_get v ''logIndices'') = Inr ix"
      "read_logs canonicalDigest (js_get v ''logDigests'') = Inr dg"
    and hs: "canonicalHash (js_get v ''userOpHash'') = Inr op1" "canonicalHash (js_get v ''jobCommitment'') = Inr jc"
      "canonicalHash (js_get v ''unwindTxHash'') = Inr tx" "canonicalHash (js_get v ''blockHash'') = Inr bh"
    and ad: "canonicalAddress (js_get v ''entryPointAddress'') = Inr ep" "canonicalAddress (js_get v ''kernelAddress'') = Inr ka"
    and dc: "canonicalDecimal (js_get v ''blockNumber'') = Inr bn" "canonicalDecimal (js_get v ''userOpNonce'') = Inr nonce"
      "canonicalDecimal (js_get v ''burned'') = Inr burned" "canonicalDecimal (js_get v ''exited'') = Inr exited"
      "canonicalDecimal (js_get v ''skipped'') = Inr skipped" "canonicalDecimal (js_get v ''maxFee'') = Inr maxFee"
    and hx: "canonicalEvenHex (js_get v ''hookData'') = Inr hook" "canonicalEvenHex (js_get v ''sourceMessageHex'') = Inr msg"
    and dg1: "canonicalDigest (js_get v ''sourceMessageDigest'') = Inr md"
    and p: "p = \<lparr>pf_userOpHash = op1, pf_jobCommitment = jc, pf_unwindTxHash = tx, pf_entryPointAddress = ep,
            pf_kernelAddress = ka, pf_blockNumber = bn, pf_blockHash = bh, pf_userOpNonce = nonce,
            pf_burned = burned, pf_exited = exited, pf_skipped = skipped, pf_maxFee = maxFee,
            pf_hookData = hook, pf_sourceMessageHex = msg, pf_sourceMessageDigest = md,
            pf_logIndices = ix, pf_logDigests = dg\<rparr>"
    using assms unfolding proofFields_def ebind_Inr_iff by blast
  note f = hs [THEN canonicalHash_Inr] ad [THEN canonicalAddress_Inr] dc [THEN canonicalDecimal_Inr]
    hx [THEN canonicalEvenHex_Inr] dg1 [THEN canonicalDigest_Inr]
  show "proofFields (proof_js p) = Inr p"
    using f read_logs_fix(1) [OF logs(1) canonicalIndex_Inr] read_logs_fix(1) [OF logs(2) canonicalDigest_Inr]
    unfolding p proofFields_def by (simp del: canonicalHash.simps canonicalAddress.simps canonicalDecimal.simps
        canonicalEvenHex.simps canonicalDigest.simps)
  show "proof_fields_ok p" using f unfolding p proof_fields_ok_def by simp
qed

lemma canonicalProof_fix:
  assumes "canonicalProof c v e j ka = Inr p"
  shows "canonicalProof c (proof_js p) e j ka = Inr p"
proof -
  obtain j' where "proofFields v = Inr p" "canonicalJobId (JStr j) = Inr j'"
    "pf_kernelAddress p = ka" "pf_jobCommitment p = jobCommitment c j'" "pf_burned p \<noteq> ''0''" "pf_burned p = e_amount e"
    "pf_maxFee p = e_maxFee e" "pf_hookData p = e_hookData e"
    using assms by (auto simp: canonicalProof_def ebind_Inr_iff simp del: canonicalJobId.simps split: if_split_asm)
  then show ?thesis
    using proofFields_fix(1) [of v p] by (simp add: canonicalProof_def del: canonicalJobId.simps)
qed

subsection \<open>Errors a write can raise\<close>

text \<open>Neither a trigger nor the validation of a stored row stopped the operation.\<close>

definition benign :: "unwind_error \<Rightarrow> bool" where
  "benign err \<longleftrightarrow> err \<noteq> SQLITE_ABORT \<and> (\<forall>k. err \<noteq> Integrity k)"

lemma benign_simps [simp]:
  "benign UNWIND_VALIDATION" "benign UNWIND_CONFLICT" "benign UNWIND_UNAUTHORIZED" "benign UNWIND_CAS_CONFLICT"
  "benign SQLITE_CONSTRAINT" "benign (RelayError e)" "benign AttachFault" "\<not> benign SQLITE_ABORT" "\<not> benign (Integrity k)"
  by (simp_all add: benign_def)

lemma canonical_Inl:
  "canonicalJobId v = Inl e \<Longrightarrow> e = UNWIND_VALIDATION"
  "canonicalDigest v = Inl e \<Longrightarrow> e = UNWIND_VALIDATION"
  "canonicalAddress v = Inl e \<Longrightarrow> e = UNWIND_VALIDATION"
  "canonicalRecipient c v = Inl e \<Longrightarrow> e = UNWIND_VALIDATION"
  "canonicalHash v = Inl e \<Longrightarrow> e = UNWIND_VALIDATION"
  "canonicalDecimal v = Inl e \<Longrightarrow> e = UNWIND_VALIDATION"
  "canonicalEvenHex v = Inl e \<Longrightarrow> e = UNWIND_VALIDATION"
  "canonicalIndex v = Inl e \<Longrightarrow> e = UNWIND_VALIDATION"
  "requireTime n = Inl e \<Longrightarrow> e = UNWIND_VALIDATION"
  "heldToken v = Inl e \<Longrightarrow> e = UNWIND_VALIDATION"
  "optional_token v = Inl e \<Longrightarrow> e = UNWIND_VALIDATION"
  "leaseTokenValue v = Inl e \<Longrightarrow> e = UNWIND_CAS_CONFLICT"
  by (cases v; auto simp: requireTime_def split: if_split_asm; fail)+

lemma select_ok: "db_ok c db \<Longrightarrow> select_job c db j = Inr (map_of (jobs db) j)"
  using db_okD(6) by (auto simp: select_job_Inr row_valid_def)

lemma update_Inl:
  "sql_update gs db j wh f = Inl err \<Longrightarrow> (\<And>u. wh u \<Longrightarrow> \<not> trigger_aborts gs u) \<Longrightarrow> err = SQLITE_CONSTRAINT"
  by (auto simp: sql_update_def split: option.split_asm if_split_asm)

lemma no_trigger [simp]:
  "\<not> trigger_aborts [OtherColumns] u"
  "ucandidate u = None \<Longrightarrow> \<not> trigger_aborts [CandidateColumns, OtherColumns] u"
  "uproof u = None \<Longrightarrow> \<not> trigger_aborts [ProofColumns, OtherColumns] u"
  by (simp_all add: trigger_aborts_def)

lemma read_status_ok: "db_ok c db \<Longrightarrow> read_status c db j = Inr (db, map_option publicStatus (map_of (jobs db) j))"
  by (simp add: read_status_def select_ok)

lemma renewEvidence_benign:
  assumes "renewEvidence db j tok now ms = Inl err"
  shows "benign err"
  using assms
  by (auto simp: renewEvidence_def ebind_Inl_iff simp del: canonicalJobId.simps heldToken.simps
      dest!: canonical_Inl update_Inl split: if_split_asm)

lemma releaseEvidence_benign:
  assumes ok: "db_ok c db" and ex: "releaseEvidence c db j tok now = Inl err"
  shows "benign err"
proof -
  have "db_ok c db'" if "sql_update [OtherColumns] db j'
       (\<lambda>w. ustate w = awaiting_burn \<and> uproof w = None \<and> holds_lease w tok' at)
       (\<lambda>w. w\<lparr>ulease := None, updated_at := at\<rparr>) = Inr (db', n)" for j' tok' at db' n
    by (rule db_step_ok [OF ok], rule unproved_step [OF ok that]) (simp add: job_step_defs)
  then show ?thesis
    using ex by (auto simp: releaseEvidence_def ebind_Inl_iff read_status_ok simp del: canonicalJobId.simps heldToken.simps
        dest!: canonical_Inl update_Inl split: if_split_asm)
qed

lemma finishTransaction_benign:
  assumes ok: "db_ok c db" and ex: "finishTransaction c db j tok why now s = Inl err" and s: "s \<in> {unwind_blocked, unwind_uncertain}"
  shows "benign err"
proof -
  have up: "read_status c db' j = Inr (db', map_option publicStatus (map_of (jobs db') j))"
    if "sql_update [OtherColumns] db j (finishable tok now) (finish_row s why now) = Inr (db', n)" for db' n
    by (rule read_status_ok, rule db_step_ok [OF ok], rule unproved_step [OF ok that])
      (use s in \<open>auto simp: job_step_defs finishable_def finish_row_def\<close>)
  show ?thesis
    using ex unfolding finishTransaction_def select_ok [OF ok]
    by (cases "map_of (jobs db) j")
      (auto simp: ebind_Inl_iff dest!: update_Inl up split: if_split_asm)
qed

lemma finishTerminal_benign:
  assumes "db_ok c db" "finishTerminal c db j tok why now s rs = Inl err" "s \<in> {unwind_blocked, unwind_uncertain}"
  shows "benign err"
  using assms(2) finishTransaction_benign [OF assms(1) _ assms(3)]
  by (auto simp: finishTerminal_def ebind_Inl_iff simp del: canonicalJobId.simps optional_token.simps
      dest!: canonical_Inl split: if_split_asm)

lemma claimUpdate_Inl: "claimUpdate db u op1 tx ru tok le now = Inl err \<Longrightarrow> err = SQLITE_CONSTRAINT"
  unfolding claimUpdate_def by (auto dest!: update_Inl split: if_split_asm)

lemma claimEvidence_benign:
  assumes ok: "db_ok c db" and ex: "claimEvidence c db j op1 tx now ms rms tok = Inl err"
  shows "benign err"
proof -
  have "benign err" if "claimTransaction c db j' op2 tx2 at ms' rms' tok' = Inl err" for j' op2 tx2 at ms' rms' tok'
  proof -
    have up: "select_job c db' j' = Inr (map_of (jobs db') j')" if "claimUpdate db u op2 tx2 ru tok' le at = Inr (db', n)" for db' u ru le n
      using select_ok [OF db_step_ok [OF ok claimUpdate_step [OF ok that]]] .
    show ?thesis
      using that unfolding claimTransaction_def select_ok [OF ok] Let_def
      by (cases "map_of (jobs db) j'")
        (auto simp: ebind_Inl_iff simp del: min_less_iff_disj min_le_iff_disj dest!: claimUpdate_Inl up split: if_split_asm)
  qed
  then show ?thesis
    using ex by (auto simp: claimEvidence_def ebind_Inl_iff simp del: canonicalJobId.simps canonicalHash.simps leaseTokenValue.simps
        dest!: canonical_Inl split: if_split_asm)
qed

lemma expireAll_Inl: "expireAll db now ids = Inl err \<Longrightarrow> err = SQLITE_CONSTRAINT"
  by (induction ids arbitrary: db) (auto simp: ebind_Inl_iff dest!: update_Inl)

lemma readAllStatus_ok: "db_ok c db \<Longrightarrow> \<exists>sts. readAllStatus c db ids = Inr sts"
  by (induction ids) (auto simp: select_ok)

lemma reconcileExpired_benign:
  assumes ok: "db_ok c db" and ex: "unwind_reconcileExpired c db now limit = Inl err"
  shows "benign err"
proof (cases "safe_int now \<and> 0 \<le> now \<and> safe_int limit \<and> 0 < limit")
  case True
  show ?thesis
  proof (cases "expireAll db now (expiryBatch db now limit)")
    case (Inr db')
    then obtain sts where "readAllStatus c db' (expiryBatch db now limit) = Inr sts"
      using readAllStatus_ok db_steps_ok [OF expireBatch_steps [OF ok Inr] ok] by blast
    with Inr ex True show ?thesis by (simp add: unwind_reconcileExpired_def requireTime_def)
  next
    case (Inl e)
    with ex True expireAll_Inl [OF Inl] show ?thesis by (simp add: unwind_reconcileExpired_def requireTime_def)
  qed
qed (use ex in \<open>auto simp: unwind_reconcileExpired_def requireTime_def split: if_split_asm\<close>)

lemma followRelay_benign:
  assumes ok: "db_ok c db" and u: "map_of (jobs db) j = Some u" and ex: "followRelay c db j u now = Inl err"
  shows "benign err"
proof (cases "uproof u")
  case (Some p)
  have st: "read_status c db' j = Inr (db', map_option publicStatus (map_of (jobs db') j))"
    if "map_of (relay db) (p_relay_exec_id p) = Some r" "\<not> (ustate u = relay_running \<and> fst (relayProjection r) = relay_pending)"
      "sql_update [OtherColumns] db j (\<lambda>w. ustate w \<in> {relay_pending, relay_running})
         (follow_row (relayProjection r) (max now (updated_at u))) = Inr (db', n)" for r db' n
    by (rule read_status_ok, rule db_step_ok [OF ok], rule followRelay_write_step [OF ok u Some that])
  show ?thesis
  proof (cases "map_of (relay db) (p_relay_exec_id p)")
    case None
    with ex Some show ?thesis by (simp add: followRelay_def)
  next
    case (Some r)
    show ?thesis
    proof (cases "sql_update [OtherColumns] db j (\<lambda>w. ustate w \<in> {relay_pending, relay_running})
         (follow_row (relayProjection r) (max now (updated_at u)))")
      case (Inl e)
      then have "e = SQLITE_CONSTRAINT" by (auto dest: update_Inl)
      with Inl ex \<open>uproof u = Some p\<close> Some show ?thesis
        by (auto simp: followRelay_def split: if_split_asm)
    next
      case (Inr dn)
      with st [OF Some] ex \<open>uproof u = Some p\<close> Some show ?thesis
        by (cases dn) (auto simp: followRelay_def split: if_split_asm)
    qed
  qed
qed (use ex in \<open>simp add: followRelay_def\<close>)

lemma reconcileFromCctp_benign:
  assumes ok: "db_ok c db" and ex: "reconcileFromCctp c db j now = Inl err"
  shows "benign err"
proof (cases "canonicalJobId j")
  case (Inr j')
  show ?thesis
  proof (cases "safe_int now \<and> 0 \<le> now")
    case True
    note sel = select_ok [OF ok, of j']
    show ?thesis
    proof (cases "map_of (jobs db) j'")
      case (Some u)
      show ?thesis
      proof (cases "may_expire now u")
        case False
        with ex Inr True sel Some have "followRelay c db j' u now = Inl err"
          by (simp add: reconcileFromCctp_def requireTime_def)
        with followRelay_benign [OF ok Some] show ?thesis by simp
      next
        case e: True
        show ?thesis
        proof (cases "sql_update [OtherColumns] db j' (may_expire now) (expire_unproved now)")
          case up: (Inr dn)
          obtain db1 n where dn: "dn = (db1, n)" by (cases dn)
          have ok1: "db_ok c db1" using db_step_ok [OF ok expire_unproved_write [OF ok up [unfolded dn]]] .
          have "\<exists>u1. map_of (jobs db1) j' = Some u1 \<and> followRelay c db1 j' u1 now = Inl err"
            using ex Inr True sel Some e up dn select_ok [OF ok1, of j']
            by (auto simp: reconcileFromCctp_def requireTime_def split: option.split_asm)
          then show ?thesis using followRelay_benign [OF ok1] by blast
        next
          case (Inl e')
          with update_Inl [OF Inl] ex \<open>canonicalJobId j = Inr j'\<close> True sel Some e show ?thesis
            by (simp add: reconcileFromCctp_def requireTime_def)
        qed
      qed
    qed (use ex Inr True sel in \<open>simp add: reconcileFromCctp_def requireTime_def\<close>)
  qed (use ex Inr in \<open>auto simp: reconcileFromCctp_def requireTime_def\<close>)
qed (use ex canonical_Inl(1) in \<open>fastforce simp: reconcileFromCctp_def\<close>)

lemma reserveTransaction_benign:
  assumes ok: "db_ok c db" and ex: "reserveTransaction c db new now = Inl err"
    and val: "validateUnwindRow c new (map_of (relay db)) = Inr ()"
  shows "benign err"
proof (cases "map_of (jobs db) (job_id new)")
  case None
  show ?thesis
  proof (cases "sql_insert db new")
    case (Inl e)
    then have "e = SQLITE_CONSTRAINT" by (auto simp: sql_insert_def split: if_split_asm)
    with Inl ex None select_ok [OF ok] show ?thesis by (simp add: reserveTransaction_def)
  next
    case (Inr db')
    then have "select_job c db' (job_id new) = Inr (Some new)"
      using val by (auto simp: sql_insert_Inr select_job_Inr update_conv)
    with Inr ex None select_ok [OF ok] show ?thesis by (simp add: reserveTransaction_def)
  qed
qed (use ex select_ok [OF ok] in \<open>auto simp: reserveTransaction_def split: if_split_asm\<close>)

lemma newReservation_valid:
  assumes "canonicalRecipient c v = Inr r" "d = reserveDigest c (reserveValue j k r)"
  shows "validateUnwindRow c (newReservation j cap k r d ex capEx now) rs = Inr ()"
  using assms by (cases v) (auto simp: validate_proof_split newReservation_def split: if_split_asm)

lemma reserve_benign:
  assumes ok: "db_ok c db" and ex: "unwind_reserve c db j cap k r d ex capEx now = Inl err"
  shows "benign err"
  using ex reserveTransaction_benign [OF ok] newReservation_valid
  by (auto simp: unwind_reserve_def ebind_Inl_iff
      simp del: canonicalJobId.simps canonicalDigest.simps canonicalAddress.simps canonicalRecipient.simps
      dest!: canonical_Inl split: if_split_asm)

lemma read_logs_Inl: "read_logs f v = Inl err \<Longrightarrow> \<exists>w. f w = Inl err"
  by (auto simp: read_logs_def ebind_Inl_iff)

lemma canonicalProof_Inl: "canonicalProof c v e j ka = Inl err \<Longrightarrow> err \<in> {UNWIND_VALIDATION, UNWIND_CONFLICT}"
proof -
  have "proofFields v = Inl err \<Longrightarrow> err = UNWIND_VALIDATION"
    unfolding proofFields_def ebind_Inl_iff by (elim disjE exE conjE) (auto dest: canonical_Inl dest!: read_logs_Inl)
  moreover assume "canonicalProof c v e j ka = Inl err"
  ultimately show ?thesis
    by (auto simp: canonicalProof_def ebind_Inl_iff simp del: canonicalJobId.simps dest: canonical_Inl split: if_split_asm)
qed

text \<open>The relay row a successful \<open>attachRelay\<close> inserts.\<close>

lemma normalize_lower_burn:
  assumes "lower_hex0x 64 b"
  shows "normalizeBurnTxHash (JNum 6) (JStr b) = Inr b"
proof -
  obtain t where t: "b = CHR ''0'' # CHR ''x'' # t" "length t = 64" "list_all is_lhex t"
    using assms by (auto simp: lower_hex0x_def lower_hex_def startsWith0x_conv)
  have "list_all is_hex t" using t(3) by (rule list.pred_mono_strong) (rule lhex_is_hex)
  with t show ?thesis
    by (simp add: normalizeBurnTxHash.simps normalizeSourceDomain_def STELLAR_DOMAIN_def BASE_DOMAIN_def baseHash_def
        HEX64_CI_RE_def startsWith0x_conv)
qed

lemma attachRelay_row:
  assumes can: "canonical_rows (sha256 c) rs" and ex: "attachRelay c rs eid burn e now = Inr rs'"
    and e: "canonical_fields e" and b: "lower_hex0x 64 burn"
  obtains r where "map_of rs' eid = Some r" "sourceDomain r = Some 6" "burnTxHash r = Some burn"
    "r_expectation r = Some e" "r_expectationDigest r = Some (expectationDigest (sha256 c) e)"
    "rstate r = attestation_pending"
proof -
  obtain r where none: "map_of rs eid = None"
    and en: "enqueue (sha256 c) rs eid (JNum 6) (JStr burn) (expectation_js e) now = Inr (rs', r)"
    using attachRelay_enqueue [OF can ex] by blast
  from en show thesis
  proof (cases rule: enqueue_InrE)
    case retry
    with none show thesis by simp
  next
    case (fresh d e' burn')
    have "e' = e" using fresh(2) canonicalizeExpectation_of_fields [OF e] by simp
    moreover have "d = 6" using fresh(1) by (simp add: normalizeSourceDomain_Inr)
    moreover have "burn' = burn" using fresh(3) normalize_lower_burn [OF b] by simp
    ultimately show thesis
      using that [of r] fresh(5) relayNewPendingRecord_Inr [OF fresh(9)] by (simp add: update_conv)
  qed
qed

text \<open>What the read-back after an attach finds: everything but the digest of the source message is checked already.\<close>

lemma attached_row_validates:
  assumes ok: "row_valid c rs0 u" and e: "canonical_fields e"
    and pr: "canonicalProof c pv e (job_id u) (kernel_address u) = Inr p"
    and can: "canonical_rows (sha256 c) rs" and ex: "attachRelay c rs (execIdOf j) (pf_unwindTxHash p) e now = Inr rs'"
    and t: "0 \<le> now"
  shows "validateUnwindRow c (attach_row (proofColumns c e p (execIdOf j)) now u) (map_of rs') =
    (if pf_sourceMessageDigest p = sha256Bytes (sha256 c) (drop 2 (pf_sourceMessageHex p)) then Inr ()
     else Inl (Integrity source_digest))"
proof -
  let ?q = "proofColumns c e p (execIdOf j)" and ?v = "attach_row (proofColumns c e p (execIdOf j)) now u"
  have f: "proof_fields_ok p"
    using pr proofFields_fix(2) by (auto simp: canonicalProof_def ebind_Inr_iff simp del: canonicalJobId.simps split: if_split_asm)
  have vp: "validateProof c ?v ?q =
      (if pf_sourceMessageDigest p = sha256Bytes (sha256 c) (drop 2 (pf_sourceMessageHex p)) then Inr ()
       else Inl (Integrity source_digest))"
    using canonicalProof_fix [OF pr] canonicalizeExpectation_of_fields [OF e]
    by (simp add: validateProof_def proofColumns_def attach_row_def)
  obtain r where r: "map_of rs' (execIdOf j) = Some r" "sourceDomain r = Some 6"
      "burnTxHash r = Some (pf_unwindTxHash p)" "r_expectation r = Some e"
      "r_expectationDigest r = Some (expectationDigest (sha256 c) e)" "rstate r = attestation_pending"
    using attachRelay_row [OF can ex e] f by (auto simp: proof_fields_ok_def)
  have "validateRelay c ?v ?q (map_of rs' (execIdOf j)) = Inr ()"
    using r canonical_validated [OF attachRelay_evolves(2) [OF can ex t] r(1)]
    by (simp add: validateRelay_Inr proofColumns_def attach_row_def is_terminal_def relay_json_def relayProjection.simps)
  moreover have "is_ok (canonicalRecipient c (JStr (recipient_hint u)))"
      "reserve_json u = Stringified (reserveValue (job_id u) (kernel_address u) (recipient_hint u))"
      "request_digest u = reserveDigest c (reserveValue (job_id u) (kernel_address u) (recipient_hint u))"
    using ok by (simp_all add: row_valid_def validate_proof_split)
  ultimately show ?thesis
    using vp by (simp add: validateUnwindRow_def Let_def attach_row_def proofColumns_def)
qed

lemma attachCandidate_Inl:
  assumes ok: "db_ok c db" and u: "map_of (jobs db) j = Some u" and ex: "attachCandidate c db u p tok now = Inl err"
  shows "benign err"
proof (cases "ucandidate u")
  case None
  have j: "job_id u = j" using db_okD(5) [OF ok u] .
  let ?wh = "\<lambda>w. ustate w = awaiting_burn \<and> uproof w = None \<and> ucandidate w = None \<and> now < expires_at w"
  let ?f = "\<lambda>w. (bind_candidate (pf_userOpHash p) (pf_unwindTxHash p)
      (min (capability_expires_at u) (max (expires_at u + 1) (now + 1))) w)\<lparr>updated_at := now\<rparr>"
  show ?thesis
  proof (cases "sql_update [CandidateColumns, OtherColumns] db j ?wh ?f")
    case (Inl e)
    then have "e = SQLITE_CONSTRAINT" by (rule update_Inl) simp
    with ex None Inl j show ?thesis by (auto simp: attachCandidate_def split: if_split_asm)
  next
    case (Inr dn)
    obtain db' n where dn: "dn = (db', n)" by (cases dn)
    have "db_step c db db'"
      using ok Inr [unfolded dn] by (rule unproved_step) (simp add: job_step_defs bind_candidate_def)
    then have "select_job c db' j = Inr (map_of (jobs db') j)" using select_ok db_step_ok [OF ok] by blast
    then show ?thesis
      using ex None Inr j dn by (auto simp: attachCandidate_def split: if_split_asm option.split_asm)
  qed
qed (use ex in \<open>auto simp: attachCandidate_def split: if_split_asm\<close>)

lemma attach_readback_Inl:
  assumes ok: "db_ok c db" and u: "map_of (jobs db) j = Some u" and e: "canonical_fields e" and t: "0 \<le> now"
    and pr: "canonicalProof c pv e (job_id u) (kernel_address u) = Inr p"
    and rel: "attachRelay c (relay db) (execIdOf j) (pf_unwindTxHash p) e now = Inr rs"
    and up: "sql_update gs (db\<lparr>relay := rs\<rparr>) j (\<lambda>w. ustate w = awaiting_burn \<and> uproof w = None \<and> names_candidate p w)
      (attach_row (proofColumns c e p (execIdOf j)) now) = Inr (db2, Suc 0)"
    and rd: "read_status c db2 j = Inl err"
  shows "err = Integrity source_digest"
  using up
proof (cases rule: sql_update_InrE)
  case (one w)
  have "w = u" using one(1) u by simp
  then have "map_of (jobs db2) j = Some (attach_row (proofColumns c e p (execIdOf j)) now u)" "relay db2 = rs"
    using one(6) by (simp_all add: update_conv)
  then show ?thesis
    using rd attached_row_validates [OF db_okD(6) [OF ok u] e pr db_okD(1) [OF ok] rel t]
    by (auto simp: read_status_def select_job_def split: if_split_asm)
qed simp

lemma attachLease_Inl: "attachLease u tok now = Inl err \<Longrightarrow> benign err"
  by (auto simp: attachLease_def split: if_split_asm option.split_asm prod.split_asm jsv.split_asm)

lemma attachRelay_Inl: "attachRelay c rs eid burn e now = Inl err \<Longrightarrow> benign err"
  by (auto simp: attachRelay_def split: if_split_asm option.split_asm sum.split_asm)

lemma attach_update_Inl:
  "sql_update [ProofColumns, OtherColumns] db j (\<lambda>w. ustate w = awaiting_burn \<and> uproof w = None \<and> names_candidate p w) f = Inl err
    \<Longrightarrow> benign err"
  using update_Inl by fastforce

lemma attachTransaction_Inl:
  assumes ok: "db_ok c db" and e: "canonical_fields e" and t: "0 \<le> now"
    and ex: "attachTransaction c fault db j pv e tok now = Inl err"
  shows "benign err \<or> err = Integrity source_digest"
proof (cases "map_of (jobs db) j")
  case (Some u)
  note sel = select_ok [OF ok, of j]
  show ?thesis
  proof (cases "canonicalProof c pv e (job_id u) (kernel_address u)")
    case (Inl e')
    with ex sel Some canonicalProof_Inl [OF Inl] show ?thesis by (auto simp: attachTransaction_def)
  next
    case p: (Inr p)
    show ?thesis
    proof (cases "uproof u = None \<and> ustate u = awaiting_burn")
      case False
      with ex sel Some p show ?thesis by (auto simp: attachTransaction_def Let_def split: option.split_asm if_split_asm)
    next
      case True
      show ?thesis
      proof (cases "attachCandidate c db u p tok now")
        case (Inl e')
        with ex sel Some p True attachCandidate_Inl [OF ok Some Inl] show ?thesis by (auto simp: attachTransaction_def)
      next
        case (Inr du)
        obtain db1 u1 where du: "du = (db1, u1)" by (cases du)
        note c1 = attachCandidate_step [OF ok Some Inr [unfolded du]]
        have ok1: "db_ok c db1" using db_step_ok [OF ok] c1 by blast
        have u1: "map_of (jobs db1) j = Some u1" using c1 by simp
        have k1: "job_id u1 = job_id u" "kernel_address u1 = kernel_address u"
          using db_step_job [of c db db1 j u] c1 Some by (auto simp: job_step_defs)
        show ?thesis
          using ex sel Some p True Inr du attach_readback_Inl [OF ok1 u1 e t p [folded k1]]
          by (auto simp: attachTransaction_def Let_def ebind_Inl_iff split: if_split_asm
              dest: attachLease_Inl attachRelay_Inl attach_update_Inl)
      qed
    qed
  qed
qed (use ex select_ok [OF ok, of j] in \<open>simp add: attachTransaction_def\<close>)

lemma attach_Inl:
  assumes ok: "db_ok c db" and ex: "attachAndEnqueue c fault db jv pv ev eid tok now = Inl err"
  shows "benign err \<or> err = Integrity source_digest"
proof -
  have "canonical_fields e" if "canonicalizeExpectation ev = Inr e" for e
    using that by (rule canonicalizeExpectation_Inr_fields)
  then show ?thesis
    using ex
    by (auto simp: attachAndEnqueue_def ebind_Inl_iff requireTime_def simp del: canonicalJobId.simps
        dest!: canonical_Inl dest: attachTransaction_Inl [OF ok] split: if_split_asm sum.split_asm)
qed

subsection \<open>Properties over runs\<close>

lemma resumeRows_ok:
  assumes "db_ok c db" "\<forall>u \<in> set us. map_of (jobs db) (job_id u) = Some u"
  shows "\<exists>out. resumeRows c db us = Inr out"
  using assms(2)
proof (induction us)
  case (Cons u us)
  then have "validateUnwindRow c u (map_of (relay db)) = Inr ()"
    using db_okD(6) [OF assms(1)] by (auto simp: row_valid_def)
  with Cons show ?case by auto
qed simp

lemma jobs_values: "db_ok c db \<Longrightarrow> u \<in> set (map snd (jobs db)) \<Longrightarrow> map_of (jobs db) (job_id u) = Some u"
  using db_okD(3,5) by fastforce

text \<open>
  C36. In every state that a sequence of unwind operations, interleaved with relay operations, reaches
  from a consistent database, every row satisfies the table's constraints and no read is stopped by
  the integrity validation: the status and the authority of every job, and the list of jobs to
  resume. The relay operations keep the discipline their callers owe the relay
  store (\<open>disciplined\<close>: a clock not behind the row's creation, lease ends and counters that are safe
  integers, non-empty lease tokens, a block reason that fits the state); without it the store
  can hold a relay row that its own validation, and so these reads, refuse.
\<close>

theorem unwind_reads_never_fail:
  assumes "db_ok c db" "run_disciplined c db ops" "db' = run_ops (unwind_apply c) db ops"
  shows "list_all (\<lambda>(j, u). check_ok u) (jobs db')
    \<and> (canonicalJobId v = Inr j \<longrightarrow>
        unwind_status c db' v = Inr (map_option publicStatus (map_of (jobs db') j))
      \<and> getAuthority c db' v = Inr (map_option authorityFromRow (map_of (jobs db') j)))
    \<and> (safe_int now \<and> 0 \<le> now \<and> safe_int limit \<and> 0 < limit \<longrightarrow> is_ok (listForResume c db' now limit))"
proof -
  have ok: "db_ok c db'" using unwind_run_ok [OF assms(1,2)] assms(3) by simp
  have "check_ok u" if "(j, u) \<in> set (jobs db')" for j u
    using that db_okD(3,6) [OF ok] by (auto simp: row_valid_def)
  moreover have "\<exists>out. resumeRows c db' (take (nat limit) (sort_key (\<lambda>u. (updated_at u, created_at u, job_id u))
      (filter (resumable db' now) (map snd (jobs db'))))) = Inr out"
    by (rule resumeRows_ok [OF ok]) (auto dest!: in_set_takeD intro: jobs_values [OF ok])
  ultimately show ?thesis
    using select_ok [OF ok]
    by (auto simp: list_all_iff unwind_status_def getAuthority_def listForResume_def requireTime_def)
qed

text \<open>
  C7. Authority is written once. Over a run of unwind and relay operations from a consistent database a
  job keeps its reservation, keeps the receipt candidate and the proof once they are bound, moves
  only along the job machine, and does not change at all once it is done, blocked, uncertain or
  expired. The relay operations keep the discipline their callers owe the relay
  store (\<open>disciplined\<close>: a clock not behind the row's creation, lease ends and counters that are safe
  integers, non-empty lease tokens, a block reason that fits the state).
\<close>

theorem unwind_authority_written_once:
  assumes "db_ok c db" "run_disciplined c db ops" "map_of (jobs db) j = Some u"
  shows "\<exists>v. map_of (jobs (run_ops (unwind_apply c) db ops)) j = Some v \<and> written_once u v
    \<and> unwind_move\<^sup>*\<^sup>* (ustate u) (ustate v)
    \<and> (ustate u \<in> {unwind_done, unwind_blocked, unwind_uncertain, unwind_expired} \<longrightarrow> v = u)"
  using db_steps_job [OF unwind_run_steps [OF assms(1,2)] assms(3)] .

lemma projection_outcome:
  "relayProjection r = (unwind_done, m, why) \<Longrightarrow> rstate r = minted \<and> mintTxHash r = m"
  "relayProjection r = (unwind_blocked, m, why) \<Longrightarrow> rstate r = blocked \<and> mintTxHash r = m \<and> reasonCode r = why"
  "relayProjection r = (unwind_uncertain, m, why) \<Longrightarrow> rstate r = uncertain \<and> mintTxHash r = m \<and> reasonCode r = why"
  by (cases "rstate r"; simp add: relayProjection.simps)+

text \<open>
  C6. The outcome of an attached job is the outcome of its own relay record. After a
  run of unwind and relay operations from a consistent database, an attached job has a relay record under its execution id that is bound to its burn and
  expectation; a done job's record is minted with the job's mint hash, a blocked or uncertain
  one's is blocked or uncertain for the job's reason; and no other job claims its user operation.
  The relay operations keep the discipline their callers owe the relay
  store (\<open>disciplined\<close>: a clock not behind the row's creation, lease ends and counters that are safe
  integers, non-empty lease tokens, a block reason that fits the state).
\<close>

theorem unwind_outcome_is_relay_outcome:
  assumes "db_ok c db" "run_disciplined c db ops" "db' = run_ops (unwind_apply c) db ops"
    and "map_of (jobs db') j = Some u" "uproof u = Some p"
  shows "(\<exists>r. map_of (relay db') (execIdOf j) = Some r \<and> burnTxHash r = Some (p_unwind_tx_hash p)
      \<and> r_expectationDigest r = Some (p_expectation_digest p)
      \<and> (ustate u = unwind_done \<longrightarrow> rstate r = minted \<and> mintTxHash r = mint_tx_hash u)
      \<and> (ustate u = unwind_blocked \<longrightarrow> rstate r = blocked \<and> reasonCode r = reason_code u)
      \<and> (ustate u = unwind_uncertain \<longrightarrow> rstate r = uncertain \<and> reasonCode r = reason_code u))
    \<and> (\<forall>i v q. map_of (jobs db') i = Some v \<and> uproof v = Some q \<and> p_user_op_hash q = p_user_op_hash p \<longrightarrow> i = j)"
proof -
  have ok: "db_ok c db'" using unwind_run_ok [OF assms(1,2)] assms(3) by simp
  have v: "row_valid c (relay db') u" using db_okD(6) [OF ok assms(4)] .
  have "validateRelay c u p (map_of (relay db') (execIdOf j)) = Inr ()"
    using v assms(5) valid_relay_id [OF v assms(5)] db_okD(5) [OF ok assms(4)]
    by (simp add: row_valid_def validate_proof_split)
  then obtain r where r: "map_of (relay db') (execIdOf j) = Some r" "burnTxHash r = Some (p_unwind_tx_hash p)"
      "r_expectationDigest r = Some (p_expectation_digest p)"
      "is_terminal (ustate u) \<longrightarrow> relayProjection r = (ustate u, mint_tx_hash u, reason_code u)"
    by (auto simp: validateRelay_Inr)
  have u: "\<forall>i v q. map_of (jobs db') i = Some v \<and> uproof v = Some q \<and> p_user_op_hash q = p_user_op_hash p \<longrightarrow> i = j"
    using db_okD(4) [OF ok] assms(4,5) unfolding users_distinct_def by metis
  with r show ?thesis using projection_outcome [of r] by (auto simp: is_terminal_def)
qed

text \<open>
  What stops a write. On a consistent database no operation runs into one of the immutability
  triggers, and none is stopped by the validation of a stored row, with one exception: an attach
  whose source message does not have the digest it claims is rolled back with that error.
\<close>

theorem unwind_write_errors:
  assumes "db_ok c db" "unwind_exec c db op = Inl err"
  shows "err \<noteq> SQLITE_ABORT
    \<and> (\<forall>k. err = Integrity k \<longrightarrow> k = source_digest \<and> (\<exists>fs j pv ev eid tok now. op = AttachProof fs j pv ev eid tok now))"
proof (cases op)
  case (AttachProof fs j pv ev eid tok now)
  then show ?thesis
    using assms(2) attach_Inl [OF assms(1)] by (fastforce simp: db_of_def ebind_Inl_iff benign_def)
next
  case (RelayOp op')
  with assms(2) show ?thesis by simp
qed (use assms(2) reserve_benign [OF assms(1)] claimEvidence_benign [OF assms(1)] renewEvidence_benign
    releaseEvidence_benign [OF assms(1)] finishTerminal_benign [OF assms(1)] reconcileExpired_benign [OF assms(1)]
    reconcileFromCctp_benign [OF assms(1)] in
    \<open>fastforce simp: db_of_def ebind_Inl_iff benign_def unwind_finishBlocked_def unwind_finishUncertain_def\<close>)+

text \<open>
  C37. An attach that succeeds either repeats one that was recorded, and writes nothing, or does
  exactly what the relay store's \<open>enqueue\<close> does for the burn under the execution id of the job,
  which was not enqueued before, and moves the job to \<open>relay_pending\<close> with its proof.
\<close>

theorem attach_is_relay_enqueue:
  assumes "db_ok c db" "attachAndEnqueue c fault db jv pv ev eid tok now = Inr (db', dup, st)"
  shows "if dup then db' = db
    else \<exists>j e p r u. canonicalJobId jv = Inr j \<and> canonicalizeExpectation ev = Inr e
      \<and> map_of (relay db) (execIdOf j) = None
      \<and> enqueue (sha256 c) (relay db) (execIdOf j) (JNum 6) (JStr (pf_unwindTxHash p)) (expectation_js e) now
          = Inr (relay db', r)
      \<and> map_of (jobs db') j = Some u \<and> ustate u = relay_pending
      \<and> uproof u = Some (proofColumns c e p (execIdOf j)) \<and> st = Some (publicStatus u)"
proof -
  obtain j e where at: "attachTransaction c fault db j pv e (null_default tok) now = Inr (db', dup, st)"
    and j: "canonicalJobId jv = Inr j" and e: "canonicalizeExpectation ev = Inr e"
    using assms(2) by (auto simp: attachAndEnqueue_def ebind_Inr_iff requireTime_def split: if_split_asm sum.split_asm)
  from at show ?thesis
  proof (cases rule: attachTransaction_InrE)
    case duplicate
    then show ?thesis by simp
  next
    case (attached u p db1 u1 rs n ro)
    note c1 = attachCandidate_step [OF assms(1) attached(1,5)]
    have rel: "relay db1 = relay db" using c1 by simp
    obtain r where r: "map_of (relay db) (execIdOf j) = None"
      "enqueue (sha256 c) (relay db) (execIdOf j) (JNum 6) (JStr (pf_unwindTxHash p)) (expectation_js e) now = Inr (rs, r)"
      using attachRelay_enqueue [OF db_okD(1) [OF assms(1)] attached(7) [unfolded rel]] by blast
    from attached(8) show ?thesis
    proof (cases rule: sql_update_InrE)
      case none
      with attached(9) show ?thesis by simp
    next
      case (one w)
      let ?v = "attach_row (proofColumns c e p (execIdOf j)) now w"
      have m: "map_of (jobs db') j = Some ?v" "relay db' = rs"
        using one(6) by (simp_all add: update_conv)
      have "ro = Some ?v" using attached(10) m(1) by (metis select_job_Inr)
      then have "st = Some (publicStatus ?v)" using attached(12) by simp
      then show ?thesis
        unfolding if_not_P [OF attached(11)]
        by (intro exI [of _ j] exI [of _ e] exI [of _ p] exI [of _ r] exI [of _ ?v] conjI)
          (use r j e m in \<open>simp_all add: attach_row_def\<close>)
    qed
  qed
qed

end
