(* ===== verification/UnwindDemo.thy ===== *)
theory UnwindDemo
  imports UnwindOutcome
begin

section \<open>A concrete unwind\<close>

text \<open>
  The witnesses of the unwind store: a crypto provider with constant digests, and a run in which a
  job is reserved, its burn is proved and attached, the relay worker mints the enqueued record,
  and the job follows it to \<open>done\<close>.
\<close>

definition demo_crypto :: crypto where
  "demo_crypto =
     \<lparr>sha256 = (\<lambda>s. replicate 64 (CHR ''a'')), keccak256 = (\<lambda>s. ''0x'' @ replicate 64 (CHR ''b'')),
      isValidEd25519PublicKey = (\<lambda>s. True), isValidContract = (\<lambda>s. False)\<rparr>"

definition demo_job :: string where "demo_job = replicate 32 (CHR ''1'')"

definition demo_digest :: string where "demo_digest = replicate 64 (CHR ''a'')"

definition demo_hash :: "char \<Rightarrow> string" where "demo_hash ch = ''0x'' @ replicate 64 ch"

definition demo_address :: "char \<Rightarrow> string" where "demo_address ch = ''0x'' @ replicate 40 ch"

definition demo_expectation :: expectation where
  "demo_expectation =
     \<lparr>e_direction = JStr ''base-to-stellar'', e_sourceDomain = JNum 6, e_destinationDomain = JNum 27,
      e_sender = demo_hash CHR ''1'', e_recipient = demo_hash CHR ''2'', e_destinationCaller = demo_hash CHR ''3'',
      e_burnToken = demo_hash CHR ''4'', e_mintRecipient = demo_hash CHR ''5'', e_messageSender = demo_hash CHR ''6'',
      e_amount = ''25'', e_burnUnits7 = None, e_maxFee = ''0'', e_minFinalityThreshold = 2000, e_hookData = ''0x''\<rparr>"

definition demo_proof :: canonical_proof where
  "demo_proof =
     \<lparr>pf_userOpHash = demo_hash CHR ''7'', pf_jobCommitment = demo_hash CHR ''b'', pf_unwindTxHash = demo_hash CHR ''8'',
      pf_entryPointAddress = demo_address CHR ''e'', pf_kernelAddress = demo_address CHR ''c'', pf_blockNumber = ''9'',
      pf_blockHash = demo_hash CHR ''9'', pf_userOpNonce = ''0'', pf_burned = ''25'', pf_exited = ''25'', pf_skipped = ''0'',
      pf_maxFee = ''0'', pf_hookData = ''0x'', pf_sourceMessageHex = ''0xab'', pf_sourceMessageDigest = demo_digest,
      pf_logIndices = \<lparr>messageSent = 1, depositForBurn = 2, swept = 3, userOperationEvent = 4\<rparr>,
      pf_logDigests = \<lparr>messageSent = demo_digest, depositForBurn = demo_digest, swept = demo_digest,
                       userOperationEvent = demo_digest\<rparr>\<rparr>"

definition demo_row :: unwind_row where
  "demo_row = newReservation demo_job demo_digest (demo_address CHR ''c'') (replicate 56 (CHR ''G'')) demo_digest 1000 2000 10"

definition demo_relay :: relay_record where
  "demo_relay =
       \<lparr>execId = execIdOf demo_job, sourceDomain = Some 6, burnTxHash = Some (demo_hash CHR ''8''), r_expectation = Some demo_expectation,
        r_expectationDigest = Some demo_digest, rstate = attestation_pending,
        messageHex = None, nonceHex = None, messageDigest = None,
        attestationHex = None, attestationDigest = None, evidenceVersion = 0,
        mintTxHash = None, reasonCode = None, attempts = 0,
        leaseToken = None, leaseExpiresAt = None, createdAt = 20, updatedAt = 20\<rparr>"

definition demo_bound :: unwind_row where
  "demo_bound = (bind_candidate (demo_hash CHR ''7'') (demo_hash CHR ''8'') 1001 demo_row)\<lparr>updated_at := 20\<rparr>"

definition demo_attached :: unwind_row where
  "demo_attached = attach_row (proofColumns demo_crypto demo_expectation demo_proof (execIdOf demo_job)) 20 demo_bound"

definition demo_relay_ops :: "store_op list" where
  "demo_relay_ops =
     [Claim (execIdOf demo_job) 30 500 ''w1'',
      RecordAttested (execIdOf demo_job) ''w1'' (JStr ''0xab'') (JStr (demo_hash CHR ''d'')) (JStr ''0xcd'') 40,
      MarkMintSubmitting (execIdOf demo_job) ''w1'' 60,
      MarkMintSubmitted (execIdOf demo_job) ''w1'' (JStr (replicate 64 (CHR ''f''))) 70,
      FinishMinted (execIdOf demo_job) ''w1'' (JStr (replicate 64 (CHR ''f''))) 80]"

definition demo_minted :: relay_record where
  "demo_minted = demo_relay\<lparr>rstate := minted, messageHex := Some ''0xab'', nonceHex := Some (demo_hash CHR ''d''),
     messageDigest := Some demo_digest, attestationHex := Some ''0xcd'', attestationDigest := Some demo_digest,
     evidenceVersion := 1, mintTxHash := Some (replicate 64 (CHR ''f'')), attempts := 1, leaseToken := None, leaseExpiresAt := None, updatedAt := 80\<rparr>"

definition demo_done :: unwind_row where
  "demo_done = follow_row (unwind_done, Some (replicate 64 (CHR ''f'')), None) 90 demo_attached"

definition demo_ops :: "unwind_op list" where
  "demo_ops =
     [ReserveJob (JStr demo_job) (JStr demo_digest) (JStr (demo_address CHR ''c'')) (JStr (replicate 56 (CHR ''G'')))
        (JStr demo_digest) 1000 2000 10,
      AttachProof [] (JStr demo_job) (proof_js demo_proof) (expectation_js demo_expectation)
        (JStr (execIdOf demo_job)) JUndef 20]
     @ map RelayOp demo_relay_ops @ [FollowRelay (JStr demo_job) 90]"

definition demo_empty :: unwind_db where "demo_empty = \<lparr>jobs = [], relay = []\<rparr>"

definition demo_db :: "nat \<Rightarrow> unwind_db" where
  "demo_db n = run_ops (unwind_apply demo_crypto) demo_empty (take n demo_ops)"

subsection \<open>Evaluating the values\<close>

lemma lower_hex_replicate: "is_lhex ch \<Longrightarrow> lower_hex n (replicate n ch)"
  by (simp add: lower_hex_def list_all_iff)
lemma demo_lhex [simp]: "is_lhex CHR ''1''" "is_lhex CHR ''a''" "is_lhex CHR ''b''" "is_lhex CHR ''c''" "is_lhex CHR ''e''" "is_lhex CHR ''7''" "is_lhex CHR ''8''" "is_lhex CHR ''9''"
  "is_lhex CHR ''2''" "is_lhex CHR ''3''" "is_lhex CHR ''4''" "is_lhex CHR ''5''" "is_lhex CHR ''6''" "is_lhex CHR ''d''" "is_lhex CHR ''f''"
  by (simp_all add: is_lhex_def)
lemma demo_job_ok [simp]: "lower_hex 32 demo_job" by (simp add: demo_job_def lower_hex_replicate)
lemma demo_digest_ok [simp]: "lower_hex 64 demo_digest" by (simp add: demo_digest_def lower_hex_replicate)
lemma demo_hash_ok [simp]: assumes "is_lhex ch" shows "lower_hex0x 64 (demo_hash ch)" "hex0x 64 (demo_hash ch)" "toLowerCase (demo_hash ch) = demo_hash ch" "BYTES32_STRICT_RE (demo_hash ch)"
proof -
  have "list_all is_lhex (replicate 64 ch)" using assms by (simp add: list_all_iff)
  moreover have "list_all is_hex (replicate 64 ch)" using assms lhex_is_hex by (simp add: list_all_iff)
  ultimately show "lower_hex0x 64 (demo_hash ch)" "hex0x 64 (demo_hash ch)" "toLowerCase (demo_hash ch) = demo_hash ch" "BYTES32_STRICT_RE (demo_hash ch)"
    by (simp_all add: demo_hash_def lower_hex0x_def hex0x_def lower_hex_def startsWith0x_def BYTES32_STRICT_RE_def)
qed
lemma demo_address_ok [simp]:
  assumes "is_lhex ch" "ch \<noteq> CHR ''0''"
  shows "hex0x 40 (demo_address ch)" "toLowerCase (demo_address ch) = demo_address ch"
    "demo_address ch \<noteq> ZERO_ADDRESS" "address_column (demo_address ch)"
proof -
  have a: "list_all is_lhex (replicate 40 ch)" using assms by simp
  have b: "list_all is_hex (replicate 40 ch)" using assms lhex_is_hex by simp
  show n: "demo_address ch \<noteq> ZERO_ADDRESS"
  proof
    assume "demo_address ch = ZERO_ADDRESS"
    then have "drop 2 (demo_address ch) ! 0 = drop 2 ZERO_ADDRESS ! 0" by simp
    moreover have "drop 2 (demo_address ch) ! 0 = ch" by (simp add: demo_address_def)
    ultimately show False using assms(2) by (simp add: ZERO_ADDRESS_def)
  qed
  from a b n show "hex0x 40 (demo_address ch)" "toLowerCase (demo_address ch) = demo_address ch"
      "address_column (demo_address ch)"
    by (simp_all add: address_column_def demo_address_def lower_hex0x_def hex0x_def lower_hex_def startsWith0x_def)
qed

lemma demo_crypto_simps [simp]: "sha256 demo_crypto s = demo_digest" "keccak256 demo_crypto s = demo_hash CHR ''b''"
  "isValidEd25519PublicKey demo_crypto s" 
  by (simp_all add: demo_crypto_def demo_digest_def demo_hash_def)

lemma demo_values [simp]: "DECIMAL_RE ''25''" "DECIMAL_RE ''0''" "DECIMAL_RE ''9''" "HOOK_DATA_RE ''0x''" "HOOK_DATA_RE ''0xab''"
  by code_simp+

lemma demo_expectation_fields: "canonical_fields demo_expectation"
  by (simp add: canonical_fields_def demo_expectation_def DIRECTION_DOMAINS_def STELLAR_DOMAIN_def BASE_DOMAIN_def)

lemma demo_canonical_expectation [simp]: "canonicalizeExpectation (expectation_js demo_expectation) = Inr demo_expectation"
  by (rule canonicalizeExpectation_of_fields [OF demo_expectation_fields])

lemma demo_canonical_proof [simp]:
  "canonicalProof demo_crypto (proof_js demo_proof) demo_expectation demo_job (demo_address CHR ''c'') = Inr demo_proof"
proof -
  have "proofFields (proof_js demo_proof) = Inr demo_proof"
    by (simp add: proofFields_def read_logs_def logs_js_def demo_proof_def safe_int_def)
  then show ?thesis
    by (simp add: canonicalProof_def jobCommitment_def demo_proof_def demo_expectation_def)
qed

lemma demo_row_check [simp]: "check_ok demo_row"
  by (simp add: demo_row_def newReservation_def check_ok_def reserve_check_def state_check_def is_strkey_char_def)

lemma demo_reserved: "demo_db 1 = \<lparr>jobs = [(demo_job, demo_row)], relay = []\<rparr>"
proof -
  have "validateUnwindRow demo_crypto demo_row rs = Inr ()" for rs
    unfolding demo_row_def by (rule newReservation_valid [of _ "JStr (replicate 56 (CHR ''G''))"]) (simp_all add: reserveDigest_def)
  then have "reserveTransaction demo_crypto demo_empty demo_row 10 = Inr (\<lparr>jobs = [(demo_job, demo_row)], relay = []\<rparr>, Some (publicReserve demo_row))"
    by (simp add: demo_empty_def reserveTransaction_def select_job_def sql_insert_def unique_ok_def) (simp add: demo_row_def newReservation_def)
  then show ?thesis
    by (simp add: demo_db_def demo_ops_def unwind_apply_def db_of_def unwind_reserve_def requireTime_def safe_int_def reserveDigest_def demo_row_def [symmetric])
qed

lemma demo_attachRelay:
  "attachRelay demo_crypto [] (execIdOf demo_job) (demo_hash CHR ''8'') demo_expectation 20 = Inr [(execIdOf demo_job, demo_relay)]"
  using normalize_lower_burn [of "demo_hash CHR ''8''"]
  by (simp add: attachRelay_def relayEnqueueDecision_def relayNewPendingRecord_def requireNow_def require_def safe_int_def
     normalizeSourceDomain_def STELLAR_DOMAIN_def BASE_DOMAIN_def relayRival_def expectationDigest_def demo_relay_def Let_def)
   (simp add: execIdOf_def demo_expectation_def)


lemma demo_row_fields [simp]: "job_id demo_row = demo_job" "kernel_address demo_row = demo_address CHR ''c''"
  "ucandidate demo_row = None" "uproof demo_row = None" "ustate demo_row = awaiting_burn" "ulease demo_row = None"
  "expires_at demo_row = 1000" "capability_expires_at demo_row = 2000" "created_at demo_row = 10" "mint_tx_hash demo_row = None"
  "reason_code demo_row = None" "uattempts demo_row = 0"
  by (simp_all add: demo_row_def newReservation_def)

lemma demo_row_valid [simp]: "validateUnwindRow demo_crypto demo_row rs = Inr ()"
  unfolding demo_row_def by (rule newReservation_valid [of _ "JStr (replicate 56 (CHR ''G''))"]) (simp_all add: reserveDigest_def)

lemma demo_bound_fields [simp]: "job_id demo_bound = demo_job" "kernel_address demo_bound = demo_address CHR ''c''"
  "uproof demo_bound = None" "ustate demo_bound = awaiting_burn" "ulease demo_bound = None" "expires_at demo_bound = 1000"
  "names_candidate demo_proof demo_bound"
  by (simp_all add: demo_bound_def bind_candidate_def names_candidate_def demo_proof_def)

lemma demo_bound_valid [simp]: "validateUnwindRow demo_crypto demo_bound rs = Inr ()" "check_ok demo_bound"
proof -
  show "validateUnwindRow demo_crypto demo_bound rs = Inr ()"
    using validate_unproved [of demo_row demo_bound] by (simp add: same_reserve_def demo_bound_def bind_candidate_def)
  have "reserve_check demo_row" using demo_row_check unfolding check_ok_def by (rule conjunct1)
  then have "reserve_check demo_bound" by (simp add: reserve_check_def demo_bound_def bind_candidate_def)
  then show "check_ok demo_bound"
    by (simp add: check_ok_def) (simp add: demo_bound_def bind_candidate_def candidate_check_def state_check_def)
qed

lemma demo_attached_check [simp]: "check_ok demo_attached"
proof -
  have "reserve_check demo_bound" using demo_bound_valid(2) unfolding check_ok_def by (rule conjunct1)
  then have r: "reserve_check demo_attached" by (simp add: reserve_check_def demo_attached_def attach_row_def)
  have s: "sweeperAddress demo_expectation = demo_address CHR ''6''"
    by (simp add: sweeperAddress_def demo_expectation_def demo_hash_def demo_address_def) 
  have p: "proof_check demo_job (proofColumns demo_crypto demo_expectation demo_proof (execIdOf demo_job))"
    by (simp add: proof_check_def proofColumns_def s proofDigest_def expectationDigest_def) (simp add: demo_proof_def)
  show ?thesis
    unfolding check_ok_def using r p
    by (simp add: demo_attached_def attach_row_def demo_bound_def bind_candidate_def candidate_check_def state_check_def)
     (simp add: proofColumns_def demo_proof_def)
qed

lemma demo_attachCandidate:
  "attachCandidate demo_crypto \<lparr>jobs = [(demo_job, demo_row)], relay = []\<rparr> demo_row demo_proof JNull 20
     = Inr (\<lparr>jobs = [(demo_job, demo_bound)], relay = []\<rparr>, demo_bound)"
proof -
  have b: "(bind_candidate (pf_userOpHash demo_proof) (pf_unwindTxHash demo_proof) 1001 demo_row)\<lparr>updated_at := 20\<rparr> = demo_bound"
    by (simp add: demo_bound_def demo_proof_def)
  have u: "unique_ok \<lparr>jobs = [(demo_job, demo_row)], relay = []\<rparr> demo_bound" by (simp add: unique_ok_def)
  show ?thesis
    by (simp add: attachCandidate_def sql_update_def b u select_job_def)
qed

lemma demo_attach:
  "attachAndEnqueue demo_crypto (\<lambda>s. s \<in> set []) (demo_db 1) (JStr demo_job) (proof_js demo_proof) (expectation_js demo_expectation)
     (JStr (execIdOf demo_job)) JUndef 20
   = Inr (\<lparr>jobs = [(demo_job, demo_attached)], relay = [(execIdOf demo_job, demo_relay)]\<rparr>, False, Some (publicStatus demo_attached))"
proof -
  have can: "canonical_rows (sha256 demo_crypto) []" by (simp add: canonical_rows_def on_row_def)
  have rel: "attachRelay demo_crypto [] (execIdOf demo_job) (pf_unwindTxHash demo_proof) demo_expectation 20 = Inr [(execIdOf demo_job, demo_relay)]"
    using demo_attachRelay by (simp add: demo_proof_def)
  have v: "validateUnwindRow demo_crypto demo_attached (map_of [(execIdOf demo_job, demo_relay)]) = Inr ()"
    unfolding demo_attached_def
    using attached_row_validates [of demo_crypto "[]" demo_bound demo_expectation "proof_js demo_proof" demo_proof "[]" demo_job 20, OF _ _ _ can rel]
    by (simp add: row_valid_def demo_expectation_fields) (simp add: demo_proof_def sha256Bytes_def)
  have a: "attach_row (proofColumns demo_crypto demo_expectation demo_proof (execIdOf demo_job)) 20 demo_bound = demo_attached"
    by (simp add: demo_attached_def)
  have u: "unique_ok \<lparr>jobs = [(demo_job, demo_bound)], relay = rs\<rparr> demo_attached" for rs
    by (simp add: unique_ok_def user_op_taken_def demo_attached_def attach_row_def)
  have d: "e_direction demo_expectation = JStr ''base-to-stellar''" "e_sourceDomain demo_expectation = JNum 6"
    by (simp_all add: demo_expectation_def)
  show ?thesis
    unfolding demo_reserved using demo_attachCandidate rel v a u d
    by (simp add: attachAndEnqueue_def attachTransaction_def requireTime_def safe_int_def select_job_def
        attachLease_def user_op_taken_def sql_update_def read_status_def)
qed


lemma demo_db2: "demo_db 2 = \<lparr>jobs = [(demo_job, demo_attached)], relay = [(execIdOf demo_job, demo_relay)]\<rparr>"
proof -
  have "demo_db 2 = unwind_apply demo_crypto (demo_db 1) (AttachProof [] (JStr demo_job) (proof_js demo_proof) (expectation_js demo_expectation)
        (JStr (execIdOf demo_job)) JUndef 20)"
    by (simp add: demo_db_def demo_ops_def)
  then show ?thesis using demo_attach by (simp add: unwind_apply_def db_of_def)
qed
lemma demo_empty_ok: "db_ok demo_crypto demo_empty"
  by (simp add: demo_empty_def db_ok_def canonical_rows_def on_row_def users_distinct_def)

lemma demo_evidence [simp]:
  "normalizeEvidence (sha256 demo_crypto) (JStr ''0xab'') (JStr (demo_hash CHR ''d'')) (JStr ''0xcd'') =
    Inr \<lparr>v_messageHex = ''0xab'', v_nonceHex = demo_hash CHR ''d'', v_messageDigest = demo_digest, v_attestationHex = ''0xcd'', v_attestationDigest = demo_digest\<rparr>"
proof -
  have "EVEN_HEX_RE ''0xab''" "EVEN_HEX_RE ''0xcd''" "toLowerCase ''0xab'' = ''0xab''" "toLowerCase ''0xcd'' = ''0xcd''" by code_simp+
  moreover have "startsWith0x (demo_hash CHR ''d'')" "HEX64_CI_RE (drop 2 (demo_hash CHR ''d''))" 
    using demo_hash_ok(2) [of "CHR ''d''"] by (simp_all add: hex0x_def HEX64_CI_RE_def)
  ultimately show ?thesis by (simp add: normalizeEvidence_def sha256Bytes_def)
qed
lemma demo_mint_hash [simp]: "normalizeMintTxHash (JNum 6) (JStr (replicate 64 (CHR ''f''))) = Inr (replicate 64 (CHR ''f''))"
proof -
  have "is_hex CHR ''f''" by code_simp
  then show ?thesis by (simp add: normalizeMintTxHash.simps normalizeSourceDomain_def STELLAR_DOMAIN_def BASE_DOMAIN_def stellarHash_def HEX64_CI_RE_def)
qed

lemmas demo_relay_eval = store_apply_def rows_of_def claim_def relayClaim_def requireLeaseArgs_def requireNow_def require_def
  safe_int_def recordAttested_def transact_def relayRecordAttested_def assertLease_def
  markMintSubmitting_def relayMarkMintSubmitting_def markMintSubmitted_def relayMarkMintSubmitted_def
  finishMinted_def relayFinishMinted_def recordDomain_def RELAY_CLAIMABLE_STATES_def
lemma demo_relay_run: "run_ops (store_apply (sha256 demo_crypto)) [(execIdOf demo_job, demo_relay)] demo_relay_ops = [(execIdOf demo_job, demo_minted)]"
  using demo_evidence
  by (simp add: demo_relay_ops_def demo_relay_eval demo_relay_def del: demo_crypto_simps) (simp add: demo_minted_def demo_relay_def)

lemma run_relay_ops:
  "run_ops (unwind_apply c) db (map RelayOp ops) = db\<lparr>relay := run_ops (store_apply (sha256 c)) (relay db) ops\<rparr>"
  by (induction ops arbitrary: db) (simp_all add: unwind_apply_def)

lemma run_disciplined_append:
  "run_disciplined c db (xs @ ys) \<longleftrightarrow> run_disciplined c db xs \<and> run_disciplined c (run_ops (unwind_apply c) db xs) ys"
  by (induction xs arbitrary: db) auto

lemma demo_relay_disciplined:
  "run_disciplined demo_crypto \<lparr>jobs = js, relay = [(execIdOf demo_job, demo_relay)]\<rparr> (map RelayOp demo_relay_ops)"
  using demo_evidence
  by (simp add: demo_relay_ops_def demo_relay_eval unwind_apply_def on_row_def clock_ok_def demo_relay_def del: demo_crypto_simps)

lemma demo_done_check: "check_ok demo_done"
proof -
  have f: "lower_hex 64 (replicate 64 (CHR ''f''))" by (rule lower_hex_replicate) simp
  have "reserve_check demo_attached" and p: "case uproof demo_attached of None \<Rightarrow> True | Some p \<Rightarrow> proof_check (job_id demo_attached) p"
    using demo_attached_check unfolding check_ok_def by blast+
  then have "reserve_check demo_done" by (simp add: reserve_check_def demo_done_def follow_row_def)
  with f p show ?thesis
    unfolding check_ok_def
    by (simp add: demo_done_def follow_row_def demo_attached_def attach_row_def demo_bound_def bind_candidate_def
        candidate_check_def state_check_def) (simp add: proofColumns_def demo_proof_def)
qed

lemma demo_follow:
  assumes ok: "db_ok demo_crypto \<lparr>jobs = [(demo_job, demo_attached)], relay = [(execIdOf demo_job, demo_minted)]\<rparr>"
  shows "unwind_apply demo_crypto \<lparr>jobs = [(demo_job, demo_attached)], relay = [(execIdOf demo_job, demo_minted)]\<rparr> (FollowRelay (JStr demo_job) 90)
    = \<lparr>jobs = [(demo_job, demo_done)], relay = [(execIdOf demo_job, demo_minted)]\<rparr>"
proof -
  let ?db = "\<lparr>jobs = [(demo_job, demo_attached)], relay = [(execIdOf demo_job, demo_minted)]\<rparr>"
  let ?db' = "\<lparr>jobs = [(demo_job, demo_done)], relay = [(execIdOf demo_job, demo_minted)]\<rparr>"
  let ?p = "proofColumns demo_crypto demo_expectation demo_proof (execIdOf demo_job)"
  have f: "uproof demo_attached = Some ?p" "ustate demo_attached = relay_pending" "updated_at demo_attached = 20" "job_id demo_attached = demo_job"
    by (simp_all add: demo_attached_def attach_row_def)
  have pr: "relayProjection demo_minted = (unwind_done, Some (replicate 64 (CHR ''f'')), None)"
    by (simp add: relayProjection.simps demo_minted_def)
  have b: "burnTxHash demo_minted = Some (p_unwind_tx_hash ?p)" "r_expectationDigest demo_minted = Some (p_expectation_digest ?p)"
      "map_of (relay ?db) (p_relay_exec_id ?p) = Some demo_minted"
    by (simp_all add: demo_minted_def demo_relay_def proofColumns_def demo_proof_def expectationDigest_def)
  have v: "validatedCctpRow demo_crypto demo_minted" using canonical_validated [OF db_okD(1) [OF ok]] by simp
  have up: "sql_update [OtherColumns] ?db demo_job (\<lambda>w. ustate w \<in> {relay_pending, relay_running}) (follow_row (relayProjection demo_minted) (max 90 (updated_at demo_attached))) = Inr (?db', 1)"
  proof -
    have "unique_ok ?db demo_done" by (simp add: unique_ok_def user_op_taken_def demo_done_def follow_row_def f)
    moreover have "follow_row (relayProjection demo_minted) (max 90 (updated_at demo_attached)) demo_attached = demo_done" by (simp add: demo_done_def f pr)
    ultimately show ?thesis using demo_done_check f by (simp add: sql_update_def)
  qed
  have ok': "db_ok demo_crypto ?db'"
    by (rule db_step_ok [OF ok], rule followRelay_write_step [OF ok _ f(1) b(3) _ up]) (simp_all add: f)
  have "followRelay demo_crypto ?db demo_job demo_attached 90 = Inr (?db', Some (publicStatus demo_done))"
    using up b v f pr read_status_ok [OF ok', of demo_job] unfolding followRelay_def f(1) by (simp add: is_terminal_def)
  moreover have "\<not> may_expire 90 demo_attached" by (simp add: may_expire_def overdue_def f)
  ultimately show ?thesis
    using select_ok [OF ok, of demo_job] by (simp add: unwind_apply_def db_of_def reconcileFromCctp_def requireTime_def safe_int_def)
qed

subsection \<open>The whole run\<close>

lemma demo_disciplined: "run_disciplined demo_crypto demo_empty (take 2 demo_ops)"
    "run_disciplined demo_crypto (demo_db 2) (drop 2 demo_ops)"
    "run_disciplined demo_crypto demo_empty demo_ops"
proof -
  show a: "run_disciplined demo_crypto demo_empty (take 2 demo_ops)" by (simp add: demo_ops_def)
  show b: "run_disciplined demo_crypto (demo_db 2) (drop 2 demo_ops)"
    using demo_relay_disciplined by (simp add: demo_db2 demo_ops_def run_disciplined_append)
  show "run_disciplined demo_crypto demo_empty demo_ops"
    using a b run_disciplined_append [of demo_crypto demo_empty "take 2 demo_ops" "drop 2 demo_ops"] by (simp add: demo_db_def)
qed

lemma demo_db2_ok: "db_ok demo_crypto (demo_db 2)"
  using unwind_run_ok [OF demo_empty_ok demo_disciplined(1)] by (simp add: demo_db_def)

lemma demo_rest:
  "run_ops (unwind_apply demo_crypto) (demo_db 2) (drop 2 demo_ops) =
     \<lparr>jobs = [(demo_job, demo_done)], relay = [(execIdOf demo_job, demo_minted)]\<rparr>"
proof -
  have r: "run_ops (unwind_apply demo_crypto) (demo_db 2) (map RelayOp demo_relay_ops) =
      \<lparr>jobs = [(demo_job, demo_attached)], relay = [(execIdOf demo_job, demo_minted)]\<rparr>"
    using demo_relay_run by (simp add: run_relay_ops demo_db2 del: demo_crypto_simps)
  have "db_ok demo_crypto \<lparr>jobs = [(demo_job, demo_attached)], relay = [(execIdOf demo_job, demo_minted)]\<rparr>"
    using unwind_run_ok [OF demo_db2_ok, of "map RelayOp demo_relay_ops"] demo_relay_disciplined r
    by (simp add: demo_db2)
  then show ?thesis using r demo_follow by (simp add: demo_ops_def run_ops_append)
qed

lemma demo_final:
  "run_ops (unwind_apply demo_crypto) demo_empty demo_ops =
     \<lparr>jobs = [(demo_job, demo_done)], relay = [(execIdOf demo_job, demo_minted)]\<rparr>"
  using demo_rest run_ops_append [of "unwind_apply demo_crypto" demo_empty "take 2 demo_ops" "drop 2 demo_ops"]
  by (simp add: demo_db_def)

lemma demo_job_id [simp]: "canonicalJobId (JStr demo_job) = Inr demo_job"
  by simp

theorem unwind_reads_never_fail_witness:
  "unwind_status demo_crypto (run_ops (unwind_apply demo_crypto) demo_empty demo_ops) (JStr demo_job)
     = Inr (Some (publicStatus demo_done)) \<and> ustate demo_done = unwind_done"
  using unwind_reads_never_fail [OF demo_empty_ok demo_disciplined(3) refl, of "JStr demo_job" demo_job]
  by (simp add: demo_final demo_done_def follow_row_def)

theorem unwind_authority_written_once_witness:
  "db_ok demo_crypto (demo_db 2) \<and> map_of (jobs (demo_db 2)) demo_job = Some demo_attached
   \<and> written_once demo_attached demo_done \<and> unwind_move\<^sup>*\<^sup>* relay_pending unwind_done"
proof -
  have m: "map_of (jobs (demo_db 2)) demo_job = Some demo_attached" by (simp add: demo_db2)
  have "ustate demo_attached = relay_pending" "ustate demo_done = unwind_done"
    by (simp_all add: demo_attached_def attach_row_def demo_done_def follow_row_def)
  then show ?thesis
    using unwind_authority_written_once [OF demo_db2_ok demo_disciplined(2) m] m demo_db2_ok by (simp add: demo_rest)
qed

theorem unwind_outcome_is_relay_outcome_witness:
  "\<exists>r. map_of (relay (run_ops (unwind_apply demo_crypto) demo_empty demo_ops)) (execIdOf demo_job) = Some r
     \<and> rstate r = minted \<and> mintTxHash r = Some (replicate 64 (CHR ''f''))"
proof -
  have "map_of (jobs (run_ops (unwind_apply demo_crypto) demo_empty demo_ops)) demo_job = Some demo_done"
      "ustate demo_done = unwind_done" "mint_tx_hash demo_done = Some (replicate 64 (CHR ''f''))"
      "uproof demo_done = Some (proofColumns demo_crypto demo_expectation demo_proof (execIdOf demo_job))"
    by (simp_all add: demo_final demo_done_def follow_row_def demo_attached_def attach_row_def)
  then show ?thesis
    using unwind_outcome_is_relay_outcome [OF demo_empty_ok demo_disciplined(3) refl] by fastforce
qed

theorem unwind_write_errors_witness:
  "unwind_exec demo_crypto (demo_db 2) (BlockJob (JStr demo_job) JUndef ''message_mismatch'' 30) = Inl UNWIND_CONFLICT
   \<and> UNWIND_CONFLICT \<noteq> SQLITE_ABORT"
proof -
  have "map_of (jobs (demo_db 2)) demo_job = Some demo_attached" "ustate demo_attached = relay_pending"
    by (simp_all add: demo_db2 demo_attached_def attach_row_def)
  then have "unwind_exec demo_crypto (demo_db 2) (BlockJob (JStr demo_job) JUndef ''message_mismatch'' 30) = Inl UNWIND_CONFLICT"
    using select_ok [OF demo_db2_ok, of demo_job]
    by (simp add: db_of_def unwind_finishBlocked_def finishTerminal_def requireTime_def safe_int_def finishTransaction_def)
  then show ?thesis using unwind_write_errors [OF demo_db2_ok] by blast
qed

theorem attach_is_relay_enqueue_witness:
  "db_ok demo_crypto (demo_db 1)
   \<and> (\<exists>e (p :: canonical_proof) r. enqueue (sha256 demo_crypto) (relay (demo_db 1)) (execIdOf demo_job) (JNum 6) (JStr (pf_unwindTxHash p))
          (expectation_js e) 20 = Inr ([(execIdOf demo_job, demo_relay)], r))"
proof -
  have "run_disciplined demo_crypto demo_empty (take 1 demo_ops)" by (simp add: demo_ops_def)
  then have ok: "db_ok demo_crypto (demo_db 1)" using unwind_run_ok [OF demo_empty_ok] by (simp only: demo_db_def)
  obtain j e and p :: canonical_proof and r where "canonicalJobId (JStr demo_job) = Inr j"
      "enqueue (sha256 demo_crypto) (relay (demo_db 1)) (execIdOf j) (JNum 6) (JStr (pf_unwindTxHash p)) (expectation_js e) 20
       = Inr (relay \<lparr>jobs = [(demo_job, demo_attached)], relay = [(execIdOf demo_job, demo_relay)]\<rparr>, r)"
    using attach_is_relay_enqueue [OF ok demo_attach, unfolded if_False] by blast
  then have "enqueue (sha256 demo_crypto) (relay (demo_db 1)) (execIdOf demo_job) (JNum 6) (JStr (pf_unwindTxHash p))
      (expectation_js e) 20 = Inr ([(execIdOf demo_job, demo_relay)], r)"
    using demo_job_id by simp
  with ok show ?thesis by blast
qed

end
