(* ===== verification/SettledPool.thy ===== *)
theory SettledPool
  imports Complex_Main
begin

section \<open>The bounded pool of the frontend\<close>

text \<open>
  \<open>frontend/src/async/mapSettledWithConcurrency.js\<close>: a number of workers take the items in order;
  a worker whose mapper settles records the result under the item's index and takes the next item.
  What a mapper settles with is an argument, a function of the index; which running mapper settles
  next is the schedule. A concurrency that is not a finite number is \<open>None\<close>.
\<close>

datatype ('e, 'v) settled = fulfilled 'v | rejected 'e

datatype pool_error = abortReason | concurrency_TypeError

text \<open>
  The state of one operation: the items taken, the indices whose mappers run (one for each busy
  worker), the results, how many workers have returned, and whether a worker has thrown.
\<close>

record ('e, 'v) pool =
  nextIndex :: nat
  busy :: "nat list"
  results :: "('e, 'v) settled option list"
  returned :: nat
  thrown :: bool

text \<open>The head of the loop of a worker, up to its next await.\<close>

definition worker :: "bool \<Rightarrow> ('e, 'v) pool \<Rightarrow> ('e, 'v) pool" where
  "worker aborted p =
     (if aborted then p\<lparr>thrown := True\<rparr>
      else if length (results p) \<le> nextIndex p then p\<lparr>returned := returned p + 1\<rparr>
      else p\<lparr>nextIndex := nextIndex p + 1, busy := busy p @ [nextIndex p]\<rparr>)"

definition workerCount :: "rat \<Rightarrow> nat \<Rightarrow> nat" where
  "workerCount concurrency n = min (nat (max 1 (floor concurrency))) n"

text \<open>The synchronous part: the checks, and the first item of every worker.\<close>

definition mapSettledWithConcurrency :: "bool \<Rightarrow> rat option \<Rightarrow> nat \<Rightarrow> pool_error + ('e, 'v) pool" where
  "mapSettledWithConcurrency aborted concurrency n =
     (if aborted then Inl abortReason
      else case concurrency of
        None \<Rightarrow> Inl concurrency_TypeError
      | Some c \<Rightarrow>
          if c \<le> 0 then Inl concurrency_TypeError
          else Inr ((worker False ^^ workerCount c n)
                 \<lparr>nextIndex = 0, busy = [], results = replicate n None, returned = 0, thrown = False\<rparr>))"

text \<open>The mapper of a running index settles, and its worker goes on.\<close>

definition settle :: "bool \<Rightarrow> ('e, 'v) pool \<Rightarrow> nat \<Rightarrow> ('e, 'v) settled \<Rightarrow> ('e, 'v) pool" where
  "settle aborted p i v =
     worker aborted (p\<lparr>busy := remove1 i (busy p), results := (results p)[i := Some v]\<rparr>)"

text \<open>
  A run without a signal: the schedule chooses which running mapper settles next; \<open>None\<close> when the
  fuel ends before every worker has returned.
\<close>

fun runPool ::
  "nat \<Rightarrow> (nat \<Rightarrow> nat) \<Rightarrow> (nat \<Rightarrow> ('e, 'v) settled) \<Rightarrow> ('e, 'v) pool \<Rightarrow> ('e, 'v) settled option list option" where
  "runPool fuel sched mapper p =
     (case busy p of
        [] \<Rightarrow> Some (results p)
      | _ # _ \<Rightarrow>
          (case fuel of
             0 \<Rightarrow> None
           | Suc k \<Rightarrow>
               let i = busy p ! (sched k mod length (busy p)) in
               runPool k sched mapper (settle False p i (mapper i))))"

subsection \<open>The invariant of a pool\<close>

definition pool_ok :: "nat \<Rightarrow> nat \<Rightarrow> (nat \<Rightarrow> ('e, 'v) settled) \<Rightarrow> ('e, 'v) pool \<Rightarrow> bool" where
  "pool_ok n w mapper p \<longleftrightarrow>
     length (results p) = n \<and> nextIndex p \<le> n \<and> distinct (busy p) \<and> set (busy p) \<subseteq> {..<nextIndex p}
   \<and> (\<forall>i < n. results p ! i = (if i < nextIndex p \<and> i \<notin> set (busy p) then Some (mapper i) else None))
   \<and> length (busy p) + returned p \<le> w \<and> (0 < returned p \<longrightarrow> nextIndex p = n)"

lemma worker_ok:
  assumes "pool_ok n w mapper p" "length (busy p) + returned p < w"
  shows "pool_ok n w mapper (worker False p)"
    "length (busy (worker False p)) + returned (worker False p) = Suc (length (busy p) + returned p)"
  using assms by (auto simp: pool_ok_def worker_def less_Suc_eq)

lemma settle_ok:
  assumes "pool_ok n w mapper p" "length (busy p) + returned p = w" "i \<in> set (busy p)"
  shows "pool_ok n w mapper (settle False p i (mapper i))"
    "length (busy (settle False p i (mapper i))) + returned (settle False p i (mapper i)) = w"
proof -
  let ?p = "p\<lparr>busy := remove1 i (busy p), results := (results p)[i := Some (mapper i)]\<rparr>"
  have len: "length (busy ?p) + returned ?p < w" "Suc (length (busy ?p) + returned ?p) = w"
    using assms length_pos_if_in_set [OF assms(3)] by (auto simp: length_remove1)
  have "pool_ok n w mapper ?p"
    using assms len by (auto simp: pool_ok_def nth_list_update)
  with len show "pool_ok n w mapper (settle False p i (mapper i))"
    "length (busy (settle False p i (mapper i))) + returned (settle False p i (mapper i)) = w"
    using worker_ok [of n w mapper ?p] by (simp_all add: settle_def)
qed

lemma start_ok:
  "k \<le> w \<Longrightarrow> pool_ok n w mapper p \<Longrightarrow> busy p = [] \<Longrightarrow> returned p = 0 \<Longrightarrow>
     pool_ok n w mapper ((worker False ^^ k) p)
   \<and> length (busy ((worker False ^^ k) p)) + returned ((worker False ^^ k) p) = k"
proof (induction k)
  case (Suc k)
  then show ?case using worker_ok [of n w mapper "(worker False ^^ k) p"] by simp
qed simp

text \<open>How many mappers have still to settle.\<close>

definition unsettled :: "('e, 'v) pool \<Rightarrow> nat" where
  "unsettled p = length (results p) - nextIndex p + length (busy p)"

lemma settle_decreases:
  assumes "i \<in> set (busy p)" "nextIndex p \<le> length (results p)"
  shows "Suc (unsettled (settle False p i v)) = unsettled p"
  using assms length_pos_if_in_set [OF assms(1)]
  by (auto simp: unsettled_def settle_def worker_def length_remove1)

lemma run_ok:
  assumes "pool_ok n w mapper p" "length (busy p) + returned p = w" "0 < w \<or> n = 0" "unsettled p \<le> fuel"
  shows "runPool fuel sched mapper p = Some (map (\<lambda>i. Some (mapper i)) [0..<n])"
  using assms
proof (induction fuel arbitrary: p)
  case 0
  then have "n + length (busy p) \<le> nextIndex p" "nextIndex p \<le> n" by (simp_all add: unsettled_def pool_ok_def)
  then have "nextIndex p = n" "length (busy p) = 0" by linarith+
  then have "nextIndex p = n" "busy p = []" by simp_all
  with 0 show ?case by (auto simp: pool_ok_def intro!: nth_equalityI)
next
  case (Suc fuel)
  show ?case
  proof (cases "busy p")
    case Nil
    with Suc.prems have "nextIndex p = n" by (auto simp: pool_ok_def)
    with Nil Suc.prems show ?thesis by (auto simp: pool_ok_def intro!: nth_equalityI)
  next
    case (Cons a as)
    let ?i = "busy p ! (sched fuel mod length (busy p))"
    have i: "?i \<in> set (busy p)" using Cons by (intro nth_mem) simp
    have n: "nextIndex p \<le> length (results p)" using Suc.prems(1) by (simp add: pool_ok_def)
    have "runPool fuel sched mapper (settle False p ?i (mapper ?i)) = Some (map (\<lambda>i. Some (mapper i)) [0..<n])"
      using settle_ok [OF Suc.prems(1,2) i] settle_decreases [OF i n, of "mapper ?i"] Suc.prems(3,4)
      by (intro Suc.IH) auto
    with Cons show ?thesis by (simp add: Let_def)
  qed
qed

lemma unsettled_le:
  assumes "pool_ok n w mapper p"
  shows "unsettled p \<le> n"
proof -
  have "length (busy p) = card (set (busy p))" using assms by (simp add: pool_ok_def distinct_card)
  also have "\<dots> \<le> card {..<nextIndex p}" using assms by (intro card_mono) (simp_all add: pool_ok_def)
  finally show ?thesis using assms by (simp add: pool_ok_def unsettled_def)
qed

text \<open>The states of an operation whose signal is not aborted.\<close>

inductive pool_reach :: "(nat \<Rightarrow> ('e, 'v) settled) \<Rightarrow> ('e, 'v) pool \<Rightarrow> ('e, 'v) pool \<Rightarrow> bool" for mapper p where
  reach_start: "pool_reach mapper p p"
| reach_settle: "pool_reach mapper p q \<Longrightarrow> i \<in> set (busy q) \<Longrightarrow> pool_reach mapper p (settle False q i (mapper i))"

lemma reach_ok:
  assumes "pool_reach mapper p q" "pool_ok n w mapper p" "length (busy p) + returned p = w"
  shows "pool_ok n w mapper q \<and> length (busy q) + returned q = w"
  using assms by (induction rule: pool_reach.induct) (auto intro: settle_ok)

text \<open>After an abort a worker that comes back starts nothing and records the result it brought.\<close>

lemma aborted_starts_nothing:
  "nextIndex (settle True p i v) = nextIndex p" "busy (settle True p i v) = remove1 i (busy p)"
  "results (settle True p i v) = (results p)[i := Some v]" "thrown (settle True p i v)"
  by (simp_all add: settle_def worker_def)

lemma start_pool:
  fixes p :: "('e, 'v) pool"
  assumes "mapSettledWithConcurrency False (Some c) n = Inr p"
  shows "pool_ok n (workerCount c n) mapper p" "length (busy p) + returned p = workerCount c n"
proof -
  let ?p0 = "\<lparr>nextIndex = 0, busy = [], results = replicate n None, returned = 0, thrown = False\<rparr> :: ('e, 'v) pool"
  have "pool_ok n (workerCount c n) mapper ?p0" by (simp add: pool_ok_def)
  then show "pool_ok n (workerCount c n) mapper p" "length (busy p) + returned p = workerCount c n"
    using start_ok [of "workerCount c n" "workerCount c n" n mapper ?p0] assms
    by (auto simp: mapSettledWithConcurrency_def split: if_split_asm)
qed

text \<open>
  C35. The pool ends, and its results are in input order. Whatever order the mappers settle in, as
  many settlements as there are items end the operation (no schedule can leave a worker waiting),
  with every item's own result at its own index; and at no time are more mappers running than the
  floor of the concurrency, or one.
\<close>

theorem pool_settles_all:
  fixes p :: "('e, 'v) pool"
  assumes "mapSettledWithConcurrency False (Some c) n = Inr p"
  shows "runPool n sched mapper p = Some (map (\<lambda>i. Some (mapper i)) [0..<n])
    \<and> (\<forall>q. pool_reach mapper p q \<longrightarrow> length (busy q) \<le> nat (max 1 (floor c)))"
proof
  note s = start_pool(1) [OF assms, of mapper] start_pool(2) [OF assms]
  have "0 < workerCount c n \<or> n = 0" by (auto simp: workerCount_def)
  then show "runPool n sched mapper p = Some (map (\<lambda>i. Some (mapper i)) [0..<n])"
    using run_ok [OF s] unsettled_le [OF s(1)] by blast
  show "\<forall>q. pool_reach mapper p q \<longrightarrow> length (busy q) \<le> nat (max 1 (floor c))"
    using reach_ok [OF _ s] by (fastforce simp: workerCount_def)
qed

theorem pool_settles_all_witness:
  "\<exists>p :: (nat, nat) pool. mapSettledWithConcurrency False (Some (5/2)) 5 = Inr p \<and> busy p = [0, 1]
     \<and> runPool 5 (\<lambda>k. 3 * k + 1) fulfilled p = Some (map (Some \<circ> fulfilled) [0, 1, 2, 3, 4])"
proof -
  have "\<lfloor>5/2 :: rat\<rfloor> = 2" by (simp add: floor_eq_iff)
  then have w: "workerCount (5/2) 5 = 2" by (simp add: workerCount_def)
  obtain p :: "(nat, nat) pool" where p: "mapSettledWithConcurrency False (Some (5/2)) 5 = Inr p" "busy p = [0, 1]"
    by (simp add: mapSettledWithConcurrency_def w worker_def numeral_2_eq_2)
  have "[0..<5] = [0, 1, 2, 3, 4 :: nat]" by (simp add: upt_rec)
  with p pool_settles_all [OF p(1), of "\<lambda>k. 3 * k + 1" fulfilled] show ?thesis by (auto simp: comp_def)
qed

end
