(* ===== verification/ResumeTransfers.thy ===== *)
theory ResumeTransfers
  imports TransferJournal
begin

section \<open>Resuming pending transfers after a reload\<close>

text \<open>
  \<open>frontend/src/cctp/resumeTransfers.js\<close>: after a reload every record of the journal that is not
  terminal is taken up again. Only acknowledgements that may be repeated are sent; a record whose
  burn or user operation may have been submitted is never submitted again.

  \<open>one\<close> is an asynchronous function. It is cut at its awaits: \<open>one\<close> runs to the first await, and
  \<open>resume_reply\<close> from the reply to the next await or to the end. Between the two other records,
  other calls and other tabs may run. The services \<open>options\<close> holds are outside the program: which
  of them are functions, and what they reply, are arguments. The clock is read at each checkpoint.
\<close>

text \<open>The lists of \<open>summary\<close>.\<close>

datatype shelf = Resumed | Held | Terminal | Uncertain | Blocked

datatype service =
    postFarmIntent
  | postFarmAttach
  | postUnwindAttach
  | pollForwardStatus
  | pollUnwindStatus
  | reconcileUnwindUserOp

text \<open>What an awaited call gives: its value, or the \<open>code\<close> of the error it is rejected with.\<close>

datatype reply = Replied jsv | Failed jsv

text \<open>
  How a stretch between two awaits ends: the request id is put on a shelf, an error leaves
  \<open>one\<close>, a service is called with a body while \<open>record\<close> is held, or \<open>one\<close> returns with nothing put.
\<close>

datatype outcome = Filed shelf | Threw journal_error | Awaits service jsv jsv | Unfiled

definition terminalForStatus :: "jsv \<Rightarrow> (string \<times> string) option" where
  "terminalForStatus status =
     (if status = JStr ''expired'' then Some (''blocked'', ''authorization_unavailable'')
      else if state_in status [''done'', ''error'', ''uncertain'', ''blocked''] then
        Some (js_to_key status, if status = JStr ''done'' then ''job_error'' else ''job_'' @ js_to_key status)
      else None)"

definition intentBody :: "jsv \<Rightarrow> jsv" where
  "intentBody record =
     (let t = js_get record ''transfer'' in JObj
       [(''requestId'', js_get record ''requestId''), (''sourceDomain'', JNum 27),
        (''mandateId'', js_get t ''mandateId''), (''stellarOwner'', js_get record ''owner''),
        (''kernelAddress'', js_get t ''kernelAddress''), (''bridgeAgent'', js_get t ''bridgeAgent''),
        (''runId'', js_get t ''runId''), (''grantTxHash'', js_get t ''grantTxHash''),
        (''allocations'', js_get t ''allocations'')])"

definition terminalShelf :: "string \<Rightarrow> shelf" where
  "terminalShelf state1 =
     (if state1 = ''uncertain'' then Uncertain else if state1 = ''blocked'' then Blocked else Terminal)"

definition terminalize ::
  "device \<Rightarrow> storage \<Rightarrow> int \<Rightarrow> jsv \<Rightarrow> string \<Rightarrow> string \<Rightarrow> storage \<times> outcome" where
  "terminalize d st now record state1 reasonCode =
     (case checkpointCctpTransfer d st (js_get record ''owner'') (js_get record ''requestId'')
             (js_get record ''state'') (JStr state1) (JObj [(''reasonCode'', JStr reasonCode)]) now of
        (st', Inl e) \<Rightarrow> (st', Threw e)
      | (st', Inr _) \<Rightarrow> (st', Filed (terminalShelf state1)))"

definition checkpointRecord ::
  "device \<Rightarrow> storage \<Rightarrow> int \<Rightarrow> jsv \<Rightarrow> string \<Rightarrow> string \<Rightarrow> jsv \<Rightarrow> jsv journal_res" where
  "checkpointRecord d st now record from1 to1 patch =
     checkpointCctpTransfer d st (js_get record ''owner'') (js_get record ''requestId'')
       (JStr from1) (JStr to1) patch now"

text \<open>The \<open>catch\<close> blocks: a mismatch blocks the record, every other error holds it.\<close>

definition catchError ::
  "device \<Rightarrow> storage \<Rightarrow> int \<Rightarrow> jsv \<Rightarrow> string \<Rightarrow> jsv \<Rightarrow> storage \<times> outcome" where
  "catchError d st now record reasonCode code =
     (if code = JStr ''identity_mismatch'' then terminalize d st now record ''blocked'' reasonCode
      else (st, Filed Held))"

text \<open>An error of the journal thrown inside a \<open>try\<close>: its code is not \<open>identity_mismatch\<close>.\<close>

fun inTry :: "storage \<times> outcome \<Rightarrow> storage \<times> outcome" where
  "inTry (st, Threw e) = (st, Filed Held)"
| "inTry (st, ou) = (st, ou)"

text \<open>The last checkpoint of a \<open>try\<close>, after which the record is put on \<open>resumed\<close>.\<close>

definition resumedAfter :: "jsv journal_res \<Rightarrow> storage \<times> outcome" where
  "resumedAfter r = (case r of (st, Inl e) \<Rightarrow> (st, Filed Held) | (st, Inr _) \<Rightarrow> (st, Filed Resumed))"

text \<open>Every call is made only when its service is a function; otherwise the record is blocked.\<close>

definition callOrBlock ::
  "device \<Rightarrow> (service \<Rightarrow> bool) \<Rightarrow> storage \<Rightarrow> int \<Rightarrow> jsv \<Rightarrow> service \<Rightarrow> jsv \<Rightarrow> storage \<times> outcome" where
  "callOrBlock d svc st now record f body =
     (if \<not> svc f then terminalize d st now record ''blocked'' ''authorization_unavailable''
      else (st, Awaits f body record))"

definition transferFields :: "jsv \<Rightarrow> string list \<Rightarrow> jsv" where
  "transferFields record fs = JObj (map (\<lambda>f. (f, js_get (js_get record ''transfer'') f)) fs)"

subsection \<open>Up to the first await\<close>

definition forwardTail ::
  "device \<Rightarrow> (service \<Rightarrow> bool) \<Rightarrow> storage \<Rightarrow> (nat \<Rightarrow> int) \<Rightarrow> jsv \<Rightarrow> storage \<times> outcome" where
  "forwardTail d svc st clk record =
     (if js_get record ''state'' = JStr ''attach_pending'' then
        callOrBlock d svc st (clk 1) record postFarmAttach
          (transferFields record [''mandateId'', ''jobId'', ''burnTxHash''])
      else if js_get record ''state'' = JStr ''settling'' then
        callOrBlock d svc st (clk 1) record pollForwardStatus (transferFields record [''mandateId'', ''jobId''])
      else (st, Unfiled))"

definition oneForward ::
  "device \<Rightarrow> (service \<Rightarrow> bool) \<Rightarrow> storage \<Rightarrow> (nat \<Rightarrow> int) \<Rightarrow> jsv \<Rightarrow> storage \<times> outcome" where
  "oneForward d svc st clk record =
     (let state1 = js_get record ''state'' in
      if state1 = JStr ''intent_creating'' then
        callOrBlock d svc st (clk 0) record postFarmIntent (intentBody record)
      else if state1 = JStr ''intent_acked'' then (st, Filed Held)
      else if state1 = JStr ''burn_submitting'' then
        terminalize d st (clk 0) record ''uncertain'' ''burn_submission_unknown''
      else if state1 = JStr ''burn_confirmed'' then
        (case checkpointRecord d st (clk 0) record ''burn_confirmed'' ''attach_pending'' JUndef of
           (st', Inl e) \<Rightarrow> (st', Threw e)
         | (st', Inr record') \<Rightarrow> forwardTail d svc st' clk record')
      else forwardTail d svc st clk record)"

definition relayTail ::
  "device \<Rightarrow> (service \<Rightarrow> bool) \<Rightarrow> storage \<Rightarrow> (nat \<Rightarrow> int) \<Rightarrow> jsv \<Rightarrow> storage \<times> outcome" where
  "relayTail d svc st clk record =
     (if js_get record ''state'' = JStr ''relay_pending'' then
        callOrBlock d svc st (clk 2) record postUnwindAttach
          (transferFields record [''jobId'', ''userOpHash'', ''unwindTxHash''])
      else if js_get record ''state'' = JStr ''settling'' then
        callOrBlock d svc st (clk 2) record pollUnwindStatus (transferFields record [''jobId''])
      else (st, Unfiled))"

definition reverseTail ::
  "device \<Rightarrow> (service \<Rightarrow> bool) \<Rightarrow> storage \<Rightarrow> (nat \<Rightarrow> int) \<Rightarrow> jsv \<Rightarrow> storage \<times> outcome" where
  "reverseTail d svc st clk record =
     (if js_get record ''state'' = JStr ''unwind_confirmed'' then
        (case checkpointRecord d st (clk 1) record ''unwind_confirmed'' ''relay_pending'' JUndef of
           (st', Inl e) \<Rightarrow> (st', Threw e)
         | (st', Inr record') \<Rightarrow> relayTail d svc st' clk record')
      else relayTail d svc st clk record)"

definition oneReverse ::
  "device \<Rightarrow> (service \<Rightarrow> bool) \<Rightarrow> storage \<Rightarrow> (nat \<Rightarrow> int) \<Rightarrow> jsv \<Rightarrow> storage \<times> outcome" where
  "oneReverse d svc st clk record =
     (if js_get record ''state'' = JStr ''userop_submitting'' then
        terminalize d st (clk 0) record ''uncertain'' ''userop_submission_unknown''
      else if js_get record ''state'' = JStr ''userop_submitted'' then
        (if \<not> svc reconcileUnwindUserOp then (st, Filed Held)
         else (st, Awaits reconcileUnwindUserOp
                 (transferFields record [''jobId'', ''userOpHash'', ''kernelAddress'', ''recipientHint'']) record))
      else reverseTail d svc st clk record)"

definition one ::
  "device \<Rightarrow> (service \<Rightarrow> bool) \<Rightarrow> storage \<Rightarrow> (nat \<Rightarrow> int) \<Rightarrow> jsv \<Rightarrow> storage \<times> outcome" where
  "one d svc st clk record =
     (if js_get record ''direction'' = JStr ''forward'' then oneForward d svc st clk record
      else oneReverse d svc st clk record)"

subsection \<open>From a reply to the next await\<close>

text \<open>\<open>field !== undefined && field !== record.transfer.field\<close>.\<close>

definition contradicts :: "jsv \<Rightarrow> jsv \<Rightarrow> string \<Rightarrow> bool" where
  "contradicts response record f \<longleftrightarrow>
     js_get response f \<noteq> JUndef \<and> \<not> strict_eq (js_get response f) (js_get (js_get record ''transfer'') f)"

definition intentAccepted :: "jsv \<Rightarrow> jsv \<Rightarrow> bool" where
  "intentAccepted record ack \<longleftrightarrow>
     js_get ack ''acknowledged'' = JBool True \<and> js_get ack ''schemaVersion'' = JNum 1
   \<and> hex_run 32 (if js_truthy (js_get ack ''jobId'') then js_to_key (js_get ack ''jobId'') else [])
   \<and> (js_get ack ''echoedRequestId'' = JUndef \<or> strict_eq (js_get ack ''echoedRequestId'') (js_get record ''requestId''))"

definition evidenceVerified :: "jsv \<Rightarrow> jsv \<Rightarrow> bool" where
  "evidenceVerified record ev \<longleftrightarrow>
     strict_eq (js_get ev ''userOpHash'') (js_get (js_get record ''transfer'') ''userOpHash'')
   \<and> strict_eq (js_get ev ''kernelAddress'') (js_get (js_get record ''transfer'') ''kernelAddress'')
   \<and> (js_truthy (js_get ev ''unwindTxHash'') \<and> EVM_HASH_RE (js_get ev ''unwindTxHash''))
   \<and> js_get ev ''evidenceStatus'' = JStr ''verified''"

definition settleStatus ::
  "device \<Rightarrow> storage \<Rightarrow> int \<Rightarrow> jsv \<Rightarrow> bool \<Rightarrow> jsv \<Rightarrow> storage \<times> outcome" where
  "settleStatus d st now record mismatch response =
     (if mismatch then catchError d st now record ''status_unavailable'' (JStr ''identity_mismatch'')
      else case terminalForStatus (js_get response ''status'') of
        None \<Rightarrow> (st, Filed Held)
      | Some (state1, reasonCode) \<Rightarrow> inTry (terminalize d st now record state1 reasonCode))"

definition reconciled ::
  "device \<Rightarrow> (service \<Rightarrow> bool) \<Rightarrow> storage \<Rightarrow> (nat \<Rightarrow> int) \<Rightarrow> jsv \<Rightarrow> jsv \<Rightarrow> storage \<times> outcome" where
  "reconciled d svc st clk record ev =
     (if js_get ev ''status'' = JStr ''pending'' \<or> js_get ev ''evidenceStatus'' = JStr ''needs_reconcile''
      then (st, Filed Held)
      else if js_get ev ''status'' = JStr ''reverted'' then
        inTry (terminalize d st (clk 0) record ''error'' ''receipt_reverted'')
      else if \<not> evidenceVerified record ev then
        inTry (terminalize d st (clk 0) record ''blocked'' ''receipt_evidence_unverified'')
      else case checkpointRecord d st (clk 0) record ''userop_submitted'' ''unwind_confirmed''
                  (JObj [(''unwindTxHash'', js_get ev ''unwindTxHash'')]) of
             (st', Inl e) \<Rightarrow> (st', Filed Held)
           | (st', Inr record') \<Rightarrow> reverseTail d svc st' clk record')"

definition replied ::
  "device \<Rightarrow> (service \<Rightarrow> bool) \<Rightarrow> storage \<Rightarrow> (nat \<Rightarrow> int) \<Rightarrow> service \<Rightarrow> jsv \<Rightarrow> jsv \<Rightarrow> storage \<times> outcome" where
  "replied d svc st clk f record response =
     (let mismatch = JStr ''identity_mismatch'' in
      case f of
        postFarmIntent \<Rightarrow>
          if \<not> intentAccepted record response
          then catchError d st (clk 0) record ''intent_unavailable'' mismatch
          else resumedAfter (checkpointRecord d st (clk 0) record ''intent_creating'' ''intent_acked''
                 (JObj [(''jobId'', js_get response ''jobId'')]))
      | postFarmAttach \<Rightarrow>
          if contradicts response record ''jobId'' \<or> contradicts response record ''burnTxHash''
          then catchError d st (clk 0) record ''attach_unavailable'' mismatch
          else resumedAfter (checkpointRecord d st (clk 0) record ''attach_pending'' ''settling'' JUndef)
      | pollForwardStatus \<Rightarrow>
          settleStatus d st (clk 0) record
            (contradicts response record ''jobId'' \<or> contradicts response record ''burnTxHash'') response
      | postUnwindAttach \<Rightarrow>
          if contradicts response record ''jobId''
          then catchError d st (clk 0) record ''unwind_attach_unavailable'' mismatch
          else resumedAfter (checkpointRecord d st (clk 0) record ''relay_pending'' ''settling'' JUndef)
      | pollUnwindStatus \<Rightarrow>
          settleStatus d st (clk 0) record
            (\<not> strict_eq (js_get response ''jobId'') (js_get (js_get record ''transfer'') ''jobId'')
             \<or> contradicts response record ''userOpHash'' \<or> contradicts response record ''unwindTxHash'') response
      | reconcileUnwindUserOp \<Rightarrow> reconciled d svc st clk record response)"

text \<open>The reason a rejected call blocks the record for, when its error is a mismatch.\<close>

fun unavailableReason :: "service \<Rightarrow> string" where
  "unavailableReason postFarmIntent = ''intent_unavailable''"
| "unavailableReason postFarmAttach = ''attach_unavailable''"
| "unavailableReason postUnwindAttach = ''unwind_attach_unavailable''"
| "unavailableReason _ = ''status_unavailable''"

fun resume_reply ::
  "device \<Rightarrow> (service \<Rightarrow> bool) \<Rightarrow> storage \<Rightarrow> (nat \<Rightarrow> int) \<Rightarrow> service \<Rightarrow> jsv \<Rightarrow> reply \<Rightarrow> storage \<times> outcome" where
  "resume_reply d svc st clk f record (Replied response) = replied d svc st clk f record response"
| "resume_reply d svc st clk f record (Failed code) =
     (if f = reconcileUnwindUserOp then (st, Filed Held)
      else catchError d st (clk 0) record (unavailableReason f) code)"

subsection \<open>Calls that run side by side\<close>

text \<open>
  A call of \<open>resumePendingCctpTransfers\<close> lists the records once and hands them to the pool, which
  takes them in order. \<open>active\<close> is shared by all calls: a record that another call is working on
  is not started again, and its request id goes to that other call's summary. How many records are
  taken at a time, and whether a signal stops the taking, only decides which of the steps below
  happen next.
\<close>

record resume_call =
  c_owner :: jsv
  c_queue :: "jsv list"
  c_files :: "(shelf \<times> jsv) list"

record resume_task =
  t_call :: nat
  t_service :: service
  t_record :: jsv

record resume_system =
  journal :: storage
  active :: "(string \<times> resume_task) list"
  calls :: "resume_call list"

definition activeKey :: "jsv \<Rightarrow> jsv \<Rightarrow> string" where
  "activeKey owner requestId = ownerKey owner @ '':'' @ js_to_key requestId"

definition put :: "resume_system \<Rightarrow> nat \<Rightarrow> shelf \<Rightarrow> jsv \<Rightarrow> resume_system" where
  "put s n sh requestId =
     s\<lparr>calls := (calls s)[n := (calls s ! n)\<lparr>c_files := c_files (calls s ! n) @ [(sh, requestId)]\<rparr>]\<rparr>"

text \<open>The end of a stretch of the task \<open>key\<close> that call \<open>n\<close> started for \<open>record\<close>.\<close>

fun endStretch :: "resume_system \<Rightarrow> string \<Rightarrow> nat \<Rightarrow> jsv \<Rightarrow> storage \<times> outcome \<Rightarrow> resume_system" where
  "endStretch s key n record (st, Awaits f body record') =
     s\<lparr>journal := st,
       active := AList.update key \<lparr>t_call = n, t_service = f, t_record = record'\<rparr> (active s)\<rparr>"
| "endStretch s key n record (st, Filed sh) =
     put (s\<lparr>journal := st, active := AList.delete key (active s)\<rparr>) n sh (js_get record ''requestId'')"
| "endStretch s key n record (st, ou) = s\<lparr>journal := st, active := AList.delete key (active s)\<rparr>"

definition resumePendingCctpTransfers :: "device \<Rightarrow> resume_system \<Rightarrow> jsv \<Rightarrow> jsv \<Rightarrow> resume_system" where
  "resumePendingCctpTransfers d s owner limit =
     (case listCctpTransfers d (journal s) owner limit of
        (st, Inl e) \<Rightarrow> s\<lparr>journal := st\<rparr>
      | (st, Inr records) \<Rightarrow>
          s\<lparr>journal := st, calls := calls s @ [\<lparr>c_owner = owner, c_queue = records, c_files = []\<rparr>]\<rparr>)"

text \<open>The mapper of the pool on the next record of call \<open>n\<close>.\<close>

definition takeRecord ::
  "device \<Rightarrow> (service \<Rightarrow> bool) \<Rightarrow> resume_system \<Rightarrow> nat \<Rightarrow> (nat \<Rightarrow> int) \<Rightarrow> resume_system" where
  "takeRecord d svc s n clk =
     (if length (calls s) \<le> n then s
      else case c_queue (calls s ! n) of
        [] \<Rightarrow> s
      | record # rest \<Rightarrow>
          let s' = s\<lparr>calls := (calls s)[n := (calls s ! n)\<lparr>c_queue := rest\<rparr>]\<rparr>;
              key = activeKey (c_owner (calls s ! n)) (js_get record ''requestId'') in
          if state_in (js_get record ''state'') TERMINAL then put s' n Terminal (js_get record ''requestId'')
          else if map_of (active s) key \<noteq> None then s'
          else endStretch s' key n record (one d svc (journal s) clk record))"

definition answerTask ::
  "device \<Rightarrow> (service \<Rightarrow> bool) \<Rightarrow> resume_system \<Rightarrow> string \<Rightarrow> (nat \<Rightarrow> int) \<Rightarrow> reply \<Rightarrow> resume_system" where
  "answerTask d svc s key clk rep =
     (case map_of (active s) key of
        None \<Rightarrow> s
      | Some t \<Rightarrow>
          endStretch s key (t_call t) (t_record t)
            (resume_reply d svc (journal s) clk (t_service t) (t_record t) rep))"

text \<open>One list of the result of a call.\<close>

definition summary :: "resume_call \<Rightarrow> shelf \<Rightarrow> string list" where
  "summary c sh = sort (map (\<lambda>x. js_to_key (snd x)) (filter (\<lambda>x. fst x = sh) (c_files c)))"

end
