(* ===== verification/ResumeSafety.thy ===== *)
theory ResumeSafety
  imports ResumeTransfers JournalSafety
begin

section \<open>Resuming pending transfers: the storage\<close>

text \<open>
  What \<open>ResumeTransfers\<close> does to the journal. Every stretch of a resume is a sequence of journal
  operations that are listings and checkpoints into states in which nothing is submitted (\<open>quiet\<close>);
  the rules of the collection \<open>stretch\<close> follow the code. The events of several resumes and of other
  tabs form a machine over one row, for which the interface of \<open>Machines\<close> is discharged.
\<close>

definition SUBMITTING :: "string list" where "SUBMITTING = [''burn_submitting'', ''userop_submitting'']"

text \<open>The operations of the journal a resume performs.\<close>

fun quiet_op :: "journal_op \<Rightarrow> bool" where
  "quiet_op (JCheckpoint full owner rid from1 to1 patch now) = (\<not> state_in to1 SUBMITTING)"
| "quiet_op (JList full owner limit) = True"
| "quiet_op _ = False"

inductive quiet :: "storage \<Rightarrow> storage \<Rightarrow> bool" where
  quiet_refl: "quiet st st"
| quiet_op: "quiet st st1 \<Longrightarrow> quiet_op op \<Longrightarrow> quiet st (journal_apply st1 op)"

lemma quiet_trans: "quiet st1 st2 \<Longrightarrow> quiet st st1 \<Longrightarrow> quiet st st2"
  by (induction rule: quiet.induct) (auto intro: quiet.intros)

definition named :: "jsv \<Rightarrow> bool" where "named r \<longleftrightarrow> js_is_str (js_get r ''requestId'')"

lemma quiet_checkpoint:
  assumes "js_is_str i" "\<not> state_in to1 SUBMITTING"
  shows "quiet st (fst (checkpointCctpTransfer (honest full) st owner i from1 to1 patch now))"
proof -
  from assms(1) obtain rid where "i = JStr rid" by (auto elim: js_is_str.elims)
  then show ?thesis
    using quiet_op [OF quiet_refl, of "JCheckpoint full owner rid from1 to1 patch now" st] assms(2) by simp
qed

lemma checkpoint_named:
  "checkpointCctpTransfer d st owner i from1 to1 patch now = (st', Inr r) \<Longrightarrow> js_get r ''requestId'' = i"
  by (elim checkpoint_ok) (auto dest: decision_identity)

text \<open>
  A stretch is quiet when it changes the storage quietly and holds, at its next await, a record
  of the same request.
\<close>

definition quiet_stretch :: "storage \<Rightarrow> jsv \<Rightarrow> storage \<times> outcome \<Rightarrow> bool" where
  "quiet_stretch st r x \<longleftrightarrow>
     quiet st (fst x)
   \<and> (\<forall>f body r'. snd x = Awaits f body r' \<longrightarrow> js_get r' ''requestId'' = js_get r ''requestId'')"

named_theorems stretch

lemma stretch_stay [stretch]: "quiet_stretch st r (st, Filed sh)" "quiet_stretch st r (st, Unfiled)"
  "quiet_stretch st r (st, Awaits f body r)"
  by (simp_all add: quiet_stretch_def quiet_refl)

lemma stretch_after:
  assumes "quiet st st1" "js_get r1 ''requestId'' = js_get r ''requestId''" "quiet_stretch st1 r1 x"
  shows "quiet_stretch st r x"
  using assms by (auto simp: quiet_stretch_def intro: quiet_trans)

lemma stretch_terminalize [stretch]:
  assumes "named r" "state1 \<in> set TERMINAL"
  shows "quiet_stretch st r (terminalize (honest full) st now r state1 why)"
proof -
  have "\<not> state_in (JStr state1) SUBMITTING"
    using assms(2) by (auto simp: TERMINAL_def SUBMITTING_def state_in_def)
  then show ?thesis
    using quiet_checkpoint [of "js_get r ''requestId''" "JStr state1" st full "js_get r ''owner''"] assms(1)
    by (auto simp: terminalize_def quiet_stretch_def named_def split: prod.splits sum.splits)
       (metis fst_conv)+
qed

lemma terminal_names [stretch]:
  "''blocked'' \<in> set TERMINAL" "''uncertain'' \<in> set TERMINAL" "''error'' \<in> set TERMINAL"
  by (simp_all add: TERMINAL_def)

lemma stretch_catch [stretch]: "named r \<Longrightarrow> quiet_stretch st r (catchError (honest full) st now r why code)"
  by (simp add: catchError_def stretch)

lemma stretch_try [stretch]: "quiet_stretch st r x \<Longrightarrow> quiet_stretch st r (inTry x)"
  by (cases x rule: inTry.cases) (auto simp: quiet_stretch_def)

lemma stretch_call [stretch]: "named r \<Longrightarrow> quiet_stretch st r (callOrBlock (honest full) svc st now r f body)"
  by (simp add: callOrBlock_def stretch)

text \<open>A checkpoint followed by what runs on the record it returns.\<close>

lemma stretch_checkpoint:
  assumes "named r" "to1 \<notin> set SUBMITTING"
    and err: "\<And>st' e. quiet st st' \<Longrightarrow> quiet_stretch st r (k (st', Inl e))"
    and ok: "\<And>st' r'. named r' \<Longrightarrow> quiet_stretch st' r' (k (st', Inr r'))"
  shows "quiet_stretch st r (k (checkpointRecord (honest full) st now r from1 to1 patch))"
proof -
  obtain st' x where c: "checkpointRecord (honest full) st now r from1 to1 patch = (st', x)" by force
  have q: "quiet st st'"
    using quiet_checkpoint [of "js_get r ''requestId''" "JStr to1" st full "js_get r ''owner''" "JStr from1" patch now]
      assms(1,2) c by (auto simp: checkpointRecord_def named_def state_in_def)
  show ?thesis
  proof (cases x)
    case (Inl e)
    with err [OF q] show ?thesis by (simp add: c)
  next
    case (Inr r')
    then have "js_get r' ''requestId'' = js_get r ''requestId''"
      using c by (auto simp: checkpointRecord_def dest: checkpoint_named)
    with Inr assms(1) show ?thesis
      using stretch_after [OF q _ ok [of r' st']] by (simp add: c named_def)
  qed
qed

lemma stretch_quiet_end:
  "quiet st st' \<Longrightarrow> quiet_stretch st r (st', Threw e)" "quiet st st' \<Longrightarrow> quiet_stretch st r (st', Filed sh)"
  by (simp_all add: quiet_stretch_def)

lemma stretch_then:
  assumes "named r" "to1 \<notin> set SUBMITTING" "\<And>st' r'. named r' \<Longrightarrow> quiet_stretch st' r' (k st' r')"
  shows "quiet_stretch st r (case checkpointRecord (honest full) st now r from1 to1 patch of
      (st', Inl e) \<Rightarrow> (st', Threw e) | (st', Inr r') \<Rightarrow> k st' r')"
    and "quiet_stretch st r (case checkpointRecord (honest full) st now r from1 to1 patch of
      (st', Inl e) \<Rightarrow> (st', Filed sh) | (st', Inr r') \<Rightarrow> k st' r')"
proof -
  show "quiet_stretch st r (case checkpointRecord (honest full) st now r from1 to1 patch of
      (st', Inl e) \<Rightarrow> (st', Threw e) | (st', Inr r') \<Rightarrow> k st' r')"
    by (rule stretch_checkpoint [where k = "\<lambda>x. case x of (st', Inl e) \<Rightarrow> (st', Threw e) | (st', Inr r') \<Rightarrow> k st' r'"])
       (simp_all add: assms stretch_quiet_end)
  show "quiet_stretch st r (case checkpointRecord (honest full) st now r from1 to1 patch of
      (st', Inl e) \<Rightarrow> (st', Filed sh) | (st', Inr r') \<Rightarrow> k st' r')"
    by (rule stretch_checkpoint [where k = "\<lambda>x. case x of (st', Inl e) \<Rightarrow> (st', Filed sh) | (st', Inr r') \<Rightarrow> k st' r'"])
       (simp_all add: assms stretch_quiet_end)
qed

lemma stretch_resumed [stretch]:
  assumes "named r" "to1 \<notin> set SUBMITTING"
  shows "quiet_stretch st r (resumedAfter (checkpointRecord (honest full) st now r from1 to1 patch))"
  by (rule stretch_checkpoint [where k = resumedAfter])
     (simp_all add: assms resumedAfter_def stretch_quiet_end quiet_refl)

lemma not_submitting [stretch]:
  "''intent_acked'' \<notin> set SUBMITTING" "''attach_pending'' \<notin> set SUBMITTING" "''settling'' \<notin> set SUBMITTING"
  "''relay_pending'' \<notin> set SUBMITTING" "''unwind_confirmed'' \<notin> set SUBMITTING"
  by (simp_all add: SUBMITTING_def)

lemma stretch_forwardTail [stretch]: "named r \<Longrightarrow> quiet_stretch st r (forwardTail (honest full) svc st clk r)"
  by (simp add: forwardTail_def stretch)

lemma stretch_relayTail [stretch]: "named r \<Longrightarrow> quiet_stretch st r (relayTail (honest full) svc st clk r)"
  by (simp add: relayTail_def stretch)

lemma stretch_reverseTail [stretch]: "named r \<Longrightarrow> quiet_stretch st r (reverseTail (honest full) svc st clk r)"
  by (simp add: reverseTail_def stretch stretch_then)

lemma stretch_one: "named r \<Longrightarrow> quiet_stretch st r (one (honest full) svc st clk r)"
  by (simp add: one_def oneForward_def oneReverse_def Let_def stretch stretch_then)

lemma terminalForStatus_state:
  assumes "terminalForStatus v = Some (s, why)"
  shows "s \<in> set TERMINAL \<and> why \<in> set REASONS"
proof (cases "v = JStr ''expired''")
  case True
  with assms show ?thesis by (simp add: terminalForStatus_def TERMINAL_def REASONS_def)
next
  case False
  with assms have "state_in v TERMINAL" by (auto simp: terminalForStatus_def TERMINAL_def split: if_split_asm)
  then consider "v = JStr ''done''" | "v = JStr ''error''" | "v = JStr ''uncertain''" | "v = JStr ''blocked''"
    by (auto simp: state_in_def TERMINAL_def)
  then show ?thesis
    using assms
    by cases (simp add: terminalForStatus_def state_in_def TERMINAL_def REASONS_def; elim conjE; hypsubst; simp)+
qed

lemma stretch_settle [stretch]: "named r \<Longrightarrow> quiet_stretch st r (settleStatus (honest full) st now r b v)"
  by (cases "terminalForStatus (js_get v ''status'')")
     (auto simp: settleStatus_def intro!: stretch dest: terminalForStatus_state)

lemma stretch_reconciled [stretch]: "named r \<Longrightarrow> quiet_stretch st r (reconciled (honest full) svc st clk r v)"
  by (simp add: reconciled_def stretch stretch_then)

lemma stretch_reply: "named r \<Longrightarrow> quiet_stretch st r (resume_reply (honest full) svc st clk f r rep)"
  by (cases rep; cases f) (simp_all add: replied_def Let_def stretch)

subsection \<open>What a quiet change does to a row\<close>

definition row_submitting :: "jsv option \<Rightarrow> bool" where
  "row_submitting x = (case x of Some r \<Rightarrow> state_in (js_get r ''state'') SUBMITTING | None \<Rightarrow> False)"

lemma write_row_state:
  assumes "row_ok owner rid st'" "st' = fst (journalWrite (honest full) st key n)"
  shows "current owner rid st' = current owner rid st \<or> current owner rid st' = Some n"
proof (cases "st' = AList.update key (Stringified n) st \<and> key = keyFor owner (JStr rid)")
  case True
  then have "map_of st' (keyFor owner (JStr rid)) = Some (Stringified n)" by (simp add: update_conv')
  moreover from this have "current owner rid st' \<noteq> None" using assms(1) by (simp add: row_ok_def)
  ultimately show ?thesis by (auto simp: current_def acceptable_def split: if_splits)
next
  case False
  then show ?thesis
    using write_honest [of full st key n] assms(2) by (auto simp: current_def update_conv')
qed

lemma checkpoint_row_state:
  assumes ok: "row_ok owner rid st"
    and st': "st' = fst (checkpointCctpTransfer (honest full) st owner' (JStr rid') from1 to1 patch now)"
  shows "current owner rid st' = current owner rid st
    \<or> (\<exists>n. current owner rid st' = Some n \<and> js_get n ''state'' = to1)"
proof -
  have ok': "row_ok owner rid st'"
    using row_moves_ok [OF ok checkpoint_row_moves [OF ok]] st' by blast
  obtain st1 x where rd: "rawRead (honest full) True st owner' (JStr rid') = (st1, x)" by force
  have m: "current owner rid st1 = current owner rid st"
    using rawRead_keeps_row [OF ok, of "honest full" True owner' rid'] rd by (simp add: current_def)
  have u: "usable (honest full)" by (simp add: honest_def)
  show ?thesis
  proof (cases "\<exists>cur n. x = Inr (Some cur)
      \<and> checkpointDecision cur from1 to1 (if patch = JUndef then JObj [] else patch) now = Inr (Some n)")
    case True
    then obtain cur n where x: "x = Inr (Some cur)"
      and dec: "checkpointDecision cur from1 to1 (if patch = JUndef then JObj [] else patch) now = Inr (Some n)" by auto
    have "validate cur" using rd x by (auto simp: rawRead_Some_iff acceptable_iff)
    then have "js_get n ''state'' = to1" using decision_step dec by blast
    moreover have "st' = fst (journalWrite (honest full) st1 (keyFor owner' (JStr rid')) n)"
      using st' by (simp add: checkpointCctpTransfer_def u rd x dec)
    ultimately show ?thesis using write_row_state [OF ok'] m by metis
  next
    case False
    then have "st' = st1"
      using st' by (auto simp: checkpointCctpTransfer_def u rd split: sum.splits option.splits)
    with m show ?thesis by simp
  qed
qed

lemma quiet_op_row:
  assumes "row_ok owner rid st" "quiet_op op"
  shows "row_ok owner rid (journal_apply st op)
    \<and> progress (current owner rid st) \<le> progress (current owner rid (journal_apply st op))
    \<and> (row_submitting (current owner rid (journal_apply st op)) \<longrightarrow>
         current owner rid (journal_apply st op) = current owner rid st)"
proof -
  have "\<not> removal owner rid st op" using assms(2) by (cases op) (simp_all add: removal_def)
  then have mv: "row_moves owner rid st (journal_apply st op)" by (rule op_row_moves [OF assms(1)])
  have "row_submitting (current owner rid (journal_apply st op)) \<longrightarrow>
      current owner rid (journal_apply st op) = current owner rid st"
  proof (cases op)
    case (JCheckpoint full ow i from1 to1 patch now)
    with checkpoint_row_state [OF assms(1) refl, of full ow i from1 to1 patch now] assms(2)
    show ?thesis by (auto simp: row_submitting_def)
  next
    case (JList full ow limit)
    have "map_of (journal_apply st op) (keyFor owner (JStr rid)) = map_of st (keyFor owner (JStr rid))"
      using readAll_keeps_row [OF assms(1), of "honest full" ow "map fst st"] JList
      by (auto simp: listCctpTransfers_def split: jsv.split prod.split sum.split)
    then show ?thesis by (simp add: current_def)
  qed (use assms(2) in auto)
  with mv show ?thesis using row_moves_ok [OF assms(1)] progress_mono [OF assms(1)] by blast
qed

lemma quiet_row:
  assumes "quiet st st'" "row_ok owner rid st"
  shows "row_ok owner rid st' \<and> progress (current owner rid st) \<le> progress (current owner rid st')
    \<and> (row_submitting (current owner rid st') \<longrightarrow> current owner rid st' = current owner rid st)"
  using assms
proof (induction rule: quiet.induct)
  case (quiet_op st st1 op)
  note ih = quiet_op.IH [OF quiet_op.prems]
  show ?case using quiet_op_row [OF conjunct1 [OF ih] quiet_op.hyps(2)] ih by (auto intro: order_trans)
qed simp

subsection \<open>Any interleaving of resumes and other tabs\<close>

datatype resume_event =
    Begin bool jsv jsv
  | Take bool "service \<Rightarrow> bool" nat "nat \<Rightarrow> int"
  | Answer bool "service \<Rightarrow> bool" string "nat \<Rightarrow> int" reply
  | Tab journal_op

fun resume_apply :: "resume_system \<Rightarrow> resume_event \<Rightarrow> resume_system" where
  "resume_apply s (Begin full owner limit) = resumePendingCctpTransfers (honest full) s owner limit"
| "resume_apply s (Take full svc n clk) = takeRecord (honest full) svc s n clk"
| "resume_apply s (Answer full svc key clk rep) = answerTask (honest full) svc s key clk rep"
| "resume_apply s (Tab op) = s\<lparr>journal := journal_apply (journal s) op\<rparr>"

text \<open>Every record in a queue or held at an await names its request by a string.\<close>

definition all_named :: "resume_system \<Rightarrow> bool" where
  "all_named s \<longleftrightarrow>
     (\<forall>q \<in> set (map c_queue (calls s)). \<forall>r \<in> set q. named r) \<and> (\<forall>(key, t) \<in> set (active s). named (t_record t))"

definition resume_inv :: "jsv \<Rightarrow> string \<Rightarrow> resume_system \<Rightarrow> bool" where
  "resume_inv owner rid s \<longleftrightarrow> row_ok owner rid (journal s) \<and> all_named s"

lemma readAll_named: "readAll d st owner keys = (st', Inr rs) \<Longrightarrow> list_all named rs"
proof (induction keys arbitrary: st rs)
  case (Cons key keys)
  then show ?case
    by (auto simp: Let_def split: if_splits prod.splits sum.splits option.splits)
       (auto simp: rawRead_Some_iff acceptable_iff named_def)
qed simp

lemma list_named: "listCctpTransfers d st owner limit = (st', Inr rs) \<Longrightarrow> \<forall>r \<in> set rs. named r"
  by (auto simp: listCctpTransfers_def list_all_iff split: jsv.splits if_splits prod.splits sum.splits
      dest!: readAll_named in_set_takeD)

lemma begin_quiet: "quiet (journal s) (journal (resumePendingCctpTransfers (honest full) s owner limit))"
  using quiet_op [OF quiet_refl, of "JList full owner limit" "journal s"]
  by (auto simp: resumePendingCctpTransfers_def split: prod.splits sum.splits)

lemma begin_named: "all_named s \<Longrightarrow> all_named (resumePendingCctpTransfers (honest full) s owner limit)"
  by (auto simp: resumePendingCctpTransfers_def all_named_def split: prod.splits sum.splits dest: list_named)

lemma journal_put [simp]: "journal (put s n sh i) = journal s" "active (put s n sh i) = active s"
  by (simp_all add: put_def)

lemma journal_endStretch: "journal (endStretch s key n r x) = fst x"
  by (cases "(s, key, n, r, x)" rule: endStretch.cases) simp_all

lemma queues_put [simp]: "map c_queue (calls (put s n sh i)) = map c_queue (calls s)"
  by (simp add: put_def map_update) (metis list_update_id map_update)

lemma all_named_put [simp]: "all_named (put s n sh i) = all_named s"
  by (simp only: all_named_def queues_put journal_put)

lemma set_delete_subset: "set (AList.delete k xs) \<subseteq> set xs"
  by (simp add: AList.delete_eq)

lemma set_update_alist: "set (AList.update k v xs) \<subseteq> insert (k, v) (set xs)"
  by (induction xs) auto

lemma named_endStretch:
  assumes "all_named s" "named r" "quiet_stretch st r x"
  shows "all_named (endStretch s key n r x)"
proof (cases "(s, key, n, r, x)" rule: endStretch.cases)
  case (1 s key n r0 st f body r1)
  with assms show ?thesis
    using set_update_alist [of key "\<lparr>t_call = n, t_service = f, t_record = r1\<rparr>" "active s"]
    by (fastforce simp: all_named_def quiet_stretch_def named_def)
next
  case (2 s key n r0 st sh)
  with assms(1) show ?thesis
    by (auto simp: all_named_def dest: subsetD [OF set_delete_subset])
qed (use assms in \<open>auto simp: all_named_def dest: subsetD [OF set_delete_subset]\<close>)

lemma take_cases:
  assumes "all_named s"
  shows "quiet (journal s) (journal (takeRecord (honest full) svc s n clk))
    \<and> all_named (takeRecord (honest full) svc s n clk)"
proof (cases "n < length (calls s)")
  case True
  show ?thesis
  proof (cases "c_queue (calls s ! n)")
    case (Cons r rest)
    let ?s = "s\<lparr>calls := (calls s)[n := (calls s ! n)\<lparr>c_queue := rest\<rparr>]\<rparr>"
    have q: "\<forall>r \<in> set (c_queue (calls s ! n)). named r" using assms nth_mem [OF True] by (simp add: all_named_def)
    then have n: "named r" by (simp add: Cons)
    have "set (map c_queue (calls ?s)) \<subseteq> insert rest (set (map c_queue (calls s)))"
      by (auto simp: map_update dest!: subsetD [OF set_update_subset_insert])
    with assms q have s: "all_named ?s" by (auto simp: all_named_def Cons)
    show ?thesis
      using True Cons s named_endStretch [OF s n stretch_one [OF n]] stretch_one [OF n, of "journal s" full svc clk]
      by (auto simp: takeRecord_def Let_def journal_endStretch quiet_refl quiet_stretch_def)
  qed (use assms True in \<open>simp add: takeRecord_def quiet_refl\<close>)
qed (use assms in \<open>simp add: takeRecord_def quiet_refl\<close>)

lemma answer_cases:
  assumes "all_named s"
  shows "quiet (journal s) (journal (answerTask (honest full) svc s key clk rep))
    \<and> all_named (answerTask (honest full) svc s key clk rep)"
proof (cases "map_of (active s) key")
  case (Some t)
  then have n: "named (t_record t)" using assms by (fastforce simp: all_named_def dest: map_of_SomeD)
  show ?thesis
    using Some named_endStretch [OF assms n stretch_reply [OF n]]
      stretch_reply [OF n, of "journal s" full svc clk "t_service t" rep]
    by (simp add: answerTask_def journal_endStretch quiet_stretch_def)
qed (use assms in \<open>simp add: answerTask_def quiet_refl\<close>)

fun is_tab :: "resume_event \<Rightarrow> bool" where
  "is_tab (Tab op) = True"
| "is_tab _ = False"

lemma event_quiet:
  "all_named s \<Longrightarrow> \<not> is_tab e \<Longrightarrow> quiet (journal s) (journal (resume_apply s e)) \<and> all_named (resume_apply s e)"
  by (cases e) (simp_all add: begin_quiet begin_named take_cases answer_cases)

definition enters :: "(jsv option \<Rightarrow> bool) \<Rightarrow> jsv \<Rightarrow> string \<Rightarrow> resume_system \<Rightarrow> resume_event \<Rightarrow> bool" where
  "enters p owner rid s e \<longleftrightarrow>
     \<not> p (current owner rid (journal s)) \<and> p (current owner rid (journal (resume_apply s e)))"

definition row_burning :: "jsv option \<Rightarrow> bool" where
  "row_burning x = (case x of Some r \<Rightarrow> js_get r ''state'' = JStr ''burn_submitting'' | None \<Rightarrow> False)"

lemma resume_event_row:
  assumes "resume_inv owner rid s" "\<not> is_tab e"
  shows "\<not> enters row_submitting owner rid s e" "\<not> enters row_burning owner rid s e"
    "row_ok owner rid (journal (resume_apply s e))" "all_named (resume_apply s e)"
    "progress (current owner rid (journal s)) \<le> progress (current owner rid (journal (resume_apply s e)))"
proof -
  have b: "row_burning x \<Longrightarrow> row_submitting x" for x
    by (auto simp: row_burning_def row_submitting_def state_in_def SUBMITTING_def split: option.splits)
  from assms have "quiet (journal s) (journal (resume_apply s e))" "all_named (resume_apply s e)"
    using event_quiet by (simp_all add: resume_inv_def)
  moreover from this(1) have "row_ok owner rid (journal (resume_apply s e))
      \<and> progress (current owner rid (journal s)) \<le> progress (current owner rid (journal (resume_apply s e)))
      \<and> (row_submitting (current owner rid (journal (resume_apply s e))) \<longrightarrow>
          current owner rid (journal (resume_apply s e)) = current owner rid (journal s))"
    using assms by (intro quiet_row) (auto simp: resume_inv_def)
  ultimately show "\<not> enters row_submitting owner rid s e" "\<not> enters row_burning owner rid s e"
    "row_ok owner rid (journal (resume_apply s e))" "all_named (resume_apply s e)"
    "progress (current owner rid (journal s)) \<le> progress (current owner rid (journal (resume_apply s e)))"
    using b by (auto simp: enters_def)
qed

lemma tab_enters: "enters row_burning owner rid s (Tab op) \<longleftrightarrow> enters_burn owner rid (journal s) op"
  by (auto simp: enters_def enters_burn_def row_burning_def Let_def)

text \<open>Another tab removes the transfer.\<close>

definition tab_removal :: "jsv \<Rightarrow> string \<Rightarrow> resume_system \<Rightarrow> resume_event \<Rightarrow> bool" where
  "tab_removal owner rid s e = (case e of Tab op \<Rightarrow> removal owner rid (journal s) op | _ \<Rightarrow> False)"

interpretation resume: reset_machine resume_apply "resume_inv owner rid"
  "\<lambda>s. progress (current owner rid (journal s))" "enters row_burning owner rid" "tab_removal owner rid" 3 for owner rid
proof unfold_locales
  fix s op assume i: "resume_inv owner rid s"
  show "resume_inv owner rid (resume_apply s op)"
  proof (cases "is_tab op")
    case True
    then obtain jop where "op = Tab jop" by (auto elim: is_tab.elims)
    with i show ?thesis using journal.inv_app [of owner rid] by (simp add: resume_inv_def all_named_def)
  qed (use resume_event_row [OF i, of op] in \<open>simp add: resume_inv_def\<close>)
next
  fix s op assume i: "resume_inv owner rid s" and r: "\<not> tab_removal owner rid s op"
  show "progress (current owner rid (journal s)) \<le> progress (current owner rid (journal (resume_apply s op)))"
  proof (cases "is_tab op")
    case True
    then obtain jop where "op = Tab jop" by (auto elim: is_tab.elims)
    with i r show ?thesis using journal.rank_kept [of owner rid] by (simp add: resume_inv_def tab_removal_def)
  qed (use resume_event_row [OF i, of op] in simp)
next
  fix s op assume i: "resume_inv owner rid s" and e: "enters row_burning owner rid s op"
  from e resume_event_row(2) [OF i, of op] obtain jop where op: "op = Tab jop" by (cases op) auto
  from i e show "progress (current owner rid (journal s)) < 3" "3 \<le> progress (current owner rid (journal (resume_apply s op)))"
    using enters_burn_move [of owner rid "journal s" jop] by (simp_all add: op tab_enters resume_inv_def)
qed

end
