(* ===== verification/ResumeOutcome.thy ===== *)
theory ResumeOutcome
  imports ResumeSafety "HOL-Library.Multiset"
begin

section \<open>Resuming pending transfers: the outcomes\<close>

text \<open>
  A live record can always be ended, and advanced where no new evidence is asked; so the
  checkpoints a resume makes on the stored record succeed. From that: what happens to interrupted
  submissions and to confirmed burns, and what the summary of a call names.
\<close>

subsection \<open>Records that stay valid\<close>

lemma js_get_present: "js_get v k \<noteq> JUndef \<Longrightarrow> \<exists>kvs. v = JObj kvs \<and> (k, js_get v k) \<in> set kvs"
  by (cases v) (auto split: option.splits dest: map_of_SomeD)

lemma js_set_keys: "js_get v k \<noteq> JUndef \<Longrightarrow> js_keys (js_set v k x) = js_keys v"
  by (drule js_get_present) (force simp: update_keys)

lemma own_set: "js_get v k \<noteq> JUndef \<Longrightarrow> own (js_set v k x) keys = own v keys"
  by (simp add: own_def js_set_keys)

lemma safe_field: "safeValue v \<Longrightarrow> js_get v k \<noteq> JUndef \<Longrightarrow> \<not> SENSITIVE k \<and> safeValue (js_get v k)"
  by (drule js_get_present) (force simp: list_all_iff simp del: js_get.simps)

lemma safeValue_set:
  assumes "safeValue v" "js_get v k \<noteq> JUndef" "safeValue x"
  shows "safeValue (js_set v k x)"
proof -
  obtain kvs where "v = JObj kvs" using js_get_present [OF assms(2)] by blast
  with safe_field [OF assms(1,2)] assms(1,3) set_update_alist [of k x kvs]
  show ?thesis by (auto simp: list_all_iff dest!: subsetD)
qed

text \<open>A live record may always be ended: the record a terminal checkpoint writes is valid.\<close>

lemma terminal_next_valid:
  assumes cur: "validate cur" and live: "state_in (js_get cur ''state'') (states_of cur)"
    and to1: "to1 \<in> set TERMINAL" and why: "why \<in> set REASONS" and now: "safe_int now"
  shows "validate (nextRecord cur (js_get cur ''state'') (JStr to1) [(''reasonCode'', JStr why)] now)"
    (is "validate ?n")
proof -
  have obj: "js_is_obj cur" using cur by (rule validate_obj)
  have nt: "\<not> state_in (js_get cur ''state'') TERMINAL" using live terminal_not_state by blast
  note get = nextRecord_get [OF obj, of "js_get cur ''state''" "JStr to1" "[(''reasonCode'', JStr why)]" now]
  have t: "state_in (JStr to1) TERMINAL" "\<not> state_in (JStr to1) (states_of cur)"
    using to1 terminal_not_state by (auto simp: state_in_def)
  obtain u where u: "js_get cur ''updatedAtMs'' = JNum u" "safe_int u" "0 \<le> u"
    using cur by (auto simp: validate_def isSafeTime_def split: jsv.splits)
  have present: "js_get cur k \<noteq> JUndef" if "k \<in> {''state'', ''updatedAtMs'', ''transfer'', ''reasonCode'', ''terminalFrom''}" for k
    using validate_transfer_obj [OF cur] validate_state [OF cur] live u nt that
    by (auto simp: state_in_def validState_def Let_def)
  have sv: "safeValue cur" "own cur RECORD_KEYS" using cur by (simp_all add: validate_def)
  have ts: "safeValue (js_get cur ''transfer'')" "safeValue (js_get cur ''state'')"
    using safe_field [OF sv(1)] present by simp_all
  have "safeValue ?n \<and> own ?n RECORD_KEYS"
    using obj present sv u(1) t(1) ts
    by (simp add: nextRecord_def Let_def js_assign_def safeValue_set own_set js_get_set)
  moreover have "validState ?n"
    using get t live why by (simp add: validState_def Let_def states_of_def state_in_def)
  moreover have "hasEvidence ?n"
    using get to1 by (simp add: hasEvidence_def Let_def state_in_def TERMINAL_def) auto
  moreover have "js_le_num (js_get cur ''createdAtMs'') (JNum (max u now))"
    using cur u by (auto simp: validate_def js_le_num_def split: jsv.splits)
  ultimately show ?thesis
    using cur u now get by (auto simp: validate_def isSafeTime_def js_assign_def max_def)
qed

text \<open>A step along the direction that asks for no new evidence is valid, too.\<close>

inductive same_evidence :: "string \<Rightarrow> string \<Rightarrow> bool" where
  burnt: "same_evidence ''burn_confirmed'' ''attach_pending''"
| attached: "same_evidence ''attach_pending'' ''settling''"
| unwound: "same_evidence ''unwind_confirmed'' ''relay_pending''"
| relayed: "same_evidence ''relay_pending'' ''settling''"

lemma same_evidence_live:
  assumes "same_evidence from1 to1"
  shows "\<not> state_in (JStr to1) TERMINAL" "\<not> state_in (JStr from1) TERMINAL"
  using assms by (induction rule: same_evidence.induct) (simp_all add: state_in_def TERMINAL_def)

lemma same_evidence_next:
  assumes "same_evidence from1 to1" "js_get cur ''state'' = JStr from1" "js_get n ''state'' = JStr to1"
    "js_get n ''transfer'' = js_get cur ''transfer''" "js_get n ''direction'' = js_get cur ''direction''"
    "state_in (JStr from1) (states_of cur)" "hasEvidence cur"
  shows "hasEvidence n"
  using assms
  by (induction rule: same_evidence.induct)
     (simp_all add: hasEvidence_def Let_def state_in_def states_of_def FORWARD_def REVERSE_def split: if_split_asm)

lemma advance_next_valid:
  assumes cur: "validate cur" and s: "js_get cur ''state'' = JStr from1" "state_in (JStr to1) (states_of cur)"
    and e: "same_evidence from1 to1" and now: "safe_int now"
  shows "validate (nextRecord cur (JStr from1) (JStr to1) [] now)" (is "validate ?n")
proof -
  have obj: "js_is_obj cur" using cur by (rule validate_obj)
  note t = same_evidence_live [OF e]
  note get = nextRecord_get [OF obj, of "JStr from1" "JStr to1" "[]" now]
  obtain u where u: "js_get cur ''updatedAtMs'' = JNum u" "safe_int u" "0 \<le> u"
    using cur by (auto simp: validate_def isSafeTime_def split: jsv.splits)
  have present: "js_get cur ''state'' \<noteq> JUndef" "js_get cur ''transfer'' \<noteq> JUndef"
    using validate_transfer_obj [OF cur] s(1) by auto
  have sv: "safeValue cur" "own cur RECORD_KEYS" "hasEvidence cur" using cur by (simp_all add: validate_def)
  have ts: "safeValue (js_get cur ''transfer'')" using safe_field [OF sv(1)] present by simp
  have st: "state_in (JStr from1) (states_of cur)"
    using validate_state [OF cur] t(2) s(1) by (simp add: validState_def Let_def)
  have "safeValue ?n \<and> own ?n RECORD_KEYS"
    using obj present sv u(1) t(1) ts
    by (simp add: nextRecord_def Let_def js_assign_def safeValue_set own_set js_get_set)
  moreover have "validState ?n"
    using get t validate_state [OF cur] s by (simp add: validState_def Let_def states_of_def)
  moreover have "hasEvidence ?n"
    by (rule same_evidence_next [OF e s(1) _ _ _ st sv(3)]) (simp_all add: get js_assign_def)
  moreover have "js_le_num (js_get cur ''createdAtMs'') (JNum (max u now))"
    using cur u by (auto simp: validate_def js_le_num_def split: jsv.splits)
  ultimately show ?thesis
    using cur u now get by (auto simp: validate_def isSafeTime_def js_assign_def max_def)
qed

subsection \<open>Checkpoints of the current record succeed\<close>

lemma current_iff:
  "current owner rid st = Some r \<longleftrightarrow>
     (\<exists>raw1. map_of st (keyFor owner (JStr rid)) = Some raw1 \<and> acceptable owner (JStr rid) raw1 = Some r)"
  by (simp add: current_def split: option.split)

text \<open>The record of the row, addressed the way \<open>one\<close> addresses it: by its own fields.\<close>

lemma own_address:
  assumes "row_ok owner rid st" "current owner rid st = Some r"
  shows "rawRead (honest False) True st (js_get r ''owner'') (js_get r ''requestId'') = (st, Inr (Some r))"
    "keyFor (js_get r ''owner'') (js_get r ''requestId'') = keyFor owner (JStr rid)"
    "js_get r ''requestId'' = JStr rid" "validate r"
proof -
  from assms(2) obtain raw1 where m: "map_of st (keyFor owner (JStr rid)) = Some raw1"
    and a: "json_parse raw1 = Some r" "validate r" "ownerKey (js_get r ''owner'') = ownerKey owner"
      "js_get r ''requestId'' = JStr rid"
    by (auto simp: current_iff acceptable_iff)
  show k: "keyFor (js_get r ''owner'') (js_get r ''requestId'') = keyFor owner (JStr rid)"
    by (simp add: keyFor_def a)
  have "strkey (js_to_key (js_get r ''owner''))" using a(2) by (simp add: validate_def STRKEY_RE_def)
  moreover have "ownerKey (js_get r ''owner'') \<noteq> []"
    using a(3) assms(1) validOwner_length [of owner] by (auto simp: row_ok_def)
  ultimately have "validOwner (js_get r ''owner'')" by (cases "js_get r ''owner''") auto
  then show "rawRead (honest False) True st (js_get r ''owner'') (js_get r ''requestId'') = (st, Inr (Some r))"
    using m a assms(1) k by (auto simp: rawRead_Some_iff acceptable_iff honest_def row_ok_def)
qed (use assms in \<open>auto simp: current_iff acceptable_iff\<close>)

lemma checkpoint_current:
  assumes row: "row_ok owner rid st" "current owner rid st = Some r"
    and dec: "checkpointDecision r from1 to1 (if patch = JUndef then JObj [] else patch) now = Inr (Some n)"
  shows "\<exists>st'. checkpointCctpTransfer (honest False) st (js_get r ''owner'') (js_get r ''requestId'') from1 to1 patch now
      = (st', Inr n) \<and> current owner rid st' = Some n \<and> row_ok owner rid st'"
proof -
  note a = own_address [OF row]
  have v: "validate n" using decision_step [OF a(4) dec] by blast
  let ?st = "AList.update (keyFor owner (JStr rid)) (Stringified n) st"
  have "checkpointCctpTransfer (honest False) st (js_get r ''owner'') (js_get r ''requestId'') from1 to1 patch now = (?st, Inr n)"
    using dec v by (simp add: checkpointCctpTransfer_def a(1,2) journalWrite_def) (simp add: honest_def update_conv')
  moreover have "current owner rid ?st = Some n"
    using v decision_identity [OF a(4) dec] row(2) a(3)
    by (auto simp: current_iff acceptable_iff update_conv')
  moreover from this have "row_ok owner rid ?st" using row(1) by (simp add: row_ok_def)
  ultimately show ?thesis by blast
qed

lemma terminal_decision:
  assumes "validate r" "state_in (js_get r ''state'') (states_of r)" "to1 \<in> set TERMINAL" "why \<in> set REASONS"
    "safe_int now"
  shows "checkpointDecision r (js_get r ''state'') (JStr to1) (JObj [(''reasonCode'', JStr why)]) now
    = Inr (Some (nextRecord r (js_get r ''state'') (JStr to1) [(''reasonCode'', JStr why)] now))"
proof -
  have "state_in (JStr to1) TERMINAL" using assms(3) by (auto simp: state_in_def)
  moreover from this assms(2) have "js_get r ''state'' \<noteq> JStr to1" using terminal_not_state by metis
  moreover have "\<not> SENSITIVE ''reasonCode''" by code_simp
  ultimately show ?thesis
    using assms(2) terminal_next_valid [OF assms]
    by (simp add: checkpointDecision_def Let_def own_def overwrites_def)
qed

lemma terminalize_current:
  assumes row: "row_ok owner rid st" "current owner rid st = Some r"
    and live: "state_in (js_get r ''state'') (states_of r)"
    and to1: "to1 \<in> set TERMINAL" "why \<in> set REASONS" "safe_int now"
  shows "\<exists>st'. terminalize (honest False) st now r to1 why = (st', Filed (terminalShelf to1))
      \<and> current owner rid st' = Some (nextRecord r (js_get r ''state'') (JStr to1) [(''reasonCode'', JStr why)] now)
      \<and> row_ok owner rid st'"
  using checkpoint_current [OF row, of "js_get r ''state''" "JStr to1" "JObj [(''reasonCode'', JStr why)]" now]
    terminal_decision [OF own_address(4) [OF row] live to1]
  by (auto simp: terminalize_def)

lemma same_evidence_index:
  assumes "same_evidence from1 to1" "state_in (JStr from1) (states_of r)"
  shows "index_of (states_of r) (JStr to1) = index_of (states_of r) (JStr from1) + 1 \<and> from1 \<noteq> to1
    \<and> state_in (JStr to1) (states_of r)"
  using assms
  by (induction rule: same_evidence.induct)
     (simp_all add: index_of_def state_in_def states_of_def FORWARD_def REVERSE_def split: if_split_asm)

lemma advance_current:
  assumes row: "row_ok owner rid st" "current owner rid st = Some r"
    and s: "js_get r ''state'' = JStr from1" "same_evidence from1 to1" and now: "safe_int now"
  shows "\<exists>st' n. checkpointRecord (honest False) st now r from1 to1 JUndef = (st', Inr n)
      \<and> current owner rid st' = Some n \<and> row_ok owner rid st' \<and> js_get n ''state'' = JStr to1
      \<and> (\<forall>k \<in> {''direction'', ''requestId'', ''transfer''}. js_get n k = js_get r k)"
proof -
  have v: "validate r" using own_address(4) [OF row] .
  let ?n = "nextRecord r (JStr from1) (JStr to1) [] now"
  have "state_in (JStr from1) (states_of r)"
    using validate_state [OF v] s same_evidence_live [OF s(2)] by (simp add: validState_def Let_def)
  note ix = same_evidence_index [OF s(2) this]
  have "checkpointDecision r (JStr from1) (JStr to1) (if JUndef = JUndef then JObj [] else JUndef) now = Inr (Some ?n)"
    using ix s same_evidence_live [OF s(2)] advance_next_valid [OF v s(1) _ s(2) now]
    by (simp add: checkpointDecision_def Let_def own_def allowedFields_def)
  from checkpoint_current [OF row this] show ?thesis
    by (auto simp: checkpointRecord_def nextRecord_get [OF validate_obj [OF v]] js_assign_def)
qed

subsection \<open>What a resume does\<close>


lemma one_interrupted:
  assumes v: "validate r" and s: "js_get r ''state'' \<in> {JStr ''burn_submitting'', JStr ''userop_submitting''}"
  shows "one d svc st clk r = terminalize d st (clk 0) r ''uncertain''
      (if js_get r ''direction'' = JStr ''forward'' then ''burn_submission_unknown'' else ''userop_submission_unknown'')"
    "state_in (js_get r ''state'') (states_of r)"
proof -
  have nt: "\<not> state_in (js_get r ''state'') TERMINAL" using s by (auto simp: state_in_def TERMINAL_def)
  then show live: "state_in (js_get r ''state'') (states_of r)"
    using validate_state [OF v] by (auto simp: validState_def Let_def)
  show "one d svc st clk r = terminalize d st (clk 0) r ''uncertain''
      (if js_get r ''direction'' = JStr ''forward'' then ''burn_submission_unknown'' else ''userop_submission_unknown'')"
    using s live
    by (cases "js_get r ''direction'' = JStr ''forward''"; elim insertE) (simp_all add: one_def oneForward_def oneReverse_def Let_def state_in_def states_of_def
        FORWARD_def REVERSE_def)
qed

text \<open>
  C33. An interrupted submission ends uncertain. When the next record of a call is the stored one
  and its burn or user operation may have been sent, no service is asked: the record becomes
  \<open>uncertain\<close> with the reason of its direction, keeps the transfer and the state it was in, and its
  request id is put on that list.
\<close>

theorem interrupted_submission_is_uncertain:
  assumes "n < length (calls s)" "c_queue (calls s ! n) = r # rest"
    and "row_ok (c_owner (calls s ! n)) rid (journal s)" "current (c_owner (calls s ! n)) rid (journal s) = Some r"
    and "js_get r ''state'' \<in> {JStr ''burn_submitting'', JStr ''userop_submitting''}"
    and "map_of (active s) (activeKey (c_owner (calls s ! n)) (JStr rid)) = None" "safe_int (clk 0)"
  shows "\<exists>st r'. takeRecord (honest False) svc s n clk =
        s\<lparr>journal := st,
          calls := (calls s)[n := (calls s ! n)\<lparr>c_queue := rest, c_files := c_files (calls s ! n) @ [(Uncertain, JStr rid)]\<rparr>]\<rparr>
      \<and> current (c_owner (calls s ! n)) rid st = Some r' \<and> js_get r' ''state'' = JStr ''uncertain''
      \<and> js_get r' ''reasonCode'' = JStr (if js_get r ''direction'' = JStr ''forward''
          then ''burn_submission_unknown'' else ''userop_submission_unknown'')
      \<and> js_get r' ''terminalFrom'' = js_get r ''state'' \<and> js_get r' ''transfer'' = js_get r ''transfer''"
proof -
  let ?o = "c_owner (calls s ! n)"
  let ?why = "if js_get r ''direction'' = JStr ''forward'' then ''burn_submission_unknown'' else ''userop_submission_unknown''"
  note a = own_address [OF assms(3,4)]
  note one = one_interrupted [OF a(4) assms(5)]
  have "\<exists>st'. terminalize (honest False) (journal s) (clk 0) r ''uncertain'' ?why = (st', Filed (terminalShelf ''uncertain''))
      \<and> current ?o rid st' = Some (nextRecord r (js_get r ''state'') (JStr ''uncertain'') [(''reasonCode'', JStr ?why)] (clk 0))
      \<and> row_ok ?o rid st'"
    by (rule terminalize_current [OF assms(3,4) one(2)]) (simp_all add: TERMINAL_def REASONS_def assms(7))
  then obtain st where st: "terminalize (honest False) (journal s) (clk 0) r ''uncertain'' ?why = (st, Filed Uncertain)"
    "current ?o rid st = Some (nextRecord r (js_get r ''state'') (JStr ''uncertain'') [(''reasonCode'', JStr ?why)] (clk 0))"
    by (auto simp: terminalShelf_def)
  have nt: "\<not> state_in (js_get r ''state'') TERMINAL" using one(2) terminal_not_state by blast
  have u: "state_in (JStr ''uncertain'') TERMINAL" by (simp add: state_in_def TERMINAL_def)
  have "AList.delete (activeKey ?o (JStr rid)) (active s) = active s"
    using assms(6) by (simp add: delete_id map_of_eq_None_iff)
  with st show ?thesis
    using assms(1,2,6) nt u one(1) [of "honest False" svc "journal s" clk] a(3)
    by (auto simp: takeRecord_def Let_def put_def nextRecord_get [OF validate_obj [OF a(4)]] js_assign_def)
qed

text \<open>
  C34. A confirmed burn settles. The stored record is forward and its burn is confirmed, and both
  services are there. One resume asks for the attachment and, when the reply contradicts nothing,
  leaves the record \<open>settling\<close> with the same transfer; the next resume asks for the status and,
  when the job is done, ends the record as \<open>done\<close> (with the reason code \<open>job_error\<close>).
\<close>

theorem confirmed_burn_settles:
  assumes "row_ok owner rid st" "current owner rid st = Some r"
    and "js_get r ''direction'' = JStr ''forward''" "js_get r ''state'' = JStr ''burn_confirmed''"
    and "svc postFarmAttach" "svc pollForwardStatus" "safe_int (clk 0)"
    and "\<not> contradicts att r ''jobId''" "\<not> contradicts att r ''burnTxHash''"
    and "\<not> contradicts status r ''jobId''" "\<not> contradicts status r ''burnTxHash''"
    and "js_get status ''status'' = JStr ''done''"
  shows "\<exists>st1 r1 st2 r2 st3 r3.
      one (honest False) svc st clk r =
        (st1, Awaits postFarmAttach (transferFields r [''mandateId'', ''jobId'', ''burnTxHash'']) r1)
    \<and> resume_reply (honest False) svc st1 clk postFarmAttach r1 (Replied att) = (st2, Filed Resumed)
    \<and> current owner rid st2 = Some r2 \<and> js_get r2 ''state'' = JStr ''settling''
    \<and> js_get r2 ''transfer'' = js_get r ''transfer''
    \<and> one (honest False) svc st2 clk r2 = (st2, Awaits pollForwardStatus (transferFields r [''mandateId'', ''jobId'']) r2)
    \<and> resume_reply (honest False) svc st2 clk pollForwardStatus r2 (Replied status) = (st3, Filed Terminal)
    \<and> current owner rid st3 = Some r3 \<and> js_get r3 ''state'' = JStr ''done''
    \<and> js_get r3 ''reasonCode'' = JStr ''job_error'' \<and> js_get r3 ''transfer'' = js_get r ''transfer''"
proof -
  from advance_current [OF assms(1,2,4) burnt assms(7)] obtain st1 r1 where
    c1: "checkpointRecord (honest False) st (clk 0) r ''burn_confirmed'' ''attach_pending'' JUndef = (st1, Inr r1)"
      "current owner rid st1 = Some r1" "row_ok owner rid st1" "js_get r1 ''state'' = JStr ''attach_pending''"
      "js_get r1 ''direction'' = JStr ''forward''" "js_get r1 ''transfer'' = js_get r ''transfer''"
    using assms(3) by auto
  from advance_current [OF c1(3,2,4) attached assms(7)] obtain st2 r2 where
    c2: "checkpointRecord (honest False) st1 (clk 0) r1 ''attach_pending'' ''settling'' JUndef = (st2, Inr r2)"
      "current owner rid st2 = Some r2" "row_ok owner rid st2" "js_get r2 ''state'' = JStr ''settling''"
      "js_get r2 ''direction'' = JStr ''forward''" "js_get r2 ''transfer'' = js_get r ''transfer''"
    using c1(5,6) by auto
  have v2: "validate r2" using own_address(4) [OF c2(3,2)] .
  have live: "state_in (js_get r2 ''state'') (states_of r2)"
    using c2(4,5) by (simp add: state_in_def states_of_def FORWARD_def)
  have "''done'' \<in> set TERMINAL" "''job_error'' \<in> set REASONS" by (simp_all add: TERMINAL_def REASONS_def)
  from terminalize_current [OF c2(3,2) live this assms(7)] obtain st3 where
    c3: "terminalize (honest False) st2 (clk 0) r2 ''done'' ''job_error'' = (st3, Filed Terminal)"
      "current owner rid st3 = Some (nextRecord r2 (js_get r2 ''state'') (JStr ''done'') [(''reasonCode'', JStr ''job_error'')] (clk 0))"
    by (auto simp: terminalShelf_def)
  have t: "state_in (JStr ''done'') TERMINAL" by (simp add: state_in_def TERMINAL_def)
  have k: "contradicts x r1 f = contradicts x r f" "contradicts x r2 f = contradicts x r f" for x f
    using c1(6) c2(6) by (simp_all add: contradicts_def)
  have s1: "one (honest False) svc st clk r =
      (st1, Awaits postFarmAttach (transferFields r [''mandateId'', ''jobId'', ''burnTxHash'']) r1)"
    using assms(3-6) c1 by (simp add: one_def oneForward_def Let_def forwardTail_def callOrBlock_def transferFields_def)
  have s2: "resume_reply (honest False) svc st1 clk postFarmAttach r1 (Replied att) = (st2, Filed Resumed)"
    using assms(8,9) c2(1) by (simp add: replied_def Let_def k resumedAfter_def)
  have s3: "one (honest False) svc st2 clk r2 =
      (st2, Awaits pollForwardStatus (transferFields r [''mandateId'', ''jobId'']) r2)"
    using c2(4-6) assms(6) by (simp add: one_def oneForward_def Let_def forwardTail_def callOrBlock_def transferFields_def)
  have "terminalForStatus (js_get status ''status'') = Some (''done'', ''job_error'')"
    by (simp add: assms(12) terminalForStatus_def state_in_def)
  then have s4: "resume_reply (honest False) svc st2 clk pollForwardStatus r2 (Replied status) = (st3, Filed Terminal)"
    using assms(10,11) c3(1) by (simp add: replied_def Let_def settleStatus_def k)
  show ?thesis
    using s1 s2 s3 s4 c2(2,4,6) c3(2) t nextRecord_get [OF validate_obj [OF v2]] by (fastforce simp: js_assign_def)
qed

subsection \<open>Every request is filed at most once\<close>

abbreviation requestId :: "jsv \<Rightarrow> jsv" where "requestId r \<equiv> js_get r ''requestId''"

definition tasks_of :: "nat \<Rightarrow> (string \<times> resume_task) list \<Rightarrow> jsv multiset" where
  "tasks_of n ts = image_mset (\<lambda>x. requestId (t_record (snd x))) (filter_mset (\<lambda>x. t_call (snd x) = n) (mset ts))"

text \<open>What a call has filed, has still to take, and has running.\<close>

definition owed :: "nat \<Rightarrow> resume_system \<Rightarrow> jsv multiset" where
  "owed n s = mset (map snd (c_files (calls s ! n))) + mset (map requestId (c_queue (calls s ! n))) + tasks_of n (active s)"

definition running :: "nat \<Rightarrow> nat \<Rightarrow> jsv \<Rightarrow> jsv multiset" where
  "running m n i = (if n = m then {#i#} else {#})"

lemma tasks_of_Cons: "tasks_of m (x # xs) = running m (t_call (snd x)) (requestId (t_record (snd x))) + tasks_of m xs"
  by (simp add: tasks_of_def running_def)

lemma tasks_of_Nil: "tasks_of m [] = {#}"
  by (simp add: tasks_of_def)

lemma tasks_update_new:
  "map_of xs k = None \<Longrightarrow> tasks_of m (AList.update k t xs) = tasks_of m xs + running m (t_call t) (requestId (t_record t))"
  by (induction xs) (auto simp: tasks_of_Cons tasks_of_Nil split: if_splits)

lemma tasks_update_old:
  "map_of xs k = Some t0 \<Longrightarrow> t_call t = t_call t0 \<Longrightarrow> requestId (t_record t) = requestId (t_record t0) \<Longrightarrow>
     tasks_of m (AList.update k t xs) = tasks_of m xs"
  by (induction xs) (auto simp: tasks_of_Cons split: if_splits)

lemma tasks_delete_subset: "tasks_of m (AList.delete k xs) \<subseteq># tasks_of m xs"
  by (induction xs) (auto simp: tasks_of_Cons intro: subset_mset.add_increasing)

lemma tasks_delete:
  "map_of xs k = Some t0 \<Longrightarrow>
     tasks_of m (AList.delete k xs) + running m (t_call t0) (requestId (t_record t0)) \<subseteq># tasks_of m xs"
proof (induction xs)
  case (Cons x xs)
  show ?case
  proof (cases "fst x = k")
    case True
    with Cons.prems have "t0 = snd x" by (cases x) auto
    then show ?thesis using True tasks_delete_subset [of m k xs] by (cases x) (simp add: tasks_of_Cons)
  next
    case False
    with Cons show ?thesis by (cases x) (auto simp: tasks_of_Cons add.assoc)
  qed
qed simp

lemma owed_put:
  assumes "n < length (calls s)"
  shows "owed m (put s n sh i) = owed m s + running m n i"
  using assms by (simp add: owed_def put_def running_def nth_list_update)

lemma owed_endStretch:
  assumes n: "n < length (calls s)" and q: "quiet_stretch st r x"
    and t: "map_of (active s) key = None \<and> extra = running m n (requestId r)
       \<or> (\<exists>t. map_of (active s) key = Some t \<and> t_call t = n \<and> requestId (t_record t) = requestId r \<and> extra = {#})"
  shows "owed m (endStretch s key n r x) \<subseteq># owed m s + extra"
proof -
  have d: "tasks_of m (AList.delete key (active s)) + running m n (requestId r) \<subseteq># tasks_of m (active s) + extra"
    using t tasks_delete [of "active s" key _ m] by (auto simp: AList.delete_id map_of_eq_None_iff)
  then have d': "tasks_of m (AList.delete key (active s)) \<subseteq># tasks_of m (active s) + extra"
    by (rule subset_mset.order_trans [rotated]) simp
  show ?thesis
  proof (cases "(s, key, n, r, x)" rule: endStretch.cases)
    case (1 s key n r0 st f body r1)
    with q have "requestId r1 = requestId r" by (simp add: quiet_stretch_def)
    with 1 t show ?thesis by (auto simp: owed_def tasks_update_new tasks_update_old)
  next
    case (2 s key n r0 st sh)
    with n d show ?thesis by (simp add: owed_put) (simp add: owed_def add.assoc)
  qed (use d' in \<open>simp_all add: owed_def add.assoc\<close>)
qed

lemma calls_endStretch: "length (calls (endStretch s key n r x)) = length (calls s)"
  by (cases "(s, key, n, r, x)" rule: endStretch.cases) (simp_all add: put_def)

lemma all_named_queue: "all_named s \<Longrightarrow> n < length (calls s) \<Longrightarrow> r \<in> set (c_queue (calls s ! n)) \<Longrightarrow> named r"
  using nth_mem [of n "calls s"] by (auto simp: all_named_def)

lemma owed_take:
  assumes "all_named s" "m < length (calls s)"
  shows "owed m (takeRecord (honest full) svc s n clk) \<subseteq># owed m s"
proof (cases "n < length (calls s) \<and> c_queue (calls s ! n) \<noteq> []")
  case True
  then obtain r rest where q: "n < length (calls s)" "c_queue (calls s ! n) = r # rest"
    by (cases "c_queue (calls s ! n)") auto
  let ?s = "s\<lparr>calls := (calls s)[n := (calls s ! n)\<lparr>c_queue := rest\<rparr>]\<rparr>"
  have o: "owed m s = owed m ?s + running m n (requestId r)"
    using q by (auto simp: owed_def running_def nth_list_update)
  have nm: "named r" using all_named_queue [OF assms(1) q(1)] q(2) by simp
  have n': "n < length (calls ?s)" using q by simp
  let ?key = "activeKey (c_owner (calls s ! n)) (requestId r)"
  have "owed m (endStretch ?s ?key n r (one (honest full) svc (journal s) clk r)) \<subseteq># owed m s"
    if "map_of (active s) ?key = None"
    unfolding o by (rule owed_endStretch [OF n' stretch_one [OF nm]]) (use that in simp)
  then show ?thesis using q o owed_put [OF n'] by (simp add: takeRecord_def Let_def)
qed (auto simp: takeRecord_def)

text \<open>Tasks belong to calls that exist.\<close>

definition tasks_known :: "resume_system \<Rightarrow> bool" where
  "tasks_known s \<longleftrightarrow> (\<forall>(key, t) \<in> set (active s). t_call t < length (calls s))"

lemma known_put [simp]: "tasks_known (put s n sh i) = tasks_known s"
  by (simp add: tasks_known_def put_def)

lemma known_endStretch: "tasks_known s \<Longrightarrow> n < length (calls s) \<Longrightarrow> tasks_known (endStretch s key n r x)"
  using set_update_alist set_delete_subset unfolding tasks_known_def
  by (cases "(s, key, n, r, x)" rule: endStretch.cases) (fastforce simp: put_def)+

lemma owed_answer:
  assumes "all_named s" "tasks_known s" "m < length (calls s)"
  shows "owed m (answerTask (honest full) svc s key clk rep) \<subseteq># owed m s"
proof (cases "map_of (active s) key")
  case (Some t)
  then have t: "named (t_record t)" "t_call t < length (calls s)"
    using assms map_of_SomeD [OF Some] by (fastforce simp: all_named_def tasks_known_def)+
  have "owed m (endStretch s key (t_call t) (t_record t)
      (resume_reply (honest full) svc (journal s) clk (t_service t) (t_record t) rep)) \<subseteq># owed m s + {#}"
    using Some by (intro owed_endStretch [OF t(2) stretch_reply [OF t(1)]]) auto
  then show ?thesis by (simp add: answerTask_def Some)
qed (simp add: answerTask_def)

lemma length_calls_le: "length (calls s) \<le> length (calls (resume_apply s e))"
  by (cases e)
     (auto simp: resumePendingCctpTransfers_def takeRecord_def answerTask_def calls_endStretch put_def Let_def
       split: prod.split sum.split list.split option.split)

lemma event_owed:
  assumes "all_named s" "tasks_known s" "m < length (calls s)"
  shows "owed m (resume_apply s e) \<subseteq># owed m s"
proof (cases e)
  case (Begin full owner limit)
  with assms(3) show ?thesis
    by (auto simp: resumePendingCctpTransfers_def owed_def nth_append split: prod.split sum.split)
qed (use assms in \<open>simp_all add: owed_take owed_answer, simp add: owed_def\<close>)

lemma event_keeps:
  assumes "all_named s" "tasks_known s"
  shows "all_named (resume_apply s e) \<and> tasks_known (resume_apply s e)"
proof
  show "all_named (resume_apply s e)"
    using event_quiet [OF assms(1), of e] assms(1) by (cases e) (auto simp: all_named_def)
  show "tasks_known (resume_apply s e)"
  proof (cases e)
    case (Begin full owner limit)
    with assms(2) show ?thesis
      by (fastforce simp: resumePendingCctpTransfers_def tasks_known_def split: prod.split sum.split)
  next
    case (Take full svc n clk)
    have "tasks_known (s\<lparr>calls := (calls s)[n := c]\<rparr>)" for c using assms(2) by (simp add: tasks_known_def)
    with Take assms(2) show ?thesis
      by (auto simp: takeRecord_def Let_def known_endStretch split: list.split)
  next
    case (Answer full svc key clk rep)
    have "t_call t < length (calls s)" if "map_of (active s) key = Some t" for t
      using assms(2) map_of_SomeD [OF that] by (fastforce simp: tasks_known_def)
    with Answer assms(2) show ?thesis by (auto simp: answerTask_def known_endStretch split: option.split)
  qed (use assms(2) in \<open>simp add: tasks_known_def\<close>)
qed

lemma run_owed:
  "all_named s \<Longrightarrow> tasks_known s \<Longrightarrow> m < length (calls s) \<Longrightarrow> owed m (run_ops resume_apply s es) \<subseteq># owed m s"
proof (induction es arbitrary: s)
  case (Cons e es)
  have "owed m (run_ops resume_apply (resume_apply s e) es) \<subseteq># owed m (resume_apply s e)"
    using Cons.prems event_keeps [of s e] length_calls_le [of s e] by (intro Cons.IH) auto
  also have "\<dots> \<subseteq># owed m s" using Cons.prems by (rule event_owed)
  finally show ?case by simp
qed simp

text \<open>A listing names every request once: the keys of the storage are distinct.\<close>

lemma readAll_ids:
  "readAll d st owner keys = (st', Inr rs) \<Longrightarrow> distinct keys \<Longrightarrow>
     distinct (map requestId rs) \<and> requestId ` set rs \<subseteq> {JStr i |i. PREFIX @ ownerKey owner @ '':'' @ i \<in> set keys}"
proof (induction keys arbitrary: st rs)
  case (Cons key keys)
  let ?pre = "PREFIX @ ownerKey owner @ '':''"
  show ?case
  proof (cases "take (length ?pre) key = ?pre")
    case True
    then have key: "key = ?pre @ drop (length ?pre) key" by (metis append_take_drop_id)
    from True Cons.prems(1) obtain st1 found rs' where
      rd: "rawRead d True st owner (JStr (drop (length ?pre) key)) = (st1, Inr found)"
      and rest: "readAll d st1 owner keys = (st', Inr rs')"
      and rs: "rs = (case found of None \<Rightarrow> rs' | Some r \<Rightarrow> r # rs')"
      by (auto simp: Let_def split: prod.splits sum.splits)
    have ih: "distinct (map requestId rs') \<and> requestId ` set rs' \<subseteq> {JStr i |i. PREFIX @ ownerKey owner @ '':'' @ i \<in> set keys}"
      using Cons.IH [OF rest] Cons.prems(2) by simp
    show ?thesis
    proof (cases found)
      case (Some r)
      then have "requestId r = JStr (drop (length ?pre) key)"
        using rd by (auto simp: rawRead_Some_iff acceptable_iff)
      moreover have "PREFIX @ ownerKey owner @ '':'' @ drop (length ?pre) key = key" using key by simp
      ultimately show ?thesis using ih Cons.prems(2) by (auto simp: rs Some)
    qed (use ih rs in auto)
  next
    case False
    with Cons show ?thesis by (fastforce simp: Let_def)
  qed
qed simp

lemma list_ids:
  assumes "listCctpTransfers d st owner limit = (st', Inr rs)" "distinct (map fst st)"
  shows "distinct (map requestId rs)"
proof -
  obtain m found where rd: "readAll d st owner (map fst st) = (st', Inr found)"
    and rs: "rs = take m (sort_key listing_key found)"
  proof (cases "if limit = JUndef then JNum 20 else limit")
    case (JNum k)
    with assms(1) that show ?thesis
      by (auto simp: listCctpTransfers_def simp del: readAll.simps split: if_split_asm prod.split_asm sum.split_asm)
  qed (use assms(1) in \<open>simp_all add: listCctpTransfers_def\<close>)
  have "distinct (map requestId found)" using readAll_ids [OF rd assms(2)] by blast
  then have "distinct (map requestId (sort_key listing_key found))"
    by (subst mset_eq_imp_distinct_iff [where ys = "map requestId found"]) simp_all
  then show ?thesis unfolding rs take_map [symmetric] by (rule distinct_take)
qed

lemma mset_distinct_sub: "distinct ys \<Longrightarrow> mset xs \<subseteq># mset ys \<Longrightarrow> distinct xs"
proof -
  assume d: "distinct ys" and s: "mset xs \<subseteq># mset ys"
  have c: "count (mset xs) x \<le> count (mset ys) x" for x by (rule mset_subset_eq_count [OF s])
  have "count (mset ys) x \<le> 1" for x using d by (auto simp: distinct_count_atmost_1)
  then have one: "count (mset xs) x \<le> 1" for x using c order_trans by blast
  have "count (mset xs) x = (if x \<in> set xs then 1 else 0)" for x
  proof (cases "x \<in> set xs")
    case True
    then have "0 < count (mset xs) x" by simp
    with one [of x] have "count (mset xs) x = 1" by linarith
    with True show ?thesis by (simp only: if_True)
  next
    case False
    then have "x \<notin># mset xs" by simp
    then show ?thesis using False by (simp only: not_in_iff if_False)
  qed
  then show "distinct xs" by (simp only: distinct_count_atmost_1) blast
qed

lemma filed_owed: "mset (map snd (c_files (calls s ! n))) \<subseteq># owed n s"
  by (simp add: owed_def add.assoc)

text \<open>
  A summary names a request once. A call of \<open>resumePendingCctpTransfers\<close> lists the pending
  records; whatever other calls, replies and other tabs do from then on, the lists of its summary
  together name only requests it listed, each at most once.
\<close>

theorem summary_names_once:
  assumes "distinct (map fst (journal s))" "all_named s" "tasks_known s"
    and "listCctpTransfers (honest full) (journal s) owner limit = (st, Inr records)"
    and "s' = run_ops resume_apply s (Begin full owner limit # es)"
  shows "distinct (map snd (c_files (calls s' ! length (calls s))))
    \<and> set (map snd (c_files (calls s' ! length (calls s)))) \<subseteq> requestId ` set records"
proof -
  let ?n = "length (calls s)"
  let ?s = "s\<lparr>journal := st, calls := calls s @ [\<lparr>c_owner = owner, c_queue = records, c_files = []\<rparr>]\<rparr>"
  have b: "resume_apply s (Begin full owner limit) = ?s"
    using assms(4) by (simp add: resumePendingCctpTransfers_def)
  have "t_call (snd x) \<noteq> ?n" if "x \<in> set (active s)" for x
    using assms(3) that by (cases x) (auto simp: tasks_known_def)
  then have "filter (\<lambda>x. t_call (snd x) = ?n) (active s) = []" by (simp add: filter_empty_conv)
  then have "tasks_of ?n (active s) = {#}" by (simp add: tasks_of_def flip: mset_filter)
  then have o: "owed ?n ?s = mset (map requestId records)" by (simp add: owed_def nth_append)
  have "owed ?n (run_ops resume_apply ?s es) \<subseteq># owed ?n ?s"
    using event_keeps [OF assms(2,3), of "Begin full owner limit"] b by (intro run_owed) auto
  then have "owed ?n s' \<subseteq># mset (map requestId records)" by (simp only: o assms(5) run_ops.simps b)
  with filed_owed have sub: "mset (map snd (c_files (calls s' ! ?n))) \<subseteq># mset (map requestId records)"
    by (rule subset_mset.order_trans)
  moreover have "distinct (map requestId records)" using list_ids [OF assms(4,1)] .
  ultimately have "distinct (map snd (c_files (calls s' ! ?n)))"
    by (rule mset_distinct_sub [rotated])
  then show ?thesis using set_mset_mono [OF sub] by simp
qed

subsection \<open>Concrete resumes\<close>

definition r_burning :: jsv where "r_burning = js_set j_next ''state'' (JStr ''burn_submitting'')"

definition r_confirmed :: jsv where
  "r_confirmed = js_set (js_set j_next ''state'' (JStr ''burn_confirmed'')) ''transfer''
     (js_set (js_get j_next ''transfer'') ''burnTxHash'' (JStr j_hash))"

definition r_storage :: "jsv \<Rightarrow> storage" where
  "r_storage r = [(keyFor (JStr j_owner) (JStr j_id), Stringified r)]"

definition r_system :: "jsv \<Rightarrow> resume_system" where
  "r_system r = \<lparr>journal = r_storage r, active = [],
     calls = [\<lparr>c_owner = JStr j_owner, c_queue = [r], c_files = []\<rparr>]\<rparr>"

lemma r_valid: "validate r_burning" "validate r_confirmed"
  by code_simp+

lemma r_gets:
  "js_get r_burning ''owner'' = JStr j_owner" "js_get r_burning ''requestId'' = JStr j_id"
  "js_get r_burning ''state'' = JStr ''burn_submitting''"
  "js_get r_confirmed ''owner'' = JStr j_owner" "js_get r_confirmed ''requestId'' = JStr j_id"
  "js_get r_confirmed ''state'' = JStr ''burn_confirmed''" "js_get r_confirmed ''direction'' = JStr ''forward''"
  by code_simp+

lemma r_current:
  assumes "validate r" "js_get r ''owner'' = JStr j_owner" "js_get r ''requestId'' = JStr j_id"
  shows "current (JStr j_owner) j_id (r_storage r) = Some r" "row_ok (JStr j_owner) j_id (r_storage r)"
  using assms by (simp_all add: current_def r_storage_def acceptable_iff row_ok_def)




theorem interrupted_submission_is_uncertain_witness:
  "\<exists>r' st. current (JStr j_owner) j_id st = Some r' \<and> js_get r' ''state'' = JStr ''uncertain''
     \<and> takeRecord (honest False) (\<lambda>f. True) (r_system r_burning) 0 (\<lambda>i. 20) =
         \<lparr>journal = st, active = [],
          calls = [\<lparr>c_owner = JStr j_owner, c_queue = [], c_files = [(Uncertain, JStr j_id)]\<rparr>]\<rparr>"
proof -
  have "row_ok (JStr j_owner) j_id (r_storage r_burning)" "current (JStr j_owner) j_id (r_storage r_burning) = Some r_burning"
    using r_current [OF r_valid(1)] r_gets by simp_all
  then show ?thesis
    using interrupted_submission_is_uncertain [of 0 "r_system r_burning" r_burning "[]" j_id "\<lambda>i. 20" "\<lambda>f. True"] r_gets(3)
    by (auto simp: r_system_def safe_int_def)
qed

theorem confirmed_burn_settles_witness:
  "\<exists>st1 r1 st2 st3 r3.
      one (honest False) (\<lambda>f. True) (r_storage r_confirmed) (\<lambda>i. 20) r_confirmed =
        (st1, Awaits postFarmAttach (transferFields r_confirmed [''mandateId'', ''jobId'', ''burnTxHash'']) r1)
    \<and> resume_reply (honest False) (\<lambda>f. True) st1 (\<lambda>i. 20) postFarmAttach r1 (Replied (JObj [])) = (st2, Filed Resumed)
    \<and> current (JStr j_owner) j_id st3 = Some r3 \<and> js_get r3 ''state'' = JStr ''done''"
proof -
  have "row_ok (JStr j_owner) j_id (r_storage r_confirmed)" "current (JStr j_owner) j_id (r_storage r_confirmed) = Some r_confirmed"
    using r_current [OF r_valid(2)] r_gets by simp_all
  from confirmed_burn_settles [OF this r_gets(7,6), of "\<lambda>f. True" "\<lambda>i. 20" "JObj []" "JObj [(''status'', JStr ''done'')]"]
  show ?thesis by (simp add: contradicts_def safe_int_def) blast
qed

lemma r_list:
  "listCctpTransfers (honest False) (r_storage r_burning) (JStr j_owner) JUndef = (r_storage r_burning, Inr [r_burning])"
proof -
  have "readAll (honest False) (r_storage r_burning) (JStr j_owner) (map fst (r_storage r_burning))
      = (r_storage r_burning, Inr [r_burning])"
    using read_stored [OF r_valid(1) r_gets(1,2), of False True]
    by (simp add: r_storage_def keyFor_def Let_def)
  then show ?thesis by (simp add: listCctpTransfers_def honest_def safe_int_def)
qed

theorem summary_names_once_witness:
  "distinct (map snd (c_files (calls (run_ops resume_apply
      \<lparr>journal = r_storage r_burning, active = [], calls = []\<rparr>
      [Begin False (JStr j_owner) JUndef, Take False (\<lambda>f. True) 0 (\<lambda>i. 20)]) ! 0)))"
proof -
  let ?s = "\<lparr>journal = r_storage r_burning, active = [], calls = []\<rparr> :: resume_system"
  have "distinct (map fst (journal ?s))" "all_named ?s" "tasks_known ?s"
    "listCctpTransfers (honest False) (journal ?s) (JStr j_owner) JUndef = (r_storage r_burning, Inr [r_burning])"
    using r_list by (simp_all add: r_storage_def all_named_def tasks_known_def)
  from summary_names_once [OF this refl, of "[Take False (\<lambda>f. True) 0 (\<lambda>i. 20)]"] show ?thesis by simp
qed

end
