(* ===== verification/BaseEvidence.thy ===== *)
theory BaseEvidence
  imports CanonicalJson
begin

section \<open>Evidence of the Base leg\<close>

text \<open>
  \<open>relayer/src/baseEvidenceValidation.mjs\<close> and the checks of \<open>relayer/src/baseEvidenceOutbox.mjs\<close> in
  front of its tables: which fields a checkpoint of each phase and state carries, and in which
  form. \<open>RegExp.test\<close> is on \<open>String(v)\<close>. An error is reduced to the check that failed.
\<close>

datatype evidence_error =
    not_an_object | not_allowlisted | field_required | bad_custody | bad_handle | bad_nonce | bad_unsigned
  | not_a_scalar | bad_schema | bad_address | bad_hash | bad_digest
  | bad_identity | execution_mismatch | unexpected_checkpoint_field | bad_phase_state | bad_observedAt
  | sensitive_evidence | unsupported_evidence
  | not_seeded | head_conflict | checkpoint_conflict | out_of_order | message_conflict | handle_conflict
  | reconciliation_conflict | constraint_failed | bad_version | bad_attempt_limit | not_a_submission_claim
  | owner_claim_conflict | not_an_owned_transition | owner_claim_stale | lease_stale | block_failed | no_checkpoint

datatype phase = cctp_burn | cctp_attestation | cctp_mint | base_deposit

datatype evidence_state = submitting | submitted | confirmed | failed | unknown | blocked

fun phase_name :: "phase \<Rightarrow> string" where
  "phase_name cctp_burn = ''cctp_burn''"
| "phase_name cctp_attestation = ''cctp_attestation''"
| "phase_name cctp_mint = ''cctp_mint''"
| "phase_name base_deposit = ''base_deposit''"

fun state_name :: "evidence_state \<Rightarrow> string" where
  "state_name submitting = ''submitting''"
| "state_name submitted = ''submitted''"
| "state_name confirmed = ''confirmed''"
| "state_name failed = ''failed''"
| "state_name unknown = ''unknown''"
| "state_name blocked = ''blocked''"

definition BASE_EVIDENCE_PHASES :: "phase list" where
  "BASE_EVIDENCE_PHASES = [cctp_burn, cctp_attestation, cctp_mint, base_deposit]"

definition BASE_EVIDENCE_STATES :: "evidence_state list" where
  "BASE_EVIDENCE_STATES = [submitting, submitted, confirmed, failed, unknown, blocked]"

text \<open>Membership of a value in the two sets, with the member it is.\<close>

definition phase_of :: "jsv \<Rightarrow> phase option" where
  "phase_of v = find (\<lambda>p. v = JStr (phase_name p)) BASE_EVIDENCE_PHASES"

definition state_of :: "jsv \<Rightarrow> evidence_state option" where
  "state_of v = find (\<lambda>s. v = JStr (state_name s)) BASE_EVIDENCE_STATES"

subsection \<open>Schemas\<close>

definition DEPOSIT_EVENT_FIELDS :: "string list" where
  "DEPOSIT_EVENT_FIELDS =
     [''address'', ''topic0'', ''logIndex'', ''caller'', ''poolAddress'', ''assets'', ''shares'']"

definition PINNED_ENTRY_POINT :: string where
  "PINNED_ENTRY_POINT = ''0x0000000071727de22e5e9d8baf0edac6f37da032''"

definition RECONCILE_HANDLE_FIELDS :: "string list" where
  "RECONCILE_HANDLE_FIELDS = [''entryPoint'', ''sender'', ''nonce'', ''startBlock'']"

definition UNSIGNED_FIELDS :: "string list" where
  "UNSIGNED_FIELDS =
     [''burnUnits7'', ''evidenceVersion'', ''chainId'', ''assets'', ''minShares'', ''shares'', ''logIndex'']"

definition BASE_COMMON_FIELDS :: "string list" where
  "BASE_COMMON_FIELDS =
     [''chainId'', ''yieldRouterAddress'', ''caller'', ''poolAddress'', ''assets'', ''minShares'']"

definition CCTP_BURN_IMMUTABLE_FIELDS :: "string list" where
  "CCTP_BURN_IMMUTABLE_FIELDS = [''burnTxHash'', ''expectationDigest'']"

definition CCTP_ATTESTATION_IMMUTABLE_FIELDS :: "string list" where
  "CCTP_ATTESTATION_IMMUTABLE_FIELDS = CCTP_BURN_IMMUTABLE_FIELDS @ [''messageDigest'', ''nonce'']"

definition CCTP_MINT_IMMUTABLE_FIELDS :: "string list" where
  "CCTP_MINT_IMMUTABLE_FIELDS = CCTP_ATTESTATION_IMMUTABLE_FIELDS @ [''attestationDigest'']"

fun BASE_EVIDENCE_SCHEMAS :: "phase \<Rightarrow> evidence_state \<Rightarrow> string list option" where
  "BASE_EVIDENCE_SCHEMAS cctp_burn s =
     (case s of
        submitting \<Rightarrow> None
      | submitted \<Rightarrow> Some (CCTP_BURN_IMMUTABLE_FIELDS @ [''burnUnits7''])
      | confirmed \<Rightarrow> Some (CCTP_BURN_IMMUTABLE_FIELDS @ [''burnUnits7''])
      | unknown \<Rightarrow> Some (CCTP_BURN_IMMUTABLE_FIELDS @ [''burnUnits7'', ''reasonCode''])
      | failed \<Rightarrow> Some [''reasonCode'']
      | blocked \<Rightarrow> Some [''reasonCode''])"
| "BASE_EVIDENCE_SCHEMAS cctp_attestation s =
     (case s of
        confirmed \<Rightarrow> Some (CCTP_BURN_IMMUTABLE_FIELDS @ [''messageDigest'', ''attestationDigest'', ''evidenceVersion''])
      | failed \<Rightarrow> Some (CCTP_ATTESTATION_IMMUTABLE_FIELDS @ [''reasonCode''])
      | blocked \<Rightarrow> Some (CCTP_ATTESTATION_IMMUTABLE_FIELDS @ [''reasonCode''])
      | _ \<Rightarrow> Some CCTP_ATTESTATION_IMMUTABLE_FIELDS)"
| "BASE_EVIDENCE_SCHEMAS cctp_mint s =
     (case s of
        confirmed \<Rightarrow> Some (CCTP_BURN_IMMUTABLE_FIELDS
           @ [''messageDigest'', ''attestationDigest'', ''evidenceVersion'', ''mintTxHash''])
      | submitted \<Rightarrow> Some (CCTP_MINT_IMMUTABLE_FIELDS @ [''evidenceVersion''])
      | failed \<Rightarrow> Some (CCTP_MINT_IMMUTABLE_FIELDS @ [''reasonCode''])
      | blocked \<Rightarrow> Some (CCTP_MINT_IMMUTABLE_FIELDS @ [''reasonCode''])
      | _ \<Rightarrow> Some CCTP_MINT_IMMUTABLE_FIELDS)"
| "BASE_EVIDENCE_SCHEMAS base_deposit s =
     (case s of
        submitting \<Rightarrow> Some BASE_COMMON_FIELDS
      | submitted \<Rightarrow> Some (BASE_COMMON_FIELDS @ [''userOpHash''])
      | confirmed \<Rightarrow> Some (BASE_COMMON_FIELDS @ [''shares'', ''userOpHash'', ''transactionHash'', ''event''])
      | failed \<Rightarrow> Some (BASE_COMMON_FIELDS @ [''userOpHash'', ''transactionHash'', ''reasonCode''])
      | unknown \<Rightarrow> Some BASE_COMMON_FIELDS
      | blocked \<Rightarrow> Some (BASE_COMMON_FIELDS @ [''reasonCode'']))"

definition BASE_EVIDENCE_OPTIONAL_FIELDS :: "phase \<Rightarrow> evidence_state \<Rightarrow> string list" where
  "BASE_EVIDENCE_OPTIONAL_FIELDS p s =
     (case (p, s) of
        (cctp_burn, confirmed) \<Rightarrow> [''messageDigest'', ''nonce'']
      | (cctp_attestation, confirmed) \<Rightarrow> [''nonce'']
      | (cctp_mint, submitted) \<Rightarrow> [''mintTxHash'']
      | (cctp_mint, unknown) \<Rightarrow> [''mintTxHash'']
      | (cctp_mint, confirmed) \<Rightarrow> [''nonce'']
      | (base_deposit, failed) \<Rightarrow> [''custodyLocation'', ''kernelCustodyConfirmed'', ''custody'']
      | (base_deposit, unknown) \<Rightarrow> [''userOpHash'', ''transactionHash'', ''reasonCode'']
      | (base_deposit, blocked) \<Rightarrow>
          [''userOpHash'', ''transactionHash'', ''kernelCustodyConfirmed'', ''custodyLocation'', ''custody'']
      | _ \<Rightarrow> [])"

subsection \<open>Canonical values\<close>

definition lower_hex_run :: "nat \<Rightarrow> string \<Rightarrow> bool" where
  "lower_hex_run n s \<longleftrightarrow> length s = n \<and> list_all is_lhex s"

definition lower_0x_run :: "nat \<Rightarrow> string \<Rightarrow> bool" where
  "lower_0x_run n s \<longleftrightarrow> startsWith0x s \<and> lower_hex_run n (drop 2 s)"

definition LOWER_ADDRESS_RE :: "jsv \<Rightarrow> bool" where "LOWER_ADDRESS_RE v = lower_0x_run 40 (js_to_key v)"
definition LOWER_EVM_HASH_RE :: "jsv \<Rightarrow> bool" where "LOWER_EVM_HASH_RE v = lower_0x_run 64 (js_to_key v)"
definition LOWER_DIGEST_RE :: "jsv \<Rightarrow> bool" where "LOWER_DIGEST_RE v = lower_hex_run 64 (js_to_key v)"

definition UNSIGNED_DECIMAL_RE :: "string \<Rightarrow> bool" where
  "UNSIGNED_DECIMAL_RE s \<longleftrightarrow> s = ''0'' \<or> (s \<noteq> [] \<and> hd s \<noteq> CHR ''0'' \<and> list_all is_digit s)"

fun unsigned_text :: "jsv \<Rightarrow> bool" where
  "unsigned_text (JStr s) = UNSIGNED_DECIMAL_RE s"
| "unsigned_text _ = False"

definition canonicalHandleAddress :: "jsv \<Rightarrow> evidence_error + jsv" where
  "canonicalHandleAddress v = (if \<not> js_is_str v \<or> \<not> LOWER_ADDRESS_RE v then Inl bad_handle else Inr v)"

text \<open>\<open>null\<close> and a missing sender are not compared.\<close>

definition normalizeReconcileHandle :: "jsv \<Rightarrow> jsv \<Rightarrow> evidence_error + jsv" where
  "normalizeReconcileHandle v sender =
     (if \<not> js_is_obj v then Inl bad_handle
      else if length (js_keys v) \<noteq> length RECONCILE_HANDLE_FIELDS
           \<or> list_ex (\<lambda>k. k \<notin> set RECONCILE_HANDLE_FIELDS) (js_keys v) then Inl bad_handle
      else ebind (canonicalHandleAddress (js_get v ''entryPoint'')) (\<lambda>entryPoint.
        if entryPoint \<noteq> JStr PINNED_ENTRY_POINT then Inl bad_handle
        else ebind (canonicalHandleAddress (js_get v ''sender'')) (\<lambda>handleSender.
          if handleSender = JStr (''0x'' @ replicate 40 CHR ''0'') then Inl bad_handle
          else ebind (if sender = JNull then Inr handleSender else canonicalHandleAddress sender) (\<lambda>expected.
            if expected \<noteq> handleSender then Inl bad_handle
            else if \<not> unsigned_text (js_get v ''nonce'') \<or> \<not> unsigned_text (js_get v ''startBlock'') then Inl bad_handle
            else Inr (JObj [(''entryPoint'', entryPoint), (''sender'', handleSender),
                            (''nonce'', js_get v ''nonce''), (''startBlock'', js_get v ''startBlock'')])))))"

subsection \<open>Validation of evidence\<close>

definition exactObject :: "jsv \<Rightarrow> string list \<Rightarrow> string list \<Rightarrow> evidence_error + unit" where
  "exactObject v fields required =
     (if \<not> js_is_obj v then Inl not_an_object
      else if unexpectedField fields v then Inl not_allowlisted
      else if list_ex (\<lambda>k. \<not> js_has_own v k) required then Inl field_required
      else Inr ())"

fun bounded_scalar :: "jsv \<Rightarrow> bool" where
  "bounded_scalar JNull = True"
| "bounded_scalar (JStr s) = True"
| "bounded_scalar (JBool b) = True"
| "bounded_scalar _ = False"

fun all_ok :: "('e + unit) list \<Rightarrow> 'e + unit" where
  "all_ok [] = Inr ()"
| "all_ok (x # xs) = ebind x (\<lambda>_. all_ok xs)"

definition scalarEntry :: "string \<Rightarrow> jsv \<Rightarrow> evidence_error + unit" where
  "scalarEntry key entry =
     (if key \<in> set UNSIGNED_FIELDS then require (unsigned_text entry) bad_unsigned
      else require (bounded_scalar entry) not_a_scalar)"

text \<open>The check of one entry of \<open>v\<close> that is not an event.\<close>

definition evidenceEntry :: "jsv \<Rightarrow> string \<Rightarrow> jsv \<Rightarrow> evidence_error + unit" where
  "evidenceEntry v key entry =
     (if key = ''custody'' then
        require (js_is_obj entry \<and> list_all (\<lambda>f. f \<in> {''location'', ''confirmed''}) (js_keys entry)
                 \<and> js_is_str (js_get entry ''location'')
                 \<and> (case js_get entry ''confirmed'' of JBool b \<Rightarrow> True | _ \<Rightarrow> False)) bad_custody
      else if key = ''reconcileHandle'' then
        ebind (normalizeReconcileHandle entry (if js_get v ''caller'' = JUndef then JNull else js_get v ''caller'')) (\<lambda>_. Inr ())
      else if key = ''nonce'' then
        require (js_is_str entry \<and> (UNSIGNED_DECIMAL_RE (js_to_key entry) \<or> LOWER_EVM_HASH_RE entry)) bad_nonce
      else scalarEntry key entry)"

fun validateEvidenceObject :: "jsv \<Rightarrow> string list \<Rightarrow> string list \<Rightarrow> evidence_error + unit" where
  "validateEvidenceObject (JObj kvs) fields optionalFields =
     (case exactObject (JObj kvs) (fields @ optionalFields) fields of
        Inl e \<Rightarrow> Inl e
      | Inr _ \<Rightarrow>
          all_ok (map (\<lambda>kv. if fst kv = ''event'' then validateEvidenceObject (snd kv) DEPOSIT_EVENT_FIELDS []
                            else evidenceEntry (JObj kvs) (fst kv) (snd kv)) kvs))"
| "validateEvidenceObject v fields optionalFields = Inl not_an_object"

definition validateBaseEvidence :: "phase \<Rightarrow> evidence_state \<Rightarrow> jsv \<Rightarrow> evidence_error + unit" where
  "validateBaseEvidence p s v =
     (case BASE_EVIDENCE_SCHEMAS p s of
        None \<Rightarrow> Inl bad_schema
      | Some fields \<Rightarrow>
          ebind (validateEvidenceObject v fields
            (BASE_EVIDENCE_OPTIONAL_FIELDS p s @ (if p = base_deposit then [''kernelAddress'', ''reconcileHandle''] else []))) (\<lambda>_.
          ebind (require (list_all (\<lambda>f. js_has_own v f \<longrightarrow> LOWER_ADDRESS_RE (js_get v f))
            [''yieldRouterAddress'', ''caller'', ''poolAddress'', ''kernelAddress'']) bad_address) (\<lambda>_.
          ebind (require (list_all (\<lambda>f. js_has_own v f \<and> js_get v f \<noteq> JNull \<longrightarrow> LOWER_EVM_HASH_RE (js_get v f))
            [''userOpHash'', ''transactionHash'', ''mintTxHash'']) bad_hash) (\<lambda>_.
          ebind (require (list_all (\<lambda>f. js_has_own v f \<longrightarrow> LOWER_DIGEST_RE (js_get v f))
            [''burnTxHash'', ''expectationDigest'']) bad_digest) (\<lambda>_.
          ebind (require (list_all (\<lambda>f. js_has_own v f \<longrightarrow> LOWER_EVM_HASH_RE (js_get v f))
            [''messageDigest'', ''attestationDigest'']) bad_digest) (\<lambda>_.
          if js_truthy (js_get v ''event'') then
            ebind (require (list_all (\<lambda>f. LOWER_ADDRESS_RE (js_get (js_get v ''event'') f))
              [''address'', ''caller'', ''poolAddress'']) bad_address) (\<lambda>_.
            require (LOWER_EVM_HASH_RE (js_get (js_get v ''event'') ''topic0'')) bad_hash)
          else Inr ()))))))"

subsection \<open>Checkpoints\<close>

record evidence_identity =
  networkId :: string
  bindingId :: string
  executionId :: string
  allocationId :: string
  childId :: string

definition IDENTITY_FIELDS :: "string list" where
  "IDENTITY_FIELDS = [''networkId'', ''bindingId'', ''executionId'', ''allocationId'', ''childId'']"

text \<open>\<open>s.indexOf(marker)\<close>.\<close>

fun indexOf :: "string \<Rightarrow> string \<Rightarrow> nat option" where
  "indexOf marker [] = (if marker = [] then Some 0 else None)"
| "indexOf marker (c # s) = (if prefix marker (c # s) then Some 0 else map_option Suc (indexOf marker s))"

fun nonempty_text :: "jsv \<Rightarrow> evidence_error + string" where
  "nonempty_text (JStr s) = (if s = [] then Inl bad_identity else Inr s)"
| "nonempty_text _ = Inl bad_identity"

definition exactIdentity :: "jsv \<Rightarrow> evidence_error + evidence_identity" where
  "exactIdentity v =
     (if \<not> js_is_obj v then Inl bad_identity
      else if length (js_keys v) \<noteq> length IDENTITY_FIELDS \<or> list_ex (\<lambda>k. k \<notin> set IDENTITY_FIELDS) (js_keys v)
      then Inl bad_identity
      else
        ebind (nonempty_text (js_get v ''networkId'')) (\<lambda>n.
        ebind (nonempty_text (js_get v ''bindingId'')) (\<lambda>b.
        ebind (nonempty_text (js_get v ''executionId'')) (\<lambda>e.
        ebind (nonempty_text (js_get v ''allocationId'')) (\<lambda>a.
        ebind (nonempty_text (js_get v ''childId'')) (\<lambda>c.
          case indexOf '':exec:'' e of
            None \<Rightarrow> Inl execution_mismatch
          | Some split \<Rightarrow>
              if split = 0 \<or> drop (split + length '':exec:'') e \<noteq> a then Inl execution_mismatch
              else Inr \<lparr>networkId = n, bindingId = b, executionId = e, allocationId = a, childId = c\<rparr>))))))"

definition identity_js :: "evidence_identity \<Rightarrow> jsv" where
  "identity_js i = JObj
     [(''networkId'', JStr (networkId i)), (''bindingId'', JStr (bindingId i)), (''executionId'', JStr (executionId i)),
      (''allocationId'', JStr (allocationId i)), (''childId'', JStr (childId i))]"

definition sensitive_name :: "string \<Rightarrow> bool" where
  "sensitive_name key =
     (let n = filter is_lower_alnum (toLowerCase key) in
      list_ex (\<lambda>w. sublist w n)
        [''secret'', ''private'', ''sessionkey'', ''serializedapproval'', ''capability'', ''bearer'', ''leasetoken'',
         ''authorization'', ''wallet'', ''passkey'', ''diagnostic'', ''endpoint'', ''rawerror'', ''receipt''])"

text \<open>True when it throws; the indexes of an array are never sensitive.\<close>

fun rejectSensitive :: "jsv \<Rightarrow> bool" where
  "rejectSensitive (JArr xs) = list_ex rejectSensitive xs"
| "rejectSensitive (JObj kvs) = list_ex (\<lambda>kv. sensitive_name (fst kv) \<or> rejectSensitive (snd kv)) kvs"
| "rejectSensitive v = False"

record checkpoint =
  cp_identity :: evidence_identity
  cp_phase :: phase
  cp_status :: evidence_state
  cp_evidence :: jsv
  cp_observedAt :: int

definition validateCheckpoint :: "jsv \<Rightarrow> evidence_error + checkpoint" where
  "validateCheckpoint v =
     (if \<not> js_is_obj v then Inl not_an_object
      else if list_ex (\<lambda>k. k \<notin> set [''identity'', ''phase'', ''status'', ''evidence'', ''observedAt'']) (js_keys v)
      then Inl unexpected_checkpoint_field
      else ebind (exactIdentity (js_get v ''identity'')) (\<lambda>identity.
        case (phase_of (js_get v ''phase''), state_of (js_get v ''status'')) of
          (Some p, Some s) \<Rightarrow>
            if \<not> js_is_obj (js_get v ''evidence'') then Inl not_an_object
            else ebind (validateBaseEvidence p s (js_get v ''evidence'')) (\<lambda>_.
              case js_get v ''observedAt'' of
                JNum n \<Rightarrow>
                  if \<not> safe_int n \<or> n < 0 then Inl bad_observedAt
                  else if rejectSensitive v then Inl sensitive_evidence
                  else if canonicalJson v = None then Inl unsupported_evidence
                  else Inr \<lparr>cp_identity = identity, cp_phase = p, cp_status = s,
                            cp_evidence = js_get v ''evidence'', cp_observedAt = n\<rparr>
              | _ \<Rightarrow> Inl bad_observedAt)
        | _ \<Rightarrow> Inl bad_phase_state))"

text \<open>
  The allow-list is not exact: an empty name in front lets any further scalar field through.
\<close>

lemma empty_name_passes_allowlist:
  "validateBaseEvidence cctp_burn failed (JObj [(''reasonCode'', JStr ''x''), ([], JNull), (''other'', JStr ''y'')]) = Inr ()"
  "validateBaseEvidence cctp_burn failed (JObj [(''reasonCode'', JStr ''x''), (''other'', JStr ''y'')]) = Inl not_allowlisted"
  by code_simp+

end
