(* ===== verification/BaseOutbox.thy ===== *)
theory BaseOutbox
  imports BaseEvidence
begin

section \<open>The outbox of Base evidence\<close>

text \<open>
  \<open>relayer/src/baseEvidenceOutbox.mjs\<close> over its two tables: a head per identity (which phase and
  state the leg has reached, the next recovery version, who owns the submission) and the immutable
  reports, leased and delivered in the order of their versions. A SQL statement is a function on
  the rows, in the order of their ids; an operation that throws leaves the tables as they were. A
  row carries the report whose canonical text \<open>report_json\<close> holds. SHA-256, random tokens and clock
  readings are arguments.
\<close>

datatype delivery_status = d_pending | d_leased | d_delivered | d_dead | d_conflict

record head =
  job_id :: "string option"
  next_recovery_version :: int
  latest :: "(phase \<times> evidence_state) option"
  submission_owner_token :: "string option"
  head_updated_at :: int

record evidence_row =
  ev_id :: nat
  event_id :: string
  ev_identity :: evidence_identity
  expected_recovery_version :: int
  ev_phase :: phase
  ev_state :: evidence_state
  evidence_digest :: string
  report :: jsv
  delivery :: delivery_status
  attempts :: nat
  available_at :: int
  lease_token :: "string option"
  lease_expires_at :: "int option"
  last_error_code :: "string option"
  created_at :: int
  updated_at :: int
  delivered_at :: "int option"

record evidence_db =
  heads :: "(evidence_identity \<times> head) list"
  events :: "evidence_row list"
  next_id :: nat

definition createBaseEvidenceOutbox :: "int \<Rightarrow> evidence_error + unit" where
  "createBaseEvidenceOutbox maxAttempts = require (safe_int maxAttempts \<and> 0 < maxAttempts) bad_attempt_limit"

subsection \<open>Reading the tables\<close>

text \<open>\<open>ORDER BY expected_recovery_version DESC LIMIT 1\<close> over the rows of an identity.\<close>

definition latest_row :: "(evidence_row \<Rightarrow> bool) \<Rightarrow> evidence_db \<Rightarrow> evidence_identity \<Rightarrow> evidence_row option" where
  "latest_row p db i =
     (case sort_key (\<lambda>r. - expected_recovery_version r) (filter (\<lambda>r. ev_identity r = i \<and> p r) (events db)) of
        [] \<Rightarrow> None | r # _ \<Rightarrow> Some r)"

definition evidence_of :: "evidence_row \<Rightarrow> jsv" where
  "evidence_of r = js_get (js_get (report r) ''event'') ''evidence''"

text \<open>What an earlier checkpoint knows: the evidence of the latest row, or the empty object.\<close>

definition known_evidence :: "evidence_db \<Rightarrow> evidence_identity \<Rightarrow> jsv" where
  "known_evidence db i = (case latest_row (\<lambda>r. True) db i of None \<Rightarrow> JObj [] | Some r \<Rightarrow> evidence_of r)"

subsection \<open>Transitions\<close>

fun phase_index :: "phase \<Rightarrow> nat" where
  "phase_index cctp_burn = 0"
| "phase_index cctp_attestation = 1"
| "phase_index cctp_mint = 2"
| "phase_index base_deposit = 3"

fun state_transitions :: "evidence_state \<Rightarrow> evidence_state list" where
  "state_transitions submitting = [submitted, confirmed, failed, unknown, blocked]"
| "state_transitions submitted = [confirmed, failed, unknown, blocked]"
| "state_transitions unknown = [confirmed]"
| "state_transitions _ = []"

fun allowedTransition :: "(phase \<times> evidence_state) option \<Rightarrow> phase \<Rightarrow> evidence_state \<Rightarrow> bool" where
  "allowedTransition None p s = True"
| "allowedTransition (Some (p0, s0)) p s =
     (if p \<noteq> p0 then phase_index p = phase_index p0 + 1 \<and> s0 = confirmed
      else if p = cctp_attestation \<and> s0 = failed \<and> s = confirmed then True
      else s \<in> set (state_transitions s0))"

definition nullish :: "jsv \<Rightarrow> bool" where "nullish v \<longleftrightarrow> v = JUndef \<or> v = JNull"

definition or_null :: "jsv \<Rightarrow> jsv" where "or_null v = (if nullish v then JNull else v)"

text \<open>The fields of a CCTP message that two checkpoints of a phase must not disagree on.\<close>

definition messageConflict :: "jsv \<Rightarrow> jsv \<Rightarrow> bool" where
  "messageConflict known evidence =
     list_ex (\<lambda>f. \<not> nullish (js_get known f) \<and> \<not> nullish (js_get evidence f)
                \<and> canonicalJson (js_get known f) \<noteq> canonicalJson (js_get evidence f))
       [''burnTxHash'', ''expectationDigest'', ''messageDigest'', ''attestationDigest'', ''nonce'']"

definition handleConflict :: "jsv \<Rightarrow> jsv \<Rightarrow> bool" where
  "handleConflict known evidence =
     (let k = or_null (js_get known ''reconcileHandle''); e = or_null (js_get evidence ''reconcileHandle'') in
      (k = JNull) \<noteq> (e = JNull) \<or> (k \<noteq> JNull \<and> canonicalJson e \<noteq> canonicalJson k))"

definition reconciliationConflict :: "jsv \<Rightarrow> jsv \<Rightarrow> bool" where
  "reconciliationConflict known evidence =
     list_ex (\<lambda>f. \<not> nullish (js_get known f)
                \<and> (js_get evidence f = JUndef \<or> canonicalJson (js_get evidence f) \<noteq> canonicalJson (js_get known f)))
       [''chainId'', ''yieldRouterAddress'', ''caller'', ''poolAddress'', ''assets'', ''minShares'', ''userOpHash'',
        ''transactionHash'', ''reconcileHandle'']"

text \<open>The checks of \<open>enqueueInternal\<close> between the head, what is known and the checkpoint.\<close>

definition transitionError ::
  "(phase \<times> evidence_state) option \<Rightarrow> jsv \<Rightarrow> checkpoint \<Rightarrow> evidence_error option" where
  "transitionError latest1 known c =
     (if \<not> allowedTransition latest1 (cp_phase c) (cp_status c) then Some out_of_order
      else if map_option fst latest1 = Some (cp_phase c) \<and> cp_phase c \<in> {cctp_attestation, cctp_mint}
              \<and> messageConflict known (cp_evidence c) then Some message_conflict
      else if map_option fst latest1 = Some base_deposit \<and> cp_phase c = base_deposit
              \<and> handleConflict known (cp_evidence c) then Some handle_conflict
      else if map_option fst latest1 = Some base_deposit \<and> cp_phase c = base_deposit
              \<and> map_option snd latest1 = Some unknown \<and> cp_status c = confirmed
              \<and> reconciliationConflict known (cp_evidence c) then Some reconciliation_conflict
      else None)"

subsection \<open>Seed and enqueue\<close>

definition seed ::
  "evidence_db \<Rightarrow> jsv \<Rightarrow> int \<Rightarrow> string option \<Rightarrow> int \<Rightarrow> evidence_error + (evidence_db \<times> bool \<times> int)" where
  "seed db identityInput recoveryVersion jobId at =
     ebind (exactIdentity identityInput) (\<lambda>i.
       if \<not> safe_int recoveryVersion \<or> recoveryVersion < 0 then Inl bad_version
       else case map_of (heads db) i of
         Some h \<Rightarrow>
           if next_recovery_version h \<noteq> recoveryVersion \<or> job_id h \<noteq> jobId then Inl head_conflict
           else Inr (db, True, next_recovery_version h)
       | None \<Rightarrow>
           Inr (db\<lparr>heads := heads db @ [(i, \<lparr>job_id = jobId, next_recovery_version = recoveryVersion, latest = None,
                     submission_owner_token = None, head_updated_at = at\<rparr>)]\<rparr>, False, recoveryVersion))"

text \<open>The text two checkpoints are compared by.\<close>

definition semanticText :: "evidence_identity \<Rightarrow> phase \<Rightarrow> evidence_state \<Rightarrow> jsv \<Rightarrow> string option" where
  "semanticText i p s evidence = canonicalJson (JObj
     [(''identity'', identity_js i), (''phase'', JStr (phase_name p)), (''status'', JStr (state_name s)),
      (''evidence'', evidence)])"

definition text_or_empty :: "jsv \<Rightarrow> string" where
  "text_or_empty v = (case canonicalJson v of None \<Rightarrow> [] | Some t \<Rightarrow> t)"

definition eventId :: "(string \<Rightarrow> string) \<Rightarrow> checkpoint \<Rightarrow> int \<Rightarrow> string" where
  "eventId sha c version = sha (text_or_empty (JArr
     [identity_js (cp_identity c), JNum version, JStr (phase_name (cp_phase c)), JStr (state_name (cp_status c))]))"

definition reportOf :: "(string \<Rightarrow> string) \<Rightarrow> checkpoint \<Rightarrow> int \<Rightarrow> jsv" where
  "reportOf sha c version = JObj
     [(''schemaVersion'', JNum 1), (''identity'', identity_js (cp_identity c)),
      (''expectedRecoveryVersion'', JNum version),
      (''event'', JObj
         [(''eventId'', JStr (eventId sha c version)), (''phase'', JStr (phase_name (cp_phase c))),
          (''state'', JStr (state_name (cp_status c))), (''evidence'', cp_evidence c),
          (''observedAt'', JNum (cp_observedAt c))])]"

definition newEvent :: "(string \<Rightarrow> string) \<Rightarrow> evidence_db \<Rightarrow> checkpoint \<Rightarrow> int \<Rightarrow> int \<Rightarrow> evidence_row" where
  "newEvent sha db c version at =
     \<lparr>ev_id = next_id db, event_id = eventId sha c version, ev_identity = cp_identity c,
      expected_recovery_version = version, ev_phase = cp_phase c, ev_state = cp_status c,
      evidence_digest = sha (text_or_empty (cp_evidence c)), report = reportOf sha c version,
      delivery = d_pending, attempts = 0, available_at = at, lease_token = None, lease_expires_at = None,
      last_error_code = None, created_at = at, updated_at = at, delivered_at = None\<rparr>"

text \<open>
  \<open>enqueueInternal\<close> on a validated checkpoint. The \<open>INSERT\<close> fails when the event id or the version is
  taken; the head is compared with the version read in the same transaction.
\<close>

definition enqueueCheckpoint ::
  "(string \<Rightarrow> string) \<Rightarrow> evidence_db \<Rightarrow> checkpoint \<Rightarrow> int \<Rightarrow> evidence_error + (evidence_db \<times> evidence_row \<times> bool)" where
  "enqueueCheckpoint sha db c at =
     (let i = cp_identity c in
      case map_of (heads db) i of
        None \<Rightarrow> Inl not_seeded
      | Some h \<Rightarrow>
          (case latest_row (\<lambda>r. ev_phase r = cp_phase c \<and> ev_state r = cp_status c) db i of
             Some r \<Rightarrow>
               if semanticText (ev_identity r) (ev_phase r) (ev_state r) (evidence_of r)
                  \<noteq> semanticText i (cp_phase c) (cp_status c) (cp_evidence c) then Inl checkpoint_conflict
               else Inr (db, r, True)
           | None \<Rightarrow>
               (case transitionError (latest h) (known_evidence db i) c of
                  Some e \<Rightarrow> Inl e
                | None \<Rightarrow>
                    let version = next_recovery_version h; r = newEvent sha db c version at in
                    if version < 0 \<or> list_ex (\<lambda>x. event_id x = event_id r
                         \<or> (ev_identity x = i \<and> expected_recovery_version x = version)) (events db)
                    then Inl constraint_failed
                    else Inr (db\<lparr>events := events db @ [r], next_id := next_id db + 1,
                                 heads := AList.update i (h\<lparr>next_recovery_version := version + 1,
                                   latest := Some (cp_phase c, cp_status c), head_updated_at := at\<rparr>) (heads db)\<rparr>,
                              r, False))))"

definition enqueue ::
  "(string \<Rightarrow> string) \<Rightarrow> evidence_db \<Rightarrow> jsv \<Rightarrow> int \<Rightarrow> evidence_error + (evidence_db \<times> evidence_row \<times> bool)" where
  "enqueue sha db input at = ebind (validateCheckpoint input) (\<lambda>c. enqueueCheckpoint sha db c at)"

subsection \<open>The claim of a submission\<close>

text \<open>\<open>Inr (db, None)\<close> when the submission was claimed before, \<open>Some (token, event)\<close> when it is now.\<close>

definition claimSubmission ::
  "(string \<Rightarrow> string) \<Rightarrow> evidence_db \<Rightarrow> jsv \<Rightarrow> string \<Rightarrow> int \<Rightarrow>
     evidence_error + (evidence_db \<times> (string \<times> evidence_row) option)" where
  "claimSubmission sha db input ownerToken at =
     ebind (validateCheckpoint input) (\<lambda>c.
       if cp_phase c \<noteq> base_deposit \<or> cp_status c \<noteq> submitting then Inl not_a_submission_claim
       else let i = cp_identity c in
       case map_of (heads db) i of
         None \<Rightarrow> Inl not_seeded
       | Some h \<Rightarrow>
           if latest h = Some (base_deposit, submitting) then
             (case find (\<lambda>r. ev_identity r = i \<and> ev_phase r = base_deposit \<and> ev_state r = submitting) (events db) of
                None \<Rightarrow> Inl checkpoint_conflict
              | Some r \<Rightarrow>
                  if semanticText i (ev_phase r) (ev_state r) (evidence_of r)
                     \<noteq> semanticText i (cp_phase c) (cp_status c) (cp_evidence c) then Inl checkpoint_conflict
                  else Inr (db, None))
           else ebind (enqueueCheckpoint sha db c at) (\<lambda>(db1, r, duplicate).
             case map_of (heads db1) i of
               None \<Rightarrow> Inl owner_claim_conflict
             | Some h1 \<Rightarrow>
                 if latest h1 \<noteq> Some (base_deposit, submitting) \<or> submission_owner_token h1 \<noteq> None
                 then Inl owner_claim_conflict
                 else Inr (db1\<lparr>heads := AList.update i (h1\<lparr>submission_owner_token := Some ownerToken\<rparr>) (heads db1)\<rparr>,
                           Some (ownerToken, r))))"

definition enqueueOwned ::
  "(string \<Rightarrow> string) \<Rightarrow> evidence_db \<Rightarrow> jsv \<Rightarrow> string option \<Rightarrow> int \<Rightarrow>
     evidence_error + (evidence_db \<times> evidence_row \<times> bool)" where
  "enqueueOwned sha db input ownerToken at =
     ebind (validateCheckpoint input) (\<lambda>c.
       if cp_phase c \<noteq> base_deposit \<or> cp_status c = submitting then Inl not_an_owned_transition
       else let i = cp_identity c in
       case (ownerToken, map_of (heads db) i) of
         (Some tok, Some h) \<Rightarrow>
           if tok = [] \<or> submission_owner_token h \<noteq> Some tok then Inl owner_claim_stale
           else ebind (enqueueCheckpoint sha db c at) (\<lambda>(db1, r, duplicate).
             case map_of (heads db1) i of
               None \<Rightarrow> Inl owner_claim_stale
             | Some h1 \<Rightarrow>
                 if submission_owner_token h1 \<noteq> Some tok then Inl owner_claim_stale
                 else Inr (db1\<lparr>heads := AList.update i (h1\<lparr>submission_owner_token := None\<rparr>) (heads db1)\<rparr>, r, duplicate))
       | _ \<Rightarrow> Inl owner_claim_stale)"

subsection \<open>Leasing and settling\<close>

definition lease_expired :: "evidence_row \<Rightarrow> int \<Rightarrow> bool" where
  "lease_expired r at \<longleftrightarrow> delivery r = d_leased \<and> (case lease_expires_at r of None \<Rightarrow> False | Some t \<Rightarrow> t \<le> at)"

definition bury :: "nat \<Rightarrow> int \<Rightarrow> evidence_row \<Rightarrow> evidence_row" where
  "bury maxAttempts at r =
     (if lease_expired r at \<and> maxAttempts \<le> attempts r
      then r\<lparr>delivery := d_dead, lease_token := None, lease_expires_at := None,
             last_error_code := Some ''attempt_limit'', updated_at := at\<rparr>
      else r)"

definition undelivered_prior :: "evidence_row list \<Rightarrow> evidence_row \<Rightarrow> bool" where
  "undelivered_prior rs c \<longleftrightarrow>
     list_ex (\<lambda>p. ev_identity p = ev_identity c \<and> expected_recovery_version p < expected_recovery_version c
                \<and> delivery p \<noteq> d_delivered) rs"

definition lease_candidate :: "nat \<Rightarrow> int \<Rightarrow> evidence_row list \<Rightarrow> evidence_row \<Rightarrow> bool" where
  "lease_candidate maxAttempts at rs c \<longleftrightarrow>
     ((delivery c = d_pending \<and> available_at c \<le> at) \<or> lease_expired c at)
   \<and> attempts c < maxAttempts \<and> \<not> undelivered_prior rs c"

definition lease_row :: "string \<Rightarrow> int \<Rightarrow> int \<Rightarrow> evidence_row \<Rightarrow> evidence_row" where
  "lease_row token at leaseMs r =
     r\<lparr>delivery := d_leased, attempts := attempts r + 1, lease_token := Some token,
       lease_expires_at := Some (at + leaseMs), updated_at := at\<rparr>"

definition leaseNext :: "nat \<Rightarrow> evidence_db \<Rightarrow> int \<Rightarrow> int \<Rightarrow> string \<Rightarrow> evidence_db \<times> evidence_row option" where
  "leaseNext maxAttempts db at leaseMs token =
     (let rs = map (bury maxAttempts at) (events db) in
      case sort_key (\<lambda>r. (created_at r, ev_id r)) (filter (lease_candidate maxAttempts at rs) rs) of
        [] \<Rightarrow> (db\<lparr>events := rs\<rparr>, None)
      | c # cs \<Rightarrow>
          (db\<lparr>events := map (\<lambda>r. if ev_id r = ev_id c then lease_row token at leaseMs r else r) rs\<rparr>,
           Some (lease_row token at leaseMs c)))"

definition held :: "nat \<Rightarrow> string \<Rightarrow> evidence_row \<Rightarrow> bool" where
  "held i token r \<longleftrightarrow> ev_id r = i \<and> delivery r = d_leased \<and> lease_token r = Some token"

definition settle_row :: "delivery_status \<Rightarrow> int \<Rightarrow> int option \<Rightarrow> string option \<Rightarrow> evidence_row \<Rightarrow> evidence_row" where
  "settle_row st at retryAt err r =
     r\<lparr>delivery := st, available_at := (case retryAt of None \<Rightarrow> available_at r | Some t \<Rightarrow> t), lease_token := None,
       lease_expires_at := None, last_error_code := err, updated_at := at,
       delivered_at := (if st = d_delivered then Some at else delivered_at r)\<rparr>"

definition deliveryTransition ::
  "evidence_db \<Rightarrow> nat \<Rightarrow> string \<Rightarrow> delivery_status \<Rightarrow> int \<Rightarrow> int option \<Rightarrow> string option \<Rightarrow>
     evidence_error + (evidence_db \<times> evidence_row)" where
  "deliveryTransition db i token st at retryAt err =
     (case filter (held i token) (events db) of
        [r] \<Rightarrow> Inr (db\<lparr>events := map (\<lambda>x. if held i token x then settle_row st at retryAt err x else x) (events db)\<rparr>,
                    settle_row st at retryAt err r)
      | _ \<Rightarrow> Inl lease_stale)"

definition markDelivered :: "evidence_db \<Rightarrow> nat \<Rightarrow> string \<Rightarrow> int \<Rightarrow> evidence_error + (evidence_db \<times> evidence_row)" where
  "markDelivered db i token at = deliveryTransition db i token d_delivered at None None"

definition markRetry ::
  "nat \<Rightarrow> evidence_db \<Rightarrow> nat \<Rightarrow> string \<Rightarrow> int \<Rightarrow> int \<Rightarrow> string \<Rightarrow> evidence_error + (evidence_db \<times> evidence_row)" where
  "markRetry maxAttempts db i token at retryAt why =
     (case find (held i token) (events db) of
        None \<Rightarrow> Inl lease_stale
      | Some r \<Rightarrow>
          deliveryTransition db i token (if maxAttempts \<le> attempts r then d_dead else d_pending) at
            (if maxAttempts \<le> attempts r then None else Some retryAt) (Some why))"

definition markDead ::
  "evidence_db \<Rightarrow> nat \<Rightarrow> string \<Rightarrow> int \<Rightarrow> string \<Rightarrow> evidence_error + (evidence_db \<times> evidence_row)" where
  "markDead db i token at why = deliveryTransition db i token d_dead at None (Some why)"

text \<open>\<open>blocks\<close>: whether the callback that blocks the allocation returns; when it throws, nothing changes.\<close>

definition markConflict ::
  "evidence_db \<Rightarrow> nat \<Rightarrow> string \<Rightarrow> int \<Rightarrow> bool \<Rightarrow> evidence_error + (evidence_db \<times> evidence_row)" where
  "markConflict db i token at blocks =
     ebind (deliveryTransition db i token d_conflict at None (Some ''immutable_conflict''))
       (\<lambda>out. if blocks then Inr out else Inl block_failed)"

subsection \<open>Status and recovery\<close>

record leg_status =
  complete :: bool
  leg_blocked :: bool
  recoveryVersion :: "int option"
  leg_latest :: "(phase \<times> evidence_state) option"
  leg_events :: "evidence_row list"

definition rows_of :: "evidence_db \<Rightarrow> evidence_identity \<Rightarrow> evidence_row list" where
  "rows_of db i = sort_key expected_recovery_version (filter (\<lambda>r. ev_identity r = i) (events db))"

definition evidence_status :: "evidence_db \<Rightarrow> jsv \<Rightarrow> evidence_error + leg_status" where
  "evidence_status db identityInput =
     ebind (exactIdentity identityInput) (\<lambda>i.
       case map_of (heads db) i of
         None \<Rightarrow> Inr \<lparr>complete = False, leg_blocked = False, recoveryVersion = None, leg_latest = None, leg_events = []\<rparr>
       | Some h \<Rightarrow>
           let rs = rows_of db i;
               blocked1 = list_ex (\<lambda>r. delivery r = d_conflict) rs;
               terminal = (case latest h of Some (p, s) \<Rightarrow> s \<in> {confirmed, failed, blocked} | None \<Rightarrow> False) in
           Inr \<lparr>complete = \<not> blocked1 \<and> map_option fst (latest h) = Some base_deposit \<and> terminal \<and> rs \<noteq> []
                             \<and> list_all (\<lambda>r. delivery r = d_delivered) rs,
                leg_blocked = blocked1, recoveryVersion = Some (next_recovery_version h),
                leg_latest = latest h, leg_events = rs\<rparr>)"

record recovery_state =
  rs_recoveryVersion :: int
  rs_phase :: phase
  rs_state :: evidence_state
  rs_evidence :: jsv

fun with_field :: "jsv \<Rightarrow> string \<Rightarrow> jsv \<Rightarrow> jsv" where
  "with_field (JObj kvs) k v = JObj (AList.update k v kvs)"
| "with_field w k v = w"

text \<open>
  The sender the handle is compared with is the caller of the evidence; a missing one is not compared
  (the parameter has the default \<open>null\<close>).
\<close>

definition recoveryState :: "evidence_db \<Rightarrow> jsv \<Rightarrow> evidence_error + recovery_state option" where
  "recoveryState db identityInput =
     ebind (exactIdentity identityInput) (\<lambda>i.
       case map_of (heads db) i of
         None \<Rightarrow> Inr None
       | Some h \<Rightarrow>
           (case latest h of
              None \<Rightarrow> Inr None
            | Some (p, s) \<Rightarrow>
                (case latest_row (\<lambda>r. True) db i of
                   None \<Rightarrow> Inl no_checkpoint
                 | Some r \<Rightarrow>
                     let ev = evidence_of r; caller = js_get ev ''caller''; handle = js_get ev ''reconcileHandle'' in
                     ebind (if js_truthy handle
                            then ebind (normalizeReconcileHandle handle (if caller = JUndef then JNull else caller))
                                   (\<lambda>n. Inr (with_field ev ''reconcileHandle'' n))
                            else Inr ev)
                       (\<lambda>ev'. Inr (Some \<lparr>rs_recoveryVersion = next_recovery_version h, rs_phase = p, rs_state = s,
                                    rs_evidence = ev'\<rparr>)))))"

subsection \<open>The delivery worker\<close>

text \<open>How the reporter answers: acknowledged, an immutable conflict, a failure worth a retry, another error.\<close>

datatype delivery_reply = Acked | EvidenceConflict | Retryable | Permanent

text \<open>
  One round of \<open>drain\<close>: the clock at the lease, the token, what other processes do to the tables
  while the report is in flight, the reporter's answer, whether the block callback returns, and the
  later clock readings.
\<close>

record round_input =
  ri_leaseNow :: int
  ri_token :: string
  ri_between :: "evidence_db \<Rightarrow> evidence_db"
  ri_reply :: delivery_reply
  ri_blocks :: bool
  ri_markNow :: int
  ri_retryNow :: int

definition retryDelay :: "nat \<Rightarrow> int" where "retryDelay n = min 60000 (1000 * 2 ^ (n - 1))"

text \<open>An error of the mark leaves the tables to whoever owns the lease.\<close>

definition settled_or :: "evidence_db \<Rightarrow> evidence_error + (evidence_db \<times> evidence_row) \<Rightarrow> evidence_db" where
  "settled_or db res = (case res of Inl e \<Rightarrow> db | Inr (db', r) \<Rightarrow> db')"

definition settleRound :: "nat \<Rightarrow> evidence_db \<Rightarrow> evidence_row \<Rightarrow> round_input \<Rightarrow> evidence_db" where
  "settleRound maxAttempts db leased inp =
     (let db1 = ri_between inp db; i = ev_id leased; token = ri_token inp in
      case ri_reply inp of
        Acked \<Rightarrow> settled_or db1 (markDelivered db1 i token (ri_markNow inp))
      | EvidenceConflict \<Rightarrow> settled_or db1 (markConflict db1 i token (ri_markNow inp) (ri_blocks inp))
      | Retryable \<Rightarrow> settled_or db1 (markRetry maxAttempts db1 i token (ri_markNow inp)
                       (ri_retryNow inp + retryDelay (attempts leased)) ''temporary_failure'')
      | Permanent \<Rightarrow> settled_or db1 (markDead db1 i token (ri_markNow inp) ''permanent_failure''))"

fun drainRounds ::
  "nat \<Rightarrow> int \<Rightarrow> nat \<Rightarrow> evidence_db \<Rightarrow> (nat \<Rightarrow> round_input) \<Rightarrow> nat \<Rightarrow> jsv list \<Rightarrow> evidence_db \<times> nat \<times> jsv list" where
  "drainRounds maxAttempts leaseMs 0 db inp handled sent = (db, handled, sent)"
| "drainRounds maxAttempts leaseMs (Suc left1) db inp handled sent =
     (case leaseNext maxAttempts db (ri_leaseNow (inp handled)) leaseMs (ri_token (inp handled)) of
        (db1, None) \<Rightarrow> (db1, handled, sent)
      | (db1, Some leased) \<Rightarrow>
          drainRounds maxAttempts leaseMs left1 (settleRound maxAttempts db1 leased (inp handled)) inp (handled + 1)
            (sent @ [report leased]))"

definition drain ::
  "nat \<Rightarrow> int \<Rightarrow> nat \<Rightarrow> bool \<Rightarrow> bool \<Rightarrow> evidence_db \<Rightarrow> (nat \<Rightarrow> round_input) \<Rightarrow> evidence_db \<times> nat \<times> jsv list" where
  "drain maxAttempts leaseMs batchSize draining stopped db inp =
     (if draining \<or> stopped then (db, 0, []) else drainRounds maxAttempts leaseMs batchSize db inp 0 [])"

end
