(* ===== verification/BaseLeg.thy ===== *)
theory BaseLeg
  imports BaseOutbox Machines
begin

section \<open>The leg behind the Base evidence outbox\<close>

text \<open>
  The abstract leg of an identity is a version and the log of its checkpoints; a step seeds it or
  appends a checkpoint that follows the last one. Every operation of the outbox refines such a
  step, on every identity.
\<close>

subsection \<open>The abstract leg\<close>

record leg_event =
  le_version :: int
  le_phase :: phase
  le_state :: evidence_state
  le_evidence :: jsv

datatype leg = Unseeded | Leg int "leg_event list"

definition place :: "leg_event \<Rightarrow> phase \<times> evidence_state" where "place e = (le_phase e, le_state e)"

text \<open>
  Where a leg may go from a place: a submission settles, an unknown outcome may still be found
  confirmed, a failed attestation may later succeed, and only a confirmed phase opens the next one.
\<close>

inductive edge :: "phase \<times> evidence_state \<Rightarrow> phase \<times> evidence_state \<Rightarrow> bool" where
  sent: "edge (p, submitting) (p, submitted)"
| settled: "s \<in> {submitting, submitted} \<Longrightarrow> s' \<in> {confirmed, failed, unknown, blocked} \<Longrightarrow> edge (p, s) (p, s')"
| found: "edge (p, unknown) (p, confirmed)"
| attested_later: "edge (cctp_attestation, failed) (cctp_attestation, confirmed)"
| burned: "edge (cctp_burn, confirmed) (cctp_attestation, s)"
| attested: "edge (cctp_attestation, confirmed) (cctp_mint, s)"
| minted: "edge (cctp_mint, confirmed) (base_deposit, s)"

inductive_simps edge_simps: "edge (p, s) (p', s')"

lemma allowedTransition_edge: "allowedTransition (Some d) p s \<longleftrightarrow> edge d (p, s)"
proof -
  obtain p0 s0 where d: "d = (p0, s0)" by (cases d)
  show ?thesis unfolding d by (cases p0; cases p; cases s0; cases s) (simp_all add: edge_simps)
qed

text \<open>\<open>e\<close> may be recorded right after \<open>d\<close>.\<close>

definition follows :: "leg_event \<Rightarrow> leg_event \<Rightarrow> bool" where
  "follows d e \<longleftrightarrow>
     edge (place d) (place e)
   \<and> (le_phase d = le_phase e \<and> le_phase e \<in> {cctp_attestation, cctp_mint} \<longrightarrow>
        \<not> messageConflict (le_evidence d) (le_evidence e))
   \<and> (le_phase d = base_deposit \<and> le_phase e = base_deposit \<longrightarrow> \<not> handleConflict (le_evidence d) (le_evidence e))
   \<and> (place d = (base_deposit, unknown) \<and> place e = (base_deposit, confirmed) \<longrightarrow>
        \<not> reconciliationConflict (le_evidence d) (le_evidence e))"

text \<open>Its evidence has the fields of its phase and state, in their form.\<close>

definition well_formed :: "leg_event \<Rightarrow> bool" where
  "well_formed e \<longleftrightarrow> validateBaseEvidence (le_phase e) (le_state e) (le_evidence e) = Inr ()"

definition fits :: "leg_event list \<Rightarrow> leg_event \<Rightarrow> bool" where
  "fits xs e \<longleftrightarrow> well_formed e \<and> place e \<notin> place ` set xs \<and> (xs \<noteq> [] \<longrightarrow> follows (last xs) e)"

inductive leg_step :: "leg \<Rightarrow> leg \<Rightarrow> bool" where
  leg_stay: "leg_step l l"
| leg_seed: "0 \<le> v \<Longrightarrow> leg_step Unseeded (Leg v [])"
| leg_append: "fits xs e \<Longrightarrow> le_version e = v \<Longrightarrow> leg_step (Leg v xs) (Leg (v + 1) (xs @ [e]))"

inductive_simps leg_step_Leg: "leg_step (Leg v xs) l"

text \<open>The versions of a log are consecutive up to the next one, and each checkpoint follows its predecessor.\<close>

fun leg_ok :: "leg \<Rightarrow> bool" where
  "leg_ok Unseeded = True"
| "leg_ok (Leg v xs) \<longleftrightarrow>
     0 \<le> v - int (length xs) \<and> map le_version xs = [v - int (length xs)..v - 1]
   \<and> distinct (map place xs) \<and> successively follows xs \<and> list_all well_formed xs"

lemma leg_step_ok: "leg_step l l' \<Longrightarrow> leg_ok l \<Longrightarrow> leg_ok l'"
proof (induction rule: leg_step.induct)
  case (leg_append xs e v)
  have "[v - int (length xs)..v] = [v - int (length xs)..v - 1] @ [v]"
    using upto_rec2 [of "v - int (length xs)" v] by simp
  with leg_append show ?case
    by (auto simp: fits_def successively_append_iff algebra_simps)
qed simp_all

subsection \<open>The leg of an identity in the tables\<close>

definition event_of :: "evidence_row \<Rightarrow> leg_event" where
  "event_of r = \<lparr>le_version = expected_recovery_version r, le_phase = ev_phase r, le_state = ev_state r,
                 le_evidence = evidence_of r\<rparr>"

definition log_of :: "evidence_db \<Rightarrow> evidence_identity \<Rightarrow> leg_event list" where
  "log_of db i = map event_of (filter (\<lambda>r. ev_identity r = i) (events db))"

definition leg_of :: "evidence_db \<Rightarrow> evidence_identity \<Rightarrow> leg" where
  "leg_of db i = (case map_of (heads db) i of None \<Rightarrow> Unseeded | Some h \<Rightarrow> Leg (next_recovery_version h) (log_of db i))"

definition reached :: "leg_event list \<Rightarrow> (phase \<times> evidence_state) option" where
  "reached xs = (if xs = [] then None else Some (place (last xs)))"

definition head_ok :: "evidence_db \<Rightarrow> evidence_identity \<Rightarrow> bool" where
  "head_ok db i \<longleftrightarrow>
     (case map_of (heads db) i of None \<Rightarrow> log_of db i = [] | Some h \<Rightarrow> latest h = reached (log_of db i))
   \<and> leg_ok (leg_of db i)"

definition evidence_ok :: "evidence_db \<Rightarrow> bool" where "evidence_ok db \<longleftrightarrow> (\<forall>i. head_ok db i)"

text \<open>The log of an identity is in the order of its versions, so its last row is the latest.\<close>

lemma sort_key_hd_min: "sort_key f xs = y # ys \<Longrightarrow> y \<in> set xs \<and> (\<forall>x \<in> set xs. f y \<le> f x)"
proof -
  assume s: "sort_key f xs = y # ys"
  have "sorted (map f (y # ys))" using s by (metis sorted_sort_key)
  moreover have "set xs = set (y # ys)" using s by (metis set_sort)
  ultimately show ?thesis by auto
qed

lemma latest_row_None: "latest_row p db i = None \<longleftrightarrow> (\<forall>r \<in> set (events db). ev_identity r = i \<longrightarrow> \<not> p r)"
proof -
  have *: "sort_key f xs = [] \<longleftrightarrow> xs = []" for f :: "evidence_row \<Rightarrow> int" and xs
    by (metis length_sort list.size(3) length_0_conv)
  have "(case xs of [] \<Rightarrow> None | r # rs \<Rightarrow> Some r) = None \<longleftrightarrow> xs = []" for xs :: "evidence_row list"
    by (cases xs) auto
  then show ?thesis unfolding latest_row_def using * by (simp add: filter_empty_conv)
qed

lemma latest_row_Some:
  "latest_row p db i = Some r \<Longrightarrow> r \<in> set (events db) \<and> ev_identity r = i \<and> p r
     \<and> (\<forall>x \<in> set (events db). ev_identity x = i \<and> p x \<longrightarrow> expected_recovery_version x \<le> expected_recovery_version r)"
  by (auto simp: latest_row_def split: list.splits dest!: sort_key_hd_min)

lemma log_versions_last:
  assumes "leg_ok (Leg v (xs @ [e]))" "x \<in> set (xs @ [e])" "le_version e \<le> le_version x"
  shows "x = e"
proof -
  have m: "map le_version (xs @ [e]) = [v - int (length (xs @ [e]))..v - 1]" using assms(1) by simp
  then have e: "le_version e = v - 1"
    by (metis (no_types, lifting) last_map last_snoc list.map_disc_iff snoc_eq_iff_butlast upto_rec2 upto_Nil2
        list.simps(3) map_is_Nil_conv not_le)
  have "distinct (map le_version (xs @ [e]))" unfolding m by simp
  then have "v - 1 \<notin> le_version ` set xs" using e by auto
  moreover have "le_version x \<le> v - 1" using assms(2) m by (metis atLeastAtMost_iff image_eqI list.set_map set_upto)
  ultimately show ?thesis using assms(2,3) e by force
qed

lemma known_evidence_log:
  assumes ok: "head_ok db i" and h: "map_of (heads db) i = Some h"
  shows "known_evidence db i = (if log_of db i = [] then JObj [] else le_evidence (last (log_of db i)))"
proof (cases "latest_row (\<lambda>r. True) db i")
  case None
  then have "log_of db i = []" by (auto simp: latest_row_None log_of_def filter_empty_conv)
  with None show ?thesis by (simp add: known_evidence_def)
next
  case (Some r)
  note r = latest_row_Some [OF Some]
  have mem: "event_of r \<in> set (log_of db i)" using r by (auto simp: log_of_def)
  then obtain xs e where l: "log_of db i = xs @ [e]" by (metis append_butlast_last_id empty_iff list.set(1))
  have "e \<in> set (log_of db i)" by (simp add: l)
  then obtain x where x: "x \<in> set (events db)" "ev_identity x = i" "e = event_of x" by (auto simp: log_of_def)
  have v: "le_version e \<le> le_version (event_of r)" using r x by (simp add: event_of_def)
  have "leg_ok (Leg (next_recovery_version h) (xs @ [e]))" using ok h l by (simp add: head_ok_def leg_of_def)
  then have "event_of r = e" by (rule log_versions_last) (use mem l v in simp_all)
  then have "evidence_of r = le_evidence e" by (auto simp: event_of_def)
  with Some l show ?thesis by (simp add: known_evidence_def)
qed

subsection \<open>Operations\<close>

datatype evidence_op =
    OSeed jsv int "string option" int
  | OEnqueue jsv int
  | OClaim jsv string int
  | OOwned jsv "string option" int
  | OLease int int string
  | ODelivered nat string int
  | ORetry nat string int int string
  | ODead nat string int string
  | OConflict nat string int bool

text \<open>The tables after an operation; one that throws leaves them as they were.\<close>

definition kept :: "'d \<Rightarrow> 'e + ('d \<times> 'b) \<Rightarrow> 'd" where "kept db res = (case res of Inl e \<Rightarrow> db | Inr x \<Rightarrow> fst x)"

fun evidence_apply :: "(string \<Rightarrow> string) \<Rightarrow> nat \<Rightarrow> evidence_db \<Rightarrow> evidence_op \<Rightarrow> evidence_db" where
  "evidence_apply sha m db (OSeed input v job at) = kept db (seed db input v job at)"
| "evidence_apply sha m db (OEnqueue input at) = kept db (enqueue sha db input at)"
| "evidence_apply sha m db (OClaim input tok at) = kept db (claimSubmission sha db input tok at)"
| "evidence_apply sha m db (OOwned input tok at) = kept db (enqueueOwned sha db input tok at)"
| "evidence_apply sha m db (OLease at ms tok) = fst (leaseNext m db at ms tok)"
| "evidence_apply sha m db (ODelivered i tok at) = kept db (markDelivered db i tok at)"
| "evidence_apply sha m db (ORetry i tok at retryAt why) = kept db (markRetry m db i tok at retryAt why)"
| "evidence_apply sha m db (ODead i tok at why) = kept db (markDead db i tok at why)"
| "evidence_apply sha m db (OConflict i tok at blocks) = kept db (markConflict db i tok at blocks)"

definition empty_db :: evidence_db where "empty_db = \<lparr>heads = [], events = [], next_id = 1\<rparr>"

text \<open>What the leg and its invariant read of the tables.\<close>

definition leg_view :: "evidence_db \<Rightarrow> evidence_identity \<Rightarrow> (int \<times> (phase \<times> evidence_state) option) option \<times> leg_event list" where
  "leg_view db i = (map_option (\<lambda>h. (next_recovery_version h, latest h)) (map_of (heads db) i), log_of db i)"

lemma leg_of_view:
  "leg_of db i = (case leg_view db i of (None, l) \<Rightarrow> Unseeded | (Some (v, p), l) \<Rightarrow> Leg v l)"
  by (simp add: leg_of_def leg_view_def split: option.split)

lemma head_ok_view:
  "head_ok db i \<longleftrightarrow> (case leg_view db i of (None, l) \<Rightarrow> l = [] | (Some (v, p), l) \<Rightarrow> p = reached l \<and> leg_ok (Leg v l))"
  by (auto simp: head_ok_def leg_of_def leg_view_def simp del: leg_ok.simps(2) split: option.split)

definition refines_leg :: "evidence_db \<Rightarrow> evidence_db \<Rightarrow> evidence_identity \<Rightarrow> bool" where
  "refines_leg db db' i \<longleftrightarrow> head_ok db i \<longrightarrow> leg_step (leg_of db i) (leg_of db' i) \<and> head_ok db' i"

lemma refines_same: "leg_view db' i = leg_view db i \<Longrightarrow> refines_leg db db' i"
  by (simp add: refines_leg_def leg_of_view head_ok_view leg_stay)

lemma refines_view: "refines_leg db db1 i \<Longrightarrow> leg_view db2 i = leg_view db1 i \<Longrightarrow> refines_leg db db2 i"
  by (simp add: refines_leg_def leg_of_view head_ok_view)

text \<open>A change of the rows that keeps what they report.\<close>

lemma log_of_map: "(\<And>r. ev_identity (f r) = ev_identity r \<and> event_of (f r) = event_of r) \<Longrightarrow>
    events db' = map f (events db) \<Longrightarrow> log_of db' i = log_of db i"
  by (simp add: log_of_def filter_map o_def)

lemma leg_view_map: "(\<And>r. ev_identity (f r) = ev_identity r \<and> event_of (f r) = event_of r) \<Longrightarrow>
    events db' = map f (events db) \<Longrightarrow> heads db' = heads db \<Longrightarrow> leg_view db' i = leg_view db i"
  by (simp add: leg_view_def log_of_map [of f])

lemma event_of_kept [simp]:
  "ev_identity (settle_row st at retryAt err r) = ev_identity r" "event_of (settle_row st at retryAt err r) = event_of r"
  "ev_identity (lease_row tok at ms r) = ev_identity r" "event_of (lease_row tok at ms r) = event_of r"
  "ev_identity (bury m at r) = ev_identity r" "event_of (bury m at r) = event_of r"
  by (simp_all add: settle_row_def lease_row_def bury_def event_of_def evidence_of_def)

lemma deliveryTransition_Inr:
  "deliveryTransition db i tok st at retryAt err = Inr (db', r) \<Longrightarrow>
     db' = db\<lparr>events := map (\<lambda>x. if held i tok x then settle_row st at retryAt err x else x) (events db)\<rparr>"
  by (auto simp: deliveryTransition_def split: list.splits)

lemma deliveryTransition_view:
  "leg_view (kept db (deliveryTransition db j tok st at retryAt err)) i = leg_view db i"
proof (cases "deliveryTransition db j tok st at retryAt err")
  case (Inr x)
  then show ?thesis
    by (cases x) (auto simp: kept_def dest!: deliveryTransition_Inr
        intro!: leg_view_map [where f = "\<lambda>x. if held j tok x then settle_row st at retryAt err x else x"])
qed (simp add: kept_def)

lemma marks_kept:
  "kept db (markDelivered db j tok at) = kept db (deliveryTransition db j tok d_delivered at None None)"
  "kept db (markDead db j tok at why) = kept db (deliveryTransition db j tok d_dead at None (Some why))"
  "kept db (markRetry m db j tok at retryAt why) = db \<or>
   (\<exists>st ra. st \<noteq> d_delivered \<and> kept db (markRetry m db j tok at retryAt why) = kept db (deliveryTransition db j tok st at ra (Some why)))"
  "kept db (markConflict db j tok at blocks) = db \<or>
   kept db (markConflict db j tok at blocks) = kept db (deliveryTransition db j tok d_conflict at None (Some ''immutable_conflict''))"
     apply (simp_all add: markDelivered_def markDead_def)
   apply (cases "find (held j tok) (events db)"; fastforce simp: markRetry_def kept_def)
  apply (cases "deliveryTransition db j tok d_conflict at None (Some ''immutable_conflict'')"; simp add: markConflict_def kept_def)
  done

lemma leaseNext_events:
  "heads (fst (leaseNext m db at ms tok)) = heads db
   \<and> (\<exists>f. (\<forall>r. ev_identity (f r) = ev_identity r \<and> event_of (f r) = event_of r)
          \<and> events (fst (leaseNext m db at ms tok)) = map f (events db))"
proof (cases "sort_key (\<lambda>r. (created_at r, ev_id r))
    (filter (lease_candidate m at (map (bury m at) (events db))) (map (bury m at) (events db)))")
  case Nil
  then show ?thesis by (auto simp: leaseNext_def Let_def intro!: exI [of _ "bury m at"])
next
  case (Cons c cs)
  then show ?thesis
    by (auto simp: leaseNext_def Let_def
        intro!: exI [of _ "\<lambda>r. if ev_id (bury m at r) = ev_id c then lease_row tok at ms (bury m at r) else bury m at r"])
qed

lemma leaseNext_view: "leg_view (fst (leaseNext m db at ms tok)) i = leg_view db i"
  using leaseNext_events [of m db at ms tok] leg_view_map by blast

subsection \<open>A checkpoint appends to its leg\<close>

lemma evidence_of_newEvent [simp]: "evidence_of (newEvent sha db c v at) = cp_evidence c"
  by (simp add: evidence_of_def newEvent_def reportOf_def)

lemma event_of_newEvent [simp]:
  "event_of (newEvent sha db c v at) = \<lparr>le_version = v, le_phase = cp_phase c, le_state = cp_status c, le_evidence = cp_evidence c\<rparr>"
  by (simp add: event_of_def) (simp add: newEvent_def)

text \<open>What \<open>enqueueCheckpoint\<close> did when it did not throw: it found the checkpoint, or it appended it.\<close>

definition appended :: "(string \<Rightarrow> string) \<Rightarrow> evidence_db \<Rightarrow> checkpoint \<Rightarrow> int \<Rightarrow> head \<Rightarrow> evidence_db" where
  "appended sha db c at h =
     (let v = next_recovery_version h in
      db\<lparr>events := events db @ [newEvent sha db c v at], next_id := next_id db + 1,
         heads := AList.update (cp_identity c) (h\<lparr>next_recovery_version := v + 1,
           latest := Some (cp_phase c, cp_status c), head_updated_at := at\<rparr>) (heads db)\<rparr>)"

lemma enqueueCheckpoint_cases:
  assumes run: "enqueueCheckpoint sha db c at = Inr (db', r, dup)"
  obtains (found) "db' = db" "r \<in> set (events db)" "ev_identity r = cp_identity c" "ev_phase r = cp_phase c"
      "ev_state r = cp_status c"
  | (fresh) h where "map_of (heads db) (cp_identity c) = Some h"
      "latest_row (\<lambda>r. ev_phase r = cp_phase c \<and> ev_state r = cp_status c) db (cp_identity c) = None"
      "transitionError (latest h) (known_evidence db (cp_identity c)) c = None"
      "db' = appended sha db c at h"
proof (cases "map_of (heads db) (cp_identity c)")
  case None
  with run show ?thesis by (simp add: enqueueCheckpoint_def)
next
  case h: (Some h)
  show ?thesis
  proof (cases "latest_row (\<lambda>r. ev_phase r = cp_phase c \<and> ev_state r = cp_status c) db (cp_identity c)")
    case None
    have "transitionError (latest h) (known_evidence db (cp_identity c)) c = None"
      using run by (cases "transitionError (latest h) (known_evidence db (cp_identity c)) c")
        (simp_all add: enqueueCheckpoint_def h None)
    moreover from this have "db' = appended sha db c at h"
      using run by (simp add: enqueueCheckpoint_def h None appended_def Let_def split: if_splits) (auto simp: Let_def)
    ultimately show ?thesis using fresh h None by blast
  next
    case (Some x)
    have "db' = db" "r = x" using run by (simp_all add: enqueueCheckpoint_def h Some Let_def split: if_splits)
    with latest_row_Some [OF Some] show ?thesis by (intro found) simp_all
  qed
qed

lemma log_of_appended:
  "log_of (appended sha db c at h) i = log_of db i @
     (if i = cp_identity c then [event_of (newEvent sha db c (next_recovery_version h) at)] else [])"
  by (simp add: log_of_def appended_def Let_def newEvent_def)

lemma map_of_heads_appended:
  "map_of (heads (appended sha db c at h)) i =
     (if i = cp_identity c then Some (h\<lparr>next_recovery_version := next_recovery_version h + 1,
           latest := Some (cp_phase c, cp_status c), head_updated_at := at\<rparr>) else map_of (heads db) i)"
  by (simp add: appended_def Let_def update_conv')

text \<open>A checkpoint the transition checks accept fits the log.\<close>

lemma accepted_fits:
  assumes "transitionError (reached xs) (if xs = [] then JObj [] else le_evidence (last xs)) c = None"
    and "well_formed e" "place e \<notin> place ` set xs" "le_phase e = cp_phase c" "le_state e = cp_status c" "le_evidence e = cp_evidence c"
  shows "fits xs e"
proof (cases "xs = []")
  case False
  then show ?thesis
    using assms by (auto simp: fits_def follows_def transitionError_def reached_def place_def allowedTransition_edge split: if_splits)
qed (use assms in \<open>simp add: fits_def\<close>)

lemma appended_refines:
  assumes h: "map_of (heads db) (cp_identity c) = Some h"
    and none: "latest_row (\<lambda>r. ev_phase r = cp_phase c \<and> ev_state r = cp_status c) db (cp_identity c) = None"
    and ok: "transitionError (latest h) (known_evidence db (cp_identity c)) c = None"
    and wf: "validateBaseEvidence (cp_phase c) (cp_status c) (cp_evidence c) = Inr ()"
  shows "refines_leg db (appended sha db c at h) i"
proof (cases "i = cp_identity c")
  case False
  then have "leg_view (appended sha db c at h) i = leg_view db i"
    by (simp add: leg_view_def log_of_appended map_of_heads_appended)
  then show ?thesis by (rule refines_same)
next
  case True
  let ?e = "event_of (newEvent sha db c (next_recovery_version h) at)"
  show ?thesis unfolding refines_leg_def
  proof
    assume inv: "head_ok db i"
    have l: "latest h = reached (log_of db i)" using inv h True by (simp add: head_ok_def)
    have "place ?e \<notin> place ` set (log_of db i)"
      using none True by (auto simp: latest_row_None log_of_def place_def event_of_def newEvent_def)
    then have "fits (log_of db i) ?e"
      using ok True inv h known_evidence_log [of db i h] wf
      by (intro accepted_fits [of _ c]) (simp_all add: l well_formed_def)
    then have step: "leg_step (leg_of db i) (leg_of (appended sha db c at h) i)"
      using h True by (simp add: leg_of_def log_of_appended map_of_heads_appended leg_append)
    moreover have "leg_ok (leg_of (appended sha db c at h) i)"
      using step inv by (auto simp: head_ok_def intro: leg_step_ok)
    ultimately show "leg_step (leg_of db i) (leg_of (appended sha db c at h) i) \<and> head_ok (appended sha db c at h) i"
      using True by (simp add: head_ok_def map_of_heads_appended log_of_appended reached_def place_def)
  qed
qed

lemma validateCheckpoint_evidence:
  assumes run: "validateCheckpoint v = Inr c"
  shows "validateBaseEvidence (cp_phase c) (cp_status c) (cp_evidence c) = Inr ()"
proof (cases "exactIdentity (js_get v ''identity'')")
  case (Inr j)
  obtain p s where p: "phase_of (js_get v ''phase'') = Some p" and s: "state_of (js_get v ''status'') = Some s"
    using run Inr by (auto simp: validateCheckpoint_def split: if_splits option.splits)
  note d = run [unfolded validateCheckpoint_def, simplified Inr p s, simplified]
  show ?thesis
  proof (cases "validateBaseEvidence p s (js_get v ''evidence'')")
    case (Inl e)
    with d show ?thesis by (simp split: if_splits)
  next
    case ok: (Inr u)
    with d have "cp_phase c = p \<and> cp_status c = s \<and> cp_evidence c = js_get v ''evidence''"
      by (auto split: if_splits jsv.splits)
    with ok show ?thesis by simp
  qed
qed (use run in \<open>simp add: validateCheckpoint_def split: if_splits\<close>)

lemma enqueueCheckpoint_refines:
  "enqueueCheckpoint sha db c at = Inr (db', r, dup) \<Longrightarrow> validateCheckpoint input = Inr c \<Longrightarrow> refines_leg db db' i"
  by (erule enqueueCheckpoint_cases) (auto intro: refines_same appended_refines dest: validateCheckpoint_evidence)

text \<open>The owner of a submission is not part of the leg.\<close>

lemma owner_view:
  "map_of (heads db) j = Some h \<Longrightarrow>
     leg_view (db\<lparr>heads := AList.update j (h\<lparr>submission_owner_token := tok\<rparr>) (heads db)\<rparr>) i = leg_view db i"
  by (simp add: leg_view_def log_of_def update_conv')

lemma refines_refl: "refines_leg db db i" by (rule refines_same) simp

lemma seed_refines: "refines_leg db (kept db (seed db input v job at)) i"
proof (cases "exactIdentity input")
  case (Inr j)
  show ?thesis
  proof (cases "map_of (heads db) j")
    case None
    then have d: "j \<notin> fst ` set (heads db)" by (simp add: map_of_eq_None_iff)
    show ?thesis
    proof (cases "safe_int v \<and> 0 \<le> v")
      case True
      let ?db = "kept db (seed db input v job at)"
      have l: "log_of ?db i = log_of db i" using Inr None True by (simp add: seed_def kept_def log_of_def)
      have m: "map_of (heads ?db) i = (if i = j then Some \<lparr>job_id = job, next_recovery_version = v, latest = None,
                     submission_owner_token = None, head_updated_at = at\<rparr> else map_of (heads db) i)"
        using Inr None True d by (auto simp: seed_def kept_def map_add_def split: option.split)
      show ?thesis
      proof (cases "i = j")
        case i: True
        show ?thesis using l m i None True
          by (auto simp: refines_leg_def head_ok_def leg_of_def reached_def intro: leg_seed)
      next
        case False
        with l m show ?thesis by (intro refines_same) (simp add: leg_view_def)
      qed
    qed (use Inr in \<open>auto simp: seed_def kept_def intro: refines_refl\<close>)
  next
    case (Some h)
    with Inr show ?thesis by (simp add: seed_def kept_def refines_refl)
  qed
qed (simp add: seed_def kept_def refines_refl)

lemma enqueue_refines: "refines_leg db (kept db (enqueue sha db input at)) i"
proof (cases "enqueue sha db input at")
  case (Inr x)
  then show ?thesis
    by (cases x; cases "validateCheckpoint input") (auto simp: enqueue_def kept_def intro: enqueueCheckpoint_refines)
qed (simp add: kept_def refines_refl)

text \<open>A claim that is granted, and an owned transition, are an enqueue and a change of the owner.\<close>

definition with_owner :: "evidence_db \<Rightarrow> evidence_identity \<Rightarrow> head \<Rightarrow> string option \<Rightarrow> evidence_db" where
  "with_owner db j h tok = db\<lparr>heads := AList.update j (h\<lparr>submission_owner_token := tok\<rparr>) (heads db)\<rparr>"

lemma claimSubmission_cases:
  assumes run: "claimSubmission sha db input tok at = Inr (db', res)"
  obtains (held_already) "db' = db" "res = None"
  | (granted) c db1 r dup h1 where "validateCheckpoint input = Inr c" "cp_phase c = base_deposit" "cp_status c = submitting"
      "map_option latest (map_of (heads db) (cp_identity c)) \<noteq> Some (Some (base_deposit, submitting))"
      "enqueueCheckpoint sha db c at = Inr (db1, r, dup)" "map_of (heads db1) (cp_identity c) = Some h1"
      "latest h1 = Some (base_deposit, submitting)" "submission_owner_token h1 = None"
      "db' = with_owner db1 (cp_identity c) h1 (Some tok)" "res = Some (tok, r)"
proof (cases "validateCheckpoint input")
  case (Inl e)
  with run show ?thesis by (simp add: claimSubmission_def)
next
  case c: (Inr c)
  show ?thesis
  proof (cases "map_of (heads db) (cp_identity c)")
    case None
    with run c show ?thesis by (simp add: claimSubmission_def split: if_splits)
  next
    case h: (Some h)
    show ?thesis
    proof (cases "latest h = Some (base_deposit, submitting)")
      case True
      with run c h have "db' = db" "res = None"
        by (auto simp: claimSubmission_def Let_def split: if_splits option.splits)
      then show ?thesis by (rule held_already)
    next
      case False
      from run c h False obtain db1 r dup where e: "enqueueCheckpoint sha db c at = Inr (db1, r, dup)"
        by (cases "enqueueCheckpoint sha db c at") (auto simp: claimSubmission_def Let_def split: if_splits)
      from run c h False e obtain h1 where h1: "map_of (heads db1) (cp_identity c) = Some h1"
        by (cases "map_of (heads db1) (cp_identity c)") (auto simp: claimSubmission_def Let_def split: if_splits)
      from run c h False e h1 show ?thesis
        by (intro granted [OF c _ _ _ e h1]) (auto simp: claimSubmission_def Let_def with_owner_def split: if_splits)
    qed
  qed
qed

lemma enqueueOwned_cases:
  assumes run: "enqueueOwned sha db input tok at = Inr (db', res)"
  obtains c db1 r dup h1 where "validateCheckpoint input = Inr c" "cp_phase c = base_deposit" "cp_status c \<noteq> submitting"
      "enqueueCheckpoint sha db c at = Inr (db1, r, dup)" "map_of (heads db1) (cp_identity c) = Some h1"
      "db' = with_owner db1 (cp_identity c) h1 None"
proof (cases "validateCheckpoint input")
  case (Inl e)
  with run show ?thesis by (simp add: enqueueOwned_def)
next
  case c: (Inr c)
  from run c obtain t h where t: "tok = Some t" "map_of (heads db) (cp_identity c) = Some h"
    by (auto simp: enqueueOwned_def Let_def split: if_splits option.splits)
  from run c t obtain db1 r dup where e: "enqueueCheckpoint sha db c at = Inr (db1, r, dup)"
    by (cases "enqueueCheckpoint sha db c at") (auto simp: enqueueOwned_def Let_def split: if_splits)
  from run c t e obtain h1 where h1: "map_of (heads db1) (cp_identity c) = Some h1"
    by (cases "map_of (heads db1) (cp_identity c)") (auto simp: enqueueOwned_def Let_def split: if_splits)
  from run c t e h1 show ?thesis
    by (intro that [OF c _ _ e h1]) (auto simp: enqueueOwned_def Let_def with_owner_def split: if_splits)
qed

lemma with_owner_view: "map_of (heads db) j = Some h \<Longrightarrow> leg_view (with_owner db j h tok) i = leg_view db i"
  by (simp add: with_owner_def owner_view)

lemma claim_refines: "refines_leg db (kept db (claimSubmission sha db input tok at)) i"
proof (cases "claimSubmission sha db input tok at")
  case (Inr x)
  obtain db' res where x: "x = (db', res)" by (cases x)
  show ?thesis using Inr [unfolded x]
    by (elim claimSubmission_cases) (auto simp: Inr x kept_def refines_refl intro: refines_view enqueueCheckpoint_refines with_owner_view)
qed (simp add: kept_def refines_refl)

lemma owned_refines: "refines_leg db (kept db (enqueueOwned sha db input tok at)) i"
proof (cases "enqueueOwned sha db input tok at")
  case (Inr x)
  obtain db' res where x: "x = (db', res)" by (cases x)
  show ?thesis using Inr [unfolded x]
    by (elim enqueueOwned_cases) (auto simp: Inr x kept_def intro: refines_view enqueueCheckpoint_refines with_owner_view)
qed (simp add: kept_def refines_refl)

lemma evidence_apply_refines: "refines_leg db (evidence_apply sha m db op) i"
proof (cases op)
  case (ORetry j tok at retryAt why)
  then show ?thesis using marks_kept(3) [of db m j tok at retryAt why]
    by (auto simp: refines_refl refines_same deliveryTransition_view)
next
  case (OConflict j tok at blocks)
  then show ?thesis using marks_kept(4) [of db j tok at blocks]
    by (auto simp: refines_refl refines_same deliveryTransition_view)
qed (simp_all add: seed_refines enqueue_refines claim_refines owned_refines refines_same leaseNext_view marks_kept(1,2) deliveryTransition_view)

lemma evidence_ok_apply: "evidence_ok db \<Longrightarrow> evidence_ok (evidence_apply sha m db op)"
  using evidence_apply_refines unfolding evidence_ok_def refines_leg_def by blast

interpretation leg_machine: refining_machine "evidence_apply sha m" evidence_ok "\<lambda>db. leg_of db i" leg_step for sha m i
  by unfold_locales (auto simp: evidence_ok_apply, use evidence_apply_refines in \<open>auto simp: evidence_ok_def refines_leg_def\<close>)

lemma evidence_ok_empty [simp]: "evidence_ok empty_db"
  by (simp add: evidence_ok_def head_ok_def empty_db_def leg_of_def log_of_def)

lemma leg_of_empty [simp]: "leg_of empty_db i = Unseeded"
  by (simp add: leg_of_def empty_db_def)

end
