(* ===== verification/BaseOutboxSafety.thy ===== *)
theory BaseOutboxSafety
  imports BaseLeg
begin

section \<open>What the Base evidence outbox guarantees\<close>

text \<open>
  From the refinement: a submission is claimed at most once, the reconcile handle of a leg never
  changes and its outcome is final, reports leave in the order of their versions, and startup
  recovery always finds the checkpoint it needs.
\<close>

subsection \<open>A submission is claimed once\<close>

definition claims :: "(string \<Rightarrow> string) \<Rightarrow> evidence_identity \<Rightarrow> evidence_db \<Rightarrow> evidence_op \<Rightarrow> bool" where
  "claims sha i db op =
     (case op of
        OClaim input tok at \<Rightarrow>
          (case claimSubmission sha db input tok at of Inr (db', Some (t, r)) \<Rightarrow> ev_identity r = i | _ \<Rightarrow> False)
      | _ \<Rightarrow> False)"

definition submissions :: "evidence_db \<Rightarrow> evidence_identity \<Rightarrow> nat" where
  "submissions db i = length (filter (\<lambda>e. place e = (base_deposit, submitting)) (log_of db i))"

lemma log_of_leg:
  "head_ok db i \<Longrightarrow> log_of db i = (case leg_of db i of Unseeded \<Rightarrow> [] | Leg v xs \<Rightarrow> xs)"
  by (simp add: head_ok_def leg_of_def split: option.splits)

lemma submissions_mono:
  assumes "evidence_ok db"
  shows "submissions db i \<le> submissions (evidence_apply sha m db op) i"
proof -
  have ok: "head_ok db i" "head_ok (evidence_apply sha m db op) i"
    using assms evidence_ok_apply [OF assms] by (simp_all add: evidence_ok_def)
  have "leg_step (leg_of db i) (leg_of (evidence_apply sha m db op) i)" by (rule leg_machine.refines [OF assms])
  then show ?thesis
    by (cases rule: leg_step.cases) (simp_all add: submissions_def log_of_leg [OF ok(1)] log_of_leg [OF ok(2)])
qed

text \<open>A granted claim appends the first submitting checkpoint of its leg.\<close>

lemma claims_fresh:
  assumes "claims sha i db op"
  shows "submissions db i = 0 \<and> 1 \<le> submissions (evidence_apply sha m db op) i"
proof -
  obtain input tok at db' t r where op: "op = OClaim input tok at"
    and run: "claimSubmission sha db input tok at = Inr (db', Some (t, r))" and i: "ev_identity r = i"
    using assms by (auto simp: claims_def split: evidence_op.splits sum.splits option.splits)
  from run show ?thesis
  proof (cases rule: claimSubmission_cases)
    case (granted c db1 r1 dup h1)
    from granted(5) show ?thesis
    proof (cases rule: enqueueCheckpoint_cases)
      case found
      with granted show ?thesis by simp
    next
      case (fresh h)
      have r: "r = newEvent sha db c (next_recovery_version h) at"
        using granted(5,10) fresh by (auto simp: enqueueCheckpoint_def Let_def split: if_splits)
      then have ci: "cp_identity c = i" using i by (simp add: newEvent_def)
      have "submissions db i = 0"
        using fresh(2) granted(2,3) ci
        by (auto simp: submissions_def latest_row_None log_of_def filter_empty_conv place_def event_of_def)
      moreover have "log_of (evidence_apply sha m db op) i = log_of (appended sha db c at h) i"
        using op run granted(9) fresh(4) by (simp add: kept_def with_owner_def log_of_def)
      ultimately show ?thesis
        using granted(2,3) ci by (simp add: submissions_def log_of_appended place_def)
    qed
  qed simp
qed

interpretation claim_machine:
  fenced_machine "evidence_apply sha m" evidence_ok "\<lambda>db. submissions db i" "claims sha i" 1 for sha m i
  by unfold_locales (use evidence_ok_apply submissions_mono claims_fresh in auto)

subsection \<open>One handle and one outcome per leg\<close>

definition handle_text :: "jsv \<Rightarrow> string option option" where
  "handle_text ev = (let h = or_null (js_get ev ''reconcileHandle'') in if h = JNull then None else Some (canonicalJson h))"

definition ended :: "phase \<times> evidence_state \<Rightarrow> bool" where
  "ended p \<longleftrightarrow> fst p = base_deposit \<and> snd p \<in> {confirmed, failed, blocked}"

lemma follows_base:
  assumes "follows d e" "le_phase d = base_deposit"
  shows "le_phase e = base_deposit \<and> handle_text (le_evidence e) = handle_text (le_evidence d) \<and> \<not> ended (place d)"
proof -
  have p: "le_phase e = base_deposit" and "\<not> ended (place d)"
    using assms by (auto simp: follows_def place_def ended_def edge_simps)
  moreover have "handle_text (le_evidence e) = handle_text (le_evidence d)"
    using assms p by (auto simp: follows_def handleConflict_def handle_text_def Let_def)
  ultimately show ?thesis using p by simp
qed

lemma base_tail:
  "successively follows (d # xs) \<Longrightarrow> le_phase d = base_deposit \<Longrightarrow>
     (\<forall>e \<in> set xs. le_phase e = base_deposit \<and> handle_text (le_evidence e) = handle_text (le_evidence d))
   \<and> (\<forall>e \<in> set (butlast (d # xs)). \<not> ended (place e))"
proof (induction xs arbitrary: d)
  case (Cons e xs)
  then have f: "le_phase e = base_deposit \<and> handle_text (le_evidence e) = handle_text (le_evidence d) \<and> \<not> ended (place d)"
    using follows_base [of d e] by simp
  with Cons.IH [of e] Cons.prems show ?case by auto
qed simp

lemma path_outcomes:
  "successively follows xs \<Longrightarrow>
     (\<exists>h. \<forall>e \<in> set xs. le_phase e = base_deposit \<longrightarrow> handle_text (le_evidence e) = h)
   \<and> (\<forall>e \<in> set (butlast xs). \<not> ended (place e))"
proof (induction xs)
  case (Cons x xs)
  have s: "successively follows xs" using Cons.prems by (cases xs) auto
  show ?case
  proof (cases "le_phase x = base_deposit")
    case True
    have "\<forall>e \<in> set (x # xs). handle_text (le_evidence e) = handle_text (le_evidence x)"
      using base_tail [OF Cons.prems True] by simp
    with base_tail [OF Cons.prems True] show ?thesis by blast
  next
    case False
    then have "\<not> ended (place x)" by (simp add: ended_def place_def)
    then have "\<forall>e \<in> set (butlast (x # xs)). \<not> ended (place e)" using Cons.IH [OF s] by simp
    moreover obtain h where "\<forall>e \<in> set xs. le_phase e = base_deposit \<longrightarrow> handle_text (le_evidence e) = h"
      using Cons.IH [OF s] by blast
    ultimately show ?thesis using False by auto
  qed
qed simp

definition base_handles :: "evidence_db \<Rightarrow> evidence_identity \<Rightarrow> string option option list" where
  "base_handles db i = remdups (map (\<lambda>r. handle_text (evidence_of r))
     (filter (\<lambda>r. ev_identity r = i \<and> ev_phase r = base_deposit) (events db)))"

definition outcomes :: "evidence_db \<Rightarrow> evidence_identity \<Rightarrow> evidence_row list" where
  "outcomes db i = filter (\<lambda>r. ended (ev_phase r, ev_state r)) (filter (\<lambda>r. ev_identity r = i) (events db))"

lemma remdups_const: "\<forall>x \<in> set xs. x = h \<Longrightarrow> length (remdups xs) \<le> 1"
proof -
  assume "\<forall>x \<in> set xs. x = h"
  then have "set xs \<subseteq> {h}" by auto
  then have "card (set xs) \<le> card {h}" by (rule card_mono [rotated]) simp
  then show ?thesis by (simp add: length_remdups_card_conv)
qed

lemma filter_at_end: "\<forall>x \<in> set (butlast xs). \<not> p x \<Longrightarrow> filter p xs = [] \<or> filter p xs = [last xs]"
proof (induction xs)
  case (Cons x xs)
  then show ?case by (cases xs) auto
qed simp

lemma leg_outcomes:
  assumes "head_ok db i"
  shows "length (base_handles db i) \<le> 1
       \<and> outcomes db i \<in> {[], [last (filter (\<lambda>r. ev_identity r = i) (events db))]}"
proof -
  let ?rs = "filter (\<lambda>r. ev_identity r = i) (events db)"
  have l: "log_of db i = map event_of ?rs" by (simp add: log_of_def)
  have "successively follows (log_of db i)"
    using assms by (auto simp: head_ok_def leg_of_def split: option.splits)
  note p = path_outcomes [OF this]
  obtain h where h: "\<forall>e \<in> set (log_of db i). le_phase e = base_deposit \<longrightarrow> handle_text (le_evidence e) = h"
    using p by blast
  have "\<forall>x \<in> set (map (\<lambda>r. handle_text (evidence_of r)) (filter (\<lambda>r. ev_identity r = i \<and> ev_phase r = base_deposit) (events db))). x = h"
    using h by (auto simp: log_of_def event_of_def)
  then have "length (base_handles db i) \<le> 1" unfolding base_handles_def by (rule remdups_const)
  moreover have "\<forall>r \<in> set (butlast ?rs). \<not> ended (ev_phase r, ev_state r)"
    using conjunct2 [OF p] by (simp add: l map_butlast [symmetric] place_def event_of_def)
  then have "outcomes db i = [] \<or> outcomes db i = [last ?rs]" unfolding outcomes_def by (rule filter_at_end)
  ultimately show ?thesis by simp
qed

subsection \<open>Reports are sent in order\<close>

definition premature :: "evidence_row list \<Rightarrow> evidence_row list" where
  "premature rs = filter (\<lambda>r. 0 < attempts r \<and> undelivered_prior rs r) rs"

definition rows_ok :: "nat \<Rightarrow> evidence_db \<Rightarrow> bool" where
  "rows_ok m db \<longleftrightarrow> distinct (map ev_id (events db)) \<and> (\<forall>r \<in> set (events db). ev_id r < next_id db)
     \<and> list_all (\<lambda>r. attempts r \<le> m) (events db) \<and> premature (events db) = []"

text \<open>A row that stays the row of its report, and stays delivered.\<close>

definition keeps :: "evidence_row \<Rightarrow> evidence_row \<Rightarrow> bool" where
  "keeps r r' \<longleftrightarrow> ev_id r' = ev_id r \<and> ev_identity r' = ev_identity r
     \<and> expected_recovery_version r' = expected_recovery_version r \<and> (delivery r = d_delivered \<longrightarrow> delivery r' = d_delivered)"

lemma undelivered_prior_map:
  assumes "\<And>r. r \<in> set rs \<Longrightarrow> keeps r (f r)" "c \<in> set rs" "undelivered_prior (map f rs) (f c)"
  shows "undelivered_prior rs c"
proof -
  obtain p where p: "p \<in> set rs" "ev_identity (f p) = ev_identity (f c)"
      "expected_recovery_version (f p) < expected_recovery_version (f c)" "delivery (f p) \<noteq> d_delivered"
    using assms(3) by (auto simp: undelivered_prior_def list_ex_iff)
  with assms(1) [OF p(1)] assms(1) [OF assms(2)] have "ev_identity p = ev_identity c"
      "expected_recovery_version p < expected_recovery_version c" "delivery p \<noteq> d_delivered"
    by (auto simp: keeps_def)
  with p(1) show ?thesis by (auto simp: undelivered_prior_def list_ex_iff)
qed

lemma rows_ok_map:
  assumes ok: "rows_ok m db" and f: "\<And>r. r \<in> set (events db) \<Longrightarrow> keeps r (f r)"
    and a: "\<And>r. r \<in> set (events db) \<Longrightarrow> attempts (f r) = attempts r \<or> (attempts (f r) \<le> m \<and> \<not> undelivered_prior (events db) r)"
    and e: "events db' = map f (events db)" "next_id db' = next_id db"
  shows "rows_ok m db'"
proof -
  have id: "map ev_id (map f (events db)) = map ev_id (events db)" using f by (auto simp: keeps_def)
  have "premature (map f (events db)) = []"
  proof (clarsimp simp: premature_def filter_empty_conv)
    fix r assume r: "r \<in> set (events db)" "0 < attempts (f r)" "undelivered_prior (map f (events db)) (f r)"
    then have "undelivered_prior (events db) r" using f undelivered_prior_map by blast
    with a [OF r(1)] r ok show False by (auto simp: rows_ok_def premature_def filter_empty_conv)
  qed
  moreover have "list_all (\<lambda>r. attempts r \<le> m) (map f (events db))"
    using a ok by (fastforce simp: rows_ok_def list_all_iff)
  moreover have "\<forall>r \<in> set (map f (events db)). ev_id r < next_id db"
    using f ok by (auto simp: rows_ok_def keeps_def)
  ultimately show ?thesis using ok by (simp add: rows_ok_def e id del: map_map)
qed

lemma rows_ok_delivery:
  "rows_ok m db \<Longrightarrow> rows_ok m (kept db (deliveryTransition db j tok st at retryAt err))"
proof (cases "deliveryTransition db j tok st at retryAt err")
  case (Inr x)
  assume ok: "rows_ok m db"
  obtain db' r where x: "x = (db', r)" by (cases x)
  let ?f = "\<lambda>x. if held j tok x then settle_row st at retryAt err x else x"
  have db: "db' = db\<lparr>events := map ?f (events db)\<rparr>" using Inr x by (auto dest: deliveryTransition_Inr)
  have "rows_ok m db'"
    by (rule rows_ok_map [OF ok, of ?f]) (auto simp: db keeps_def held_def settle_row_def)
  with Inr x show ?thesis by (simp add: kept_def)
qed (simp add: kept_def)

lemma rows_ok_lease:
  assumes ok: "rows_ok m db"
  shows "rows_ok m (fst (leaseNext m db at ms tok))"
proof -
  let ?rs = "map (bury m at) (events db)"
  have buried: "rows_ok m (db\<lparr>events := ?rs\<rparr>)"
    by (rule rows_ok_map [OF ok, of "bury m at"]) (auto simp: keeps_def bury_def lease_expired_def)
  show ?thesis
  proof (cases "sort_key (\<lambda>r. (created_at r, ev_id r)) (filter (lease_candidate m at ?rs) ?rs)")
    case Nil
    with buried show ?thesis by (simp add: leaseNext_def Let_def)
  next
    case (Cons c cs)
    let ?f = "\<lambda>r. if ev_id r = ev_id c then lease_row tok at ms r else r"
    have c: "c \<in> set ?rs" "lease_candidate m at ?rs c"
      using sort_key_hd_min [OF Cons] by auto
    have same: "r = c" if "r \<in> set ?rs" "ev_id r = ev_id c" for r
      using buried that c by (simp add: rows_ok_def distinct_map inj_on_def del: set_map map_map)
    have "rows_ok m (db\<lparr>events := map ?f ?rs\<rparr>)"
    proof (rule rows_ok_map [OF buried, of ?f])
      fix r assume r: "r \<in> set (events (db\<lparr>events := ?rs\<rparr>))"
      show "keeps r (?f r)"
        using c(2) same [of r] r by (auto simp: keeps_def lease_row_def lease_candidate_def lease_expired_def)
      show "attempts (?f r) = attempts r \<or> (attempts (?f r) \<le> m \<and> \<not> undelivered_prior (events (db\<lparr>events := ?rs\<rparr>)) r)"
        using c(2) same [of r] r by (auto simp: lease_row_def lease_candidate_def)
    qed simp_all
    with Cons show ?thesis by (simp add: leaseNext_def Let_def)
  qed
qed

text \<open>An appended row is the newest of its leg, so it comes before no other.\<close>

lemma log_below_head:
  assumes "head_ok db i" "map_of (heads db) i = Some h" "r \<in> set (events db)" "ev_identity r = i"
  shows "expected_recovery_version r < next_recovery_version h"
proof -
  have m: "map le_version (log_of db i) = [next_recovery_version h - int (length (log_of db i))..next_recovery_version h - 1]"
    using assms(1,2) by (simp add: head_ok_def leg_of_def)
  have "le_version (event_of r) \<in> set (map le_version (log_of db i))" using assms(3,4) by (auto simp: log_of_def)
  then have "le_version (event_of r) \<le> next_recovery_version h - 1" unfolding m by simp
  then show ?thesis by (simp add: event_of_def)
qed

lemma rows_ok_append:
  assumes ok: "rows_ok m db" "evidence_ok db" and h: "map_of (heads db) (cp_identity c) = Some h"
  shows "rows_ok m (appended sha db c at h)"
proof -
  let ?r = "newEvent sha db c (next_recovery_version h) at"
  have "undelivered_prior (events db) r" if r: "r \<in> set (events db)" "undelivered_prior (events db @ [?r]) r" for r
  proof -
    have "\<not> (ev_identity ?r = ev_identity r \<and> expected_recovery_version ?r < expected_recovery_version r)"
      using log_below_head [of db "cp_identity c" h r] ok(2) h r(1) by (auto simp: newEvent_def evidence_ok_def)
    with r(2) show ?thesis by (auto simp: undelivered_prior_def)
  qed
  then have "premature (events db @ [?r]) = []"
    using ok(1) by (auto simp: rows_ok_def premature_def filter_empty_conv newEvent_def)
  then show ?thesis
    using ok(1) by (auto simp: rows_ok_def appended_def Let_def less_Suc_eq newEvent_def)
qed

lemma rows_ok_checkpoint:
  assumes "enqueueCheckpoint sha db c at = Inr (db', r, dup)" "rows_ok m db" "evidence_ok db"
  shows "rows_ok m db'"
  using assms(1) by (cases rule: enqueueCheckpoint_cases) (auto intro: rows_ok_append assms)

lemma rows_ok_owner [simp]: "rows_ok m (with_owner db j h tok) = rows_ok m db"
  by (simp add: rows_ok_def with_owner_def)

lemma rows_ok_seed: "rows_ok m db \<Longrightarrow> rows_ok m (kept db (seed db input v job at))"
  by (cases "exactIdentity input") (auto simp: seed_def kept_def rows_ok_def split: option.split)

lemma rows_ok_enqueue:
  assumes "rows_ok m db" "evidence_ok db"
  shows "rows_ok m (kept db (enqueue sha db input at))"
proof (cases "enqueue sha db input at")
  case (Inr x)
  with assms show ?thesis
    by (cases x; cases "validateCheckpoint input") (auto simp: enqueue_def kept_def intro: rows_ok_checkpoint)
qed (simp add: kept_def assms)

lemma rows_ok_claim:
  assumes "rows_ok m db" "evidence_ok db"
  shows "rows_ok m (kept db (claimSubmission sha db input tok at))"
proof (cases "claimSubmission sha db input tok at")
  case (Inr x)
  obtain db' res where x: "x = (db', res)" by (cases x)
  show ?thesis using Inr [unfolded x]
    by (elim claimSubmission_cases) (auto simp: Inr x kept_def assms intro: rows_ok_checkpoint)
qed (simp add: kept_def assms)

lemma rows_ok_owned:
  assumes "rows_ok m db" "evidence_ok db"
  shows "rows_ok m (kept db (enqueueOwned sha db input tok at))"
proof (cases "enqueueOwned sha db input tok at")
  case (Inr x)
  obtain db' res where x: "x = (db', res)" by (cases x)
  show ?thesis using Inr [unfolded x]
    by (elim enqueueOwned_cases) (auto simp: Inr x kept_def assms intro: rows_ok_checkpoint)
qed (simp add: kept_def assms)

lemma rows_ok_apply:
  assumes "rows_ok m db" "evidence_ok db"
  shows "rows_ok m (evidence_apply sha m db op)"
proof (cases op)
  case (ORetry j tok at retryAt why)
  then show ?thesis using marks_kept(3) [of db m j tok at retryAt why] rows_ok_delivery [OF assms(1)] assms by auto
next
  case (OConflict j tok at blocks)
  then show ?thesis using marks_kept(4) [of db j tok at blocks] rows_ok_delivery [OF assms(1)] assms by auto
qed (simp_all add: rows_ok_seed rows_ok_enqueue rows_ok_claim rows_ok_owned rows_ok_lease rows_ok_delivery marks_kept(1,2) assms)

interpretation delivery_machine:
  invariant_machine "evidence_apply sha m" "\<lambda>db. rows_ok m db \<and> evidence_ok db" for sha m
  by unfold_locales (simp add: rows_ok_apply evidence_ok_apply)

lemma rows_ok_empty [simp]: "rows_ok m empty_db" by (simp add: rows_ok_def empty_db_def premature_def)

subsection \<open>Startup recovery finds what it needs\<close>

lemma all_ok_mem: "all_ok xs = Inr () \<Longrightarrow> x \<in> set xs \<Longrightarrow> x = Inr ()"
  by (induction xs) (auto simp: ebind_Inr_iff)

lemma validated_entries:
  assumes run: "validateBaseEvidence p s v = Inr ()" and k: "js_get v k \<noteq> JUndef" "k \<noteq> ''event''"
  shows "evidenceEntry v k (js_get v k) = Inr ()"
proof (cases "BASE_EVIDENCE_SCHEMAS p s")
  case None
  with run show ?thesis by (simp add: validateBaseEvidence_def)
next
  case (Some fields)
  obtain opt where o: "validateEvidenceObject v fields opt = Inr ()"
    using run by (auto simp: validateBaseEvidence_def Some ebind_Inr_iff)
  obtain kvs where v: "v = JObj kvs" using k(1) by (cases v) auto
  then have m: "(k, js_get v k) \<in> set kvs" using k(1) by (auto split: option.splits dest: map_of_SomeD)
  have "all_ok (map (\<lambda>kv. if fst kv = ''event'' then validateEvidenceObject (snd kv) DEPOSIT_EVENT_FIELDS []
                            else evidenceEntry (JObj kvs) (fst kv) (snd kv)) kvs) = Inr ()"
    using o by (simp add: v split: sum.splits)
  from all_ok_mem [OF this imageI [OF m, unfolded set_map [symmetric]]] show ?thesis using k(2) v by simp
qed

lemma validated_handle:
  assumes "validateBaseEvidence p s v = Inr ()" "js_truthy (js_get v ''reconcileHandle'')"
  shows "\<exists>n. normalizeReconcileHandle (js_get v ''reconcileHandle'')
               (if js_get v ''caller'' = JUndef then JNull else js_get v ''caller'') = Inr n"
proof -
  have "js_get v ''reconcileHandle'' \<noteq> JUndef" using assms(2) by auto
  then have "evidenceEntry v ''reconcileHandle'' (js_get v ''reconcileHandle'') = Inr ()"
    by (rule validated_entries [OF assms(1)]) simp
  then show ?thesis by (auto simp: evidenceEntry_def ebind_Inr_iff)
qed

text \<open>
  The evidence \<open>b\<close> reads like \<open>a\<close>: every field is the same, and a reconcile handle has the same fields
  (it is copied field by field).
\<close>

definition same_fields :: "jsv \<Rightarrow> jsv \<Rightarrow> bool" where
  "same_fields a b \<longleftrightarrow> (\<forall>k. js_get b k = js_get a k)"

definition same_evidence :: "jsv \<Rightarrow> jsv \<Rightarrow> bool" where
  "same_evidence a b \<longleftrightarrow>
     (\<forall>k. k \<noteq> ''reconcileHandle'' \<longrightarrow> js_get b k = js_get a k)
   \<and> (if js_truthy (js_get a ''reconcileHandle'')
      then same_fields (js_get a ''reconcileHandle'') (js_get b ''reconcileHandle'') else b = a)"

lemma js_get_unlisted: "k \<notin> set (js_keys v) \<Longrightarrow> js_get v k = JUndef"
  by (cases v) (auto split: option.splits dest!: map_of_SomeD intro: rev_image_eqI)

lemma normalized_fields:
  assumes "normalizeReconcileHandle v sender = Inr n"
  shows "same_fields v n"
proof -
  have n: "n = JObj [(''entryPoint'', js_get v ''entryPoint''), (''sender'', js_get v ''sender''),
      (''nonce'', js_get v ''nonce''), (''startBlock'', js_get v ''startBlock'')]"
    and keys: "\<And>k. k \<in> set (js_keys v) \<Longrightarrow> k \<in> set RECONCILE_HANDLE_FIELDS"
    using assms by (auto simp: normalizeReconcileHandle_def canonicalHandleAddress_def list_ex_iff ebind_Inr_iff split: if_splits)
  show ?thesis unfolding same_fields_def
  proof
    fix k
    show "js_get n k = js_get v k"
    proof (cases "k \<in> set RECONCILE_HANDLE_FIELDS")
      case True
      then show ?thesis by (auto simp: n RECONCILE_HANDLE_FIELDS_def)
    next
      case False
      then have "js_get v k = JUndef" using keys by (intro js_get_unlisted) blast
      with False show ?thesis by (simp add: n RECONCILE_HANDLE_FIELDS_def)
    qed
  qed
qed

lemma recovered_evidence:
  assumes "js_truthy (js_get ev ''reconcileHandle'')" "normalizeReconcileHandle (js_get ev ''reconcileHandle'') sender = Inr n"
  shows "same_evidence ev (with_field ev ''reconcileHandle'' n)"
proof -
  obtain kvs where "ev = JObj kvs" using assms(1) by (cases ev) auto
  then have "js_get (with_field ev ''reconcileHandle'' n) k = (if k = ''reconcileHandle'' then n else js_get ev k)" for k
    by (simp add: update_conv')
  with assms(1) normalized_fields [OF assms(2)] show ?thesis by (simp add: same_evidence_def)
qed

lemma recovery_of_head:
  assumes ok: "head_ok db i" and i: "exactIdentity input = Inr i"
  shows "recoveryState db input = Inr None \<and> log_of db i = [] \<or>
    (\<exists>s. recoveryState db input = Inr (Some s) \<and> log_of db i \<noteq> []
       \<and> (rs_phase s, rs_state s) = place (last (log_of db i))
       \<and> rs_recoveryVersion s = le_version (last (log_of db i)) + 1
       \<and> same_evidence (le_evidence (last (log_of db i))) (rs_evidence s))"
proof (cases "map_of (heads db) i")
  case None
  with ok i show ?thesis by (simp add: recoveryState_def head_ok_def)
next
  case h: (Some h)
  show ?thesis
  proof (cases "log_of db i = []")
    case True
    with ok i h show ?thesis by (simp add: recoveryState_def head_ok_def reached_def)
  next
    case False
    define e where "e = last (log_of db i)"
    have l: "latest h = Some (le_phase e, le_state e)"
      using ok h False by (simp add: head_ok_def reached_def e_def place_def)
    have lo: "leg_ok (Leg (next_recovery_version h) (log_of db i))" using ok h by (simp add: head_ok_def leg_of_def)
    then have wf: "well_formed e" using False by (simp add: e_def list_all_iff)
    have v: "next_recovery_version h = le_version e + 1"
    proof -
      have "last (map le_version (log_of db i)) = next_recovery_version h - 1"
        using lo False upto_rec2 [of "next_recovery_version h - int (length (log_of db i))" "next_recovery_version h - 1"]
        by simp
      then show ?thesis using False by (simp add: last_map e_def)
    qed
    have "latest_row (\<lambda>r. True) db i \<noteq> None" using False by (auto simp: latest_row_None log_of_def filter_empty_conv)
    then obtain r where r: "latest_row (\<lambda>r. True) db i = Some r" by auto
    have ev: "evidence_of r = le_evidence e"
      using known_evidence_log [OF ok h] r False by (simp add: known_evidence_def e_def)
    then have "validateBaseEvidence (le_phase e) (le_state e) (evidence_of r) = Inr ()" using wf by (simp add: well_formed_def)
    note n = validated_handle [OF this]
    show ?thesis
    proof (cases "js_truthy (js_get (evidence_of r) ''reconcileHandle'')")
      case True
      obtain hd1 where hd1: "normalizeReconcileHandle (js_get (evidence_of r) ''reconcileHandle'')
             (if js_get (evidence_of r) ''caller'' = JUndef then JNull else js_get (evidence_of r) ''caller'') = Inr hd1"
        using n [OF True] by blast
      have "same_evidence (le_evidence e) (with_field (evidence_of r) ''reconcileHandle'' hd1)"
        using recovered_evidence [OF True hd1] by (simp add: ev)
      with True False i h l v r show ?thesis
        by (simp add: recoveryState_def Let_def hd1 e_def place_def)
    qed (use False i h l v r ev in \<open>simp add: recoveryState_def Let_def e_def place_def same_evidence_def\<close>)
  qed
qed

text \<open>
  A pass of the worker, with other operations between a send and its settlement, is one more
  sequence of operations.
\<close>

lemma settled_or_kept: "settled_or db res = kept db res"
  by (auto simp: settled_or_def kept_def split: sum.split prod.split)

lemma settleRound_is_op:
  "\<exists>op. settleRound m db leased inp = evidence_apply sha m (ri_between inp db) op"
proof (cases "ri_reply inp")
  case Acked
  then show ?thesis by (simp add: settleRound_def Let_def settled_or_kept) (metis evidence_apply.simps(6))
next
  case EvidenceConflict
  then show ?thesis by (simp add: settleRound_def Let_def settled_or_kept) (metis evidence_apply.simps(9))
next
  case Retryable
  then show ?thesis by (simp add: settleRound_def Let_def settled_or_kept) (metis evidence_apply.simps(7))
next
  case Permanent
  then show ?thesis by (simp add: settleRound_def Let_def settled_or_kept) (metis evidence_apply.simps(8))
qed

lemma drainRounds_is_run:
  assumes "\<And>n db. \<exists>ops. ri_between (inp n) db = run_ops (evidence_apply sha m) db ops"
  shows "\<exists>ops. fst (drainRounds m ms b db inp handled sent) = run_ops (evidence_apply sha m) db ops"
proof (induction b arbitrary: db handled sent)
  case 0
  show ?case by (rule exI [of _ "[]"]) simp
next
  case (Suc b)
  let ?lease = "OLease (ri_leaseNow (inp handled)) ms (ri_token (inp handled))"
  obtain db1 res where l: "leaseNext m db (ri_leaseNow (inp handled)) ms (ri_token (inp handled)) = (db1, res)"
    by (cases "leaseNext m db (ri_leaseNow (inp handled)) ms (ri_token (inp handled))")
  show ?case
  proof (cases res)
    case None
    then show ?thesis using l by (intro exI [of _ "[?lease]"]) simp
  next
    case (Some leased)
    obtain ops where ops: "ri_between (inp handled) db1 = run_ops (evidence_apply sha m) db1 ops" using assms by blast
    obtain op where op: "settleRound m db1 leased (inp handled) = evidence_apply sha m (ri_between (inp handled) db1) op"
      using settleRound_is_op by blast
    obtain rest where rest: "fst (drainRounds m ms b (settleRound m db1 leased (inp handled)) inp (handled + 1) (sent @ [report leased]))
        = run_ops (evidence_apply sha m) (settleRound m db1 leased (inp handled)) rest"
      using Suc.IH by blast
    show ?thesis using l Some ops op rest
      by (intro exI [of _ "?lease # ops @ op # rest"]) (simp add: run_ops_append)
  qed
qed

subsection \<open>A leg that is claimed\<close>

text \<open>A seeded leg, and the checkpoint that claims its submission.\<close>

definition demo_id :: jsv where
  "demo_id = JObj [(''networkId'', JStr ''t''), (''bindingId'', JStr ''b''), (''executionId'', JStr ''r:exec:a''),
     (''allocationId'', JStr ''a''), (''childId'', JStr ''c'')]"

definition demo_addr :: "string" where "demo_addr = ''0x'' @ replicate 40 CHR ''1''"

definition demo_submitting :: jsv where
  "demo_submitting = JObj [(''identity'', demo_id), (''phase'', JStr ''base_deposit''), (''status'', JStr ''submitting''),
     (''evidence'', JObj [(''chainId'', JStr ''84532''), (''yieldRouterAddress'', JStr demo_addr), (''caller'', JStr demo_addr),
        (''poolAddress'', JStr demo_addr), (''assets'', JStr ''5''), (''minShares'', JStr ''4'')]), (''observedAt'', JNum 7)]"

definition demo_identity :: evidence_identity where
  "demo_identity = \<lparr>networkId = ''t'', bindingId = ''b'', executionId = ''r:exec:a'', allocationId = ''a'', childId = ''c''\<rparr>"

lemma demo_claims:
  "claims (\<lambda>t. ''h'') demo_identity (evidence_apply (\<lambda>t. ''h'') 5 empty_db (OSeed demo_id 0 None 1)) (OClaim demo_submitting ''t1'' 2)"
  by code_simp
subsection \<open>Properties\<close>

text \<open>
  C8. Across any sequence of operations on the outbox (seeds, reports, claims and owned transitions by
  competing workers and restarts, leases and settlements, any of which may throw), the submission
  of the Base deposit of a leg is claimed at most once.
\<close>

theorem base_submission_claimed_once:
  "count_in_run (evidence_apply sha m) (claims sha i) empty_db ops \<le> 1"
  by (rule claim_machine.crossed_at_most_once) simp

text \<open>
  C15. The outbox refines the abstract leg: whatever operations are run, each identity's head and rows
  move by seeding the leg once or by appending a checkpoint that follows its last one along the edges
  of the leg (\<open>edge\<close>, written independently of the code's transition table), so at every
  moment the versions are consecutive, no phase and state is recorded twice, and the head names the
  last checkpoint.
\<close>

theorem outbox_refines_leg:
  "leg_step\<^sup>*\<^sup>* Unseeded (leg_of (run_ops (evidence_apply sha m) empty_db ops) i)
   \<and> head_ok (run_ops (evidence_apply sha m) empty_db ops) i"
proof -
  have "evidence_ok (run_ops (evidence_apply sha m) empty_db ops)" by (rule leg_machine.run_inv) simp
  moreover have "leg_step\<^sup>*\<^sup>* (leg_of empty_db i) (leg_of (run_ops (evidence_apply sha m) empty_db ops) i)"
    by (rule leg_machine.run_refines) simp
  ultimately show ?thesis by (simp add: evidence_ok_def)
qed

text \<open>
  C16. In every reachable outbox the checkpoints of a leg's Base deposit carry one reconcile handle
  (all the same text, or none), and at most one of them is an outcome (confirmed, failed or
  blocked), which is then the last row of the leg.
\<close>

theorem one_handle_one_outcome:
  "length (base_handles (run_ops (evidence_apply sha m) empty_db ops) i) \<le> 1
   \<and> outcomes (run_ops (evidence_apply sha m) empty_db ops) i
       \<in> {[], [last (filter (\<lambda>r. ev_identity r = i) (events (run_ops (evidence_apply sha m) empty_db ops)))]}"
proof (rule leg_outcomes)
  have "evidence_ok (run_ops (evidence_apply sha m) empty_db ops)" by (rule leg_machine.run_inv) simp
  then show "head_ok (run_ops (evidence_apply sha m) empty_db ops) i" by (simp add: evidence_ok_def)
qed

text \<open>
  C30. In every reachable outbox no report was ever leased for delivery while an earlier report of its
  leg was undelivered, and none was leased more often than the attempt limit.
\<close>

theorem reports_sent_in_order:
  "premature (events (run_ops (evidence_apply sha m) empty_db ops)) = []
   \<and> list_all (\<lambda>r. attempts r \<le> m) (events (run_ops (evidence_apply sha m) empty_db ops))"
proof -
  have "rows_ok m (run_ops (evidence_apply sha m) empty_db ops)"
    using delivery_machine.run_inv [of m empty_db sha ops] by simp
  then show ?thesis by (simp add: rows_ok_def)
qed

text \<open>
  C32. On every reachable outbox \<open>recoveryState\<close> fails only on an identity it cannot read: a head with a
  checkpoint always has its row, and the stored reconcile handle always normalises. What it
  returns is the phase, state and evidence of the last checkpoint (field by field, a reconcile
  handle included) and the version after it, and nothing exactly when there is no checkpoint.
\<close>

theorem recovery_state_total:
  "isl (recoveryState (run_ops (evidence_apply sha m) empty_db ops) input) = isl (exactIdentity input)
   \<and> (case (exactIdentity input, recoveryState (run_ops (evidence_apply sha m) empty_db ops) input) of
        (Inr i, Inr (Some s)) \<Rightarrow>
          log_of (run_ops (evidence_apply sha m) empty_db ops) i \<noteq> []
        \<and> (rs_phase s, rs_state s) = place (last (log_of (run_ops (evidence_apply sha m) empty_db ops) i))
        \<and> same_evidence (le_evidence (last (log_of (run_ops (evidence_apply sha m) empty_db ops) i))) (rs_evidence s)
        \<and> rs_recoveryVersion s = le_version (last (log_of (run_ops (evidence_apply sha m) empty_db ops) i)) + 1
      | (Inr i, Inr None) \<Rightarrow> log_of (run_ops (evidence_apply sha m) empty_db ops) i = []
      | _ \<Rightarrow> True)"
proof (cases "exactIdentity input")
  case (Inr i)
  have "evidence_ok (run_ops (evidence_apply sha m) empty_db ops)" by (rule leg_machine.run_inv) simp
  then have "head_ok (run_ops (evidence_apply sha m) empty_db ops) i" by (simp add: evidence_ok_def)
  from recovery_of_head [OF this Inr] show ?thesis by (auto simp: Inr)
qed (simp add: recoveryState_def)

end
