(* ===== verification/Spec2Isabelle.thy ===== *)
theory Spec2Isabelle
  imports RelayCanonical ExpectationDigest WatcherSweep WorkQueue JournalSafety Keeper OutboxSafety FlowState PlanModel RateLimit UnwindDemo SettledPool ResumeOutcome
    BaseOutboxSafety
begin

text \<open>
  \<^bold>\<open>Vibing Farmer: the parts that move money\<close>

  Vibing Farmer deposits a user's USDC into yield venues on Stellar and, over Circle's CCTP, on
  Base. The browser plans a run, asks for permissions and burns; a relayer watches the burn, gets
  Circle's attestation and mints on the other chain; a keeper rebalances and evacuates. Every
  irreversible action (a burn, a user operation, a mint, an exit) is fenced by a durable record
  that is written first. This development models those records, the decisions taken on them and
  the programs that drive them, and proves that the fences hold under retries, crashes, several
  processes and several tabs.

  \<^bold>\<open>How the code is modelled.\<close> Values that cross a trust boundary are \<open>jsv\<close> (\<open>Prelude\<close>): an
  untyped JavaScript value with \<open>js_get\<close>, \<open>js_truthy\<close> and the other reads the sources perform.
  Stored rows are records with the source's fields. Integers are \<open>int\<close> with
  \<open>Number.isSafeInteger\<close> written out (\<open>safe_int\<close>), amounts are unbounded as \<open>BigInt\<close> is. A throw
  is \<open>Inl\<close> of the component's error datatype. Asynchronous functions are cut at their awaits; what
  runs between two awaits is one function, and any interleaving of such stretches is a list of
  operations. Clocks, random tokens, digests, storage devices and the answers of services are
  arguments.

  \<^bold>\<open>The relayer.\<close>
  \<^item> \<open>Expectation\<close>, \<open>ExpectationDigest\<close>, \<open>RelayRecord\<close>, \<open>RelayStore\<close>, \<open>RelayQueries\<close>: \<open>relayer/src/store.mjs\<close>,
    the durable record of one CCTP mint, its validation, its pure transitions and the store over
    them. \<open>RelayMachine\<close> is the abstract machine the source documents and the refinement;
    \<open>RelaySafety\<close> holds the fence, lease and terminal properties; \<open>RowProperty\<close> is the interface that
    carries a property of transitions to all rows; \<open>RelayCanonical\<close> shows that every row the store
    writes passes its own validation on reading, and that an open of anything else fails closed.
  \<^item> \<open>CctpMessage\<close>: \<open>relayer/src/cctp/messageV2.mjs\<close>, parser and matcher of burn messages; \<open>Iris\<close>:
    \<open>relayer/src/cctp/iris.mjs\<close>, the polling of attestations.
  \<^item> \<open>Watcher\<close>, \<open>WatcherSystem\<close>, \<open>WatcherLive\<close>, \<open>WatcherSweep\<close>: \<open>relayer/src/cctp/watcher.mjs\<close>, the
    program that drives a record to its mint; any number of processes over the same rows send at
    most once, only with matching evidence, and report only what is stored.
  \<^item> \<open>UnwindRow\<close>, \<open>UnwindStore\<close>, \<open>UnwindSafety\<close>, \<open>UnwindOutcome\<close>, \<open>UnwindDemo\<close>: \<open>relayer/src/unwindStore.mjs\<close>,
    the reverse direction: reservation, receipt candidate, proof and the relay record a job
    follows, with the CHECKs and triggers of its table; the composition with the relay store is
    in its runs, which interleave the operations of both.
  \<^item> \<open>AssociationOutbox\<close>, \<open>OutboxSafety\<close>: \<open>relayer/src/associationOutbox.mjs\<close>; \<open>WorkQueue\<close>:
    \<open>relayer/src/workQueue.mjs\<close>. \<open>CanonicalJson\<close> holds the canonical texts and the allow-list check both
    outboxes use.
  \<^item> \<open>BaseEvidence\<close>, \<open>BaseOutbox\<close>, \<open>BaseLeg\<close>, \<open>BaseOutboxSafety\<close>: \<open>relayer/src/baseEvidenceValidation.mjs\<close> and
    \<open>relayer/src/baseEvidenceOutbox.mjs\<close>, the checkpoints of a leg on Base, their schemas, the claim of
    its one submission and their delivery. \<open>BaseLeg\<close> has the abstract leg and the refinement.

  \<^bold>\<open>The browser.\<close>
  \<^item> \<open>TransferJournal\<close>, \<open>JournalSafety\<close>: \<open>frontend/src/cctp/transferJournal.js\<close>, the journal in front of
    burns and user operations; \<open>ResumeTransfers\<close>, \<open>ResumeSafety\<close>, \<open>ResumeOutcome\<close>:
    \<open>frontend/src/cctp/resumeTransfers.js\<close>, which takes pending records up again after a reload, as a
    client of the journal beside other tabs; \<open>SettledPool\<close>: \<open>frontend/src/async/mapSettledWithConcurrency.js\<close>.
  \<^item> \<open>FlowState\<close>: \<open>frontend/src/strategy/flowState.js\<close>, the reducer of a run; \<open>AssetUnits\<close>, \<open>PlanModel\<close>:
    \<open>money/assetUnits.js\<close>, \<open>strategy/amountValidation.js\<close> and \<open>strategy/planModel.js\<close>, exact amounts
    and plans; \<open>VenueTruth\<close>: \<open>strategy/venueTruth.js\<close>.
  \<^item> \<open>RateLimit\<close>: \<open>frontend/api/durableRateLimit.js\<close>.

  \<^bold>\<open>The keeper.\<close> \<open>Keeper\<close>: \<open>keeper/src/decide.js\<close>, \<open>lifeboat.js\<close>, \<open>radar.js\<close> and \<open>apr.js\<close>.

  \<^bold>\<open>Shared interfaces.\<close> \<open>Machines\<close> has the locales of the safety arguments: \<open>invariant_machine\<close>,
  \<open>fenced_machine\<close> (a fence crossed at most once), \<open>reset_machine\<close> (at most once per reset),
  \<open>absorbing_machine\<close> (final observations stay) and
  \<open>refining_machine\<close> (a view that moves by the steps of an abstract machine). They are interpreted on
  the relay store, the transfer journal, the resumes beside other tabs, the outboxes and the other
  stores, each in the theory of that component. \<open>Samples\<close> and the demo sections hold the concrete
  values the witnesses evaluate.

  \<^bold>\<open>What the theorems show.\<close> Safety: a record's submit fence is crossed once, sends need matching
  evidence, a Base submission is claimed once, reports leave in order, terminal records and written
  authority never change, leases exclude. Refinement: the store implements the documented machine,
  the Base outbox the abstract leg, an attached unwind job has the outcome of its relay record.
  Functional and round-trip results: parser, matcher, amounts, plans and listings. Bounds: queue, pool, rate limiter, rebalancing. Errors: which errors a consistent database can raise,
  and that start-up recovery raises none.
  Liveness and termination: an undisturbed relay mints, a confirmed burn settles, the pool ends.
  The results on the unwind store and on canonical rows assume the discipline callers owe the relay
  store (\<open>disciplined\<close> in \<open>RelayCanonical\<close>); those on the journal assume a storage that keeps what it
  stored and request ids that are strings. No property assumes anything of SHA-256: a digest result
  exhibits a collision instead.

  \<^bold>\<open>Bounds and fuel.\<close> Loops are structural or have a measure. \<open>runPool\<close> takes fuel; as many
  settlements as there are items are enough, for every schedule (\<open>pool_settles_all\<close>). The Iris poll
  takes its number of attempts from the source.

  \<^bold>\<open>Not modelled.\<close> Code that is I/O around third-party SDKs (Stellar SDK, viem, ZeroDev, SQLite,
  WebAuthn), the HTTP layers, the agent index service, prompts to language models, the React
  interface, the Soroban and Solidity contracts (other languages) and floating-point display
  values: what they compute is not determined by the sources here, or does not decide an
  irreversible action. In modelled files: the file I/O of \<open>store.mjs\<close>, the schema inspection at
  start-up of \<open>unwindStore.mjs\<close>, \<open>divergenceBps\<close> of the radar and \<open>buildStrategyViewModel\<close> of the plan
  model (floating point), the race of the pool with an abort event, timers and log texts. A plain
  object read by a key is a map of its own keys: names inherited from \<open>Object.prototype\<close> are modelled
  only where \<open>Expectation\<close> says so. Integers read from SQLite are unbounded, where the driver refuses
  those above 2 to the 53.
\<close>

end
